(* ===== verification/Prelude.thy ===== *)
theory Prelude
  imports Main "HOL-Library.Word" "HOL-Library.Char_ord" "HOL-Library.List_Lexorder"
begin

text \<open>
  Shared vocabulary of the development: bytes and strings, results, the ASCII and decimal
  helpers of the Rust standard library that the program uses, and the generic list lemmas the
  component theories share.

  Rust \<open>Vec<u8>\<close> and \<open>String\<close> are both modelled by HOL's \<open>string\<close> (a list of
  \<open>char\<close>, and a HOL \<open>char\<close> is exactly one byte): a \<open>String\<close> is its UTF-8 byte sequence,
  so \<open>length\<close> is Rust's \<open>len()\<close>. The \<open>named_theorems\<close> collections below gather the
  facts that component proofs use as simplification sets.
\<close>

section \<open>Collections\<close>

named_theorems result_simps \<open>elimination of results: what a successful bind implies\<close>
named_theorems encode_simps \<open>equations of the wire encoder\<close>
named_theorems config_inv \<open>preservation of configuration invariants\<close>

section \<open>Types\<close>

type_synonym bytes = string
type_synonym u8 = "8 word"
type_synonym u16 = "16 word"
type_synonym i32 = "32 word"
type_synonym i64 = "64 word"
type_synonym u64 = "64 word"

section \<open>Results\<close>

text \<open>
  \<open>Result<T, E>\<close> is \<open>'e + 'a\<close>; the \<open>?\<close> operator is \<^term>\<open>and_then\<close>.
\<close>

definition and_then :: "'e + 'a \<Rightarrow> ('a \<Rightarrow> 'e + 'b) \<Rightarrow> 'e + 'b" where
  "and_then r f = (case r of Inl e \<Rightarrow> Inl e | Inr a \<Rightarrow> f a)"

definition map_ok :: "('a \<Rightarrow> 'b) \<Rightarrow> 'e + 'a \<Rightarrow> 'e + 'b" where
  "map_ok f r = (case r of Inl e \<Rightarrow> Inl e | Inr a \<Rightarrow> Inr (f a))"

definition map_err :: "('e \<Rightarrow> 'f) \<Rightarrow> 'e + 'a \<Rightarrow> 'f + 'a" where
  "map_err f r = (case r of Inl e \<Rightarrow> Inl (f e) | Inr a \<Rightarrow> Inr a)"

definition ok_or :: "'e \<Rightarrow> 'a option \<Rightarrow> 'e + 'a" where
  "ok_or e x = (case x of None \<Rightarrow> Inl e | Some a \<Rightarrow> Inr a)"

fun ok :: "'e + 'a \<Rightarrow> 'a option" where
  "ok (Inl e) = None"
| "ok (Inr a) = Some a"

lemma and_then_simps [simp]:
  "and_then (Inl e) f = Inl e"
  "and_then (Inr a) f = f a"
  by (simp_all add: and_then_def)

lemma map_ok_simps [simp]:
  "map_ok g (Inl e) = Inl e"
  "map_ok g (Inr a) = Inr (g a)"
  by (simp_all add: map_ok_def)

lemma map_err_simps [simp]:
  "map_err g (Inl e) = Inl (g e)"
  "map_err g (Inr a) = Inr a"
  by (simp_all add: map_err_def)

lemma ok_or_simps [simp]:
  "ok_or e None = Inl e"
  "ok_or e (Some a) = Inr a"
  by (simp_all add: ok_or_def)

lemma and_then_Inr [result_simps]:
  "and_then r f = Inr b \<longleftrightarrow> (\<exists>a. r = Inr a \<and> f a = Inr b)"
  by (cases r) auto

lemma map_ok_Inr [result_simps]: "map_ok f r = Inr b \<longleftrightarrow> (\<exists>a. r = Inr a \<and> b = f a)"
  by (cases r) auto

lemma map_err_Inr [result_simps]: "map_err f r = Inr b \<longleftrightarrow> r = Inr b"
  by (cases r) auto

lemma ok_or_Inr [result_simps]: "ok_or e x = Inr b \<longleftrightarrow> x = Some b"
  by (cases x) auto

lemma ok_Some [result_simps]: "ok r = Some a \<longleftrightarrow> r = Inr a"
  by (cases r) auto

text \<open>A chain of keyword tests that succeeded did so in one of its branches.\<close>

lemma if_InrE:
  assumes "(if b then x else y) = Inr z"
  obtains "x = Inr z" | "y = Inr z"
  using assms by (cases b) auto

lemma and_then_cong [fundef_cong]:
  assumes "r = r'" and "\<And>a. r' = Inr a \<Longrightarrow> f a = g a"
  shows "and_then r f = and_then r' g"
  using assms by (cases r') auto

text \<open>\<open>iter.map(f).collect::<Result<Vec<_>, _>>()\<close>: the first error wins.\<close>

primrec collect_results :: "('a \<Rightarrow> 'e + 'b) \<Rightarrow> 'a list \<Rightarrow> 'e + 'b list" where
  "collect_results f [] = Inr []"
| "collect_results f (x # xs) =
     and_then (f x) (\<lambda>y. map_ok ((#) y) (collect_results f xs))"

lemma collect_results_Inr:
  "collect_results f xs = Inr ys \<longleftrightarrow> list_all2 (\<lambda>x y. f x = Inr y) xs ys"
  by (induction xs arbitrary: ys) (auto simp: result_simps list_all2_Cons1)

lemma length_collect_results: "collect_results f xs = Inr ys \<Longrightarrow> length ys = length xs"
  by (auto simp: collect_results_Inr dest: list_all2_lengthD)

text \<open>\<open>iter.map(f).collect::<Option<Vec<_>>>()\<close>: one \<open>None\<close> makes the whole \<open>None\<close>.\<close>

primrec collect_options :: "('a \<Rightarrow> 'b option) \<Rightarrow> 'a list \<Rightarrow> 'b list option" where
  "collect_options f [] = Some []"
| "collect_options f (x # xs) =
     (case f x of None \<Rightarrow> None | Some y \<Rightarrow> map_option ((#) y) (collect_options f xs))"

lemma collect_options_Some:
  "collect_options f xs = Some ys \<longleftrightarrow> list_all2 (\<lambda>x y. f x = Some y) xs ys"
  by (induction xs arbitrary: ys) (auto simp: list_all2_Cons1 split: option.splits)

lemma collect_options_None: "collect_options f xs = None \<longleftrightarrow> (\<exists>x\<in>set xs. f x = None)"
  by (induction xs) (auto split: option.splits)

section \<open>ASCII\<close>

definition byte :: "char \<Rightarrow> nat" where
  "byte c = of_char c"

lemma byte_less: "byte c < 256"
  by (simp add: byte_def)

definition is_ascii_digit :: "char \<Rightarrow> bool" where
  "is_ascii_digit c \<longleftrightarrow> 48 \<le> byte c \<and> byte c \<le> 57"

definition is_ascii_lowercase :: "char \<Rightarrow> bool" where
  "is_ascii_lowercase c \<longleftrightarrow> 97 \<le> byte c \<and> byte c \<le> 122"

definition is_ascii_uppercase :: "char \<Rightarrow> bool" where
  "is_ascii_uppercase c \<longleftrightarrow> 65 \<le> byte c \<and> byte c \<le> 90"

definition is_ascii_alphanumeric :: "char \<Rightarrow> bool" where
  "is_ascii_alphanumeric c \<longleftrightarrow> is_ascii_digit c \<or> is_ascii_lowercase c \<or> is_ascii_uppercase c"

text \<open>\<open>u8::is_ascii_whitespace\<close>: space, tab, line feed, form feed, carriage return.\<close>

definition is_ascii_whitespace :: "char \<Rightarrow> bool" where
  "is_ascii_whitespace c \<longleftrightarrow>
     c = CHR 0x20 \<or> c = CHR 0x09 \<or> c = CHR 0x0A \<or> c = CHR 0x0C \<or> c = CHR 0x0D"

text \<open>ASCII case conversion clears or sets bit 5 of a letter and leaves every other byte.\<close>

definition set_bit5 :: "bool \<Rightarrow> char \<Rightarrow> char" where
  "set_bit5 b c =
     Char (digit0 c) (digit1 c) (digit2 c) (digit3 c) (digit4 c) b (digit6 c) (digit7 c)"

definition to_upper :: "char \<Rightarrow> char" where
  "to_upper c = (if is_ascii_lowercase c then set_bit5 False c else c)"

definition to_lower :: "char \<Rightarrow> char" where
  "to_lower c = (if is_ascii_uppercase c then set_bit5 True c else c)"

definition to_ascii_uppercase :: "string \<Rightarrow> string" where
  "to_ascii_uppercase s = map to_upper s"

definition to_ascii_lowercase :: "string \<Rightarrow> string" where
  "to_ascii_lowercase s = map to_lower s"

definition eq_ignore_ascii_case :: "string \<Rightarrow> string \<Rightarrow> bool" where
  "eq_ignore_ascii_case a b \<longleftrightarrow> to_ascii_lowercase a = to_ascii_lowercase b"

lemmas ascii_defs = byte_def is_ascii_digit_def is_ascii_lowercase_def is_ascii_uppercase_def
  is_ascii_alphanumeric_def is_ascii_whitespace_def set_bit5_def to_upper_def to_lower_def
  to_ascii_uppercase_def to_ascii_lowercase_def eq_ignore_ascii_case_def

text \<open>The two case conversions undo each other on letters.\<close>

lemma set_bit5_simps [simp]:
  "set_bit5 b (set_bit5 d c) = set_bit5 b c" "digit5 (set_bit5 b c) = b"
  "digit5 c = b \<Longrightarrow> set_bit5 b c = c"
  by (cases c; simp add: set_bit5_def)+

lemma digit5_byte: "digit5 c \<longleftrightarrow> odd (byte c div 32)"
proof -
  have "digit5 (char_of n) \<longleftrightarrow> bit n 5" for n :: nat by (simp add: char_of_def)
  from this [of "of_char c"] have "digit5 c \<longleftrightarrow> bit (of_char c :: nat) 5" by simp
  then show ?thesis by (simp add: bit_iff_odd byte_def)
qed

lemma byte_set_bit5: "byte (set_bit5 b c) + 32 * of_bool (digit5 c) = byte c + 32 * of_bool b"
  by (cases c) (simp add: set_bit5_def byte_def of_char_Char)

lemma letter_bit5:
  "is_ascii_lowercase c \<Longrightarrow> digit5 c" "is_ascii_uppercase c \<Longrightarrow> \<not> digit5 c"
proof -
  show "is_ascii_lowercase c \<Longrightarrow> digit5 c"
  proof -
    assume "is_ascii_lowercase c"
    then have "byte c div 32 = 3" by (simp add: is_ascii_lowercase_def div_nat_eqI)
    then show ?thesis by (simp add: digit5_byte)
  qed
  assume "is_ascii_uppercase c"
  then have "byte c div 32 = 2" by (simp add: is_ascii_uppercase_def div_nat_eqI)
  then show "\<not> digit5 c" by (simp add: digit5_byte)
qed

lemma set_bit5_letter:
  "is_ascii_uppercase c \<Longrightarrow> is_ascii_lowercase (set_bit5 True c)"
  "is_ascii_lowercase c \<Longrightarrow> is_ascii_uppercase (set_bit5 False c)"
  using byte_set_bit5 [of True c] byte_set_bit5 [of False c] letter_bit5 [of c]
  by (auto simp: is_ascii_lowercase_def is_ascii_uppercase_def)

lemma letter_disjoint: "is_ascii_uppercase c \<Longrightarrow> \<not> is_ascii_lowercase c"
  by (simp add: is_ascii_lowercase_def is_ascii_uppercase_def)

lemma to_upper_lower [simp]: "to_upper (to_lower c) = to_upper c" "to_lower (to_upper c) = to_lower c"
  using set_bit5_letter [of c] letter_disjoint [of c] letter_bit5 [of c]
  by (auto simp: to_upper_def to_lower_def)

lemma eq_ignore_ascii_case_upper:
  "eq_ignore_ascii_case a b \<longleftrightarrow> to_ascii_uppercase a = to_ascii_uppercase b"
proof -
  have "to_ascii_uppercase (to_ascii_lowercase s) = to_ascii_uppercase s"
    and "to_ascii_lowercase (to_ascii_uppercase s) = to_ascii_lowercase s" for s
    by (simp_all add: to_ascii_uppercase_def to_ascii_lowercase_def)
  then show ?thesis unfolding eq_ignore_ascii_case_def by metis
qed

lemma length_to_ascii_uppercase [simp]: "length (to_ascii_uppercase s) = length s"
  by (simp add: to_ascii_uppercase_def)

lemma eq_ignore_ascii_case_refl [simp]: "eq_ignore_ascii_case s s"
  by (simp add: eq_ignore_ascii_case_def)

lemma eq_ignore_ascii_case_sym: "eq_ignore_ascii_case a b \<longleftrightarrow> eq_ignore_ascii_case b a"
  by (auto simp: eq_ignore_ascii_case_def)

section \<open>Decimal numbers\<close>

definition digit_char :: "nat \<Rightarrow> char" where
  "digit_char d = ''0123456789'' ! d"

definition to_digit :: "char \<Rightarrow> nat option" where
  "to_digit c = (if is_ascii_digit c then Some (byte c - 48) else None)"

text \<open>\<open>to_string\<close> of an unsigned and of a signed integer.\<close>

fun show_nat :: "nat \<Rightarrow> string" where
  "show_nat n = (if n < 10 then [digit_char n]
     else show_nat (n div 10) @ [digit_char (n mod 10)])"

declare show_nat.simps [simp del]

definition show_int :: "int \<Rightarrow> string" where
  "show_int i = (if i < 0 then ''-'' @ show_nat (nat (- i)) else show_nat (nat i))"

text \<open>
  \<open>FromStr\<close> of the integer types (\<open>core::num::from_str_radix\<close> with radix 10): an optional
  \<open>+\<close>, an optional \<open>-\<close> for signed types only, then at least one digit. Digits are read left
  to right and the first problem is reported, so \<open>InvalidDigit\<close> and the overflow errors come
  in the order the library reports them.
\<close>

datatype int_error = IntEmpty | InvalidDigit | PosOverflow | NegOverflow

fun int_digits :: "bool \<Rightarrow> int \<Rightarrow> int \<Rightarrow> int \<Rightarrow> string \<Rightarrow> int_error + int" where
  "int_digits pos lo hi acc [] = Inr acc"
| "int_digits pos lo hi acc (c # cs) =
     (case to_digit c of
        None \<Rightarrow> Inl InvalidDigit
      | Some d \<Rightarrow>
          (let acc' = (if pos then acc * 10 + int d else acc * 10 - int d)
           in if acc' > hi then Inl PosOverflow
              else if acc' < lo then Inl NegOverflow
              else int_digits pos lo hi acc' cs))"

definition parse_int :: "bool \<Rightarrow> int \<Rightarrow> int \<Rightarrow> string \<Rightarrow> int_error + int" where
  "parse_int is_signed lo hi s =
     (case s of
        [] \<Rightarrow> Inl IntEmpty
      | c # cs \<Rightarrow>
          if (c = CHR ''+'' \<or> c = CHR ''-'') \<and> cs = [] then Inl InvalidDigit
          else if c = CHR ''+'' then int_digits True lo hi 0 cs
          else if c = CHR ''-'' \<and> is_signed then int_digits False lo hi 0 cs
          else int_digits True lo hi 0 s)"

definition parse_i64 :: "string \<Rightarrow> int_error + i64" where
  "parse_i64 s = map_ok word_of_int (parse_int True (- (2 ^ 63)) (2 ^ 63 - 1) s)"

definition parse_i32 :: "string \<Rightarrow> int_error + i32" where
  "parse_i32 s = map_ok word_of_int (parse_int True (- (2 ^ 31)) (2 ^ 31 - 1) s)"

definition parse_u64 :: "string \<Rightarrow> int_error + u64" where
  "parse_u64 s = map_ok word_of_int (parse_int False 0 (2 ^ 64 - 1) s)"

definition parse_usize :: "string \<Rightarrow> int_error + nat" where
  "parse_usize s = map_ok nat (parse_int False 0 (2 ^ 64 - 1) s)"

definition parse_u16 :: "string \<Rightarrow> int_error + nat" where
  "parse_u16 s = map_ok nat (parse_int False 0 (2 ^ 16 - 1) s)"

definition show_int_error :: "int_error \<Rightarrow> string" where
  "show_int_error e = (case e of
       IntEmpty \<Rightarrow> ''cannot parse integer from empty string''
     | InvalidDigit \<Rightarrow> ''invalid digit found in string''
     | PosOverflow \<Rightarrow> ''number too large to fit in target type''
     | NegOverflow \<Rightarrow> ''number too small to fit in target type'')"

text \<open>Printing and parsing decimals are inverse to each other.\<close>

lemma digit_char_cases:
  assumes "d < 10" shows "is_ascii_digit (digit_char d)" "byte (digit_char d) = 48 + d"
proof -
  have "d \<in> {0, 1, 2, 3, 4, 5, 6, 7, 8, 9}" using assms by auto
  then show "is_ascii_digit (digit_char d)" "byte (digit_char d) = 48 + d"
    by (auto simp: digit_char_def ascii_defs)
qed

lemma to_digit_digit_char [simp]: "d < 10 \<Longrightarrow> to_digit (digit_char d) = Some d"
  by (simp add: to_digit_def digit_char_cases)

lemma show_nat_nonempty [simp]: "show_nat n \<noteq> []"
  by (subst show_nat.simps) simp

lemma show_nat_digits: "\<forall>c\<in>set (show_nat n). is_ascii_digit c"
proof (induction n rule: show_nat.induct)
  case (1 n)
  then show ?case
    by (subst show_nat.simps) (auto simp: digit_char_cases)
qed

lemma int_digits_append:
  "int_digits pos lo hi acc (xs @ ys) =
     and_then (int_digits pos lo hi acc xs) (\<lambda>a. int_digits pos lo hi a ys)"
  by (induction xs arbitrary: acc) (auto split: option.splits simp: Let_def)

lemma int_digits_show_pos:
  assumes "int n \<le> hi" and "lo \<le> 0"
  shows "int_digits True lo hi 0 (show_nat n) = Inr (int n)"
  using assms
proof (induction n rule: show_nat.induct)
  case (1 n)
  show ?case
  proof (cases "n < 10")
    case True
    with "1.prems" show ?thesis by (subst show_nat.simps) simp
  next
    case False
    have split: "int n = int (n div 10) * 10 + int (n mod 10)" by presburger
    then have "int_digits True lo hi 0 (show_nat (n div 10)) = Inr (int (n div 10))"
      using "1.IH" False "1.prems" by simp
    with False split "1.prems" show ?thesis
      by (subst show_nat.simps) (simp add: int_digits_append Let_def)
  qed
qed

lemma int_digits_show_neg:
  assumes "lo \<le> - int n" and "0 \<le> hi"
  shows "int_digits False lo hi 0 (show_nat n) = Inr (- int n)"
  using assms
proof (induction n rule: show_nat.induct)
  case (1 n)
  show ?case
  proof (cases "n < 10")
    case True
    with "1.prems" show ?thesis by (subst show_nat.simps) simp
  next
    case False
    have split: "int n = int (n div 10) * 10 + int (n mod 10)" by presburger
    then have "int_digits False lo hi 0 (show_nat (n div 10)) = Inr (- int (n div 10))"
      using "1.IH" False "1.prems" by simp
    with False split "1.prems" show ?thesis
      by (subst show_nat.simps) (simp add: int_digits_append Let_def)
  qed
qed

lemma digit_not_sign: "is_ascii_digit c \<Longrightarrow> c \<noteq> CHR ''+'' \<and> c \<noteq> CHR ''-''"
  by (auto simp: ascii_defs)

lemma parse_int_show_nat:
  assumes "int n \<le> hi" and "lo \<le> 0"
  shows "parse_int sg lo hi (show_nat n) = Inr (int n)"
proof (cases "show_nat n")
  case (Cons c cs)
  then have "is_ascii_digit c" using show_nat_digits [of n] by simp
  then show ?thesis
    using int_digits_show_pos [OF assms] Cons digit_not_sign [of c] by (simp add: parse_int_def)
qed simp

lemma parse_int_show_int:
  assumes "lo \<le> i" and "i \<le> hi" and "lo \<le> 0" and "0 \<le> hi"
  shows "parse_int True lo hi (show_int i) = Inr i"
proof (cases "i < 0")
  case True
  then show ?thesis
    using assms int_digits_show_neg [of lo "nat (- i)" hi] by (simp add: parse_int_def show_int_def)
next
  case False
  then show ?thesis using assms by (simp add: show_int_def parse_int_show_nat)
qed

lemma parse_i64_show [simp]: "parse_i64 (show_int (sint (w :: i64))) = Inr w"
proof -
  have "- (2 ^ 63) \<le> sint w" "sint w \<le> 2 ^ 63 - 1"
    using sint_ge [of w] sint_lt [of w] by simp_all
  then show ?thesis unfolding parse_i64_def by (subst parse_int_show_int) simp_all
qed

lemma parse_usize_show [simp]: "n < 2 ^ 64 \<Longrightarrow> parse_usize (show_nat n) = Inr n"
  by (simp add: parse_usize_def parse_int_show_nat)

lemma parse_i64_show_nat: "n < 2 ^ 63 \<Longrightarrow> parse_i64 (show_nat n) = Inr (word_of_int (int n))"
  by (simp add: parse_i64_def parse_int_show_nat)

end
