(* ===== verification/Text.thy ===== *)
theory Text
  imports Prelude
begin

text \<open>
  The operations of Rust's \<open>str\<close> and slice types that the program uses: UTF-8 validation
  (\<open>str::from_utf8\<close>, \<open>String::from_utf8_lossy\<close>), splitting, joining and
  \<open>as_chunks::<2>\<close>. Strings are UTF-8 byte sequences (see Prelude).
\<close>

section \<open>UTF-8\<close>

text \<open>Reading past the end gives 0, as the library's \<open>safe_get\<close> does.\<close>

definition byte_at :: "bytes \<Rightarrow> nat \<Rightarrow> nat" where
  "byte_at s i = (if i < length s then byte (s ! i) else 0)"

definition is_cont :: "nat \<Rightarrow> bool" where
  "is_cont b \<longleftrightarrow> 128 \<le> b \<and> b \<le> 191"

definition utf8_width :: "nat \<Rightarrow> nat" where
  "utf8_width b = (if b < 128 then 1 else if 194 \<le> b \<and> b \<le> 223 then 2
     else if 224 \<le> b \<and> b \<le> 239 then 3 else if 240 \<le> b \<and> b \<le> 244 then 4 else 0)"

definition second_ok :: "nat \<Rightarrow> nat \<Rightarrow> bool" where
  "second_ok b c \<longleftrightarrow>
     (if b = 224 then 160 \<le> c \<and> c \<le> 191
      else if b = 237 then 128 \<le> c \<and> c \<le> 159
      else if b = 240 then 144 \<le> c \<and> c \<le> 191
      else if b = 244 then 128 \<le> c \<and> c \<le> 143
      else is_cont c)"

text \<open>
  One step of the validator on a non-empty input: how many bytes it consumes, and whether they
  form a character; when they do not, they are the maximal invalid sequence that the lossy
  decoder replaces.
\<close>

definition utf8_class :: "nat \<Rightarrow> nat \<Rightarrow> nat \<Rightarrow> nat \<Rightarrow> nat \<times> bool" where
  "utf8_class b c d e =
     (if utf8_width b = 1 then (1, True)
      else if utf8_width b = 0 then (1, False)
      else if \<not> second_ok b c then (1, False)
      else if utf8_width b = 2 then (2, True)
      else if \<not> is_cont d then (2, False)
      else if utf8_width b = 3 then (3, True)
      else if \<not> is_cont e then (3, False)
      else (4, True))"

definition utf8_step :: "bytes \<Rightarrow> nat \<times> bool" where
  "utf8_step s = utf8_class (byte_at s 0) (byte_at s 1) (byte_at s 2) (byte_at s 3)"

record utf8_error =
  valid_up_to :: nat
  error_len :: "nat option"

fun utf8_check :: "nat \<Rightarrow> bytes \<Rightarrow> utf8_error option" where
  "utf8_check pos [] = None"
| "utf8_check pos (c # cs) =
     (let n = fst (utf8_step (c # cs)) in
      if snd (utf8_step (c # cs)) then utf8_check (pos + n) (drop (n - 1) cs)
      else Some \<lparr>valid_up_to = pos,
                 error_len = (if n = Suc (length cs) \<and> utf8_width (byte c) \<ge> 2 then None
                              else Some n)\<rparr>)"

definition from_utf8 :: "bytes \<Rightarrow> utf8_error + string" where
  "from_utf8 s = (case utf8_check 0 s of None \<Rightarrow> Inr s | Some e \<Rightarrow> Inl e)"

definition is_utf8 :: "bytes \<Rightarrow> bool" where
  "is_utf8 s \<longleftrightarrow> utf8_check 0 s = None"

definition show_utf8_error :: "utf8_error \<Rightarrow> string" where
  "show_utf8_error e = (case error_len e of
       Some n \<Rightarrow> ''invalid utf-8 sequence of '' @ show_nat n @ '' bytes from index ''
                 @ show_nat (valid_up_to e)
     | None \<Rightarrow> ''incomplete utf-8 byte sequence from index '' @ show_nat (valid_up_to e))"

text \<open>U+FFFD in UTF-8.\<close>

definition replacement_char :: bytes where
  "replacement_char = [CHR 0xEF, CHR 0xBF, CHR 0xBD]"

fun from_utf8_lossy :: "bytes \<Rightarrow> string" where
  "from_utf8_lossy [] = []"
| "from_utf8_lossy (c # cs) =
     (let n = fst (utf8_step (c # cs)) in
      (if snd (utf8_step (c # cs)) then take n (c # cs) else replacement_char)
      @ from_utf8_lossy (drop (n - 1) cs))"

declare utf8_check.simps(2) [simp del] from_utf8_lossy.simps(2) [simp del]

lemma utf8_step_bounds: "1 \<le> fst (utf8_step s)" "fst (utf8_step s) \<le> 4"
  by (simp_all add: utf8_step_def utf8_class_def)

lemma second_ok_0 [simp]: "\<not> second_ok b 0"
  by (simp add: second_ok_def is_cont_def)

lemma is_cont_0 [simp]: "\<not> is_cont 0"
  by (simp add: is_cont_def)

lemma byte_at_pos: "byte_at s i \<noteq> 0 \<Longrightarrow> i < length s"
  by (auto simp: byte_at_def split: if_splits)

lemma second_ok_length: "second_ok b (byte_at s 1) \<Longrightarrow> 2 \<le> length s"
  using byte_at_pos [of s 1] second_ok_0 by (metis One_nat_def Suc_leI numeral_2_eq_2)

lemma is_cont_length: "is_cont (byte_at s i) \<Longrightarrow> Suc i \<le> length s"
  using byte_at_pos [of s i] is_cont_0 by (metis Suc_leI)

lemma utf8_step_length:
  assumes "s \<noteq> []" shows "fst (utf8_step s) \<le> length s"
proof -
  let ?b = "byte_at s 0"
  have "1 \<le> length s" using assms by (cases s) auto
  moreover have "second_ok ?b (byte_at s 1) \<Longrightarrow> 2 \<le> length s" by (rule second_ok_length)
  moreover have "is_cont (byte_at s 2) \<Longrightarrow> 3 \<le> length s" using is_cont_length [of s 2] by simp
  moreover have "is_cont (byte_at s 3) \<Longrightarrow> 4 \<le> length s" using is_cont_length [of s 3] by simp
  ultimately show ?thesis by (simp add: utf8_step_def utf8_class_def)
qed

lemma byte_at_append: "i < length s \<Longrightarrow> byte_at (s @ t) i = byte_at s i"
  by (simp add: byte_at_def nth_append)

lemma utf8_class_cases:
  assumes "snd (utf8_class b c d e)"
  obtains "\<And>c' d' e'. utf8_class b c' d' e' = (1, True)"
    | "second_ok b c" "\<And>d' e'. utf8_class b c d' e' = (2, True)"
    | "second_ok b c" "is_cont d" "\<And>e'. utf8_class b c d e' = (3, True)"
    | "is_cont e"
  using assms unfolding utf8_class_def by (auto split: if_splits)

lemma utf8_step_append:
  assumes "s \<noteq> []" and "snd (utf8_step s)"
  shows "utf8_step (s @ t) = utf8_step s"
proof -
  have eq: "i < length s \<Longrightarrow> byte_at (s @ t) i = byte_at s i" for i by (rule byte_at_append)
  from assms(2) [unfolded utf8_step_def] show ?thesis
  proof (cases rule: utf8_class_cases)
    case 1
    then show ?thesis using assms(1) eq [of 0] by (simp add: utf8_step_def)
  next
    case 2
    then show ?thesis using assms(1) second_ok_length [OF 2(1)] eq [of 0] eq [of 1] by (simp add: utf8_step_def)
  next
    case 3
    then show ?thesis using assms(1) is_cont_length [OF 3(2)] eq [of 0] eq [of 1] eq [of 2] by (simp add: utf8_step_def)
  next
    case 4
    then show ?thesis
      using assms(1) is_cont_length [OF 4] eq [of 0] eq [of 1] eq [of 2] eq [of 3] by (simp add: utf8_step_def)
  qed
qed

lemma utf8_check_pos: "(utf8_check p s = None) = (utf8_check q s = None)"
proof -
  have "utf8_check p s = None \<Longrightarrow> utf8_check q s = None" for p q
  proof (induction p s arbitrary: q rule: utf8_check.induct)
    case (2 pos c cs)
    show ?case
    proof (cases "snd (utf8_step (c # cs))")
      case True
      with 2 show ?thesis by (simp add: utf8_check.simps(2) Let_def)
    qed (use 2 in \<open>simp add: utf8_check.simps(2) Let_def\<close>)
  qed simp
  then show ?thesis by blast
qed

lemma is_utf8_Nil [simp]: "is_utf8 []"
  by (simp add: is_utf8_def)

lemma is_utf8_Cons:
  "is_utf8 (c # cs) \<longleftrightarrow> snd (utf8_step (c # cs)) \<and> is_utf8 (drop (fst (utf8_step (c # cs)) - 1) cs)"
  by (auto simp: is_utf8_def utf8_check.simps(2) Let_def utf8_check_pos [of "fst _" _ 0])

lemma from_utf8_ok [simp]: "is_utf8 s \<Longrightarrow> from_utf8 s = Inr s"
  by (simp add: from_utf8_def is_utf8_def)

lemma from_utf8_Inr: "from_utf8 s = Inr t \<longleftrightarrow> t = s \<and> is_utf8 s"
  by (auto simp: from_utf8_def is_utf8_def split: option.splits)

lemma utf8_induct [case_names Nil Step]:
  assumes "P []"
    and "\<And>c cs. P (drop (fst (utf8_step (c # cs)) - 1) cs) \<Longrightarrow> P (c # cs)"
  shows "P s"
proof (induction "length s" arbitrary: s rule: less_induct)
  case less
  show ?case
  proof (cases s)
    case (Cons c cs)
    then have "length (drop (fst (utf8_step (c # cs)) - 1) cs) < length s" by simp
    then show ?thesis using less assms(2) Cons by blast
  qed (use assms(1) in simp)
qed

lemma take_Cons_drop:
  "1 \<le> n \<Longrightarrow> take n (c # cs) @ drop (n - 1) cs = c # cs"
  by (cases n) simp_all

lemma is_utf8_append: "is_utf8 s \<Longrightarrow> is_utf8 t \<Longrightarrow> is_utf8 (s @ t)"
proof (induction s rule: utf8_induct)
  case (Step c cs)
  let ?n = "fst (utf8_step (c # cs))"
  from Step.prems have st: "snd (utf8_step (c # cs))" and "is_utf8 (drop (?n - 1) cs)"
    by (simp_all add: is_utf8_Cons)
  then have "is_utf8 (drop (?n - 1) cs @ t)" using Step by blast
  moreover have "?n - 1 \<le> length cs" using utf8_step_length [of "c # cs"] by simp
  ultimately show ?case
    using utf8_step_append [of "c # cs" t] st by (simp add: is_utf8_Cons)
qed simp

lemma is_utf8_ascii: "\<forall>c\<in>set s. byte c < 128 \<Longrightarrow> is_utf8 s"
proof (induction s)
  case (Cons c cs)
  then have "utf8_step (c # cs) = (1, True)"
    by (simp add: utf8_step_def utf8_class_def utf8_width_def byte_at_def)
  then show ?case using Cons by (simp add: is_utf8_Cons)
qed simp

lemma from_utf8_lossy_valid [simp]: "is_utf8 s \<Longrightarrow> from_utf8_lossy s = s"
proof (induction s rule: utf8_induct)
  case (Step c cs)
  then show ?case
    using take_Cons_drop [of "fst (utf8_step (c # cs))" c cs] utf8_step_bounds(1) [of "c # cs"]
    by (simp add: is_utf8_Cons from_utf8_lossy.simps(2) Let_def)
qed simp

lemma is_utf8_digits: "\<forall>c\<in>set s. is_ascii_digit c \<Longrightarrow> is_utf8 s"
  by (rule is_utf8_ascii) (auto simp: is_ascii_digit_def)

lemma is_utf8_show_nat [simp]: "is_utf8 (show_nat n)"
  by (rule is_utf8_digits) (rule show_nat_digits)

lemma is_utf8_show_int [simp]: "is_utf8 (show_int i)"
proof -
  have "is_utf8 ''-''" by (rule is_utf8_ascii) (simp add: byte_def)
  then have "is_utf8 (''-'' @ show_nat n)" for n by (rule is_utf8_append) simp
  then show ?thesis by (simp add: show_int_def)
qed

section \<open>Splitting and joining\<close>

fun split_by :: "(char \<Rightarrow> bool) \<Rightarrow> string \<Rightarrow> string list" where
  "split_by p [] = [[]]"
| "split_by p (c # cs) =
     (if p c then [] # split_by p cs
      else (case split_by p cs of [] \<Rightarrow> [[c]] | w # ws \<Rightarrow> (c # w) # ws))"

definition split_on :: "char \<Rightarrow> string \<Rightarrow> string list" where
  "split_on d s = split_by (\<lambda>c. c = d) s"

fun split_once :: "char \<Rightarrow> string \<Rightarrow> (string \<times> string) option" where
  "split_once d [] = None"
| "split_once d (c # cs) =
     (if c = d then Some ([], cs)
      else map_option (\<lambda>(a, b). (c # a, b)) (split_once d cs))"

fun rsplit_once :: "char \<Rightarrow> string \<Rightarrow> (string \<times> string) option" where
  "rsplit_once d [] = None"
| "rsplit_once d (c # cs) =
     (case rsplit_once d cs of
        Some (a, b) \<Rightarrow> Some (c # a, b)
      | None \<Rightarrow> if c = d then Some ([], cs) else None)"

text \<open>\<open>split_once\<close> with a two-byte pattern, as in \<open>rest.split_once("]:")\<close>.\<close>

fun split_once2 :: "char \<Rightarrow> char \<Rightarrow> string \<Rightarrow> (string \<times> string) option" where
  "split_once2 d e (c # c' # cs) =
     (if c = d \<and> c' = e then Some ([], cs)
      else map_option (\<lambda>(a, b). (c # a, b)) (split_once2 d e (c' # cs)))"
| "split_once2 d e s = None"

text \<open>\<open>splitn(n, d)\<close>: at most \<open>n\<close> pieces, the last one holding the rest.\<close>

fun splitn :: "nat \<Rightarrow> char \<Rightarrow> string \<Rightarrow> string list" where
  "splitn 0 d s = []"
| "splitn (Suc 0) d s = [s]"
| "splitn (Suc (Suc n)) d s =
     (case split_once d s of None \<Rightarrow> [s] | Some (a, b) \<Rightarrow> a # splitn (Suc n) d b)"

definition strip_prefix :: "string \<Rightarrow> string \<Rightarrow> string option" where
  "strip_prefix p s = (if take (length p) s = p then Some (drop (length p) s) else None)"

fun join :: "string \<Rightarrow> string list \<Rightarrow> string" where
  "join sep [] = []"
| "join sep [w] = w"
| "join sep (w # ws) = w @ sep @ join sep ws"

text \<open>\<open>str::lines\<close>: pieces between line feeds, each without a trailing CR, no last empty piece.\<close>

definition strip_cr :: "string \<Rightarrow> string" where
  "strip_cr s = (if s \<noteq> [] \<and> last s = CHR 0x0D then butlast s else s)"

definition str_lines :: "string \<Rightarrow> string list" where
  "str_lines s =
     (let ws = split_on (CHR 0x0A) s;
          body = (if last ws = [] then map strip_cr (butlast ws)
                  else map strip_cr (butlast ws) @ [last ws])
      in body)"

text \<open>
  The number of bytes of the whitespace character (\<open>char::is_whitespace\<close>, the Unicode
  \<open>White_Space\<close> property) a string starts with, 0 when it starts with none.
\<close>

definition ws_len :: "string \<Rightarrow> nat" where
  "ws_len s =
     (let a = byte_at s 0; b = byte_at s 1; c = byte_at s 2 in
      if (9 \<le> a \<and> a \<le> 13) \<or> a = 32 then (if s = [] then 0 else 1)
      else if a = 194 \<and> (b = 133 \<or> b = 160) then 2
      else if a = 225 \<and> b = 154 \<and> c = 128 then 3
      else if a = 226 \<and> b = 128 \<and> ((128 \<le> c \<and> c \<le> 138) \<or> c = 168 \<or> c = 169 \<or> c = 175) then 3
      else if a = 226 \<and> b = 129 \<and> c = 159 then 3
      else if a = 227 \<and> b = 128 \<and> c = 128 then 3
      else 0)"

fun ws_words :: "string \<Rightarrow> string \<Rightarrow> string list" where
  "ws_words acc [] = (if acc = [] then [] else [rev acc])"
| "ws_words acc (c # cs) =
     (let n = ws_len (c # cs) in
      if n = 0 then ws_words (c # acc) cs
      else (if acc = [] then [] else [rev acc]) @ ws_words [] (drop (n - 1) cs))"

definition split_whitespace :: "string \<Rightarrow> string list" where
  "split_whitespace s = ws_words [] s"

text \<open>\<open>slice.as_chunks::<2>()\<close>.\<close>

fun chunks2 :: "'a list \<Rightarrow> ('a \<times> 'a) list \<times> 'a list" where
  "chunks2 (a # b # xs) = ((a, b) # fst (chunks2 xs), snd (chunks2 xs))"
| "chunks2 xs = ([], xs)"

lemma chunks2_concat: "concat (map (\<lambda>(a, b). [a, b]) (fst (chunks2 xs))) @ snd (chunks2 xs) = xs"
  by (induction xs rule: chunks2.induct) auto

lemma length_chunks2: "2 * length (fst (chunks2 xs)) + length (snd (chunks2 xs)) = length xs"
  by (induction xs rule: chunks2.induct) auto

lemma length_snd_chunks2: "length (snd (chunks2 xs)) < 2"
  by (induction xs rule: chunks2.induct) auto

lemma chunks2_even: "snd (chunks2 xs) = [] \<longleftrightarrow> even (length xs)"
  by (induction xs rule: chunks2.induct) auto

lemma split_by_nonempty [simp]: "split_by p s \<noteq> []"
  by (induction s) (auto split: list.splits)

lemma split_by_word: "\<forall>c\<in>set w. \<not> p c \<Longrightarrow> split_by p w = [w]"
  by (induction w) auto

lemma split_by_append:
  "\<forall>c\<in>set w. \<not> p c \<Longrightarrow> p d \<Longrightarrow> split_by p (w @ d # s) = w # split_by p s"
  by (induction w) auto

lemma split_by_join:
  assumes "p d" and "ws \<noteq> []" and "\<forall>w\<in>set ws. \<forall>c\<in>set w. \<not> p c"
  shows "split_by p (join [d] ws) = ws"
  using assms(2,3)
proof (induction ws rule: induct_list012)
  case (3 w v vs)
  then show ?case using assms(1) by (auto simp: split_by_append)
qed (auto simp: split_by_word)

lemma rsplit_once_Some:
  "rsplit_once d s = Some (a, b) \<Longrightarrow> s = a @ d # b \<and> d \<notin> set b"
proof (induction s arbitrary: a b)
  case (Cons c cs)
  have none: "rsplit_once d xs = None \<Longrightarrow> d \<notin> set xs" for xs
    by (induction xs) (auto split: option.splits if_splits)
  show ?case
  proof (cases "rsplit_once d cs")
    case None
    then show ?thesis using Cons.prems none [OF None] by (auto split: if_splits)
  next
    case (Some p)
    then show ?thesis using Cons.prems Cons.IH by (cases p) auto
  qed
qed simp

lemma rsplit_once_append: "d \<notin> set b \<Longrightarrow> rsplit_once d (a @ d # b) = Some (a, b)"
proof (induction a)
  case Nil
  have "d \<notin> set b \<Longrightarrow> rsplit_once d b = None"
    by (induction b) auto
  then show ?case using Nil by simp
next
  case (Cons c a)
  then show ?case by simp
qed

lemma from_utf8_lossy_ascii: "\<forall>c\<in>set s. byte c < 128 \<Longrightarrow> from_utf8_lossy s = s"
  by (simp add: from_utf8_lossy_valid is_utf8_ascii)

end
