(* ===== verification/Float64.thy ===== *)
theory Float64
  imports Complex_Main Text
begin

text \<open>
  The part of \<open>f64\<close> that the program uses: correctly rounded decimal parsing
  (\<open>str::parse::<f64>\<close>), comparison, subtraction, multiplication and division, \<open>max\<close>,
  \<open>Display\<close> (the shortest decimal that reads back as the same value) and \<open>{:.2}\<close>.
  A finite value is the rational number it denotes; \<open>NegZero\<close> is kept apart because it
  prints differently. Every operation is the exact rational operation followed by
  \<open>f_round\<close>, the rounding to nearest, ties to even, of binary64.
\<close>

section \<open>Rounding\<close>

datatype f64 = Fin rat | NegZero | Inf | NegInf | NaN

fun val :: "f64 \<Rightarrow> rat option" where
  "val (Fin r) = Some r"
| "val NegZero = Some 0"
| "val _ = None"

definition pow2 :: "int \<Rightarrow> rat" where
  "pow2 e = (if 0 \<le> e then 2 ^ nat e else 1 / 2 ^ nat (- e))"

fun ilog2 :: "nat \<Rightarrow> int" where
  "ilog2 n = (if n \<le> 1 then 0 else 1 + ilog2 (n div 2))"

declare ilog2.simps [simp del]

text \<open>The exponent \<open>e\<close> with \<open>2^e \<le> r < 2^(e+1)\<close> of a positive rational.\<close>

definition floor_log2 :: "rat \<Rightarrow> int" where
  "floor_log2 r =
     (let (n, d) = quotient_of r; e = ilog2 (nat n) - ilog2 (nat d)
      in if pow2 e \<le> r then e else e - 1)"

definition round_half_even :: "rat \<Rightarrow> int" where
  "round_half_even x =
     (let f = floor x; d = x - of_int f in
      if d < 1/2 then f else if d > 1/2 then f + 1 else if even f then f else f + 1)"

definition ulp_exp :: "rat \<Rightarrow> int" where
  "ulp_exp r = max (floor_log2 r - 52) (- 1074)"

definition round_mag :: "rat \<Rightarrow> rat" where
  "round_mag r = (if r = 0 then 0
     else of_int (round_half_even (r / pow2 (ulp_exp r))) * pow2 (ulp_exp r))"

definition f_round :: "rat \<Rightarrow> f64" where
  "f_round r =
     (let m = round_mag \<bar>r\<bar> in
      if m \<ge> pow2 1024 then (if r < 0 then NegInf else Inf)
      else if r < 0 then (if m = 0 then NegZero else Fin (- m))
      else Fin m)"

section \<open>Comparison and arithmetic\<close>

text \<open>
  The program compares and combines finite values only where the values are probabilities or a
  temperature already checked to lie in 0..100; parsing can produce any \<open>f64\<close>, so the range
  check itself is defined on all of them (a NaN fails every comparison).
\<close>

fun f_le :: "f64 \<Rightarrow> f64 \<Rightarrow> bool" where
  "f_le NaN y = False"
| "f_le x NaN = False"
| "f_le NegInf y = True"
| "f_le x Inf = True"
| "f_le Inf y = False"
| "f_le x NegInf = False"
| "f_le x y = (the (val x) \<le> the (val y))"

definition f_lt :: "f64 \<Rightarrow> f64 \<Rightarrow> bool" where
  "f_lt x y \<longleftrightarrow> f_le x y \<and> \<not> f_le y x"

definition f_eq :: "f64 \<Rightarrow> f64 \<Rightarrow> bool" where
  "f_eq x y \<longleftrightarrow> f_le x y \<and> f_le y x"

definition f_op :: "(rat \<Rightarrow> rat \<Rightarrow> rat) \<Rightarrow> f64 \<Rightarrow> f64 \<Rightarrow> f64" where
  "f_op g x y = (case (val x, val y) of (Some a, Some b) \<Rightarrow> f_round (g a b) | _ \<Rightarrow> NaN)"

definition f_sub :: "f64 \<Rightarrow> f64 \<Rightarrow> f64" where "f_sub x y = f_op (-) x y"
definition f_mul :: "f64 \<Rightarrow> f64 \<Rightarrow> f64" where "f_mul x y = f_op (*) x y"
definition f_div :: "f64 \<Rightarrow> f64 \<Rightarrow> f64" where "f_div x y = f_op (/) x y"

definition f_max :: "f64 \<Rightarrow> f64 \<Rightarrow> f64" where
  "f_max x y = (if f_le x y then y else x)"

section \<open>Parsing\<close>

fun take_digits :: "string \<Rightarrow> nat list \<times> string" where
  "take_digits [] = ([], [])"
| "take_digits (c # cs) =
     (case to_digit c of
        Some d \<Rightarrow> (d # fst (take_digits cs), snd (take_digits cs))
      | None \<Rightarrow> ([], c # cs))"

definition digits_value :: "nat list \<Rightarrow> nat" where
  "digits_value ds = foldl (\<lambda>n d. 10 * n + d) 0 ds"

text \<open>The exponent stops growing once it has passed 65535, as in the library's reader.\<close>

definition exponent_value :: "nat list \<Rightarrow> nat" where
  "exponent_value ds = foldl (\<lambda>n d. if n < 65536 then 10 * n + d else n) 0 ds"

definition pow10 :: "int \<Rightarrow> rat" where
  "pow10 e = (if 0 \<le> e then 10 ^ nat e else 1 / 10 ^ nat (- e))"

fun strip_sign :: "string \<Rightarrow> bool \<times> string" where
  "strip_sign [] = (False, [])"
| "strip_sign (c # cs) = (if c = CHR ''-'' then (True, cs)
     else if c = CHR ''+'' then (False, cs) else (False, c # cs))"

text \<open>The part after the mantissa: nothing, or \<open>e\<close> with an optional sign and digits.\<close>

definition parse_exponent :: "string \<Rightarrow> int option" where
  "parse_exponent s =
     (case s of
        [] \<Rightarrow> Some 0
      | c # cs \<Rightarrow>
          if c = CHR ''e'' \<or> c = CHR ''E'' then
            (let (neg, t) = strip_sign cs; (ds, rest) = take_digits t
             in if ds = [] \<or> rest \<noteq> [] then None
                else Some ((if neg then -1 else 1) * int (exponent_value ds)))
          else None)"

definition parse_mantissa :: "string \<Rightarrow> (nat \<times> int \<times> string) option" where
  "parse_mantissa s =
     (let (whole, rest) = take_digits s;
          (frac, rest') = (case rest of
              [] \<Rightarrow> ([], rest)
            | c # cs \<Rightarrow> if c = CHR ''.'' then take_digits cs else ([], rest))
      in if whole @ frac = [] then None
         else Some (digits_value (whole @ frac), - int (length frac), rest'))"

definition parse_number :: "string \<Rightarrow> rat option" where
  "parse_number s =
     (case parse_mantissa s of
        None \<Rightarrow> None
      | Some (m, e, rest) \<Rightarrow>
          map_option (\<lambda>x. of_nat m * pow10 (e + x)) (parse_exponent rest))"

definition parse_inf_nan :: "bool \<Rightarrow> string \<Rightarrow> f64 option" where
  "parse_inf_nan neg s =
     (if eq_ignore_ascii_case s ''nan'' then Some NaN
      else if eq_ignore_ascii_case s ''inf'' \<or> eq_ignore_ascii_case s ''infinity''
      then Some (if neg then NegInf else Inf)
      else None)"

datatype float_error = FloatEmpty | FloatInvalid

definition show_float_error :: "float_error \<Rightarrow> string" where
  "show_float_error e = (case e of
       FloatEmpty \<Rightarrow> ''cannot parse float from empty string''
     | FloatInvalid \<Rightarrow> ''invalid float literal'')"

definition f_signed :: "bool \<Rightarrow> rat \<Rightarrow> f64" where
  "f_signed neg r = (if neg then (if r = 0 then NegZero else f_round (- r)) else f_round r)"

definition parse_f64 :: "string \<Rightarrow> float_error + f64" where
  "parse_f64 s =
     (if s = [] then Inl FloatEmpty
      else (let (neg, t) = strip_sign s in
        case parse_number t of
          Some r \<Rightarrow> Inr (f_signed neg r)
        | None \<Rightarrow> ok_or FloatInvalid (parse_inf_nan neg t)))"

section \<open>Printing\<close>

definition pad_left :: "nat \<Rightarrow> string \<Rightarrow> string" where
  "pad_left n s = replicate (n - length s) CHR ''0'' @ s"

text \<open>\<open>m * 10^k\<close> in positional notation, never with an exponent.\<close>

definition show_decimal :: "nat \<Rightarrow> int \<Rightarrow> string" where
  "show_decimal m k =
     (if 0 \<le> k then show_nat (m * 10 ^ nat k)
      else (let n = nat (- k); ds = pad_left (Suc n) (show_nat m); w = length ds - n
            in take w ds @ ''.'' @ drop w ds))"

text \<open>
  \<open>Display\<close> prints the shortest digit string in the value's rounding interval and, of those,
  the closest. \<open>candidates r n\<close> are the two decimals with \<open>n\<close> significant digits next to
  \<open>r\<close>, the closer one first; 17 digits always suffice for binary64, and the exact expansion
  stands after them so that the search is total.
\<close>

function decimal_exp :: "nat \<Rightarrow> rat \<Rightarrow> int" where
  "decimal_exp fuel r = (if fuel = 0 then 0
     else if r \<ge> 10 then 1 + decimal_exp (fuel - 1) (r / 10)
     else if r < 1 then decimal_exp (fuel - 1) (r * 10) - 1 else 0)"
  by pat_completeness auto
termination
  by (relation "measure fst") auto

declare decimal_exp.simps [simp del]

definition candidates :: "rat \<Rightarrow> nat \<Rightarrow> (nat \<times> int) list" where
  "candidates r n =
     (let k = decimal_exp 400 r - int n + 1; x = r / pow10 k;
          c = nat (round_half_even x); f = nat (floor x)
      in [(c, k), (if c = f then Suc f else f, k)])"

definition exact_decimal :: "rat \<Rightarrow> nat \<times> int" where
  "exact_decimal r = (let q = ulp_exp r in
     if 0 \<le> q then (nat (floor r), 0)
     else (nat (floor (r / pow2 q)) * 5 ^ nat (- q), q))"

definition shortest :: "rat \<Rightarrow> nat \<times> int" where
  "shortest r =
     (case find (\<lambda>(m, k). round_mag (of_nat m * pow10 k) = r)
             (concat (map (candidates r) [1..<18])) of
        Some mk \<Rightarrow> mk
      | None \<Rightarrow> exact_decimal r)"

fun show_f64 :: "f64 \<Rightarrow> string" where
  "show_f64 NaN = ''NaN''"
| "show_f64 Inf = ''inf''"
| "show_f64 NegInf = ''-inf''"
| "show_f64 NegZero = ''-0''"
| "show_f64 (Fin r) =
     (if r = 0 then ''0''
      else (if r < 0 then ''-'' else '''') @ (let (m, k) = shortest \<bar>r\<bar> in show_decimal m k))"

text \<open>\<open>{:.2}\<close>: the exact value rounded to two decimals, ties to even.\<close>

fun show_fixed2 :: "f64 \<Rightarrow> string" where
  "show_fixed2 NaN = ''NaN''"
| "show_fixed2 Inf = ''inf''"
| "show_fixed2 NegInf = ''-inf''"
| "show_fixed2 NegZero = ''-0.00''"
| "show_fixed2 (Fin r) =
     (if r < 0 then ''-'' else '''') @ show_decimal (nat (round_half_even (\<bar>r\<bar> * 100))) (- 2)"

section \<open>Bit patterns\<close>

text \<open>\<open>f64::from_bits\<close>: sign, 11 exponent bits, 52 fraction bits.\<close>

definition f_from_bits :: "nat \<Rightarrow> f64" where
  "f_from_bits n =
     (let neg = odd (n div 2 ^ 63); e = n div 2 ^ 52 mod 2048; m = n mod 2 ^ 52;
          r = (if e = 0 then of_nat m * pow2 (- 1074)
               else of_nat (2 ^ 52 + m) * pow2 (int e - 1075))
      in if e = 2047 then (if m \<noteq> 0 then NaN else if neg then NegInf else Inf)
         else if neg then (if r = 0 then NegZero else Fin (- r)) else Fin r)"

definition is_finite :: "f64 \<Rightarrow> bool" where
  "is_finite x \<longleftrightarrow> x \<noteq> NaN \<and> x \<noteq> Inf \<and> x \<noteq> NegInf"

end
