(* ===== verification/Errors.thy ===== *)
theory Errors
  imports Float64
begin

text \<open>
  \<open>error.rs\<close>: the program's error type and its \<open>Display\<close> form. A message is the list of
  pieces its \<open>format!\<close> call concatenates; a \<open>{:?}\<close> of a string is kept as a piece of its
  own, because Rust's \<open>Debug\<close> escaping depends on Unicode tables, and is rendered by a
  parameter \<open>dbg\<close> only where a message becomes reply bytes.
\<close>

datatype piece = Lit string | Dbg string | Flt f64

type_synonym msg = "piece list"

abbreviation msg_of :: "string \<Rightarrow> msg" where
  "msg_of s \<equiv> [Lit s]"

fun show_piece :: "(string \<Rightarrow> string) \<Rightarrow> piece \<Rightarrow> string" where
  "show_piece dbg (Lit s) = s"
| "show_piece dbg (Dbg s) = dbg s"
| "show_piece dbg (Flt x) = show_f64 x"

definition show_msg :: "(string \<Rightarrow> string) \<Rightarrow> msg \<Rightarrow> string" where
  "show_msg dbg m = concat (map (show_piece dbg) m)"

text \<open>The \<open>std::io::ErrorKind\<close> values the program names, and the rest.\<close>

datatype io_kind = UnexpectedEof | InvalidData | WriteZero | Interrupted | Unsupported
  | OtherKind string

datatype app_error =
    IoError io_kind msg
  | AddrParse msg
  | RespError msg
  | EvilConfigError msg
  | ProxyError msg
  | ProtocolFingerprintError msg
  | JsonError msg

fun display_error :: "(string \<Rightarrow> string) \<Rightarrow> app_error \<Rightarrow> string" where
  "display_error dbg (IoError k m) = ''I/O error: '' @ show_msg dbg m"
| "display_error dbg (AddrParse m) = ''invalid socket address: '' @ show_msg dbg m"
| "display_error dbg (RespError m) = ''RESP parse error: '' @ show_msg dbg m"
| "display_error dbg (EvilConfigError m) = ''invalid evil configuration: '' @ show_msg dbg m"
| "display_error dbg (ProxyError m) = ''invalid proxy response: '' @ show_msg dbg m"
| "display_error dbg (ProtocolFingerprintError m) =
     ''invalid protocol fingerprint request: '' @ show_msg dbg m"
| "display_error dbg (JsonError m) = ''JSON serialization error: '' @ show_msg dbg m"

definition evil_error :: "string \<Rightarrow> app_error" where
  "evil_error s = EvilConfigError (msg_of s)"

definition resp_error :: "string \<Rightarrow> app_error" where
  "resp_error s = RespError (msg_of s)"

definition proxy_error :: "string \<Rightarrow> app_error" where
  "proxy_error s = ProxyError (msg_of s)"

text \<open>\<open>io::Error::new(ErrorKind::InvalidData, error.to_string())\<close>\<close>

definition invalid_data :: "string \<Rightarrow> app_error" where
  "invalid_data s = IoError InvalidData (msg_of s)"

end
