(* ===== verification/Resp.thy ===== *)
theory Resp
  imports Errors
begin

text \<open>
  \<open>resp.rs\<close>: RESP2/RESP3 frames, the encoder (with one length header overridden or not), the
  recursive parser of a complete frame, and the reader that takes one raw frame off a byte
  stream.

  The Rust parser keeps the whole slice and a position; here it is the remaining input (the
  position is the input's length minus the remaining length). Its \<open>depth\<close> counter, bounded by
  \<open>MAX_FRAME_DEPTH\<close>, is the structural argument \<open>budget = MAX_FRAME_DEPTH - depth\<close>. The
  reader's stream is the list of bytes it will still deliver before EOF.
\<close>

section \<open>Frames\<close>

definition MAX_FRAME_BYTES :: nat where "MAX_FRAME_BYTES = 64 * 1024 * 1024"

definition MAX_FRAME_DEPTH :: nat where "MAX_FRAME_DEPTH = 128"

datatype frame =
    SimpleString string
  | SimpleError string
  | Integer i64
  | BulkString "bytes option"
  | Array "frame list option"
  | Null
  | Boolean bool
  | Double string
  | BigNumber string
  | BulkError bytes
  | VerbatimString bytes
  | Map "(frame \<times> frame) list"
  | Set "frame list"
  | Push "frame list"
  | Attribute "(frame \<times> frame) list"
  | Inline "bytes list"

definition crlf :: bytes where "crlf = [CHR 0x0D, CHR 0x0A]"

definition push_line :: "char \<Rightarrow> bytes \<Rightarrow> bytes" where
  "push_line prefix value = prefix # value @ crlf"

definition push_blob :: "char \<Rightarrow> bytes \<Rightarrow> string option \<Rightarrow> bytes" where
  "push_blob prefix body replacement =
     push_line prefix (case replacement of Some r \<Rightarrow> r | None \<Rightarrow> show_nat (length body))
     @ body @ crlf"

text \<open>
  \<open>encode_into\<close> calls the \<open>header\<close> closure once for every frame, in pre-order. The closure
  of \<open>encode\<close> always answers \<open>None\<close>; the one of \<open>encode_with_length\<close> counts its calls
  and answers the replacement on the call number \<open>target\<close>. Here the counter is threaded: the
  result is the bytes written and the number of frames visited so far.
\<close>

type_synonym header = "(nat \<times> string) option"

definition header_at :: "header \<Rightarrow> nat \<Rightarrow> string option" where
  "header_at h i = (case h of Some (target, r) \<Rightarrow> if i = target then Some r else None | None \<Rightarrow> None)"

definition or_len :: "string option \<Rightarrow> nat \<Rightarrow> string" where
  "or_len r n = (case r of Some s \<Rightarrow> s | None \<Rightarrow> show_nat n)"

primrec run_seq :: "(nat \<Rightarrow> bytes \<times> nat) list \<Rightarrow> nat \<Rightarrow> bytes \<times> nat" where
  "run_seq [] i = ([], i)"
| "run_seq (w # ws) i = (let (a, j) = w i; (b, k) = run_seq ws j in (a @ b, k))"

definition emit_line :: "char \<Rightarrow> bytes \<Rightarrow> nat \<Rightarrow> bytes \<times> nat" where
  "emit_line prefix value i = (push_line prefix value, Suc i)"

definition emit_null :: "header \<Rightarrow> char \<Rightarrow> nat \<Rightarrow> bytes \<times> nat" where
  "emit_null h prefix i =
     (push_line prefix (case header_at h i of Some r \<Rightarrow> r | None \<Rightarrow> ''-1''), Suc i)"

definition emit_blob :: "header \<Rightarrow> char \<Rightarrow> bytes \<Rightarrow> nat \<Rightarrow> bytes \<times> nat" where
  "emit_blob h prefix body i = (push_blob prefix body (header_at h i), Suc i)"

definition emit_aggregate ::
  "header \<Rightarrow> char \<Rightarrow> nat \<Rightarrow> (nat \<Rightarrow> bytes \<times> nat) list \<Rightarrow> nat \<Rightarrow> bytes \<times> nat" where
  "emit_aggregate h prefix len children i =
     (let (out, j) = run_seq children (Suc i)
      in (push_line prefix (or_len (header_at h i) len) @ out, j))"

fun encode_into :: "header \<Rightarrow> frame \<Rightarrow> nat \<Rightarrow> bytes \<times> nat" where
  "encode_into h (SimpleString v) = emit_line CHR ''+'' v"
| "encode_into h (SimpleError v) = emit_line CHR ''-'' v"
| "encode_into h (Integer v) = emit_line CHR '':'' (show_int (sint v))"
| "encode_into h (BulkString (Some b)) = emit_blob h CHR ''$'' b"
| "encode_into h (BulkString None) = emit_null h CHR ''$''"
| "encode_into h (Array (Some items)) =
     emit_aggregate h CHR ''*'' (length items) (map (encode_into h) items)"
| "encode_into h (Array None) = emit_null h CHR ''*''"
| "encode_into h Null = emit_line CHR ''_'' []"
| "encode_into h (Boolean v) = emit_line CHR ''#'' (if v then ''t'' else ''f'')"
| "encode_into h (Double v) = emit_line CHR '','' v"
| "encode_into h (BigNumber v) = emit_line CHR ''('' v"
| "encode_into h (BulkError b) = emit_blob h CHR ''!'' b"
| "encode_into h (VerbatimString b) = emit_blob h CHR ''='' b"
| "encode_into h (Map items) =
     emit_aggregate h CHR ''%'' (length items)
       (concat (map (\<lambda>(k, v). [encode_into h k, encode_into h v]) items))"
| "encode_into h (Set items) =
     emit_aggregate h CHR ''~'' (length items) (map (encode_into h) items)"
| "encode_into h (Push items) =
     emit_aggregate h CHR ''>'' (length items) (map (encode_into h) items)"
| "encode_into h (Attribute items) =
     emit_aggregate h CHR ''|'' (length items)
       (concat (map (\<lambda>(k, v). [encode_into h k, encode_into h v]) items))"
| "encode_into h (Inline parts) = (\<lambda>i. (join '' '' parts @ crlf, Suc i))"

definition encode :: "frame \<Rightarrow> bytes" where
  "encode f = fst (encode_into None f 0)"

definition encode_with_length :: "frame \<Rightarrow> nat \<Rightarrow> string \<Rightarrow> bytes" where
  "encode_with_length f target replacement = fst (encode_into (Some (target, replacement)) f 0)"

fun declared_length :: "frame \<Rightarrow> int option" where
  "declared_length (BulkString None) = Some (- 1)"
| "declared_length (Array None) = Some (- 1)"
| "declared_length (BulkString (Some b)) = Some (int (length b))"
| "declared_length (BulkError b) = Some (int (length b))"
| "declared_length (VerbatimString b) = Some (int (length b))"
| "declared_length (Array (Some items)) = Some (int (length items))"
| "declared_length (Set items) = Some (int (length items))"
| "declared_length (Push items) = Some (int (length items))"
| "declared_length (Map items) = Some (int (length items))"
| "declared_length (Attribute items) = Some (int (length items))"
| "declared_length _ = None"

section \<open>Command arguments\<close>

fun arg_lossy :: "frame \<Rightarrow> string option" where
  "arg_lossy (BulkString (Some b)) = Some (from_utf8_lossy b)"
| "arg_lossy (SimpleString v) = Some v"
| "arg_lossy (VerbatimString b) = Some (from_utf8_lossy b)"
| "arg_lossy _ = None"

fun argv_lossy :: "frame \<Rightarrow> string list" where
  "argv_lossy (Array (Some items)) =
     (case collect_options arg_lossy items of Some argv \<Rightarrow> argv | None \<Rightarrow> [])"
| "argv_lossy (Inline parts) = map from_utf8_lossy parts"
| "argv_lossy _ = []"

definition command_name :: "frame \<Rightarrow> string option" where
  "command_name f =
     (case argv_lossy f of [] \<Rightarrow> None | c # _ \<Rightarrow> Some (to_ascii_uppercase c))"

section \<open>The parser\<close>

type_synonym 'a parse = "app_error + 'a \<times> bytes"

fun take_line :: "bytes \<Rightarrow> (bytes \<times> bytes) option" where
  "take_line (c # d # s) =
     (if c = CHR 0x0D \<and> d = CHR 0x0A then Some ([], s)
      else map_option (\<lambda>(l, r). (c # l, r)) (take_line (d # s)))"
| "take_line _ = None"

definition take_raw_line :: "bytes \<Rightarrow> bytes parse" where
  "take_raw_line s = ok_or (resp_error ''missing RESP line terminator'') (take_line s)"

definition take_utf8_line :: "bytes \<Rightarrow> string parse" where
  "take_utf8_line s = and_then (take_raw_line s) (\<lambda>(line, r).
     case from_utf8 line of
       Inl e \<Rightarrow> Inl (resp_error (''invalid UTF-8 line: '' @ show_utf8_error e))
     | Inr t \<Rightarrow> Inr (t, r))"

definition take_i64_line :: "bytes \<Rightarrow> i64 parse" where
  "take_i64_line s = and_then (take_utf8_line s) (\<lambda>(line, r).
     case parse_i64 line of
       Inl e \<Rightarrow> Inl (resp_error (''invalid integer: '' @ show_int_error e))
     | Inr n \<Rightarrow> Inr (n, r))"

definition usize_len :: "i64 \<Rightarrow> app_error + nat" where
  "usize_len len = (if sint len < 0
     then Inl (resp_error (''invalid length '' @ show_int (sint len)))
     else Inr (nat (sint len)))"

definition take_blob :: "i64 \<Rightarrow> bytes \<Rightarrow> bytes parse" where
  "take_blob len s = and_then (usize_len len) (\<lambda>n.
     let available = length s in
     if available < 2 \<or> n > available - 2 then Inl (resp_error ''truncated RESP blob'')
     else if take 2 (drop n s) \<noteq> crlf then Inl (resp_error ''RESP blob missing CRLF'')
     else Inr (take n s, drop (n + 2) s))"

definition validate_sequence_len :: "i64 \<Rightarrow> nat \<Rightarrow> bytes \<Rightarrow> app_error + nat" where
  "validate_sequence_len len minimum_bytes s = and_then (usize_len len) (\<lambda>n.
     if n > length s div minimum_bytes then Inl (resp_error ''truncated RESP aggregate'')
     else Inr n)"

text \<open>The \<open>for _ in 0..len\<close> loops: the first failing child ends the loop.\<close>

primrec parse_n :: "(bytes \<Rightarrow> 'a parse) \<Rightarrow> nat \<Rightarrow> bytes \<Rightarrow> 'a list parse" where
  "parse_n p 0 s = Inr ([], s)"
| "parse_n p (Suc n) s = and_then (p s) (\<lambda>(x, r).
     and_then (parse_n p n r) (\<lambda>(xs, r'). Inr (x # xs, r')))"

definition read_sequence :: "(bytes \<Rightarrow> frame parse) \<Rightarrow> i64 \<Rightarrow> bytes \<Rightarrow> frame list parse" where
  "read_sequence p len s =
     and_then (validate_sequence_len len 3 s) (\<lambda>n. parse_n p n s)"

definition parse_pair :: "(bytes \<Rightarrow> frame parse) \<Rightarrow> bytes \<Rightarrow> (frame \<times> frame) parse" where
  "parse_pair p s = and_then (p s) (\<lambda>(k, r). and_then (p r) (\<lambda>(v, r'). Inr ((k, v), r')))"

definition parse_optional_blob :: "bytes \<Rightarrow> bytes option parse" where
  "parse_optional_blob s = and_then (take_i64_line s) (\<lambda>(len, r).
     if len = - 1 then Inr (None, r)
     else map_ok (\<lambda>(b, r'). (Some b, r')) (take_blob len r))"

definition parse_required_blob :: "bytes \<Rightarrow> bytes parse" where
  "parse_required_blob s = and_then (take_i64_line s) (\<lambda>(len, r).
     if sint len < 0 then Inl (resp_error ''RESP3 blob types cannot have negative length'')
     else take_blob len r)"

definition parse_optional_sequence ::
  "(bytes \<Rightarrow> frame parse) \<Rightarrow> bytes \<Rightarrow> frame list option parse" where
  "parse_optional_sequence p s = and_then (take_i64_line s) (\<lambda>(len, r).
     if len = - 1 then Inr (None, r)
     else map_ok (\<lambda>(xs, r'). (Some xs, r')) (read_sequence p len r))"

definition parse_sequence :: "(bytes \<Rightarrow> frame parse) \<Rightarrow> bytes \<Rightarrow> frame list parse" where
  "parse_sequence p s = and_then (take_i64_line s) (\<lambda>(len, r).
     if sint len < 0
     then Inl (resp_error ''RESP3 aggregate type cannot have negative length'')
     else read_sequence p len r)"

definition parse_map_like ::
  "(bytes \<Rightarrow> frame parse) \<Rightarrow> bytes \<Rightarrow> (frame \<times> frame) list parse" where
  "parse_map_like p s = and_then (take_i64_line s) (\<lambda>(len, r).
     if sint len < 0
     then Inl (resp_error ''RESP3 map-like type cannot have negative length'')
     else and_then (validate_sequence_len len 6 r) (\<lambda>n. parse_n (parse_pair p) n r))"

definition shell_words :: "bytes \<Rightarrow> bytes list" where
  "shell_words line = filter (\<lambda>w. w \<noteq> []) (split_by is_ascii_whitespace line)"

text \<open>\<open>parse_inline\<close> steps back over the byte it was dispatched on.\<close>

definition parse_inline :: "char \<Rightarrow> bytes \<Rightarrow> frame parse" where
  "parse_inline first s = and_then (take_raw_line (first # s)) (\<lambda>(line, r).
     let parts = shell_words line in
     Inr (Inline (if parts = [] then [[first]] else parts), r))"

definition build :: "('a \<Rightarrow> frame) \<Rightarrow> 'a parse \<Rightarrow> frame parse" where
  "build f r = map_ok (\<lambda>(x, s). (f x, s)) r"

definition parse_frame_inner :: "(bytes \<Rightarrow> frame parse) \<Rightarrow> bytes \<Rightarrow> frame parse" where
  "parse_frame_inner p input =
     (case input of
        [] \<Rightarrow> Inl (resp_error ''empty input'')
      | c # s \<Rightarrow>
          if c = CHR ''+'' then build SimpleString (take_utf8_line s)
          else if c = CHR ''-'' then build SimpleError (take_utf8_line s)
          else if c = CHR '':'' then build Integer (take_i64_line s)
          else if c = CHR ''$'' then build BulkString (parse_optional_blob s)
          else if c = CHR ''*'' then build Array (parse_optional_sequence p s)
          else if c = CHR ''_'' then
            and_then (take_raw_line s) (\<lambda>(line, r).
              if line \<noteq> [] then Inl (resp_error ''RESP null must not have data'')
              else Inr (Null, r))
          else if c = CHR ''#'' then
            and_then (take_raw_line s) (\<lambda>(line, r).
              if line = ''t'' then Inr (Boolean True, r)
              else if line = ''f'' then Inr (Boolean False, r)
              else Inl (resp_error ''invalid RESP boolean''))
          else if c = CHR '','' then build Double (take_utf8_line s)
          else if c = CHR ''('' then build BigNumber (take_utf8_line s)
          else if c = CHR ''!'' then build BulkError (parse_required_blob s)
          else if c = CHR ''='' then build VerbatimString (parse_required_blob s)
          else if c = CHR ''%'' then build Map (parse_map_like p s)
          else if c = CHR ''~'' then build Set (parse_sequence p s)
          else if c = CHR ''>'' then build Push (parse_sequence p s)
          else if c = CHR ''|'' then build Attribute (parse_map_like p s)
          else parse_inline c s)"

primrec parse_at :: "nat \<Rightarrow> bytes \<Rightarrow> frame parse" where
  "parse_at 0 s = Inl (resp_error ''RESP nesting exceeds 128 levels'')"
| "parse_at (Suc budget) s = parse_frame_inner (parse_at budget) s"

definition parse_frame :: "bytes \<Rightarrow> app_error + frame" where
  "parse_frame input =
     (if length input > MAX_FRAME_BYTES then Inl (resp_error ''RESP frame exceeds 64 MiB'')
      else and_then (parse_at MAX_FRAME_DEPTH input) (\<lambda>(frame, r).
        if r \<noteq> [] then Inl (resp_error (''trailing bytes after RESP frame at offset ''
                              @ show_nat (length input - length r)))
        else Inr frame))"

section \<open>The raw frame reader\<close>

definition parse_len :: "bytes \<Rightarrow> bool \<Rightarrow> app_error + nat option" where
  "parse_len line nullable =
     and_then (map_err (invalid_data \<circ> show_utf8_error) (from_utf8 line)) (\<lambda>value.
     and_then (map_err (invalid_data \<circ> show_int_error) (parse_i64 value)) (\<lambda>len.
       if nullable \<and> len = - 1 then Inr None
       else if sint len < 0
       then Inl (invalid_data ''out of range integral type conversion attempted'')
       else Inr (Some (nat (sint len)))))"

text \<open>\<open>read_until(b'\n')\<close> on a stream: the bytes up to and including the first line feed.\<close>

fun until_lf :: "bytes \<Rightarrow> bytes" where
  "until_lf [] = []"
| "until_lf (c # s) = (if c = CHR 0x0A then [c] else c # until_lf s)"

definition ends_with_crlf :: "bytes \<Rightarrow> bool" where
  "ends_with_crlf s \<longleftrightarrow> 2 \<le> length s \<and> drop (length s - 2) s = crlf"

definition read_line_raw :: "bytes \<Rightarrow> bytes \<Rightarrow> app_error + bytes \<times> bytes \<times> bytes" where
  "read_line_raw input raw =
     (let line = until_lf (take (MAX_FRAME_BYTES - length raw) input) in
      if line = []
      then Inl (IoError UnexpectedEof (msg_of ''stream ended before RESP line terminator''))
      else if \<not> ends_with_crlf line
      then Inl (invalid_data ''RESP line missing CRLF terminator'')
      else Inr (take (length line - 2) line, drop (length line) input, raw @ line))"

definition read_blob_body :: "nat \<Rightarrow> bytes \<Rightarrow> bytes \<Rightarrow> app_error + bytes \<times> bytes" where
  "read_blob_body len input raw =
     (if len + 2 \<ge> 2 ^ 64 then Inl (invalid_data ''RESP blob length overflow'')
      else if len + 2 > MAX_FRAME_BYTES - length raw
      then Inl (invalid_data ''RESP frame exceeds 64 MiB'')
      else if length input < len + 2
      then Inl (IoError UnexpectedEof (msg_of ''truncated RESP blob''))
      else let raw' = raw @ take (len + 2) input in
        if \<not> ends_with_crlf raw' then Inl (invalid_data ''bulk body missing CRLF terminator'')
        else Inr (drop (len + 2) input, raw'))"

definition read_children :: "bool \<Rightarrow> nat \<Rightarrow> bytes \<Rightarrow> app_error + nat" where
  "read_children paired len raw =
     (if paired \<and> len * 2 \<ge> 2 ^ 64 then Inl (invalid_data ''RESP aggregate length overflow'')
      else let children = (if paired then len * 2 else len) in
        if children > (MAX_FRAME_BYTES - length raw) div 3
        then Inl (invalid_data ''RESP frame exceeds 64 MiB'')
        else Inr children)"

definition is_blob_prefix :: "char \<Rightarrow> bool" where
  "is_blob_prefix c \<longleftrightarrow> c = CHR ''$'' \<or> c = CHR ''!'' \<or> c = CHR ''=''"

definition is_pair_prefix :: "char \<Rightarrow> bool" where
  "is_pair_prefix c \<longleftrightarrow> c = CHR ''%'' \<or> c = CHR ''|''"

definition is_aggregate_prefix :: "char \<Rightarrow> bool" where
  "is_aggregate_prefix c \<longleftrightarrow>
     c = CHR ''*'' \<or> c = CHR ''~'' \<or> c = CHR ''>'' \<or> is_pair_prefix c"

text \<open>
  One iteration of the reading loop: a prefix byte, its line, and the body the line announces.
  The result is the number of children to wait for, the rest of the stream, and the buffer.
\<close>

definition read_body :: "char \<Rightarrow> bytes \<Rightarrow> bytes \<Rightarrow> bytes \<Rightarrow> app_error + nat \<times> bytes \<times> bytes" where
  "read_body c line input raw =
     (if is_blob_prefix c then
        and_then (parse_len line (c = CHR ''$'')) (\<lambda>len.
          case len of
            None \<Rightarrow> Inr (0, input, raw)
          | Some n \<Rightarrow> map_ok (\<lambda>(s, r). (0, s, r)) (read_blob_body n input raw))
      else if is_aggregate_prefix c then
        and_then (parse_len line (c = CHR ''*'')) (\<lambda>len.
          case len of
            None \<Rightarrow> Inr (0, input, raw)
          | Some n \<Rightarrow>
              map_ok (\<lambda>children. (children, input, raw))
                (read_children (is_pair_prefix c) n raw))
      else Inr (0, input, raw))"

definition read_header :: "bytes \<Rightarrow> bytes \<Rightarrow> app_error + nat \<times> bytes \<times> bytes" where
  "read_header input raw =
     (if length raw = MAX_FRAME_BYTES then Inl (invalid_data ''RESP frame exceeds 64 MiB'')
      else case input of
        [] \<Rightarrow> Inl (IoError UnexpectedEof (msg_of ''early eof''))
      | c # s \<Rightarrow>
          and_then (read_line_raw s (raw @ [c])) (\<lambda>(line, s', raw'). read_body c line s' raw'))"

section \<open>The reader consumes exactly one prefix of its stream\<close>

lemma until_lf_prefix: "take (length (until_lf s)) s = until_lf s"
  by (induction s) auto

lemma length_until_lf: "length (until_lf s) \<le> length s"
  by (induction s) auto

lemma read_line_raw_split:
  assumes "read_line_raw input raw = Inr (line, input', raw')" and "length raw \<le> MAX_FRAME_BYTES"
  shows "input = (line @ crlf) @ input' \<and> raw' = raw @ line @ crlf \<and> length raw' \<le> MAX_FRAME_BYTES"
proof -
  let ?t = "take (MAX_FRAME_BYTES - length raw) input"
  let ?l = "until_lf ?t"
  from assms(1) have crlf: "ends_with_crlf ?l" and line: "line = take (length ?l - 2) ?l"
    and rest: "input' = drop (length ?l) input" and raw': "raw' = raw @ ?l"
    by (auto simp: read_line_raw_def Let_def split: if_splits)
  from crlf line have l: "?l = line @ crlf"
    unfolding ends_with_crlf_def by (metis append_take_drop_id)
  have len: "length ?l \<le> MAX_FRAME_BYTES - length raw"
    using length_until_lf [of ?t] by simp
  have "take (length ?l) input = ?l"
    using until_lf_prefix [of ?t] len by (simp add: min_absorb1)
  then have "input = ?l @ input'" using rest by (metis append_take_drop_id)
  then show ?thesis using l raw' len assms(2) by simp
qed

lemma read_blob_body_split:
  assumes "read_blob_body n input raw = Inr (input', raw')" and "length raw \<le> MAX_FRAME_BYTES"
  shows "\<exists>d. input = d @ input' \<and> raw' = raw @ d \<and> length d = n + 2 \<and> length raw' \<le> MAX_FRAME_BYTES"
  using assms
  by (intro exI [of _ "take (n + 2) input"])
    (auto simp: read_blob_body_def Let_def split: if_splits)

lemma read_body_cases:
  assumes "read_body c line input raw = Inr (n, input', raw')"
  shows "(\<exists>k. read_blob_body k input raw = Inr (input', raw')) \<or> (input' = input \<and> raw' = raw)"
  using assms by (auto simp: read_body_def result_simps split: if_splits option.splits)

lemma read_header_split:
  assumes "read_header input raw = Inr (n, input', raw')" and "length raw \<le> MAX_FRAME_BYTES"
  shows "\<exists>d. input = d @ input' \<and> raw' = raw @ d \<and> d \<noteq> [] \<and> length raw' \<le> MAX_FRAME_BYTES"
proof -
  from assms(1) obtain c s line s' r' where
    input: "input = c # s" and line: "read_line_raw s (raw @ [c]) = Inr (line, s', r')"
    and lt: "length raw \<noteq> MAX_FRAME_BYTES" and body: "read_body c line s' r' = Inr (n, input', raw')"
    by (auto simp: read_header_def result_simps split: if_splits list.splits)
  have l: "length (raw @ [c]) \<le> MAX_FRAME_BYTES" using lt assms(2) by simp
  note line' = read_line_raw_split [OF line l]
  from read_body_cases [OF body] show ?thesis
  proof
    assume "\<exists>k. read_blob_body k s' r' = Inr (input', raw')"
    then obtain k where k: "read_blob_body k s' r' = Inr (input', raw')" by blast
    from read_blob_body_split [OF k] line' obtain d where
      d: "s' = d @ input'" "raw' = r' @ d" "length raw' \<le> MAX_FRAME_BYTES" by auto
    with input line' show ?thesis by (intro exI [of _ "c # line @ crlf @ d"]) simp
  next
    assume "input' = s' \<and> raw' = r'"
    with input line' show ?thesis by (intro exI [of _ "c # line @ crlf"]) auto
  qed
qed

text \<open>
  The loop is total: every iteration consumes a byte of the stream or pops a level of the
  stack of unread children.
\<close>

lemma read_line_raw_rest: "read_line_raw s raw = Inr (l, s', r') \<Longrightarrow> length s' \<le> length s"
  by (auto simp: read_line_raw_def Let_def split: if_splits)

lemma read_blob_body_rest: "read_blob_body k s raw = Inr (s', r') \<Longrightarrow> length s' \<le> length s"
  by (auto simp: read_blob_body_def Let_def split: if_splits)

lemma read_header_shorter:
  assumes "read_header input raw = Inr (n, input', raw')"
  shows "length input' < length input"
proof -
  from assms obtain c s line s' r' where
    input: "input = c # s" and line: "read_line_raw s (raw @ [c]) = Inr (line, s', r')"
    and body: "read_body c line s' r' = Inr (n, input', raw')"
    by (auto simp: read_header_def result_simps split: if_splits list.splits)
  from read_body_cases [OF body] read_blob_body_rest have "length input' \<le> length s'" by auto
  with read_line_raw_rest [OF line] input show ?thesis by simp
qed

function read_loop :: "bytes \<Rightarrow> bytes \<Rightarrow> nat list \<Rightarrow> app_error + bytes \<times> bytes" where
  "read_loop input raw [] = Inr (raw, input)"
| "read_loop input raw (0 # pending) = read_loop input raw pending"
| "read_loop input raw (Suc r # pending) =
     (if length (r # pending) > MAX_FRAME_DEPTH
      then Inl (invalid_data ''RESP nesting exceeds 128 levels'')
      else and_then (read_header input raw) (\<lambda>result.
        read_loop (fst (snd result)) (snd (snd result))
          (if fst result > 0 then fst result # r # pending else r # pending)))"
  by pat_completeness auto
termination
  by (relation "measures [\<lambda>(input, raw, pending). length input, \<lambda>(input, raw, pending). length pending]")
    (auto dest: read_header_shorter)

definition read_raw_frame :: "bytes \<Rightarrow> app_error + bytes \<times> bytes" where
  "read_raw_frame input = read_loop input [] [1]"

lemma read_loop_split:
  assumes "read_loop input raw pending = Inr (raw', input')" and "length raw \<le> MAX_FRAME_BYTES"
  shows "\<exists>d. input = d @ input' \<and> raw' = raw @ d \<and> length raw' \<le> MAX_FRAME_BYTES"
  using assms
proof (induction input raw pending rule: read_loop.induct)
  case (3 input raw r pending)
  from "3.prems"(1) obtain n inp1 raw1 where
    h: "read_header input raw = Inr (n, inp1, raw1)"
    and rec: "read_loop inp1 raw1 (if n > 0 then n # r # pending else r # pending) = Inr (raw', input')"
    and dep: "\<not> length (r # pending) > MAX_FRAME_DEPTH"
    by (auto simp: result_simps split: if_splits)
  from read_header_split [OF h "3.prems"(2)] obtain d where
    d: "input = d @ inp1" "raw1 = raw @ d" "length raw1 \<le> MAX_FRAME_BYTES" by blast
  have "\<exists>e. inp1 = e @ input' \<and> raw' = raw1 @ e \<and> length raw' \<le> MAX_FRAME_BYTES"
    using "3.IH" [OF dep h] rec d(3) by (simp split: if_splits)
  then obtain e where "inp1 = e @ input'" "raw' = raw1 @ e" "length raw' \<le> MAX_FRAME_BYTES"
    by blast
  with d show ?case by (intro exI [of _ "d @ e"]) simp
qed auto

end
