(* ===== verification/Resp_Roundtrip.thy ===== *)
theory Resp_Roundtrip
  imports Resp
begin

text \<open>
  What the wire format promises: the encoder's equations, the round trip through the parser and
  through the reader, the limits on depth and size that parsing enforces, and the effect of
  overriding one length header.
\<close>

section \<open>Frames as trees\<close>

text \<open>The direct children of a frame, in encoding order (\<open>mutation.rs\<close>, \<open>for_each_child\<close>).\<close>

fun children :: "frame \<Rightarrow> frame list" where
  "children (Array (Some items)) = items"
| "children (Set items) = items"
| "children (Push items) = items"
| "children (Map items) = concat (map (\<lambda>(k, v). [k, v]) items)"
| "children (Attribute items) = concat (map (\<lambda>(k, v). [k, v]) items)"
| "children _ = []"

lemma size_pairs_member:
  "(k, v) \<in> set items \<Longrightarrow> size k < size_list (size_prod size size) items"
  "(k, v) \<in> set items \<Longrightarrow> size v < size_list (size_prod size size) items"
  by (induction items) auto

lemma size_items_member: "c \<in> set items \<Longrightarrow> size c < Suc (size_list size items)"
  by (induction items) auto

lemma children_size [termination_simp]: "c \<in> set (children f) \<Longrightarrow> size c < size f"
  by (cases f rule: children.cases)
    (auto dest: size_items_member size_pairs_member less_SucI)

lemma frame_induct [case_names Frame]:
  assumes "\<And>f. (\<And>c. c \<in> set (children f) \<Longrightarrow> P c) \<Longrightarrow> P f"
  shows "P f"
  by (induction f rule: measure_induct_rule [of size]) (use assms children_size in blast)

fun frame_count :: "frame \<Rightarrow> nat" where
  "frame_count f = Suc (sum_list (map frame_count (children f)))"

fun frame_depth :: "frame \<Rightarrow> nat" where
  "frame_depth f = Suc (foldr max (map frame_depth (children f)) 0)"

declare frame_count.simps [simp del] frame_depth.simps [simp del]

lemma frame_depth_child: "c \<in> set (children f) \<Longrightarrow> frame_depth c < frame_depth f"
proof -
  have "x \<in> set xs \<Longrightarrow> x \<le> foldr max xs (0::nat)" for x xs by (induction xs) auto
  then show "c \<in> set (children f) \<Longrightarrow> frame_depth c < frame_depth f"
    by (subst (2) frame_depth.simps) (simp add: less_Suc_eq_le)
qed

section \<open>The encoder\<close>

lemma run_seq_None:
  assumes "\<And>c i. c \<in> set cs \<Longrightarrow> encode_into None c i = (encode c, i + frame_count c)"
  shows "run_seq (map (encode_into None) cs) i
    = (concat (map encode cs), i + sum_list (map frame_count cs))"
  using assms by (induction cs arbitrary: i) (auto simp: add.assoc)

lemma encode_pairs_children:
  "concat (map (\<lambda>(k, v). [encode_into h k, encode_into h v]) items)
   = map (encode_into h) (concat (map (\<lambda>(k, v). [k, v]) items))"
  by (induction items) auto

lemma encode_into_bulk:
  "encode_into h (BulkString v) =
     (case v of Some b \<Rightarrow> emit_blob h CHR ''$'' b | None \<Rightarrow> emit_null h CHR ''$'')"
  by (cases v) simp_all

definition encode_all :: "frame list \<Rightarrow> bytes" where
  "encode_all fs = concat (map encode fs)"

lemma encode_into_None: "encode_into None f i = (encode f, i + frame_count f)"
proof (induction f arbitrary: i rule: frame_induct)
  case (Frame f)
  have seq: "run_seq (map (encode_into None) (children f)) j
      = (encode_all (children f), j + sum_list (map frame_count (children f)))" for j
    unfolding encode_all_def using Frame by (rule run_seq_None)
  show ?case unfolding encode_def
    by (cases f rule: children.cases)
      (use seq in \<open>auto simp: frame_count.simps emit_line_def emit_null_def emit_blob_def
        emit_aggregate_def header_at_def encode_pairs_children encode_into_bulk
        split: option.splits\<close>)
qed

text \<open>The equations of \<open>Frame::encode\<close>.\<close>

lemma encode_eqs [encode_simps]:
  "encode (SimpleString v) = push_line CHR ''+'' v"
  "encode (SimpleError v) = push_line CHR ''-'' v"
  "encode (Integer w) = push_line CHR '':'' (show_int (sint w))"
  "encode (BulkString (Some b)) = push_blob CHR ''$'' b None"
  "encode (BulkString None) = push_line CHR ''$'' ''-1''"
  "encode (Array None) = push_line CHR ''*'' ''-1''"
  "encode Null = push_line CHR ''_'' []"
  "encode (Boolean t) = push_line CHR ''#'' (if t then ''t'' else ''f'')"
  "encode (Double v) = push_line CHR '','' v"
  "encode (BigNumber v) = push_line CHR ''('' v"
  "encode (BulkError b) = push_blob CHR ''!'' b None"
  "encode (VerbatimString b) = push_blob CHR ''='' b None"
  "encode (Inline parts) = join '' '' parts @ crlf"
  by (simp_all add: encode_def emit_line_def emit_null_def emit_blob_def header_at_def)

lemma encode_aggregate:
  "run_seq (map (encode_into None) cs) i = (encode_all cs, i + sum_list (map frame_count cs))"
  unfolding encode_all_def by (rule run_seq_None) (rule encode_into_None)

lemma encode_aggregates [encode_simps]:
  "encode (Array (Some items)) = push_line CHR ''*'' (show_nat (length items)) @ encode_all items"
  "encode (Set items) = push_line CHR ''~'' (show_nat (length items)) @ encode_all items"
  "encode (Push items) = push_line CHR ''>'' (show_nat (length items)) @ encode_all items"
  "encode (Map kvs) = push_line CHR ''%'' (show_nat (length kvs))
     @ encode_all (children (Map kvs))"
  "encode (Attribute kvs) = push_line CHR ''|'' (show_nat (length kvs))
     @ encode_all (children (Attribute kvs))"
  by (simp_all add: encode_def [of "Array _"] encode_def [of "Set _"] encode_def [of "Push _"]
      encode_def [of "Map _"] encode_def [of "Attribute _"] emit_aggregate_def encode_aggregate
      encode_pairs_children or_len_def header_at_def)

lemma encode_all_simps [simp, encode_simps]:
  "encode_all [] = []"
  "encode_all (f # fs) = encode f @ encode_all fs"
  "encode_all (fs @ gs) = encode_all fs @ encode_all gs"
  by (simp_all add: encode_all_def)

section \<open>Frames the format can carry\<close>

text \<open>
  A line must be UTF-8 and free of line feeds; a \<open>usize\<close> length must fit in an \<open>i64\<close>; an inline
  command has at least one word, no empty word, no whitespace in a word, and does not start
  like another frame.
\<close>

definition line_ok :: "string \<Rightarrow> bool" where
  "line_ok v \<longleftrightarrow> is_utf8 v \<and> CHR 0x0A \<notin> set v"

definition type_prefixes :: "char list" where
  "type_prefixes = ''+-:$*_#,(!=%~>|''"

definition inline_ok :: "bytes list \<Rightarrow> bool" where
  "inline_ok parts \<longleftrightarrow> parts \<noteq> [] \<and> hd (hd parts) \<notin> set type_prefixes
     \<and> (\<forall>w\<in>set parts. w \<noteq> [] \<and> (\<forall>c\<in>set w. \<not> is_ascii_whitespace c))"

fun node_ok :: "frame \<Rightarrow> bool" where
  "node_ok (SimpleString v) = line_ok v"
| "node_ok (SimpleError v) = line_ok v"
| "node_ok (Double v) = line_ok v"
| "node_ok (BigNumber v) = line_ok v"
| "node_ok (Inline parts) = inline_ok parts"
| "node_ok _ = True"

fun wf_frame :: "frame \<Rightarrow> bool" where
  "wf_frame f = (node_ok f \<and> list_all wf_frame (children f))"

declare wf_frame.simps [simp del]

lemma wf_children: "wf_frame f \<Longrightarrow> c \<in> set (children f) \<Longrightarrow> wf_frame c"
  by (subst (asm) (1) wf_frame.simps) (simp add: list_all_iff)

lemma wf_node: "wf_frame f \<Longrightarrow> node_ok f"
  by (subst (asm) wf_frame.simps) simp

section \<open>Lines\<close>

lemma take_line_crlf: "CHR 0x0A \<notin> set v \<Longrightarrow> take_line (v @ crlf @ r) = Some (v, r)"
proof (induction v)
  case Nil
  then show ?case by (simp add: crlf_def)
next
  case (Cons c v)
  then show ?case by (cases v) (auto simp: crlf_def)
qed

lemma take_raw_line_crlf: "CHR 0x0A \<notin> set v \<Longrightarrow> take_raw_line (v @ crlf @ r) = Inr (v, r)"
  by (simp add: take_raw_line_def take_line_crlf)

lemma take_utf8_line_crlf: "line_ok v \<Longrightarrow> take_utf8_line (v @ crlf @ r) = Inr (v, r)"
  by (simp add: take_utf8_line_def take_raw_line_crlf line_ok_def)

lemma digits_no_lf: "\<forall>c\<in>set v. is_ascii_digit c \<Longrightarrow> CHR 0x0A \<notin> set v"
  by (auto simp: ascii_defs)

lemma line_ok_show_nat [simp]: "line_ok (show_nat n)"
  using show_nat_digits [of n] by (simp add: line_ok_def digits_no_lf)

lemma line_ok_show_int [simp]: "line_ok (show_int i)"
proof -
  have "CHR 0x0A \<notin> set (show_nat n)" for n using line_ok_show_nat [of n] by (simp add: line_ok_def)
  then show ?thesis by (simp add: line_ok_def) (simp add: show_int_def)
qed

lemma take_i64_line_show: "take_i64_line (show_int (sint w) @ crlf @ r) = Inr (w, r)"
  by (simp add: take_i64_line_def take_utf8_line_crlf)

lemma take_i64_line_minus1: "take_i64_line (''-1'' @ crlf @ r) = Inr (- 1, r)"
  using take_i64_line_show [of "- 1" r] by (simp add: show_int_def show_nat.simps digit_char_def)

text \<open>A length as the \<open>i64\<close> the parser reads it as.\<close>

definition i64_of_nat :: "nat \<Rightarrow> i64" where
  "i64_of_nat n = word_of_int (int n)"

lemma sint_of_nat: "n < 2 ^ 63 \<Longrightarrow> sint (i64_of_nat n) = int n"
  unfolding i64_of_nat_def by (subst sint_sbintrunc') (simp add: signed_take_bit_int_eq_self)

lemma take_i64_line_nat:
  assumes "n < 2 ^ 63"
  shows "take_i64_line (show_nat n @ crlf @ r) = Inr (i64_of_nat n, r)"
  using assms by (simp add: take_i64_line_def take_utf8_line_crlf parse_i64_show_nat i64_of_nat_def)

section \<open>Parsing what was encoded\<close>

lemma join_no_lf: "CHR 0x0A \<notin> set sep \<Longrightarrow> \<forall>w\<in>set ws. CHR 0x0A \<notin> set w \<Longrightarrow> CHR 0x0A \<notin> set (join sep ws)"
  by (induction sep ws rule: join.induct) auto

lemma inline_no_lf: "inline_ok parts \<Longrightarrow> CHR 0x0A \<notin> set (join '' '' parts)"
  by (rule join_no_lf) (auto simp: inline_ok_def is_ascii_whitespace_def)

lemma inline_first:
  assumes "inline_ok parts"
  obtains c cs where "join '' '' parts = c # cs" "c \<notin> set type_prefixes"
proof -
  from assms obtain w ws where p: "parts = w # ws" "w \<noteq> []" "hd w \<notin> set type_prefixes"
    by (cases parts) (auto simp: inline_ok_def)
  then obtain c cs where w: "w = c # cs" by (cases w) auto
  have "\<exists>t. join '' '' parts = c # t" using p w by (cases ws) auto
  then show ?thesis using that p w by auto
qed

lemma shell_words_join: "inline_ok parts \<Longrightarrow> shell_words (join '' '' parts) = parts"
proof -
  assume ok: "inline_ok parts"
  then have "split_by is_ascii_whitespace (join '' '' parts) = parts"
    by (intro split_by_join) (auto simp: inline_ok_def is_ascii_whitespace_def)
  moreover have "filter (\<lambda>w. w \<noteq> []) parts = parts"
    using ok by (intro filter_True) (auto simp: inline_ok_def)
  ultimately show ?thesis by (simp add: shell_words_def)
qed

lemma length_push_line: "length (push_line c v) = length v + 3"
  by (simp add: push_line_def crlf_def)

lemma length_encode_ge3: "wf_frame f \<Longrightarrow> 3 \<le> length (encode f)"
proof (cases f)
  case (Inline parts)
  assume "wf_frame f"
  then have "inline_ok parts" using Inline wf_node by fastforce
  then obtain c cs where "join '' '' parts = c # cs" by (rule inline_first)
  with Inline show ?thesis by (simp add: encode_simps crlf_def)
next
  case (BulkString v)
  then show ?thesis by (cases v) (simp_all add: encode_simps length_push_line push_blob_def)
next
  case (Array v)
  then show ?thesis by (cases v) (simp_all add: encode_simps length_push_line)
qed (simp_all add: encode_simps length_push_line push_blob_def)

lemma length_encode_all_ge3:
  "\<forall>f\<in>set fs. wf_frame f \<Longrightarrow> 3 * length fs \<le> length (encode_all fs)"
  by (induction fs) (auto dest: length_encode_ge3)

lemma length_pair_children: "length (concat (map (\<lambda>(k, v). [k, v]) kvs)) = 2 * length kvs"
  by (induction kvs) auto

lemma take_blob_crlf:
  "length b < 2 ^ 63 \<Longrightarrow> take_blob (i64_of_nat (length b)) (b @ crlf @ r) = Inr (b, r)"
  by (simp add: take_blob_def usize_len_def sint_of_nat crlf_def)

lemma validate_nat:
  "n < 2 ^ 63 \<Longrightarrow> 0 < m \<Longrightarrow> m * n \<le> length s
   \<Longrightarrow> validate_sequence_len (i64_of_nat n) m s = Inr n"
  by (simp add: validate_sequence_len_def usize_len_def sint_of_nat not_less
      less_eq_div_iff_mult_less_eq mult.commute)

lemma parse_n_items:
  assumes "\<And>f r. f \<in> set fs \<Longrightarrow> p (encode f @ r) = Inr (f, r)"
  shows "parse_n p (length fs) (encode_all fs @ r) = Inr (fs, r)"
  using assms by (induction fs arbitrary: r) auto

lemma parse_n_pairs:
  assumes "\<And>f r. f \<in> set (concat (map (\<lambda>(k, v). [k, v]) kvs)) \<Longrightarrow> p (encode f @ r) = Inr (f, r)"
  shows "parse_n (parse_pair p) (length kvs)
      (encode_all (concat (map (\<lambda>(k, v). [k, v]) kvs)) @ r) = Inr (kvs, r)"
  using assms by (induction kvs arbitrary: r) (auto simp: parse_pair_def)

lemma blob_header:
  "length b < 2 ^ 63 \<Longrightarrow>
   take_i64_line (show_nat (length b) @ crlf @ b @ crlf @ r) = Inr (i64_of_nat (length b), b @ crlf @ r)"
  by (rule take_i64_line_nat)

lemma i64_of_nat_neq_minus1: "n < 2 ^ 63 \<Longrightarrow> i64_of_nat n \<noteq> - 1"
  using sint_of_nat [of n] by auto

lemma parse_blobs:
  assumes "length b < 2 ^ 63"
  shows "parse_optional_blob (show_nat (length b) @ crlf @ b @ crlf @ r) = Inr (Some b, r)"
    and "parse_required_blob (show_nat (length b) @ crlf @ b @ crlf @ r) = Inr (b, r)"
  using assms by (simp_all add: parse_optional_blob_def parse_required_blob_def blob_header
      take_blob_crlf i64_of_nat_neq_minus1 sint_of_nat)

lemma parse_sequences:
  assumes small: "length fs < 2 ^ 63" and wf: "\<forall>f\<in>set fs. wf_frame f"
    and p: "\<And>f r. f \<in> set fs \<Longrightarrow> p (encode f @ r) = Inr (f, r)"
  shows "parse_optional_sequence p (show_nat (length fs) @ crlf @ encode_all fs @ r) = Inr (Some fs, r)"
    and "parse_sequence p (show_nat (length fs) @ crlf @ encode_all fs @ r) = Inr (fs, r)"
proof -
  have "validate_sequence_len (i64_of_nat (length fs)) 3 (encode_all fs @ r) = Inr (length fs)"
    using small length_encode_all_ge3 [OF wf] by (intro validate_nat) simp_all
  then have "read_sequence p (i64_of_nat (length fs)) (encode_all fs @ r) = Inr (fs, r)"
    using parse_n_items [of fs p r] p by (simp add: read_sequence_def)
  then show "parse_optional_sequence p (show_nat (length fs) @ crlf @ encode_all fs @ r) = Inr (Some fs, r)"
    and "parse_sequence p (show_nat (length fs) @ crlf @ encode_all fs @ r) = Inr (fs, r)"
    using small by (simp_all add: parse_optional_sequence_def parse_sequence_def
        take_i64_line_nat i64_of_nat_neq_minus1 sint_of_nat)
qed

lemma parse_map:
  assumes small: "length kvs < 2 ^ 63" and wf: "\<forall>f\<in>set (concat (map (\<lambda>(k, v). [k, v]) kvs)). wf_frame f"
    and p: "\<And>f r. f \<in> set (concat (map (\<lambda>(k, v). [k, v]) kvs)) \<Longrightarrow> p (encode f @ r) = Inr (f, r)"
  shows "parse_map_like p (show_nat (length kvs) @ crlf
      @ encode_all (concat (map (\<lambda>(k, v). [k, v]) kvs)) @ r) = Inr (kvs, r)"
proof -
  let ?cs = "concat (map (\<lambda>(k, v). [k, v]) kvs)"
  have "6 * length kvs \<le> length (encode_all ?cs)"
    using length_encode_all_ge3 [OF wf] unfolding length_pair_children by simp
  then have "validate_sequence_len (i64_of_nat (length kvs)) 6 (encode_all ?cs @ r)
      = Inr (length kvs)"
    using small by (intro validate_nat) simp_all
  then show ?thesis
    using small parse_n_pairs [of kvs p r] p
    by (simp add: parse_map_like_def take_i64_line_nat sint_of_nat)
qed

text \<open>
  Dispatching on the prefix byte. The equations hold for any child parser, so that one
  induction over frames carries every case of the round trip.
\<close>

lemma parse_line_frames:
  "line_ok v \<Longrightarrow> parse_frame_inner p (push_line CHR ''+'' v @ r) = Inr (SimpleString v, r)"
  "line_ok v \<Longrightarrow> parse_frame_inner p (push_line CHR ''-'' v @ r) = Inr (SimpleError v, r)"
  "line_ok v \<Longrightarrow> parse_frame_inner p (push_line CHR '','' v @ r) = Inr (Double v, r)"
  "line_ok v \<Longrightarrow> parse_frame_inner p (push_line CHR ''('' v @ r) = Inr (BigNumber v, r)"
  by (simp_all add: parse_frame_inner_def push_line_def take_utf8_line_crlf build_def)

lemma parse_fixed_frames:
  "parse_frame_inner p (push_line CHR '':'' (show_int (sint w)) @ r) = Inr (Integer w, r)"
  "parse_frame_inner p (push_line CHR ''$'' ''-1'' @ r) = Inr (BulkString None, r)"
  "parse_frame_inner p (push_line CHR ''*'' ''-1'' @ r) = Inr (Array None, r)"
  "parse_frame_inner p (push_line CHR ''_'' [] @ r) = Inr (Null, r)"
  "parse_frame_inner p (push_line CHR ''#'' (if t then ''t'' else ''f'') @ r) = Inr (Boolean t, r)"
  using take_i64_line_minus1 [of r] take_raw_line_crlf [of "[]" r]
    take_raw_line_crlf [of "''t''" r] take_raw_line_crlf [of "''f''" r]
  by (simp_all add: parse_frame_inner_def push_line_def take_i64_line_show build_def
      parse_optional_blob_def parse_optional_sequence_def)

lemma length_push_blob: "length (push_blob c b None) < n \<Longrightarrow> length b < n"
  by (simp add: push_blob_def)

lemma parse_blob_frames:
  assumes "length b < 2 ^ 63"
  shows "parse_frame_inner p (push_blob CHR ''$'' b None @ r) = Inr (BulkString (Some b), r)"
    and "parse_frame_inner p (push_blob CHR ''!'' b None @ r) = Inr (BulkError b, r)"
    and "parse_frame_inner p (push_blob CHR ''='' b None @ r) = Inr (VerbatimString b, r)"
  using parse_blobs [OF assms]
  by (simp_all add: parse_frame_inner_def push_blob_def push_line_def build_def)

lemma parse_pushed_blobs:
  "length (push_blob CHR ''$'' b None) < 2 ^ 63
   \<Longrightarrow> parse_frame_inner p (push_blob CHR ''$'' b None @ r) = Inr (BulkString (Some b), r)"
  "length (push_blob CHR ''!'' b None) < 2 ^ 63
   \<Longrightarrow> parse_frame_inner p (push_blob CHR ''!'' b None @ r) = Inr (BulkError b, r)"
  "length (push_blob CHR ''='' b None) < 2 ^ 63
   \<Longrightarrow> parse_frame_inner p (push_blob CHR ''='' b None @ r) = Inr (VerbatimString b, r)"
  by (intro parse_blob_frames, drule length_push_blob, assumption)+

lemma parse_bulk_frame:
  "length (encode (BulkString v)) < 2 ^ 63
   \<Longrightarrow> parse_frame_inner p (encode (BulkString v) @ r) = Inr (BulkString v, r)"
  by (cases v) (simp_all add: encode_eqs parse_fixed_frames parse_pushed_blobs)

lemma parse_aggregate_frames:
  assumes "length fs < 2 ^ 63" and "\<forall>f\<in>set fs. wf_frame f"
    and "\<And>f r. f \<in> set fs \<Longrightarrow> p (encode f @ r) = Inr (f, r)"
  shows "parse_frame_inner p (encode (Array (Some fs)) @ r) = Inr (Array (Some fs), r)"
    and "parse_frame_inner p (encode (Set fs) @ r) = Inr (Set fs, r)"
    and "parse_frame_inner p (encode (Push fs) @ r) = Inr (Push fs, r)"
  using parse_sequences [OF assms]
  by (simp_all add: parse_frame_inner_def encode_simps push_line_def build_def)

lemma children_Map_Attribute: "children (Map kvs) = children (Attribute kvs)"
  by simp

lemma parse_map_frames:
  assumes "length kvs < 2 ^ 63" and "\<forall>f\<in>set (children (Map kvs)). wf_frame f"
    and "\<And>f r. f \<in> set (children (Map kvs)) \<Longrightarrow> p (encode f @ r) = Inr (f, r)"
  shows "parse_frame_inner p (encode (Map kvs) @ r) = Inr (Map kvs, r)"
    and "parse_frame_inner p (encode (Attribute kvs) @ r) = Inr (Attribute kvs, r)"
proof -
  have eq: "children (Map kvs) = concat (map (\<lambda>(k, v). [k, v]) kvs)"
    "children (Attribute kvs) = concat (map (\<lambda>(k, v). [k, v]) kvs)" by simp_all
  have "parse_map_like p (show_nat (length kvs) @ crlf
      @ encode_all (concat (map (\<lambda>(k, v). [k, v]) kvs)) @ r) = Inr (kvs, r)"
    using assms unfolding eq by (intro parse_map) simp_all
  then show "parse_frame_inner p (encode (Map kvs) @ r) = Inr (Map kvs, r)"
    and "parse_frame_inner p (encode (Attribute kvs) @ r) = Inr (Attribute kvs, r)"
    unfolding encode_aggregates eq
    by (simp_all add: parse_frame_inner_def push_line_def build_def)
qed

lemma parse_inline_frame:
  assumes "inline_ok parts"
  shows "parse_frame_inner p (encode (Inline parts) @ r) = Inr (Inline parts, r)"
proof -
  from assms obtain c cs where j: "join '' '' parts = c # cs" and c: "c \<notin> set type_prefixes"
    by (rule inline_first)
  have "take_raw_line ((c # cs) @ crlf @ r) = Inr (c # cs, r)"
    using inline_no_lf [OF assms] j by (intro take_raw_line_crlf) simp
  then have "parse_inline c (cs @ crlf @ r) = Inr (Inline parts, r)"
    using shell_words_join [OF assms] assms j by (simp add: parse_inline_def inline_ok_def)
  then show ?thesis
    using c j by (simp add: encode_simps parse_frame_inner_def type_prefixes_def)
qed

lemma length_encode_child:
  "c \<in> set (children f) \<Longrightarrow> length (encode c) < length (encode f)"
proof -
  have le: "x \<in> set xs \<Longrightarrow> length (encode x) \<le> length (encode_all xs)" for x xs
    by (induction xs) auto
  show "c \<in> set (children f) \<Longrightarrow> length (encode c) < length (encode f)"
    by (cases f rule: children.cases)
      (use le [of c "children f"] in \<open>auto simp: encode_aggregates length_push_line\<close>)
qed

lemma length_items_encode:
  "\<forall>f\<in>set fs. wf_frame f \<Longrightarrow> length (encode_all fs) < n \<Longrightarrow> length fs < n"
  using length_encode_all_ge3 [of fs] by simp

lemma parse_at_encode:
  assumes "wf_frame f" and "frame_depth f \<le> k" and "length (encode f) < 2 ^ 63"
  shows "parse_at k (encode f @ r) = Inr (f, r)"
  using assms
proof (induction f arbitrary: k r rule: frame_induct)
  case (Frame f)
  obtain j where k: "k = Suc j" using Frame.prems(2) by (cases k) (auto simp: frame_depth.simps)
  let ?p = "parse_at j"
  have IH: "c \<in> set (children f) \<Longrightarrow> ?p (encode c @ r) = Inr (c, r)" for c r
    by (rule Frame.IH) (use Frame.prems frame_depth_child [of c f] length_encode_child [of c f] k
      in \<open>auto intro: wf_children\<close>)
  have wf: "\<forall>c\<in>set (children f). wf_frame c" using Frame.prems(1) wf_children by blast
  have small: "length (children f) < 2 ^ 63"
    using length_encode_child [of _ f] length_items_encode [OF wf, of "2 ^ 63"] Frame.prems(3)
    by (cases f rule: children.cases) (simp_all add: encode_aggregates)
  note node = wf_node [OF Frame.prems(1)]
  have "parse_frame_inner ?p (encode f @ r) = Inr (f, r)"
  proof (cases f rule: children.cases)
    case (1 items)
    then show ?thesis using IH wf small by (simp add: parse_aggregate_frames(1))
  next
    case (2 items)
    then show ?thesis using IH wf small by (simp add: parse_aggregate_frames(2))
  next
    case (3 items)
    then show ?thesis using IH wf small by (simp add: parse_aggregate_frames(3))
  next
    case (4 kvs)
    then have "length kvs < 2 ^ 63" using small length_pair_children [of kvs] by simp
    then show ?thesis using 4 IH wf by (simp add: parse_map_frames(1) del: children.simps)
  next
    case (5 kvs)
    then have "length kvs < 2 ^ 63" using small length_pair_children [of kvs] by simp
    moreover from 5 IH wf have "\<forall>f\<in>set (children (Map kvs)). wf_frame f"
      and "\<And>f r. f \<in> set (children (Map kvs)) \<Longrightarrow> ?p (encode f @ r) = Inr (f, r)"
      by (simp_all only: children_Map_Attribute)
    ultimately show ?thesis unfolding 5(1) by (rule parse_map_frames(2))
  qed (use node Frame.prems(3) in \<open>simp_all add: encode_eqs(1-3,6-12) parse_line_frames
        parse_fixed_frames parse_bulk_frame parse_pushed_blobs parse_inline_frame\<close>)
  then show ?case by (simp add: k)
qed

section \<open>What parsing enforces\<close>

text \<open>A parsed frame is never nested deeper than the budget, whatever the input says.\<close>

lemma parse_n_forall:
  assumes "parse_n p n s = Inr (xs, r)" and "\<And>s x r. p s = Inr (x, r) \<Longrightarrow> P x"
  shows "\<forall>x\<in>set xs. P x"
  using assms(1) by (induction n arbitrary: s xs) (auto simp: result_simps dest: assms(2))

lemma frame_depth_leaf: "children f = [] \<Longrightarrow> frame_depth f = 1"
  by (subst frame_depth.simps) simp

lemma frame_depth_le: "\<forall>c\<in>set (children f). frame_depth c \<le> k \<Longrightarrow> frame_depth f \<le> Suc k"
proof -
  have "\<forall>x\<in>set xs. x \<le> k \<Longrightarrow> foldr max xs (0::nat) \<le> k" for xs by (induction xs) auto
  then show "\<forall>c\<in>set (children f). frame_depth c \<le> k \<Longrightarrow> frame_depth f \<le> Suc k"
    by (subst frame_depth.simps) simp
qed

lemma build_Inr: "build g m = Inr (f, r) \<longleftrightarrow> (\<exists>x. m = Inr (x, r) \<and> f = g x)"
  by (auto simp: build_def result_simps)

lemma read_sequence_items:
  "read_sequence p n s = Inr (xs, r) \<Longrightarrow> \<exists>m. parse_n p m s = Inr (xs, r)"
  by (auto simp: read_sequence_def result_simps)

lemma parse_optional_sequence_items:
  "parse_optional_sequence p s = Inr (Some xs, r) \<Longrightarrow> \<exists>m s'. parse_n p m s' = Inr (xs, r)"
  by (auto simp: parse_optional_sequence_def result_simps dest!: read_sequence_items split: if_splits)

lemma parse_sequence_items:
  "parse_sequence p s = Inr (xs, r) \<Longrightarrow> \<exists>m s'. parse_n p m s' = Inr (xs, r)"
  by (auto simp: parse_sequence_def result_simps dest!: read_sequence_items split: if_splits)

lemma parse_map_like_items:
  "parse_map_like p s = Inr (kvs, r) \<Longrightarrow> \<exists>m s'. parse_n (parse_pair p) m s' = Inr (kvs, r)"
  by (auto simp: parse_map_like_def result_simps split: if_splits)

lemma parse_frame_inner_children:
  assumes "parse_frame_inner p s = Inr (f, r)" and c: "c \<in> set (children f)"
  shows "\<exists>s' r'. p s' = Inr (c, r')"
proof -
  let ?P = "\<lambda>c. \<exists>s' r'. p s' = Inr (c, r')"
  have items: "parse_n p m s = Inr (xs, r) \<Longrightarrow> \<forall>x\<in>set xs. ?P x" for m s xs r
    by (rule parse_n_forall) auto
  have pairs: "parse_n (parse_pair p) m s = Inr (kvs, r) \<Longrightarrow> \<forall>kv\<in>set kvs. ?P (fst kv) \<and> ?P (snd kv)"
    for m s kvs r
  proof (erule parse_n_forall)
    fix s kv r
    assume "parse_pair p s = Inr (kv, r)"
    then obtain a b t u where "kv = (a, b)" "p s = Inr (a, t)" "p t = Inr (b, u)"
      by (auto simp: parse_pair_def result_simps)
    then show "?P (fst kv) \<and> ?P (snd kv)" by auto
  qed
  consider (opt) xs s' where "f = Array (Some xs)" "parse_optional_sequence p s' = Inr (Some xs, r)"
    | (seq) xs s' where "f = Set xs \<or> f = Push xs" "parse_sequence p s' = Inr (xs, r)"
    | (map) kvs s' where "f = Map kvs \<or> f = Attribute kvs" "parse_map_like p s' = Inr (kvs, r)"
    | (leaf) "children f = []"
    using assms(1)
    by (cases f rule: children.cases)
      (auto simp: parse_frame_inner_def build_Inr parse_inline_def result_simps Let_def
        split: list.splits if_splits)
  then show ?thesis
  proof cases
    case opt
    then show ?thesis using c by (auto dest!: parse_optional_sequence_items dest: items)
  next
    case seq
    then show ?thesis using c by (auto dest!: parse_sequence_items dest: items)
  next
    case map
    then show ?thesis using c by (fastforce dest!: parse_map_like_items dest: pairs)
  qed (use c in simp)
qed

lemma parse_at_depth: "parse_at k s = Inr (f, r) \<Longrightarrow> frame_depth f \<le> k"
proof (induction k arbitrary: s f r)
  case (Suc k)
  then have "\<forall>c\<in>set (children f). frame_depth c \<le> k"
    by (auto dest!: parse_frame_inner_children)
  then show ?case by (rule frame_depth_le)
qed simp


section \<open>Reading what was encoded\<close>

text \<open>A frame is its own header (and blob body) followed by its children.\<close>

fun frame_head :: "frame \<Rightarrow> bytes" where
  "frame_head (Array (Some items)) = push_line CHR ''*'' (show_nat (length items))"
| "frame_head (Set items) = push_line CHR ''~'' (show_nat (length items))"
| "frame_head (Push items) = push_line CHR ''>'' (show_nat (length items))"
| "frame_head (Map kvs) = push_line CHR ''%'' (show_nat (length kvs))"
| "frame_head (Attribute kvs) = push_line CHR ''|'' (show_nat (length kvs))"
| "frame_head f = encode f"

lemma encode_head: "encode f = frame_head f @ encode_all (children f)"
  by (cases f rule: children.cases) (simp_all add: encode_aggregates)

lemma until_lf_crlf: "CHR 0x0A \<notin> set v \<Longrightarrow> until_lf (v @ crlf @ r) = v @ crlf"
  by (induction v) (auto simp: crlf_def)

lemma until_lf_line:
  assumes "CHR 0x0A \<notin> set v" and "length v + 2 \<le> n"
  shows "until_lf (take n (v @ crlf @ r)) = v @ crlf"
proof -
  obtain m where "n = length v + Suc (Suc m)" using assms(2) by (auto simp: le_iff_add)
  then have "take n (v @ crlf @ r) = v @ crlf @ take m r" by (simp add: crlf_def)
  then show ?thesis using assms(1) by (simp add: until_lf_crlf)
qed

lemma ends_with_crlf_append [simp]: "ends_with_crlf (v @ crlf)"
  by (simp add: ends_with_crlf_def crlf_def)

lemma read_line_raw_crlf:
  assumes "CHR 0x0A \<notin> set v" and "length raw + length v + 2 \<le> MAX_FRAME_BYTES"
  shows "read_line_raw (v @ crlf @ r) raw = Inr (v, r, raw @ v @ crlf)"
proof -
  have "until_lf (take (MAX_FRAME_BYTES - length raw) (v @ crlf @ r)) = v @ crlf"
    using assms by (intro until_lf_line) simp_all
  then show ?thesis by (simp add: read_line_raw_def Let_def) (simp add: crlf_def)
qed

lemma read_blob_body_crlf:
  assumes "length raw + length b + 2 \<le> MAX_FRAME_BYTES"
  shows "read_blob_body (length b) (b @ crlf @ r) raw = Inr (r, raw @ b @ crlf)"
proof -
  have "length b + 2 < 2 ^ 64" using assms by (simp add: MAX_FRAME_BYTES_def)
  moreover have "take (length b + 2) (b @ crlf @ r) = b @ crlf" by (simp add: crlf_def)
  ultimately show ?thesis using assms ends_with_crlf_append [of "raw @ b"]
    by (simp add: read_blob_body_def Let_def not_le) (simp add: crlf_def)
qed

lemma parse_len_nat:
  assumes "n < 2 ^ 63"
  shows "parse_len (show_nat n) nullable = Inr (Some n)"
proof -
  have "parse_i64 (show_nat n) = Inr (i64_of_nat n)"
    using assms by (simp add: parse_i64_show_nat i64_of_nat_def)
  then show ?thesis
    using assms line_ok_show_nat [of n]
    by (simp add: parse_len_def line_ok_def sint_of_nat i64_of_nat_neq_minus1)
qed

lemma parse_len_minus1: "parse_len ''-1'' True = Inr None"
proof -
  have "show_int (sint (- 1 :: i64)) = ''-1''"
    by (simp add: show_int_def show_nat.simps digit_char_def)
  then have "parse_i64 ''-1'' = Inr (- 1)" "is_utf8 ''-1''"
    using parse_i64_show [of "- 1"] line_ok_show_int [of "- 1"] by (simp_all add: line_ok_def)
  then show ?thesis by (simp add: parse_len_def)
qed

lemma read_header_line:
  assumes "CHR 0x0A \<notin> set v" and "length raw + length v + 3 \<le> MAX_FRAME_BYTES"
  shows "read_header (push_line c v @ r) raw = read_body c v r (raw @ push_line c v)"
  using assms read_line_raw_crlf [of v "raw @ [c]" r]
  by (simp add: read_header_def push_line_def)


lemma length_crlf: "length crlf = 2"
  by (simp add: crlf_def)

lemma read_header_blob:
  assumes "is_blob_prefix c" and "length raw + length (push_blob c b None) \<le> MAX_FRAME_BYTES"
  shows "read_header (push_blob c b None @ r) raw = Inr (0, r, raw @ push_blob c b None)"
proof -
  have n: "length b < 2 ^ 63" and lf: "CHR 0x0A \<notin> set (show_nat (length b))"
    using assms(2) line_ok_show_nat [of "length b"]
    by (simp_all add: push_blob_def MAX_FRAME_BYTES_def line_ok_def)
  have "read_blob_body (length b) (b @ crlf @ r) (raw @ push_line c (show_nat (length b)))
      = Inr (r, (raw @ push_line c (show_nat (length b))) @ b @ crlf)"
    using assms(2) by (intro read_blob_body_crlf) (simp add: push_blob_def length_crlf)
  then have "read_body c (show_nat (length b)) (b @ crlf @ r)
      (raw @ push_line c (show_nat (length b))) = Inr (0, r, raw @ push_blob c b None)"
    using assms(1) n by (simp add: read_body_def parse_len_nat push_blob_def)
  moreover have "length raw + length (show_nat (length b)) + 3 \<le> MAX_FRAME_BYTES"
    using assms(2) by (simp add: push_blob_def length_push_line)
  note read_header_line [OF lf this, of c "b @ crlf @ r"]
  ultimately show ?thesis by (simp add: push_blob_def)
qed

lemma read_header_aggregate:
  assumes c: "is_aggregate_prefix c" "\<not> is_blob_prefix c"
    and k: "k = (if is_pair_prefix c then 2 * n else n)"
    and fits: "length raw + length (push_line c (show_nat n)) + 3 * k \<le> MAX_FRAME_BYTES"
  shows "read_header (push_line c (show_nat n) @ r) raw
    = Inr (k, r, raw @ push_line c (show_nat n))"
proof -
  have n: "n < 2 ^ 62"
    using fits k by (simp add: MAX_FRAME_BYTES_def length_push_line split: if_splits)
  have lf: "CHR 0x0A \<notin> set (show_nat n)"
    using line_ok_show_nat [of n] by (simp add: line_ok_def)
  have "k \<le> (MAX_FRAME_BYTES - length (raw @ push_line c (show_nat n))) div 3"
    using fits by (simp add: less_eq_div_iff_mult_less_eq)
  then have "read_children (is_pair_prefix c) n (raw @ push_line c (show_nat n)) = Inr k"
    using k n by (cases "is_pair_prefix c") (simp_all add: read_children_def Let_def mult.commute)
  then have "read_body c (show_nat n) r (raw @ push_line c (show_nat n))
      = Inr (k, r, raw @ push_line c (show_nat n))"
    using c n by (simp add: read_body_def parse_len_nat)
  then show ?thesis
    using read_header_line [OF lf, of raw c r] fits by (simp add: length_push_line)
qed

lemmas prefix_simps = is_blob_prefix_def is_aggregate_prefix_def is_pair_prefix_def

lemma read_header_plain:
  assumes "\<not> is_blob_prefix c" "\<not> is_aggregate_prefix c" "CHR 0x0A \<notin> set v"
    and "length raw + length v + 3 \<le> MAX_FRAME_BYTES"
  shows "read_header (push_line c v @ r) raw = Inr (0, r, raw @ push_line c v)"
  using assms by (simp add: read_header_line read_body_def)


lemma inline_prefix:
  assumes "c \<notin> set type_prefixes"
  shows "\<not> is_blob_prefix c" "\<not> is_aggregate_prefix c"
  using assms by (auto simp: prefix_simps type_prefixes_def)

lemma read_header_inline:
  assumes ok: "inline_ok parts" and fits: "length raw + length (encode (Inline parts)) \<le> MAX_FRAME_BYTES"
  shows "read_header (encode (Inline parts) @ r) raw = Inr (0, r, raw @ encode (Inline parts))"
proof -
  from ok obtain c cs where j: "join '' '' parts = c # cs" and c: "c \<notin> set type_prefixes"
    by (rule inline_first)
  have e: "encode (Inline parts) = push_line c cs"
    using j by (simp add: encode_eqs push_line_def)
  have "CHR 0x0A \<notin> set cs" using inline_no_lf [OF ok] j by simp
  then show ?thesis
    using fits unfolding e by (intro read_header_plain inline_prefix [OF c]) (simp_all add: length_push_line)
qed

lemma read_header_frame:
  assumes wf: "wf_frame f" and fits: "length raw + length (encode f) \<le> MAX_FRAME_BYTES"
  shows "read_header (encode f @ r) raw
    = Inr (length (children f), encode_all (children f) @ r, raw @ frame_head f)"
proof -
  have fits': "length raw + length (frame_head f) + 3 * length (children f) \<le> MAX_FRAME_BYTES"
    using fits wf_children [OF wf] length_encode_all_ge3 [of "children f"]
    by (simp add: encode_head)
  have lf: "CHR 0x0A \<notin> set (show_nat n)" "CHR 0x0A \<notin> set (show_int i)" for n i
    using line_ok_show_nat [of n] line_ok_show_int [of i] by (simp_all add: line_ok_def)
  have "read_header (frame_head f @ s) raw = Inr (length (children f), s, raw @ frame_head f)" for s
  proof (cases f)
    case (BulkString v)
    then show ?thesis
      using fits fits' read_header_line [of "''-1''" raw "CHR ''$''" s]
      by (cases v) (simp_all add: encode_eqs length_push_line read_header_blob prefix_simps
          read_body_def parse_len_minus1)
  next
    case (Array v)
    then show ?thesis
      using fits fits' read_header_line [of "''-1''" raw "CHR ''*''" s]
      by (cases v) (simp_all add: encode_eqs length_push_line read_header_aggregate prefix_simps
          read_body_def parse_len_minus1)
  qed (use fits fits' wf_node [OF wf] lf in \<open>simp_all add: encode_eqs(1-3,7-12) read_header_plain
      read_header_blob read_header_aggregate read_header_inline prefix_simps length_push_line
      line_ok_def length_pair_children\<close>)
  from this [of "encode_all (children f) @ r"] show ?thesis by (simp add: encode_head [of f])
qed


lemma read_loop_items:
  assumes "\<And>c raw s n. c \<in> set cs \<Longrightarrow> length raw + length (encode c) \<le> MAX_FRAME_BYTES
      \<Longrightarrow> read_loop (encode c @ s) raw (Suc n # pending) = read_loop s (raw @ encode c) (n # pending)"
    and "length raw + length (encode_all cs) \<le> MAX_FRAME_BYTES"
  shows "read_loop (encode_all cs @ s) raw (length cs # pending)
    = read_loop s (raw @ encode_all cs) pending"
  using assms
proof (induction cs arbitrary: raw)
  case (Cons c cs)
  have "read_loop (encode_all (c # cs) @ s) raw (length (c # cs) # pending)
      = read_loop (encode_all cs @ s) (raw @ encode c) (length cs # pending)"
    using Cons.prems(1) [of c raw "encode_all cs @ s" "length cs"] Cons.prems(2) by simp
  also have "\<dots> = read_loop s ((raw @ encode c) @ encode_all cs) pending"
    using Cons.prems by (intro Cons.IH) simp_all
  finally show ?case by simp
qed simp

lemma read_loop_frame:
  assumes "wf_frame f" and "length raw + length (encode f) \<le> MAX_FRAME_BYTES"
    and "length pending + frame_depth f \<le> MAX_FRAME_DEPTH"
  shows "read_loop (encode f @ s) raw (Suc n # pending) = read_loop s (raw @ encode f) (n # pending)"
  using assms
proof (induction f arbitrary: raw s n pending rule: frame_induct)
  case (Frame f)
  have depth: "\<not> length (n # pending) > MAX_FRAME_DEPTH"
    using Frame.prems(3) by (simp add: frame_depth.simps)
  have "read_loop (encode f @ s) raw (Suc n # pending)
      = read_loop (encode_all (children f) @ s) (raw @ frame_head f)
          (length (children f) # n # pending)"
    using depth Frame.prems(1,2) by (simp add: read_header_frame)
  also have "\<dots> = read_loop s ((raw @ frame_head f) @ encode_all (children f)) (n # pending)"
  proof (rule read_loop_items)
    fix c s' m and raw' :: bytes
    assume c: "c \<in> set (children f)" and "length raw' + length (encode c) \<le> MAX_FRAME_BYTES"
    then show "read_loop (encode c @ s') raw' (Suc m # n # pending)
        = read_loop s' (raw' @ encode c) (m # n # pending)"
      using wf_children [OF Frame.prems(1) c] frame_depth_child [OF c] Frame.prems(3)
      by (intro Frame.IH) simp_all
  next
    show "length (raw @ frame_head f) + length (encode_all (children f)) \<le> MAX_FRAME_BYTES"
      using Frame.prems(2) by (simp add: encode_head)
  qed
  finally show ?case by (simp add: encode_head [of f])
qed

section \<open>Overriding one length header\<close>

text \<open>The nodes of a frame in the order the encoder visits them.\<close>

fun preorder :: "frame \<Rightarrow> frame list" where
  "preorder f = f # concat (map preorder (children f))"

declare preorder.simps [simp del]

lemma length_preorder: "length (preorder f) = frame_count f"
proof (induction f rule: frame_induct)
  case (Frame f)
  then have "map length (map preorder (children f)) = map frame_count (children f)" by simp
  then show ?case
    by (subst preorder.simps, subst frame_count.simps) (simp add: length_concat del: map_map)
qed

text \<open>
  What one node writes of its own when its header answers \<open>o\<close>, and the declared length that
  call number \<open>t\<close> of the header closure overrides among nodes counted from \<open>i\<close>.
\<close>

fun node_head :: "string option \<Rightarrow> frame \<Rightarrow> bytes" where
  "node_head h (BulkString (Some b)) = push_blob CHR ''$'' b h"
| "node_head h (BulkString None) = push_line CHR ''$'' (case h of Some r \<Rightarrow> r | None \<Rightarrow> ''-1'')"
| "node_head h (Array (Some items)) = push_line CHR ''*'' (or_len h (length items))"
| "node_head h (Array None) = push_line CHR ''*'' (case h of Some r \<Rightarrow> r | None \<Rightarrow> ''-1'')"
| "node_head h (BulkError b) = push_blob CHR ''!'' b h"
| "node_head h (VerbatimString b) = push_blob CHR ''='' b h"
| "node_head h (Set items) = push_line CHR ''~'' (or_len h (length items))"
| "node_head h (Push items) = push_line CHR ''>'' (or_len h (length items))"
| "node_head h (Map kvs) = push_line CHR ''%'' (or_len h (length kvs))"
| "node_head h (Attribute kvs) = push_line CHR ''|'' (or_len h (length kvs))"
| "node_head h f = frame_head f"

lemma encode_into_node:
  "encode_into h f i = (case run_seq (map (encode_into h) (children f)) (Suc i) of
     (out, j) \<Rightarrow> (node_head (header_at h i) f @ out, j))"
  by (cases "(header_at h i, f)" rule: node_head.cases)
    (simp_all add: emit_line_def emit_null_def emit_blob_def emit_aggregate_def
      encode_pairs_children encode_eqs split: prod.splits)

definition target_of :: "frame list \<Rightarrow> nat \<Rightarrow> nat \<Rightarrow> int option" where
  "target_of nodes i t =
     (if i \<le> t \<and> t < i + length nodes then declared_length (nodes ! (t - i)) else None)"

text \<open>The bytes \<open>b\<close> are \<open>a\<close> with one header line that declares \<open>n\<close> saying \<open>r\<close> instead.\<close>

definition overridden :: "int option \<Rightarrow> string \<Rightarrow> bytes \<Rightarrow> bytes \<Rightarrow> bool" where
  "overridden n r a b = (case n of
       None \<Rightarrow> b = a
     | Some n \<Rightarrow> \<exists>c pre post. a = pre @ push_line c (show_int n) @ post
                        \<and> b = pre @ push_line c r @ post)"

lemma overridden_None [simp]: "overridden None r a b \<longleftrightarrow> b = a"
  by (simp add: overridden_def)

lemma overridden_append:
  assumes "overridden n r a b"
  shows "overridden n r (a @ s) (b @ s)" and "overridden n r (s @ a) (s @ b)"
proof -
  show "overridden n r (a @ s) (b @ s)"
    using assms unfolding overridden_def
    by (cases n) (simp_all, metis append.assoc)
  show "overridden n r (s @ a) (s @ b)"
    using assms unfolding overridden_def
    by (cases n) (simp_all, metis append.assoc)
qed

lemma overridden_head:
  "overridden (declared_length f) r (frame_head f) (node_head (Some r) f)"
proof -
  have one: "overridden (Some n) r (push_line c (show_int n) @ b) (push_line c r @ b)" for n c b
    unfolding overridden_def option.case
    by (intro exI [of _ c] exI [of _ "[]"] exI [of _ b]) simp
  have "show_nat k = show_int (int k)" for k by (simp add: show_int_def)
  moreover have "show_int (- 1) = ''-1''" by (simp add: show_int_def show_nat.simps digit_char_def)
  ultimately show ?thesis
    using one [of _ _ "[]"] one [of "- 1" _ "[]"] one
    by (cases "(Some r, f)" rule: node_head.cases) (simp_all add: encode_eqs push_blob_def or_len_def)
qed

lemma node_head_None: "node_head None f = frame_head f"
  by (cases "(None :: string option, f)" rule: node_head.cases) (simp_all add: encode_eqs or_len_def)

lemma target_of_append:
  "target_of (xs @ ys) i t = (if t < i + length xs then target_of xs i t
     else target_of ys (i + length xs) t)"
  by (auto simp: target_of_def nth_append)


lemma run_seq_target:
  assumes "\<And>c i. c \<in> set cs \<Longrightarrow> \<exists>b. encode_into h c i = (b, i + frame_count c)
      \<and> overridden (target_of (preorder c) i t) r (encode c) b"
  shows "\<exists>b. run_seq (map (encode_into h) cs) i = (b, i + sum_list (map frame_count cs))
      \<and> overridden (target_of (concat (map preorder cs)) i t) r (encode_all cs) b"
  using assms
proof (induction cs arbitrary: i)
  case Nil
  then show ?case by (auto simp: target_of_def)
next
  case (Cons c cs)
  let ?j = "i + frame_count c"
  from Cons.prems obtain a where a: "encode_into h c i = (a, ?j)"
    "overridden (target_of (preorder c) i t) r (encode c) a" by fastforce
  from Cons obtain b where b: "run_seq (map (encode_into h) cs) ?j = (b, ?j + sum_list (map frame_count cs))"
    "overridden (target_of (concat (map preorder cs)) ?j t) r (encode_all cs) b" by fastforce
  have "overridden (target_of (concat (map preorder (c # cs))) i t) r (encode_all (c # cs)) (a @ b)"
  proof (cases "t < ?j")
    case True
    then have "b = encode_all cs" using b(2) by (simp add: target_of_def)
    then show ?thesis using a(2) True
      by (simp add: target_of_append length_preorder overridden_append(1))
  next
    case False
    then have "a = encode c" using a(2) by (simp add: target_of_def length_preorder)
    then show ?thesis using b(2) False
      by (simp add: target_of_append length_preorder overridden_append(2))
  qed
  then show ?case using a(1) b(1) by (simp add: add.assoc)
qed

lemma encode_into_target:
  "\<exists>b. encode_into (Some (t, r)) f i = (b, i + frame_count f)
     \<and> overridden (target_of (preorder f) i t) r (encode f) b"
proof (induction f arbitrary: i rule: frame_induct)
  case (Frame f)
  let ?h = "Some (t, r)"
  let ?cs = "children f"
  obtain b where b: "run_seq (map (encode_into ?h) ?cs) (Suc i)
      = (b, Suc i + sum_list (map frame_count ?cs))"
    "overridden (target_of (concat (map preorder ?cs)) (Suc i) t) r (encode_all ?cs) b"
    using run_seq_target [of ?cs ?h t r "Suc i"] Frame.IH by blast
  have "overridden (target_of (preorder f) i t) r (encode f) (node_head (header_at ?h i) f @ b)"
  proof (cases "t = i")
    case True
    then have "b = encode_all ?cs" using b(2) by (simp add: target_of_def)
    then show ?thesis using True overridden_append(1) [OF overridden_head [of f r], of b]
      by (simp add: target_of_def preorder.simps [of f] header_at_def encode_head [of f])
  next
    case False
    then have "target_of (preorder f) i t = target_of (concat (map preorder ?cs)) (Suc i) t"
      by (auto simp: target_of_def preorder.simps [of f] nth_Cons')
    moreover have "header_at ?h i = None" using False by (simp add: header_at_def)
    ultimately show ?thesis
      using overridden_append(2) [OF b(2), of "frame_head f"]
      by (simp add: node_head_None encode_head [of f])
  qed
  then show ?case using b(1) by (simp add: encode_into_node frame_count.simps [of f])
qed


section \<open>The wire format's promises\<close>

lemma parse_encoded:
  assumes "wf_frame f" and "frame_depth f \<le> MAX_FRAME_DEPTH"
    and "length (encode f) \<le> MAX_FRAME_BYTES"
  shows "parse_frame (encode f) = Inr f"
proof -
  have "length (encode f) < 2 ^ 63" using assms(3) by (simp add: MAX_FRAME_BYTES_def)
  from parse_at_encode [OF assms(1,2) this, of "[]"] assms(3) show ?thesis
    by (simp add: parse_frame_def)
qed

text \<open>C1: encoding a frame that the format can carry, within the parser's limits, and parsing
  the bytes gives the frame back: no kind, value, order or nesting is lost.\<close>

theorem parse_encode:
  assumes "wf_frame f" and "frame_depth f \<le> MAX_FRAME_DEPTH"
    and "length (encode f) \<le> MAX_FRAME_BYTES"
  shows "parse_frame (encode f) = Inr f"
  using parse_encoded [OF assms] .

text \<open>A command with nested RESP3 data, used to instantiate the theorems of this section.\<close>

definition sample_frame :: frame where
  "sample_frame = Array (Some [BulkString (Some ''SET''), Map [(SimpleString ''k'', Integer (- 7))],
     Boolean True, Null, BulkString None])"

lemma sample_frame_ok:
  "wf_frame sample_frame" "frame_depth sample_frame \<le> MAX_FRAME_DEPTH"
  "length (encode sample_frame) \<le> MAX_FRAME_BYTES"
proof -
  have "line_ok ''k''" by (simp add: line_ok_def is_utf8_ascii byte_def)
  then show "wf_frame sample_frame"
    by (simp add: sample_frame_def wf_frame.simps)
  show "frame_depth sample_frame \<le> MAX_FRAME_DEPTH"
    by (simp add: sample_frame_def frame_depth.simps MAX_FRAME_DEPTH_def)
  show "length (encode sample_frame) \<le> MAX_FRAME_BYTES"
    by (simp add: sample_frame_def encode_simps push_blob_def push_line_def crlf_def
        show_int_def show_nat.simps digit_char_def MAX_FRAME_BYTES_def)
qed

theorem parse_encode_witness: "parse_frame (encode sample_frame) = Inr sample_frame"
  by (rule parse_encode) (rule sample_frame_ok)+

text \<open>C2: the stream reader takes exactly the bytes of an encoded frame off the stream and
  leaves what follows, for every frame within the depth and size limits.\<close>

theorem reader_takes_encoded_frame:
  assumes "wf_frame f" and "frame_depth f \<le> MAX_FRAME_DEPTH"
    and "length (encode f) \<le> MAX_FRAME_BYTES"
  shows "read_raw_frame (encode f @ rest) = Inr (encode f, rest)"
  using assms read_loop_frame [of f "[]" "[]" rest 0] by (simp add: read_raw_frame_def)

theorem reader_takes_encoded_frame_witness:
  "read_raw_frame (encode sample_frame @ ''+PONG'') = Inr (encode sample_frame, ''+PONG'')"
  by (rule reader_takes_encoded_frame) (rule sample_frame_ok)+

text \<open>Whatever a peer sends, a successful read returns a prefix of the stream, at most
  64 MiB long, and the rest of the stream is untouched.\<close>

lemma reader_splits_stream:
  assumes "read_raw_frame input = Inr (raw, rest)"
  shows "input = raw @ rest \<and> length raw \<le> MAX_FRAME_BYTES"
  using read_loop_split [of input "[]" "[1]" raw rest] assms by (auto simp: read_raw_frame_def)

text \<open>C25: a frame the parser accepts came from at most 64 MiB of input and is nested at most
  128 levels deep, so no input makes the proxy build a deeper value.\<close>

theorem parse_frame_limits:
  assumes "parse_frame input = Inr f"
  shows "length input \<le> MAX_FRAME_BYTES \<and> frame_depth f \<le> MAX_FRAME_DEPTH"
  using assms parse_at_depth [of MAX_FRAME_DEPTH input f]
  by (auto simp: parse_frame_def result_simps split: if_splits)

theorem parse_frame_limits_witness:
  "length (encode sample_frame) \<le> MAX_FRAME_BYTES \<and> frame_depth sample_frame \<le> MAX_FRAME_DEPTH"
proof (rule parse_frame_limits)
  show "parse_frame (encode sample_frame) = Inr sample_frame"
    using parse_at_encode [OF sample_frame_ok(1,2), of "[]"] sample_frame_ok(3)
    by (simp add: parse_frame_def MAX_FRAME_BYTES_def)
qed

text \<open>C9: \<open>encode_with_length\<close> changes nothing but the header line of the frame it targets
  (counted in encoding order), and changes nothing at all when that frame declares no length.\<close>

theorem encode_with_length_overrides_one_header:
  "overridden (if t < frame_count f then declared_length (preorder f ! t) else None) r
     (encode f) (encode_with_length f t r)"
  using encode_into_target [of t r f 0]
  by (auto simp: encode_with_length_def target_of_def length_preorder)

text \<open>Command arguments keep their positions: the argument list is empty or has exactly one
  argument per element, each the text of the element at its own index.\<close>

lemma argv_positions:
  assumes "argv_lossy (Array (Some items)) \<noteq> []" and "i < length items"
  shows "length (argv_lossy (Array (Some items))) = length items
    \<and> arg_lossy (items ! i) = Some (argv_lossy (Array (Some items)) ! i)"
proof -
  obtain argv where argv: "collect_options arg_lossy items = Some argv"
    using assms(1) by (auto split: option.splits)
  then have "argv_lossy (Array (Some items)) = argv" by simp
  with argv assms(2) show ?thesis
    by (simp only: collect_options_Some) (simp add: list_all2_conv_all_nth)
qed

end
