(* ===== verification/Externals.thy ===== *)
theory Externals
  imports Errors "HOL-Library.State_Monad"
begin

text \<open>
  The third-party code the program calls, as the parameter record \<open>'r externals\<close> of every
  definition that uses it: SHA-256 and hexadecimal text (crates \<open>sha2\<close> and \<open>hex\<close>), the seeded
  generator of crates \<open>rand\<close> and \<open>rand_chacha\<close> (a generator state of type \<open>'r\<close>, one operation
  per way the program draws), regular expressions (crate \<open>regex\<close>), and Rust's \<open>Debug\<close> form of
  a string, and the incremental BLAKE3 and TLSH hashers. A draw is a computation in the library's state monad over \<open>'r\<close>.

  \<open>rng_ok\<close> states the documented ranges of the draws; it is the only fact about the generator
  that any theorem uses, and \<open>sample_externals\<close> shows that it can hold.
\<close>

datatype int_type = U8 | U16 | I32 | I64 | U64 | USize | U128

fun int_bits :: "int_type \<Rightarrow> nat" where
  "int_bits U8 = 8"
| "int_bits U16 = 16"
| "int_bits I32 = 32"
| "int_bits I64 = 64"
| "int_bits U64 = 64"
| "int_bits USize = 64"
| "int_bits U128 = 128"

record 'r externals =
  sha256 :: "bytes \<Rightarrow> bytes"
  hex_encode :: "bytes \<Rightarrow> string"
  from_seed :: "bytes \<Rightarrow> 'r"
  gen_range :: "int_type \<Rightarrow> nat \<Rightarrow> nat \<Rightarrow> ('r, nat) state"       \<comment> \<open>\<open>gen_range(lo..hi)\<close>\<close>
  gen_range_incl :: "int_type \<Rightarrow> nat \<Rightarrow> nat \<Rightarrow> ('r, nat) state"  \<comment> \<open>\<open>gen_range(lo..=hi)\<close>\<close>
  gen_percent :: "('r, f64) state"                        \<comment> \<open>\<open>gen_range(0.0..100.0)\<close>\<close>
  gen_bool :: "f64 \<Rightarrow> ('r, bool) state"
  gen_ratio :: "nat \<Rightarrow> nat \<Rightarrow> ('r, bool) state"
  gen_bits :: "int_type \<Rightarrow> ('r, nat) state"                \<comment> \<open>\<open>gen::<T>()\<close>, as its bits\<close>
  gen_flag :: "('r, bool) state"                          \<comment> \<open>\<open>gen::<bool>()\<close>\<close>
  regex_error :: "string \<Rightarrow> string option"               \<comment> \<open>case-insensitive \<open>build()\<close>\<close>
  regex_match :: "string \<Rightarrow> string \<Rightarrow> bool"
  debug_fmt :: "string \<Rightarrow> string"
  blake3_hex :: "bytes list \<Rightarrow> string"                   \<comment> \<open>after these \<open>update\<close> calls\<close>
  tlsh_text :: "bytes list \<Rightarrow> string option"             \<comment> \<open>\<open>None\<close>: too little input\<close>

text \<open>Drawing below a bound, in a half-open range of percentages, and with certainty.\<close>

definition rng_ok :: "'r externals \<Rightarrow> bool" where
  "rng_ok E \<longleftrightarrow>
     (\<forall>ty lo hi. lo < hi \<longrightarrow> pred_state (\<lambda>n. lo \<le> n \<and> n < hi) (gen_range E ty lo hi)) \<and>
     (\<forall>ty lo hi. lo \<le> hi \<longrightarrow> pred_state (\<lambda>n. lo \<le> n \<and> n \<le> hi) (gen_range_incl E ty lo hi)) \<and>
     pred_state (\<lambda>p. f_le (Fin 0) p \<and> f_lt p (Fin 100)) (gen_percent E) \<and>
     (\<forall>p. f_eq p (Fin 0) \<longrightarrow> pred_state (\<lambda>b. \<not> b) (gen_bool E p)) \<and>
     (\<forall>ty. pred_state (\<lambda>n. n < 2 ^ int_bits ty) (gen_bits E ty))"

text \<open>The hashers are incremental: only the concatenation of the updates matters.\<close>

definition streaming_ok :: "'r externals \<Rightarrow> bool" where
  "streaming_ok E \<longleftrightarrow> (\<forall>chunks. blake3_hex E chunks = blake3_hex E [concat chunks]
     \<and> tlsh_text E chunks = tlsh_text E [concat chunks])"

named_theorems draws \<open>what a draw can return\<close>

lemma draw_below [draws]:
  "rng_ok E \<Longrightarrow> lo < hi \<Longrightarrow> pred_state (\<lambda>n. lo \<le> n \<and> n < hi) (gen_range E ty lo hi)"
  by (simp add: rng_ok_def)

lemma draw_upto [draws]:
  "rng_ok E \<Longrightarrow> lo \<le> hi \<Longrightarrow> pred_state (\<lambda>n. lo \<le> n \<and> n \<le> hi) (gen_range_incl E ty lo hi)"
  by (simp add: rng_ok_def)

lemma draw_percent [draws]:
  "rng_ok E \<Longrightarrow> pred_state (\<lambda>p. f_le (Fin 0) p \<and> f_lt p (Fin 100)) (gen_percent E)"
  by (simp add: rng_ok_def)

lemma draw_bits [draws]: "rng_ok E \<Longrightarrow> pred_state (\<lambda>n. n < 2 ^ int_bits ty) (gen_bits E ty)"
  by (simp add: rng_ok_def)

text \<open>Reading one result of a draw.\<close>

lemma draw_belowD:
  "rng_ok E \<Longrightarrow> lo < hi \<Longrightarrow> run_state (gen_range E ty lo hi) r = (n, r') \<Longrightarrow> lo \<le> n \<and> n < hi"
  by (drule (1) draw_below [where ty = ty], drule (1) pred_stateD, assumption)

lemma draw_uptoD:
  "rng_ok E \<Longrightarrow> lo \<le> hi \<Longrightarrow> run_state (gen_range_incl E ty lo hi) r = (n, r') \<Longrightarrow> lo \<le> n \<and> n \<le> hi"
  by (drule (1) draw_upto [where ty = ty], drule (1) pred_stateD, assumption)

lemma draw_percentD:
  "rng_ok E \<Longrightarrow> run_state (gen_percent E) r = (p, r') \<Longrightarrow> f_le (Fin 0) p \<and> f_lt p (Fin 100)"
  by (drule draw_percent, drule (1) pred_stateD, assumption)

lemma pred_state_weaken: "pred_state P m \<Longrightarrow> (\<And>x. P x \<Longrightarrow> Q x) \<Longrightarrow> pred_state Q m"
  by (erule state.pred_mono_strong)

lemma pred_state_return [simp]: "pred_state P (State_Monad.return x) \<longleftrightarrow> P x"
  by (auto dest: pred_state_run_state)

lemma pred_state_if: "(b \<Longrightarrow> pred_state P m) \<Longrightarrow> (\<not> b \<Longrightarrow> pred_state P n) \<Longrightarrow> pred_state P (if b then m else n)"
  by simp

lemma pred_state_bind:
  "pred_state P m \<Longrightarrow> (\<And>x. P x \<Longrightarrow> pred_state Q (f x)) \<Longrightarrow> pred_state Q (State_Monad.bind m f)"
  by (rule bind_predI) (erule pred_state_weaken)

text \<open>Drawing \<open>n\<close> times: \<open>(0..n).map(|_| draw).collect()\<close>.\<close>

primrec draw_list :: "nat \<Rightarrow> (nat \<Rightarrow> ('r, 'a) state) \<Rightarrow> ('r, 'a list) state" where
  "draw_list 0 f = State_Monad.return []"
| "draw_list (Suc n) f =
     do { xs \<leftarrow> draw_list n f; x \<leftarrow> f n; State_Monad.return (xs @ [x]) }"

lemma draw_list_all:
  assumes "\<And>i. i < n \<Longrightarrow> pred_state P (f i)"
  shows "pred_state (\<lambda>xs. length xs = n \<and> (\<forall>x\<in>set xs. P x)) (draw_list n f)"
  using assms
proof (induction n)
  case (Suc n)
  show ?case
    unfolding draw_list.simps
  proof (rule pred_state_bind)
    show "pred_state (\<lambda>xs. length xs = n \<and> (\<forall>x\<in>set xs. P x)) (draw_list n f)"
      using Suc by simp
  next
    fix xs assume xs: "length xs = n \<and> (\<forall>x\<in>set xs. P x)"
    show "pred_state (\<lambda>xs. length xs = Suc n \<and> (\<forall>x\<in>set xs. P x))
        (do { x \<leftarrow> f n; State_Monad.return (xs @ [x]) })"
      by (rule pred_state_bind [OF Suc.prems [of n]]) (use xs in auto)
  qed
qed simp

text \<open>
  A small generator on natural numbers that satisfies \<open>rng_ok\<close>; it instantiates the theorems
  that need one. Its hash keeps the length and a running sum, its hexadecimal text is the
  identity, and it accepts every regular expression as a literal.
\<close>

definition sample_draw :: "(nat \<Rightarrow> 'a) \<Rightarrow> (nat, 'a) state" where
  "sample_draw f = State (\<lambda>s. (f s, (s * 5 + 3) mod 257))"

definition sample_externals :: "nat externals" where
  "sample_externals = \<lparr>
     sha256 = (\<lambda>b. show_nat (foldl (\<lambda>n c. (n * 31 + byte c) mod 65521) (length b) b)),
     hex_encode = (\<lambda>b. b),
     from_seed = (\<lambda>b. foldl (\<lambda>n c. (n * 7 + byte c) mod 257) 1 b),
     gen_range = (\<lambda>ty lo hi. sample_draw (\<lambda>s. lo + s mod (hi - lo))),
     gen_range_incl = (\<lambda>ty lo hi. sample_draw (\<lambda>s. lo + s mod Suc (hi - lo))),
     gen_percent = sample_draw (\<lambda>s. Fin (of_nat (s mod 100))),
     gen_bool = (\<lambda>p. sample_draw (\<lambda>s. f_lt (Fin (of_nat (s mod 100) / 100)) p)),
     gen_ratio = (\<lambda>n d. sample_draw (\<lambda>s. s mod d < n)),
     gen_bits = (\<lambda>ty. sample_draw (\<lambda>s. s mod 2 ^ int_bits ty)),
     gen_flag = sample_draw even,
     regex_error = (\<lambda>s. None),
     regex_match = (\<lambda>r s. eq_ignore_ascii_case r s),
     debug_fmt = (\<lambda>s. [CHR 0x22] @ s @ [CHR 0x22]),
     blake3_hex = (\<lambda>chunks. show_nat (foldl (\<lambda>n c. (n * 33 + byte c) mod 65521) 7 (concat chunks))),
     tlsh_text = (\<lambda>chunks. if length (concat chunks) < 50 then None
                  else Some (show_nat (length (concat chunks))))\<rparr>"

lemma sample_streaming_ok [simp]: "streaming_ok sample_externals"
  by (simp add: streaming_ok_def sample_externals_def)

lemma pred_sample_draw: "(\<And>s. P (f s)) \<Longrightarrow> pred_state P (sample_draw f)"
  by (rule pred_stateI) (auto simp: sample_draw_def)

lemma sample_rng_ok [simp]: "rng_ok sample_externals"
proof -
  have less: "lo + s mod (hi - lo) < hi" if "lo < hi" for lo hi s :: nat
  proof -
    have "s mod (hi - lo) < hi - lo" using that by simp
    then show ?thesis by simp
  qed
  have le: "lo + s mod Suc (hi - lo) \<le> hi" if "lo \<le> hi" for lo hi s :: nat
  proof -
    have "s mod Suc (hi - lo) < Suc (hi - lo)" by (rule mod_less_divisor) simp
    then show ?thesis using that by linarith
  qed
  have zero: "\<not> f_lt (Fin (of_nat (s mod 100) / 100)) p" if "f_eq p (Fin 0)" for p and s :: nat
    using that by (cases p) (auto simp: f_eq_def f_lt_def)
  have percent: "f_le (Fin 0) (Fin (of_nat (s mod 100))) \<and> f_lt (Fin (of_nat (s mod 100))) (Fin 100)"
    for s :: nat
  proof -
    have "s mod 100 < 100" by simp
    then have "of_nat (s mod 100) < (100 :: rat)" by (simp only: of_nat_less_numeral_iff)
    then show ?thesis by (simp add: f_lt_def)
  qed
  show ?thesis
    unfolding rng_ok_def sample_externals_def externals.simps
    using less le zero percent by (auto intro!: pred_sample_draw)
qed

end
