(* ===== verification/Evil_Types.thy ===== *)
theory Evil_Types
  imports Externals
begin

text \<open>
  The part of \<open>evil.rs\<close> that the other components import: modes and strategies with their
  text forms, the records of applied mutations, probabilities, hashes and the per-reply
  generator; and the option/value loop that the configuration parsers share.
\<close>

section \<open>Modes\<close>

datatype evil_mode = ModeOff | ModeRandom | ModeMutate | ModeOverflow

fun mode_str :: "evil_mode \<Rightarrow> string" where
  "mode_str ModeOff = ''OFF''"
| "mode_str ModeRandom = ''RANDOM''"
| "mode_str ModeMutate = ''MUTATE''"
| "mode_str ModeOverflow = ''OVERFLOW''"

definition mode_from_str :: "string \<Rightarrow> app_error + evil_mode" where
  "mode_from_str value =
     (let v = to_ascii_uppercase value in
      if v = ''OFF'' then Inr ModeOff
      else if v = ''RANDOM'' then Inr ModeRandom
      else if v = ''MUTATE'' then Inr ModeMutate
      else if v = ''OVERFLOW'' then Inr ModeOverflow
      else Inl (EvilConfigError [Lit ''unknown evil mode '', Dbg value]))"

lemma mode_from_str_str: "mode_from_str (mode_str m) = Inr m"
  by (cases m) (simp_all add: mode_from_str_def ascii_defs)

text \<open>The modes are finitely many, so that sums over them are sums over a list.\<close>

instantiation evil_mode :: enum
begin

definition enum_evil_mode :: "evil_mode list" where
  "enum_evil_mode = [ModeOff, ModeRandom, ModeMutate, ModeOverflow]"

definition enum_all_evil_mode :: "(evil_mode \<Rightarrow> bool) \<Rightarrow> bool" where
  "enum_all_evil_mode P = list_all P enum_class.enum"

definition enum_ex_evil_mode :: "(evil_mode \<Rightarrow> bool) \<Rightarrow> bool" where
  "enum_ex_evil_mode P = list_ex P enum_class.enum"

instance
proof
  show all: "UNIV = set (enum_class.enum :: evil_mode list)"
    using evil_mode.exhaust by (auto simp: enum_evil_mode_def)
  show "distinct (enum_class.enum :: evil_mode list)" by (simp add: enum_evil_mode_def)
  fix P :: "evil_mode \<Rightarrow> bool"
  show "enum_class.enum_all P \<longleftrightarrow> Ball UNIV P" by (simp add: enum_all_evil_mode_def all list_all_iff)
  show "enum_class.enum_ex P \<longleftrightarrow> Bex UNIV P" by (simp add: enum_ex_evil_mode_def all list_ex_iff)
qed

end

datatype canonicalization_mode = CanonAll | CanonUnordered | CanonNone

fun canon_str :: "canonicalization_mode \<Rightarrow> string" where
  "canon_str CanonAll = ''ALL''"
| "canon_str CanonUnordered = ''UNORDERED''"
| "canon_str CanonNone = ''NONE''"

definition canon_from_str :: "string \<Rightarrow> app_error + canonicalization_mode" where
  "canon_from_str value =
     (let v = to_ascii_uppercase value in
      if v = ''ALL'' then Inr CanonAll
      else if v = ''UNORDERED'' then Inr CanonUnordered
      else if v = ''NONE'' then Inr CanonNone
      else Inl (EvilConfigError [Lit ''unknown canonicalization mode '', Dbg value]))"

datatype mutation_strategy = Preserve | Replace

fun strategy_str :: "mutation_strategy \<Rightarrow> string" where
  "strategy_str Preserve = ''PRESERVE''"
| "strategy_str Replace = ''REPLACE''"

datatype mutation_count = One | Many

fun count_str :: "mutation_count \<Rightarrow> string" where
  "count_str One = ''ONE''"
| "count_str Many = ''MANY''"

datatype mutation_depth = AnyDepth | Inner

fun depth_str :: "mutation_depth \<Rightarrow> string" where
  "depth_str AnyDepth = ''ANY''"
| "depth_str Inner = ''INNER''"

fun weight :: "mutation_depth \<Rightarrow> nat \<Rightarrow> nat" where
  "weight AnyDepth depth = 1"
| "weight Inner depth = 2 ^ min depth 64"

fun scale :: "mutation_depth \<Rightarrow> f64 \<Rightarrow> nat \<Rightarrow> nat \<Rightarrow> f64" where
  "scale AnyDepth probability depth max_depth = probability"
| "scale Inner probability depth max_depth =
     f_div probability (Fin (2 ^ min (max_depth - depth) 64))"

section \<open>Applied mutations\<close>

datatype length_corruption = Shorter | Longer | Negative | Boundary | Overflow

datatype mutation_kind =
    ExecRemove | ExecDuplicate | ExecSwap
  | RandomFrame | RandomValue | WrongType | WrongLength | OverflowValue
  | TopologyFakeRedirection | TopologyWrongRedirectionKind | TopologyWrongSlot
  | TopologyWrongServer | TopologyWildSlot | TopologyRedirectBefore | TopologyRedirectAfter

record length_mutation =
  lm_kind :: length_corruption
  lm_original :: string
  lm_replacement :: string

record exec_mutation =
  original_count :: nat
  replacement_count :: nat
  em_index :: nat
  other_index :: "nat option"

record applied_mutation =
  am_path :: string
  am_kind :: mutation_kind
  am_length :: "length_mutation option"
  am_exec :: "exec_mutation option"

record mutated_reply =
  reply_bytes :: bytes
  reply_mutations :: "applied_mutation list"

abbreviation applied :: "string \<Rightarrow> mutation_kind \<Rightarrow> applied_mutation" where
  "applied path kind \<equiv> \<lparr>am_path = path, am_kind = kind, am_length = None, am_exec = None\<rparr>"

section \<open>Probabilities\<close>

abbreviation zero_percent :: f64 where "zero_percent \<equiv> Fin 0"
abbreviation hundred_percent :: f64 where "hundred_percent \<equiv> Fin 100"

definition percent :: "f64 \<Rightarrow> bool" where
  "percent p \<longleftrightarrow> f_le zero_percent p \<and> f_le p hundred_percent"

definition parse_probability :: "string \<Rightarrow> app_error + f64" where
  "parse_probability value =
     (case parse_f64 value of
        Inl e \<Rightarrow> Inl (evil_error (''invalid probability: '' @ show_float_error e))
      | Inr p \<Rightarrow>
          if \<not> (f_le zero_percent p \<and> f_le p hundred_percent)
          then Inl (EvilConfigError [Lit ''probability '', Flt p, Lit '' is outside 0.00-100.00''])
          else Inr p)"

lemma percent_simps [simp]: "percent zero_percent" "percent hundred_percent"
  by (simp_all add: percent_def)

lemma parse_probability_percent: "parse_probability v = Inr p \<Longrightarrow> percent p"
  by (auto simp: parse_probability_def percent_def split: sum.splits if_splits)

section \<open>Hashes and the generator of a reply\<close>

definition deterministic_hash :: "'r externals \<Rightarrow> bytes \<Rightarrow> string" where
  "deterministic_hash E b = hex_encode E (sha256 E b)"

text \<open>\<open>to_le_bytes\<close> of a \<open>u64\<close>.\<close>

definition to_le_bytes :: "u64 \<Rightarrow> bytes" where
  "to_le_bytes w = map (\<lambda>i. char_of (unat (drop_bit (8 * i) w) mod 256)) [0..<8]"

definition rng_for :: "'r externals \<Rightarrow> u64 \<Rightarrow> u64 \<Rightarrow> string \<Rightarrow> string \<Rightarrow> 'r" where
  "rng_for E seed command_index command_hash upstream_hash =
     from_seed E (sha256 E (to_le_bytes seed @ to_le_bytes command_index
                            @ command_hash @ upstream_hash))"

section \<open>Arguments\<close>

text \<open>\<open>argv.get(i)\<close>, and a keyword compared in ASCII upper case.\<close>

definition get_arg :: "string list \<Rightarrow> nat \<Rightarrow> string option" where
  "get_arg argv i = (if i < length argv then Some (argv ! i) else None)"

abbreviation keyword :: "string \<Rightarrow> string \<Rightarrow> bool" where
  "keyword value k \<equiv> to_ascii_uppercase value = k"

section \<open>Option/value pairs\<close>

text \<open>
  The loop of \<open>TransportConfig::updated\<close>, \<open>GeneratorConfig::updated\<close> and
  \<open>FramingConfig::parse\<close>: each pair sets one field, named by its index, or fails; a second
  pair for the same index is refused after its value has been read.
\<close>

type_synonym 'c setter = "string \<Rightarrow> string \<Rightarrow> 'c \<Rightarrow> app_error + nat \<times> 'c"

fun set_options ::
  "'c setter \<Rightarrow> app_error \<Rightarrow> nat list \<Rightarrow> (string \<times> string) list \<Rightarrow> 'c \<Rightarrow> app_error + 'c" where
  "set_options put dup seen [] c = Inr c"
| "set_options put dup seen ((key, value) # pairs) c =
     and_then (put key value c) (\<lambda>(index, c').
       if index \<in> set seen then Inl dup
       else set_options put dup (index # seen) pairs c')"

text \<open>
  The interface between the loop and a component's fields: a setter that keeps the component's
  invariant and uses indices below the component's number of options.
\<close>

locale option_setter =
  fixes setter :: "'c setter" and inv :: "'c \<Rightarrow> bool" and options :: nat
  assumes setter_inv: "setter key value c = Inr (i, c') \<Longrightarrow> inv c \<Longrightarrow> inv c'"
    and setter_index: "setter key value c = Inr (i, c') \<Longrightarrow> i < options"
begin

lemma set_options_Cons:
  assumes "set_options setter dup seen (p # pairs) c = Inr c''"
  obtains i c' where "setter (fst p) (snd p) c = Inr (i, c')" "i \<notin> set seen"
    "set_options setter dup (i # seen) pairs c' = Inr c''"
  using assms by (cases p) (auto simp: result_simps split: if_splits)

lemma set_options_inv:
  "set_options setter dup seen pairs c = Inr c' \<Longrightarrow> inv c \<Longrightarrow> inv c'"
  by (induction pairs arbitrary: seen c) (auto elim!: set_options_Cons dest: setter_inv)

lemma set_options_distinct:
  "set_options setter dup seen pairs c = Inr c' \<Longrightarrow> distinct seen \<Longrightarrow> set seen \<subseteq> {..<options}
   \<Longrightarrow> length seen + length pairs \<le> options"
proof (induction pairs arbitrary: seen c)
  case Nil
  then have "card (set seen) \<le> card {..<options}" by (intro card_mono) auto
  with Nil show ?case by (simp add: distinct_card)
next
  case (Cons p pairs)
  from Cons.prems(1) obtain i d where
    step: "setter (fst p) (snd p) c = Inr (i, d)" "i \<notin> set seen"
      "set_options setter dup (i # seen) pairs d = Inr c'"
    by (rule set_options_Cons)
  have "length (i # seen) + length pairs \<le> options"
    using step Cons.prems setter_index [OF step(1)] by (intro Cons.IH [of _ d]) auto
  then show ?case by simp
qed

lemma set_options_count: "set_options setter dup [] pairs c = Inr c' \<Longrightarrow> length pairs \<le> options"
  using set_options_distinct [of dup "[]" pairs c c'] by simp

end

end
