(* ===== verification/Conn_Fault.thy ===== *)
theory Conn_Fault
  imports Evil_Types
begin

text \<open>
  \<open>connection_fault.rs\<close>: the configuration of a connection fault (close, reset or stall) and
  the deterministic plan of one fault for one reply.
\<close>

datatype fault_action = FaultOff | FaultClose | FaultReset | FaultStall

datatype fault_point = AtBefore | AtAfter | AtReply | AtRandom | AtBytes nat

record fault_config =
  fault_action :: fault_action
  fault_point :: fault_point
  fault_duration :: u64

record fault_plan =
  plan_action :: fault_action
  plan_point :: fault_point
  after_bytes :: nat
  duration_ms :: "u64 option"

definition fault_default :: fault_config where
  "fault_default = \<lparr>fault_action = FaultOff, fault_point = AtAfter, fault_duration = 10000\<rparr>"

definition decimal :: "string \<Rightarrow> app_error + u64" where
  "decimal value =
     (if value = [] \<or> \<not> list_all is_ascii_digit value
      then Inl (evil_error ''fault offsets/durations must be unsigned decimal integers'')
      else map_err (\<lambda>_. evil_error ''fault offset/duration is too large'') (parse_u64 value))"

definition set_action :: "string \<Rightarrow> fault_config \<Rightarrow> app_error + fault_config" where
  "set_action value c =
     (if keyword value ''OFF'' then Inr (c\<lparr>fault_action := FaultOff\<rparr>)
      else if keyword value ''CLOSE'' then Inr (c\<lparr>fault_action := FaultClose\<rparr>)
      else if keyword value ''RESET'' then Inr (c\<lparr>fault_action := FaultReset\<rparr>)
      else if keyword value ''STALL'' then Inr (c\<lparr>fault_action := FaultStall\<rparr>)
      else Inl (evil_error ''FAULT expects OFF|CLOSE|RESET|STALL''))"

text \<open>A \<open>u64\<close> always fits the 64-bit \<open>usize\<close>, so \<open>try_into\<close> cannot fail here.\<close>

definition set_point :: "string \<Rightarrow> fault_config \<Rightarrow> app_error + fault_config" where
  "set_point value c =
     (if keyword value ''BEFORE'' then Inr (c\<lparr>fault_point := AtBefore\<rparr>)
      else if keyword value ''AFTER'' then Inr (c\<lparr>fault_point := AtAfter\<rparr>)
      else if keyword value ''REPLY'' then Inr (c\<lparr>fault_point := AtReply\<rparr>)
      else if keyword value ''RANDOM'' then Inr (c\<lparr>fault_point := AtRandom\<rparr>)
      else map_ok (\<lambda>n. c\<lparr>fault_point := AtBytes (unat n)\<rparr>) (decimal value))"

definition set_duration :: "string \<Rightarrow> fault_config \<Rightarrow> app_error + fault_config" where
  "set_duration value c = and_then (decimal value) (\<lambda>ms.
     if \<not> (1 \<le> ms \<and> ms \<le> 3600000)
     then Inl (evil_error ''DURATION expects 1..3600000 milliseconds'')
     else Inr (c\<lparr>fault_duration := ms\<rparr>))"

fun action_str :: "fault_action \<Rightarrow> string" where
  "action_str FaultOff = ''OFF''"
| "action_str FaultClose = ''CLOSE''"
| "action_str FaultReset = ''RESET''"
| "action_str FaultStall = ''STALL''"

fun point_str :: "fault_point \<Rightarrow> string" where
  "point_str AtBefore = ''BEFORE''"
| "point_str AtAfter = ''AFTER''"
| "point_str AtReply = ''REPLY''"
| "point_str AtRandom = ''RANDOM''"
| "point_str (AtBytes n) = show_nat n"

definition fault_status :: "fault_config \<Rightarrow> string" where
  "fault_status c = ''transport_fault='' @ action_str (fault_action c)
     @ '' transport_at='' @ point_str (fault_point c)
     @ '' transport_duration='' @ show_nat (unat (fault_duration c))"

text \<open>
  The byte offset at which a fault fires: the configured point inside a response of
  \<open>response_len\<close> bytes, or none when an explicit offset lies beyond it.
\<close>

definition fault_offset ::
  "'r externals \<Rightarrow> fault_point \<Rightarrow> nat \<Rightarrow> ('r, nat option) state" where
  "fault_offset E point response_len =
     (case point of
        AtBefore \<Rightarrow> State_Monad.return (Some 0)
      | AtAfter \<Rightarrow> State_Monad.return (Some 0)
      | AtReply \<Rightarrow> State_Monad.return (Some response_len)
      | AtRandom \<Rightarrow>
          if response_len > 0
          then do { n \<leftarrow> gen_range E USize 0 response_len; State_Monad.return (Some n) }
          else State_Monad.return (Some 0)
      | AtBytes n \<Rightarrow> State_Monad.return (if n \<le> response_len then Some n else None))"

definition fault_draw ::
  "'r externals \<Rightarrow> fault_config \<Rightarrow> f64 \<Rightarrow> nat \<Rightarrow> ('r, fault_plan option) state" where
  "fault_draw E c probability response_len = do {
     hit \<leftarrow> gen_bool E (f_div probability hundred_percent);
     if \<not> hit then State_Monad.return None
     else do {
       pos \<leftarrow> fault_offset E (fault_point c) response_len;
       State_Monad.return (map_option (\<lambda>n. \<lparr>plan_action = fault_action c,
         plan_point = fault_point c, after_bytes = n,
         duration_ms = (if fault_action c = FaultStall then Some (fault_duration c) else None)\<rparr>) pos)
     }
   }"

definition fault_plan_of ::
  "'r externals \<Rightarrow> fault_config \<Rightarrow> f64 \<Rightarrow> u64 \<Rightarrow> u64 \<Rightarrow> string \<Rightarrow> nat \<Rightarrow> fault_plan option" where
  "fault_plan_of E c probability seed command_index command_hash response_len =
     (if fault_action c = FaultOff \<or> f_eq probability zero_percent then None
      else fst (run_state (fault_draw E c probability response_len)
        (rng_for E seed command_index (''connection-fault:v1:'' @ command_hash) [])))"

section \<open>Properties of configurations and plans\<close>

definition fault_config_ok :: "fault_config \<Rightarrow> bool" where
  "fault_config_ok c \<longleftrightarrow> 1 \<le> fault_duration c \<and> fault_duration c \<le> 3600000
     \<and> (case fault_point c of AtBytes n \<Rightarrow> n < 2 ^ 64 | _ \<Rightarrow> True)"

lemma fault_default_ok [simp, config_inv]: "fault_config_ok fault_default"
  by (simp add: fault_config_ok_def fault_default_def)

lemma set_action_ok [config_inv]: "set_action v c = Inr c' \<Longrightarrow> fault_config_ok c \<Longrightarrow> fault_config_ok c'"
  by (auto simp: set_action_def fault_config_ok_def split: if_splits)

lemma unat_u64: "unat (w :: u64) < 2 ^ 64"
  by (rule order_less_le_trans [OF unsigned_less]) simp

lemma set_point_ok [config_inv]: "set_point v c = Inr c' \<Longrightarrow> fault_config_ok c \<Longrightarrow> fault_config_ok c'"
  using unat_u64 by (auto simp: set_point_def fault_config_ok_def result_simps split: if_splits)

lemma set_duration_ok [config_inv]:
  "set_duration v c = Inr c' \<Longrightarrow> fault_config_ok c \<Longrightarrow> fault_config_ok c'"
  by (auto simp: set_duration_def fault_config_ok_def result_simps split: if_splits)

lemma fault_offset_within:
  assumes "rng_ok E"
  shows "pred_state (\<lambda>r. \<forall>n. r = Some n \<longrightarrow> n \<le> len) (fault_offset E point len)"
proof (cases point)
  case AtRandom
  have "pred_state (\<lambda>r. \<forall>n. r = Some n \<longrightarrow> n \<le> len)
      (do { n \<leftarrow> gen_range E USize 0 len; State_Monad.return (Some n) })" if "len > 0"
    by (rule pred_state_bind [OF draw_below [OF assms that]]) auto
  then show ?thesis by (simp add: fault_offset_def AtRandom)
qed (simp_all add: fault_offset_def)

text \<open>What a planned fault carries.\<close>

definition plan_ok :: "fault_config \<Rightarrow> nat \<Rightarrow> fault_plan \<Rightarrow> bool" where
  "plan_ok c len p \<longleftrightarrow> plan_action p = fault_action c \<and> plan_action p \<noteq> FaultOff
     \<and> plan_point p = fault_point c \<and> after_bytes p \<le> len
     \<and> (duration_ms p = (if fault_action c = FaultStall then Some (fault_duration c) else None))"

lemma fault_draw_ok:
  assumes "rng_ok E" and "fault_action c \<noteq> FaultOff"
  shows "pred_state (\<lambda>r. \<forall>p. r = Some p \<longrightarrow> plan_ok c len p) (fault_draw E c probability len)"
  unfolding fault_draw_def
proof (rule pred_state_bind [where P = "\<lambda>_. True"])
  fix hit :: bool
  have "pred_state (\<lambda>r. \<forall>p. r = Some p \<longrightarrow> plan_ok c len p)
     (do { pos \<leftarrow> fault_offset E (fault_point c) len;
       State_Monad.return (map_option (\<lambda>n. \<lparr>plan_action = fault_action c,
         plan_point = fault_point c, after_bytes = n,
         duration_ms = (if fault_action c = FaultStall then Some (fault_duration c) else None)\<rparr>) pos) })"
    by (rule pred_state_bind [OF fault_offset_within [OF assms(1)]])
      (use assms(2) in \<open>auto simp: plan_ok_def\<close>)
  then show "pred_state (\<lambda>r. \<forall>p. r = Some p \<longrightarrow> plan_ok c len p)
     (if \<not> hit then State_Monad.return None
      else do { pos \<leftarrow> fault_offset E (fault_point c) len;
       State_Monad.return (map_option (\<lambda>n. \<lparr>plan_action = fault_action c,
         plan_point = fault_point c, after_bytes = n,
         duration_ms = (if fault_action c = FaultStall then Some (fault_duration c) else None)\<rparr>) pos) })"
    by simp
qed auto

lemma fault_plan_ok:
  assumes "rng_ok E" and "fault_plan_of E c probability seed i h len = Some p"
  shows "plan_ok c len p"
  using assms pred_state_run_state [OF fault_draw_ok [OF assms(1)]]
  by (simp add: fault_plan_of_def split: if_splits)

end
