(* ===== verification/Fingerprint.thy ===== *)
theory Fingerprint
  imports Evil_Types
begin

text \<open>
  \<open>protocol_fingerprint.rs\<close>: running BLAKE3 and TLSH fingerprints of the bytes a connection
  has received and sent. A hasher is the list of \<open>update\<close> calls made on it; what a list of
  calls finalizes to is external.
\<close>

datatype protocol_direction = DirIn | DirOut

datatype protocol_hash = Blake3 | Tlsh

record protocol_fingerprint =
  blake3_updates :: "bytes list"
  tlsh_updates :: "bytes list"

record protocol_fingerprints =
  fp_input :: protocol_fingerprint
  fp_output :: protocol_fingerprint

definition fingerprint_new :: protocol_fingerprint where
  "fingerprint_new = \<lparr>blake3_updates = [], tlsh_updates = []\<rparr>"

definition fingerprint_update :: "bytes \<Rightarrow> protocol_fingerprint \<Rightarrow> protocol_fingerprint" where
  "fingerprint_update b p = \<lparr>blake3_updates = blake3_updates p @ [b],
     tlsh_updates = tlsh_updates p @ [b]\<rparr>"

fun fingerprint_get :: "'r externals \<Rightarrow> protocol_hash \<Rightarrow> protocol_fingerprint \<Rightarrow> string" where
  "fingerprint_get E Blake3 p = blake3_hex E (blake3_updates p)"
| "fingerprint_get E Tlsh p =
     (case tlsh_text E (tlsh_updates p) of Some t \<Rightarrow> t | None \<Rightarrow> ''TNULL'')"

definition fingerprint_reset :: "protocol_fingerprint \<Rightarrow> protocol_fingerprint" where
  "fingerprint_reset p = fingerprint_new"

definition fingerprints_new :: protocol_fingerprints where
  "fingerprints_new = \<lparr>fp_input = fingerprint_new, fp_output = fingerprint_new\<rparr>"

fun for_direction :: "protocol_direction \<Rightarrow> protocol_fingerprints \<Rightarrow> protocol_fingerprint" where
  "for_direction DirIn fs = fp_input fs"
| "for_direction DirOut fs = fp_output fs"

fun fp_update :: "protocol_direction \<Rightarrow> bytes \<Rightarrow> protocol_fingerprints \<Rightarrow> protocol_fingerprints" where
  "fp_update DirIn b fs = fs\<lparr>fp_input := fingerprint_update b (fp_input fs)\<rparr>"
| "fp_update DirOut b fs = fs\<lparr>fp_output := fingerprint_update b (fp_output fs)\<rparr>"

definition fp_get ::
  "'r externals \<Rightarrow> protocol_direction \<Rightarrow> protocol_hash \<Rightarrow> protocol_fingerprints \<Rightarrow> string" where
  "fp_get E direction algorithm fs = fingerprint_get E algorithm (for_direction direction fs)"

definition fp_reset :: "protocol_fingerprints \<Rightarrow> protocol_fingerprints" where
  "fp_reset fs = fs\<lparr>fp_input := fingerprint_reset (fp_input fs),
     fp_output := fingerprint_reset (fp_output fs)\<rparr>"

definition direction_from_str :: "string \<Rightarrow> app_error + protocol_direction" where
  "direction_from_str value =
     (let v = to_ascii_uppercase value in
      if v = ''IN'' then Inr DirIn
      else if v = ''OUT'' then Inr DirOut
      else Inl (ProtocolFingerprintError
        [Lit ''unknown protocol direction '', Dbg value, Lit ''; expected <IN|OUT>'']))"

definition hash_from_str :: "string \<Rightarrow> app_error + protocol_hash" where
  "hash_from_str value =
     (let v = to_ascii_uppercase value in
      if v = ''BLAKE3'' then Inr Blake3
      else if v = ''TLSH'' then Inr Tlsh
      else Inl (ProtocolFingerprintError
        [Lit ''unknown protocol hash '', Dbg value, Lit ''; expected <BLAKE3|TLSH>'']))"

fun direction_str :: "protocol_direction \<Rightarrow> string" where
  "direction_str DirIn = ''IN''"
| "direction_str DirOut = ''OUT''"

fun hash_str :: "protocol_hash \<Rightarrow> string" where
  "hash_str Blake3 = ''BLAKE3''"
| "hash_str Tlsh = ''TLSH''"

definition protocol_usage :: string where
  "protocol_usage = ''expected DEBUG PROTOCOL <IN|OUT> <BLAKE3|TLSH>''"

definition parse_debug_protocol ::
  "string list \<Rightarrow> app_error + protocol_direction \<times> protocol_hash" where
  "parse_debug_protocol argv =
     (if length argv < 2 \<or> \<not> eq_ignore_ascii_case (argv ! 0) ''DEBUG''
          \<or> \<not> eq_ignore_ascii_case (argv ! 1) ''PROTOCOL''
      then Inl (ProtocolFingerprintError (msg_of protocol_usage))
      else
        and_then (ok_or (ProtocolFingerprintError
            (msg_of (protocol_usage @ ''; missing protocol direction''))) (get_arg argv 2)) (\<lambda>d.
        and_then (direction_from_str d) (\<lambda>direction.
        and_then (ok_or (ProtocolFingerprintError
            (msg_of (protocol_usage @ ''; missing protocol hash''))) (get_arg argv 3)) (\<lambda>h.
        and_then (hash_from_str h) (\<lambda>algorithm.
          case get_arg argv 4 of
            Some extra \<Rightarrow> Inl (ProtocolFingerprintError
              [Lit protocol_usage, Lit ''; unexpected argument '', Dbg extra])
          | None \<Rightarrow> Inr (direction, algorithm))))))"

section \<open>Fingerprints depend on the bytes, not on how they were delivered\<close>

definition fp_bytes :: "protocol_fingerprint \<Rightarrow> bytes" where
  "fp_bytes p = concat (blake3_updates p)"

definition fp_synced :: "protocol_fingerprint \<Rightarrow> bool" where
  "fp_synced p \<longleftrightarrow> tlsh_updates p = blake3_updates p"

definition update_all :: "protocol_direction \<Rightarrow> bytes list \<Rightarrow> protocol_fingerprints \<Rightarrow> protocol_fingerprints" where
  "update_all d chunks fs = foldl (\<lambda>fs b. fp_update d b fs) fs chunks"

lemma fingerprint_update_simps [simp]:
  "fp_synced fingerprint_new" "fp_bytes fingerprint_new = []"
  "fp_synced p \<Longrightarrow> fp_synced (fingerprint_update b p)"
  "fp_bytes (fingerprint_update b p) = fp_bytes p @ b"
  by (simp_all add: fp_synced_def fp_bytes_def fingerprint_new_def fingerprint_update_def)

lemma fingerprint_get_bytes:
  assumes "streaming_ok E" and "fp_synced p" and "fp_synced q" and "fp_bytes p = fp_bytes q"
  shows "fingerprint_get E a p = fingerprint_get E a q"
proof -
  have "blake3_hex E (blake3_updates p) = blake3_hex E (blake3_updates q)"
    and "tlsh_text E (blake3_updates p) = tlsh_text E (blake3_updates q)"
    using assms(1,4) unfolding streaming_ok_def fp_bytes_def by metis+
  then show ?thesis using assms(2,3) by (cases a) (simp_all add: fp_synced_def)
qed

lemma update_all_bytes:
  "fp_bytes (for_direction d (update_all d chunks fs)) = fp_bytes (for_direction d fs) @ concat chunks"
  by (induction chunks arbitrary: fs; cases d) (auto simp: update_all_def)

lemma update_all_synced:
  "fp_synced (for_direction d fs) \<Longrightarrow> fp_synced (for_direction d (update_all d chunks fs))"
  by (induction chunks arbitrary: fs; cases d) (auto simp: update_all_def)

text \<open>Two ways of splitting the same bytes into updates give the same fingerprint, in either
  direction and for either hash, and the other direction's fingerprint does not move.\<close>

lemma fingerprint_chunking:
  assumes "streaming_ok E" and "concat chunks = concat chunks'"
  shows "fp_get E d a (update_all d chunks fingerprints_new)
      = fp_get E d a (update_all d chunks' fingerprints_new)"
proof -
  have "fp_synced (for_direction d fingerprints_new)" by (cases d) (simp_all add: fingerprints_new_def)
  then show ?thesis
    unfolding fp_get_def using assms
    by (intro fingerprint_get_bytes) (simp_all add: update_all_bytes update_all_synced)
qed

end
