(* ===== verification/Transport.thy ===== *)
theory Transport
  imports Resp Conn_Fault Fingerprint
begin

text \<open>
  \<open>transport.rs\<close>: the delivery configuration, the deterministic plan of how one reply reaches
  the client (unsolicited extra replies, truncation, chunk boundaries, a connection fault), the
  wire bytes that plan describes, and the byte-accounted execution of it.

  The client's writer is a script of the results its next \<open>write\<close> and \<open>flush\<close> calls give;
  a script that has run out accepts everything. Offsets and lengths are \<open>nat\<close> (\<open>usize\<close>).
\<close>

section \<open>Configuration\<close>

definition EXTRA_REPLY :: bytes where "EXTRA_REPLY = ''+EVILRESP'' @ crlf"

definition MAX_BOUNDARIES :: nat where "MAX_BOUNDARIES = 64"

datatype cut = CutOff | CutRandom | CutAt nat

datatype chunks = ChunksOff | ChunksRandom | ChunksAt "nat list"

record transport_config =
  tr_truncate :: cut
  tr_extra :: nat
  tr_chunks :: chunks
  tr_probability :: f64
  tr_fault :: fault_config

definition transport_default :: transport_config where
  "transport_default = \<lparr>tr_truncate = CutOff, tr_extra = 0, tr_chunks = ChunksOff,
     tr_probability = hundred_percent, tr_fault = fault_default\<rparr>"

definition transport_enabled :: "transport_config \<Rightarrow> bool" where
  "transport_enabled c \<longleftrightarrow> fault_action (tr_fault c) \<noteq> FaultOff \<or> tr_truncate c \<noteq> CutOff
     \<or> tr_extra c \<noteq> 0 \<or> tr_chunks c \<noteq> ChunksOff"

definition offset :: "string \<Rightarrow> app_error + nat" where
  "offset value =
     (if value = [] \<or> \<not> list_all is_ascii_digit value
      then Inl (evil_error ''transport offsets/counts must be unsigned decimal integers'')
      else map_err (\<lambda>_. evil_error ''transport offset/count is too large'') (parse_usize value))"

definition parse_cut :: "string \<Rightarrow> app_error + cut" where
  "parse_cut value =
     (if keyword value ''OFF'' then Inr CutOff
      else if keyword value ''RANDOM'' then Inr CutRandom
      else map_ok CutAt (offset value))"

fun chunk_offsets :: "nat list \<Rightarrow> string list \<Rightarrow> app_error + nat list" where
  "chunk_offsets offsets [] = Inr offsets"
| "chunk_offsets offsets (part # parts) = and_then (offset part) (\<lambda>next.
     if length offsets = MAX_BOUNDARIES \<or> next = 0 \<or> (offsets \<noteq> [] \<and> last offsets \<ge> next)
     then Inl (evil_error ''CHUNKS requires at most 64 strictly increasing positive offsets'')
     else chunk_offsets (offsets @ [next]) parts)"

definition parse_chunks :: "string \<Rightarrow> app_error + chunks" where
  "parse_chunks value =
     (if keyword value ''OFF'' then Inr ChunksOff
      else if keyword value ''RANDOM'' then Inr ChunksRandom
      else map_ok ChunksAt (chunk_offsets [] (split_on CHR '','' value)))"

definition set_transport :: "transport_config setter" where
  "set_transport key value c =
     (if keyword key ''TRUNCATE'' then
        map_ok (\<lambda>t. (0, c\<lparr>tr_truncate := t\<rparr>)) (parse_cut value)
      else if keyword key ''EXTRA'' then
        and_then (offset value) (\<lambda>n.
          if n > 16 then Inl (evil_error ''TRANSPORT EXTRA requires 0..16'')
          else Inr (1, c\<lparr>tr_extra := n\<rparr>))
      else if keyword key ''CHUNKS'' then
        map_ok (\<lambda>k. (2, c\<lparr>tr_chunks := k\<rparr>)) (parse_chunks value)
      else if keyword key ''PROBABILITY'' then
        map_ok (\<lambda>p. (3, c\<lparr>tr_probability := p\<rparr>)) (parse_probability value)
      else if keyword key ''FAULT'' then
        map_ok (\<lambda>f. (4, c\<lparr>tr_fault := f\<rparr>)) (set_action value (tr_fault c))
      else if keyword key ''AT'' then
        map_ok (\<lambda>f. (5, c\<lparr>tr_fault := f\<rparr>)) (set_point value (tr_fault c))
      else if keyword key ''DURATION'' then
        map_ok (\<lambda>f. (6, c\<lparr>tr_fault := f\<rparr>)) (set_duration value (tr_fault c))
      else Inl (evil_error ''TRANSPORT accepts TRUNCATE, EXTRA, CHUNKS, PROBABILITY, FAULT, AT, and DURATION''))"

definition transport_updated :: "string list \<Rightarrow> transport_config \<Rightarrow> app_error + transport_config" where
  "transport_updated argv c =
     (if length argv = 1 \<and> eq_ignore_ascii_case (argv ! 0) ''OFF'' then Inr transport_default
      else (let (pairs, tail) = chunks2 argv in
        if pairs = [] \<or> tail \<noteq> []
        then Inl (evil_error ''TRANSPORT requires OFF or option/value pairs'')
        else and_then (set_options set_transport (evil_error ''duplicate TRANSPORT option'') [] pairs c) (\<lambda>c'.
          if fault_action (tr_fault c') \<noteq> FaultOff \<and> tr_truncate c' \<noteq> CutOff
          then Inl (evil_error ''FAULT and TRUNCATE cannot both be enabled; use AT for the fault offset'')
          else Inr c')))"

definition requires_tcp :: "transport_config \<Rightarrow> bool" where
  "requires_tcp c \<longleftrightarrow> fault_action (tr_fault c) = FaultReset"

fun cut_str :: "cut \<Rightarrow> string" where
  "cut_str CutOff = ''OFF''"
| "cut_str CutRandom = ''RANDOM''"
| "cut_str (CutAt n) = show_nat n"

fun chunks_str :: "chunks \<Rightarrow> string" where
  "chunks_str ChunksOff = ''OFF''"
| "chunks_str ChunksRandom = ''RANDOM''"
| "chunks_str (ChunksAt offsets) = join '','' (map show_nat offsets)"

definition transport_status :: "transport_config \<Rightarrow> string" where
  "transport_status c =
     ''transport='' @ (if transport_enabled c then ''ON'' else ''OFF'')
     @ '' transport_probability='' @ show_fixed2 (tr_probability c)
     @ '' transport_truncate='' @ cut_str (tr_truncate c)
     @ '' transport_extra='' @ show_nat (tr_extra c)
     @ '' transport_chunks='' @ chunks_str (tr_chunks c)
     @ '' '' @ fault_status (tr_fault c)"

section \<open>Delivery plans\<close>

record delivery_plan =
  dp_version :: nat
  extra_reply_count :: nat
  extra_reply_bytes_hex :: string
  truncate_at :: "nat option"
  chunk_ends :: "nat list"
  connection_fault :: "fault_plan option"

definition plain_plan :: "'r externals \<Rightarrow> nat \<Rightarrow> delivery_plan" where
  "plain_plan E len = \<lparr>dp_version = 1, extra_reply_count = 0,
     extra_reply_bytes_hex = hex_encode E EXTRA_REPLY, truncate_at = None,
     chunk_ends = (if len = 0 then [] else [len]), connection_fault = None\<rparr>"

definition set_fault :: "fault_plan \<Rightarrow> delivery_plan \<Rightarrow> delivery_plan" where
  "set_fault fault plan = plan\<lparr>dp_version := 2,
     chunk_ends := filter (\<lambda>end. end < after_bytes fault) (chunk_ends plan)
       @ (if after_bytes fault > 0 then [after_bytes fault] else []),
     connection_fault := Some fault\<rparr>"

definition is_fault :: "delivery_plan \<Rightarrow> bool" where
  "is_fault plan \<longleftrightarrow> connection_fault plan \<noteq> None \<or> extra_reply_count plan \<noteq> 0
     \<or> truncate_at plan \<noteq> None \<or> length (chunk_ends plan) > 1"

definition truncate_to :: "nat option \<Rightarrow> bytes \<Rightarrow> bytes" where
  "truncate_to n b = (case n of Some k \<Rightarrow> take k b | None \<Rightarrow> b)"

definition wire_bytes :: "delivery_plan \<Rightarrow> bytes \<Rightarrow> bytes" where
  "wire_bytes plan response =
     truncate_to (map_option after_bytes (connection_fault plan))
       (truncate_to (truncate_at plan)
         (response @ concat (replicate (extra_reply_count plan) EXTRA_REPLY)))"

definition draw_cut :: "'r externals \<Rightarrow> cut \<Rightarrow> nat \<Rightarrow> ('r, nat option) state" where
  "draw_cut E spec full =
     (case spec of
        CutAt n \<Rightarrow> State_Monad.return (if n < full then Some n else None)
      | CutRandom \<Rightarrow>
          if full > 0 then do { n \<leftarrow> gen_range E USize 0 full; State_Monad.return (Some n) }
          else State_Monad.return None
      | CutOff \<Rightarrow> State_Monad.return None)"

definition draw_boundaries :: "'r externals \<Rightarrow> chunks \<Rightarrow> nat \<Rightarrow> ('r, nat list) state" where
  "draw_boundaries E chunks len =
     (case chunks of
        ChunksOff \<Rightarrow> State_Monad.return []
      | ChunksAt offsets \<Rightarrow> State_Monad.return (filter (\<lambda>n. n < len) offsets)
      | ChunksRandom \<Rightarrow>
          if len > 1 then do {
            count \<leftarrow> gen_range_incl E USize 1 (min MAX_BOUNDARIES (len - 1));
            offsets \<leftarrow> draw_list count (\<lambda>_. gen_range E USize 1 len);
            State_Monad.return (remdups_adj (sort offsets))
          }
          else State_Monad.return [])"

definition draw_delivery ::
  "'r externals \<Rightarrow> transport_config \<Rightarrow> nat \<Rightarrow> ('r, delivery_plan) state" where
  "draw_delivery E c response_len = do {
     hit \<leftarrow> gen_bool E (f_div (tr_probability c) hundred_percent);
     if \<not> hit then State_Monad.return (plain_plan E response_len)
     else do {
       let full = response_len + tr_extra c * length EXTRA_REPLY;
       stop \<leftarrow> draw_cut E (tr_truncate c) full;
       let len = (case stop of Some n \<Rightarrow> n | None \<Rightarrow> full);
       boundaries \<leftarrow> draw_boundaries E (tr_chunks c) len;
       State_Monad.return ((plain_plan E response_len)
         \<lparr>extra_reply_count := tr_extra c, truncate_at := stop,
          chunk_ends := boundaries @ (if len > 0 then [len] else [])\<rparr>)
     }
   }"

definition delivery_plan_of ::
  "'r externals \<Rightarrow> transport_config \<Rightarrow> u64 \<Rightarrow> u64 \<Rightarrow> string \<Rightarrow> string \<Rightarrow> nat \<Rightarrow> delivery_plan" where
  "delivery_plan_of E c seed command_index command_hash reply_hash response_len =
     (if \<not> transport_enabled c \<or> f_eq (tr_probability c) zero_percent
      then plain_plan E response_len
      else fst (run_state (draw_delivery E c response_len)
        (rng_for E seed command_index (''transport:v1:'' @ command_hash) reply_hash)))"

definition transport_plan ::
  "'r externals \<Rightarrow> transport_config \<Rightarrow> u64 \<Rightarrow> u64 \<Rightarrow> string \<Rightarrow> string \<Rightarrow> nat \<Rightarrow> delivery_plan" where
  "transport_plan E c seed command_index command_hash reply_hash response_len =
     (let plan = delivery_plan_of E c seed command_index command_hash reply_hash response_len in
      if fault_point (tr_fault c) \<noteq> AtBefore then
        (let len = response_len + extra_reply_count plan * length EXTRA_REPLY in
         case fault_plan_of E (tr_fault c) (tr_probability c) seed command_index command_hash len of
           Some fault \<Rightarrow> set_fault fault plan
         | None \<Rightarrow> plan)
      else plan)"

definition before_plan ::
  "'r externals \<Rightarrow> transport_config \<Rightarrow> u64 \<Rightarrow> u64 \<Rightarrow> string \<Rightarrow> delivery_plan option" where
  "before_plan E c seed index hash =
     (if fault_point (tr_fault c) \<noteq> AtBefore then None
      else map_option (\<lambda>fault. set_fault fault (plain_plan E 0))
        (fault_plan_of E (tr_fault c) (tr_probability c) seed index hash 0))"

section \<open>Execution\<close>

datatype write_result = Wrote nat | WriteError io_kind msg

record writer =
  write_script :: "write_result list"
  flush_script :: "(io_kind \<times> msg) option list"
  shutdown_result :: "(io_kind \<times> msg) option"
  sent :: bytes
  closed :: bool

text \<open>One \<open>write\<close> call on a non-empty buffer: at most the whole buffer is accepted.\<close>

definition next_write :: "bytes \<Rightarrow> writer \<Rightarrow> write_result \<times> writer" where
  "next_write b w =
     (case write_script w of
        [] \<Rightarrow> (Wrote (length b), w\<lparr>sent := sent w @ b\<rparr>)
      | Wrote n # s \<Rightarrow> (Wrote (min n (length b)),
          w\<lparr>write_script := s, sent := sent w @ take n b\<rparr>)
      | WriteError k m # s \<Rightarrow> (WriteError k m, w\<lparr>write_script := s\<rparr>))"

definition next_flush :: "writer \<Rightarrow> (io_kind \<times> msg) option \<times> writer" where
  "next_flush w = (case flush_script w of [] \<Rightarrow> (None, w) | r # s \<Rightarrow> (r, w\<lparr>flush_script := s\<rparr>))"

lemma next_write_progress:
  "next_write b w = (Wrote n, w') \<Longrightarrow>
     n \<le> length b \<and> sent w' = sent w @ take n b \<and> length (write_script w') \<le> length (write_script w)
     \<and> flush_script w' = flush_script w \<and> shutdown_result w' = shutdown_result w \<and> closed w' = closed w"
  by (auto simp: next_write_def min_def split: list.splits write_result.splits if_splits)

lemma next_write_error:
  "next_write b w = (WriteError k m, w') \<Longrightarrow>
     sent w' = sent w \<and> length (write_script w') < length (write_script w)
     \<and> flush_script w' = flush_script w \<and> shutdown_result w' = shutdown_result w \<and> closed w' = closed w"
  by (auto simp: next_write_def split: list.splits write_result.splits)

text \<open>
  \<open>write_counted\<close>: the loop ends because every call writes a byte or uses up a scripted result.
\<close>

function write_counted ::
  "bytes \<Rightarrow> nat \<Rightarrow> protocol_fingerprints \<Rightarrow> writer
   \<Rightarrow> (app_error + unit) \<times> nat \<times> protocol_fingerprints \<times> writer" where
  "write_counted b written fps w =
     (if b = [] then (Inr (), written, fps, w)
      else (case next_write b w of
        (WriteError k m, w') \<Rightarrow>
          if k = Interrupted then write_counted b written fps w'
          else (Inl (IoError k m), written, fps, w')
      | (Wrote n, w') \<Rightarrow>
          if n = 0 then (Inl (IoError WriteZero (msg_of ''client writer made no progress'')), written, fps, w')
          else write_counted (drop n b) (written + n) (fp_update DirOut (take n b) fps) w'))"
  by pat_completeness auto
termination
  by (relation "measures [\<lambda>(b, _, _, w). length b, \<lambda>(_, _, _, w). length (write_script w)]")
    (auto dest!: next_write_progress [OF sym] next_write_error [OF sym])

declare write_counted.simps [simp del]

record delivery_outcome =
  bytes_written :: nat
  written_bytes_hash :: string
  completed_chunks :: nat
  shutdown_completed :: bool
  error_stage :: "string option"
  error_kind :: "io_kind option"
  fault_completed :: "bool option"
  stall_end :: "string option"

type_synonym delivery = "delivery_outcome \<times> protocol_fingerprints \<times> writer"

text \<open>The loop over the planned chunk ends.\<close>

fun deliver_chunks ::
  "bytes \<Rightarrow> nat \<Rightarrow> nat list \<Rightarrow> delivery \<Rightarrow> (app_error + unit) \<times> delivery" where
  "deliver_chunks b start [] (out, fps, w) = (Inr (), out, fps, w)"
| "deliver_chunks b start (stop # ends) (out, fps, w) =
     (case write_counted (drop start (take stop b)) (bytes_written out) fps w of
        (Inl e, n, fps', w') \<Rightarrow>
          (Inl e, out\<lparr>error_stage := Some ''write'', bytes_written := n\<rparr>, fps', w')
      | (Inr _, n, fps', w') \<Rightarrow>
          (case next_flush w' of
             (Some (k, m), w'') \<Rightarrow>
               (Inl (IoError k m), out\<lparr>error_stage := Some ''flush'', bytes_written := n\<rparr>, fps', w'')
           | (None, w'') \<Rightarrow>
               deliver_chunks b stop ends (out\<lparr>error_stage := Some ''flush'', bytes_written := n,
                 completed_chunks := Suc (completed_chunks out)\<rparr>, fps', w'')))"

definition deliver_shutdown :: "delivery_plan \<Rightarrow> delivery \<Rightarrow> (app_error + unit) \<times> delivery" where
  "deliver_shutdown plan d =
     (case d of (out, fps, w) \<Rightarrow>
        if truncate_at plan = None then (Inr (), out, fps, w)
        else (case shutdown_result w of
          Some (k, m) \<Rightarrow> (Inl (IoError k m), out\<lparr>error_stage := Some ''shutdown''\<rparr>, fps, w)
        | None \<Rightarrow> (Inr (), out\<lparr>error_stage := Some ''shutdown'', shutdown_completed := True\<rparr>,
                   fps, w\<lparr>closed := True\<rparr>)))"

fun io_kind_of :: "app_error \<Rightarrow> io_kind" where
  "io_kind_of (IoError k m) = k"
| "io_kind_of e = OtherKind ''Other''"

definition deliver ::
  "'r externals \<Rightarrow> bytes \<Rightarrow> delivery_plan \<Rightarrow> protocol_fingerprints \<Rightarrow> writer
   \<Rightarrow> delivery_outcome \<times> (app_error + unit) \<times> protocol_fingerprints \<times> writer" where
  "deliver E b plan fps w =
     (let start = \<lparr>bytes_written = 0, written_bytes_hash = [], completed_chunks = 0,
            shutdown_completed = False, error_stage = None, error_kind = None,
            fault_completed = map_option (\<lambda>_. False) (connection_fault plan), stall_end = None\<rparr>;
          (r, out, fps', w') =
            (case deliver_chunks b 0 (chunk_ends plan) (start, fps, w) of
               (Inl e, d) \<Rightarrow> (Inl e, d)
             | (Inr _, d) \<Rightarrow> deliver_shutdown plan d);
          hashed = out\<lparr>written_bytes_hash := deterministic_hash E (take (bytes_written out) b)\<rparr>
      in (case r of
            Inr _ \<Rightarrow> hashed\<lparr>error_stage := None\<rparr>
          | Inl e \<Rightarrow> hashed\<lparr>error_kind := Some (io_kind_of e)\<rparr>, r, fps', w'))"

end
