(* ===== verification/Transport_Props.thy ===== *)
theory Transport_Props
  imports Transport
begin

text \<open>
  What the transport layer promises: configurations stay valid, a plan's chunk ends partition
  exactly the wire bytes it describes, and delivery accounts for every byte the writer accepted.
\<close>

section \<open>Configurations\<close>

definition chunks_ok :: "chunks \<Rightarrow> bool" where
  "chunks_ok k = (case k of
     ChunksAt offsets \<Rightarrow> sorted_wrt (<) (0 # offsets) \<and> length offsets \<le> MAX_BOUNDARIES
   | _ \<Rightarrow> True)"

definition transport_fields_ok :: "transport_config \<Rightarrow> bool" where
  "transport_fields_ok c \<longleftrightarrow> percent (tr_probability c) \<and> tr_extra c \<le> 16
     \<and> chunks_ok (tr_chunks c) \<and> fault_config_ok (tr_fault c)"

definition exclusive_faults :: "transport_config \<Rightarrow> bool" where
  "exclusive_faults c \<longleftrightarrow> \<not> (fault_action (tr_fault c) \<noteq> FaultOff \<and> tr_truncate c \<noteq> CutOff)"

definition transport_ok :: "transport_config \<Rightarrow> bool" where
  "transport_ok c \<longleftrightarrow> transport_fields_ok c \<and> exclusive_faults c"

lemma sorted_wrt_snoc:
  "sorted_wrt (<) (0 # xs) \<Longrightarrow> (0 :: nat) < n \<Longrightarrow> xs = [] \<or> last xs < n \<Longrightarrow> sorted_wrt (<) (0 # xs @ [n])"
  by (cases xs rule: rev_cases) (auto simp: sorted_wrt_append)

lemma chunk_offsets_ok:
  assumes "chunk_offsets offsets parts = Inr r" and "sorted_wrt (<) (0 # offsets)"
    and "length offsets \<le> MAX_BOUNDARIES"
  shows "sorted_wrt (<) (0 # r) \<and> length r \<le> MAX_BOUNDARIES"
  using assms
proof (induction offsets parts rule: chunk_offsets.induct)
  case (2 offsets part parts)
  from "2.prems"(1) obtain n where n: "offset part = Inr n" and
    ok: "\<not> (length offsets = MAX_BOUNDARIES \<or> n = 0 \<or> (offsets \<noteq> [] \<and> last offsets \<ge> n))"
    and rest: "chunk_offsets (offsets @ [n]) parts = Inr r"
    by (auto simp: result_simps split: if_splits)
  have "sorted_wrt (<) (0 # offsets @ [n])"
    by (rule sorted_wrt_snoc [OF "2.prems"(2)]) (use ok in \<open>simp_all add: not_le\<close>)
  moreover have "length (offsets @ [n]) \<le> MAX_BOUNDARIES" using ok "2.prems"(3) by simp
  ultimately show ?case by (rule "2.IH" [OF n ok rest])
qed auto

lemma parse_chunks_ok: "parse_chunks v = Inr k \<Longrightarrow> chunks_ok k"
proof -
  assume "parse_chunks v = Inr k"
  then consider "k = ChunksOff" | "k = ChunksRandom"
    | offsets where "k = ChunksAt offsets" "chunk_offsets [] (split_on CHR '','' v) = Inr offsets"
    by (auto simp: parse_chunks_def result_simps split: if_splits)
  then show ?thesis
  proof cases
    case 3
    then show ?thesis using chunk_offsets_ok [OF 3(2)] by (simp add: chunks_ok_def)
  qed (simp_all add: chunks_ok_def)
qed

lemma set_transport_ok:
  "set_transport key value c = Inr (i, c') \<Longrightarrow> transport_fields_ok c \<Longrightarrow> transport_fields_ok c'"
  unfolding set_transport_def transport_fields_ok_def
  by (elim if_InrE)
    (auto simp: result_simps parse_probability_percent parse_chunks_ok
      set_action_ok set_point_ok set_duration_ok split: if_splits)

lemma set_transport_index: "set_transport key value c = Inr (i, c') \<Longrightarrow> i < 7"
  unfolding set_transport_def
  by (elim if_InrE) (auto simp: result_simps split: if_splits)

interpretation transport_setter: option_setter set_transport transport_fields_ok 7
  by unfold_locales (fact set_transport_ok, fact set_transport_index)

lemma transport_default_ok [simp, config_inv]: "transport_ok transport_default"
  by (simp add: transport_ok_def transport_fields_ok_def exclusive_faults_def transport_default_def
      chunks_ok_def fault_default_def [of] fault_config_ok_def)

lemma transport_updated_inv [config_inv]:
  assumes "transport_updated argv c = Inr c'" and "transport_ok c"
  shows "transport_ok c'" and "length (fst (chunks2 argv)) \<le> 7"
proof -
  have "transport_ok c' \<and> length (fst (chunks2 argv)) \<le> 7"
  proof (cases "length argv = 1 \<and> eq_ignore_ascii_case (argv ! 0) ''OFF''")
    case True
    then show ?thesis using assms by (auto simp: transport_updated_def length_Suc_conv)
  next
    case False
    then have "set_options set_transport (evil_error ''duplicate TRANSPORT option'') []
          (fst (chunks2 argv)) c = Inr c'" and "exclusive_faults c'"
      using assms(1) by (auto simp: transport_updated_def exclusive_faults_def result_simps
          split: if_splits prod.splits)
    then show ?thesis
      using assms(2) transport_setter.set_options_inv transport_setter.set_options_count
      by (auto simp: transport_ok_def)
  qed
  then show "transport_ok c'" and "length (fst (chunks2 argv)) \<le> 7" by simp_all
qed

text \<open>A transport update that succeeds keeps the configuration valid: probability within
  0..100, at most 16 extra replies, at most 64 strictly increasing positive chunk offsets, a
  stall of 1..3600000 ms, and never a fault together with truncation. It reads at most seven
  option/value pairs.\<close>

lemma transport_updated_ok:
  assumes "transport_updated argv c = Inr c'" and "transport_ok c"
  shows "transport_ok c' \<and> length (fst (chunks2 argv)) \<le> 7"
  using transport_updated_inv [OF assms] by simp

section \<open>Plans\<close>

text \<open>
  Chunk ends partition \<open>len\<close> bytes: they increase strictly from above zero and the last one,
  when there are any bytes at all, is \<open>len\<close>.
\<close>

definition partitions :: "nat list \<Rightarrow> nat \<Rightarrow> bool" where
  "partitions ends len \<longleftrightarrow> sorted_wrt (<) (0 # ends) \<and> last (0 # ends) = len"

lemma partitions_simps [simp]:
  "partitions [] len \<longleftrightarrow> len = 0"
  "0 < len \<Longrightarrow> partitions [len] len"
  by (auto simp: partitions_def)

lemma partitions_snoc:
  assumes "sorted_wrt (<) (0 # xs)" and "\<forall>x\<in>set xs. x < len"
  shows "partitions (xs @ (if len > 0 then [len] else [])) len"
  using assms by (cases xs) (auto simp: partitions_def sorted_wrt_append)

lemma sorted_wrt_filter0: "sorted_wrt (<) (0 # xs) \<Longrightarrow> sorted_wrt (<) (0 # filter P xs)"
  by (auto intro: sorted_wrt_filter)

text \<open>The number of bytes a plan puts on the wire for a response of \<open>n\<close> bytes.\<close>

definition wire_length :: "delivery_plan \<Rightarrow> nat \<Rightarrow> nat" where
  "wire_length plan n =
     (let full = n + extra_reply_count plan * length EXTRA_REPLY;
          cut_len = (case truncate_at plan of Some k \<Rightarrow> min k full | None \<Rightarrow> full)
      in case connection_fault plan of Some f \<Rightarrow> min (after_bytes f) cut_len | None \<Rightarrow> cut_len)"

lemma length_truncate_to:
  "length (truncate_to n b) = (case n of Some k \<Rightarrow> min k (length b) | None \<Rightarrow> length b)"
  by (simp add: truncate_to_def min.commute split: option.split)

lemma length_wire_bytes: "length (wire_bytes plan response) = wire_length plan (length response)"
proof -
  have "length (concat (replicate k EXTRA_REPLY)) = k * length EXTRA_REPLY" for k
    by (induction k) auto
  then show ?thesis
    unfolding wire_bytes_def length_truncate_to
    by (simp add: wire_length_def Let_def split: option.split)
qed

lemma remdups_adj_sorted: "sorted xs \<Longrightarrow> sorted_wrt (<) (remdups_adj xs :: nat list)"
  by (induction xs rule: remdups_adj.induct) auto

lemma draw_boundaries_ok:
  assumes "rng_ok E" and "chunks_ok k"
  shows "pred_state (\<lambda>xs. sorted_wrt (<) (0 # xs) \<and> (\<forall>x\<in>set xs. x < len)) (draw_boundaries E k len)"
proof (cases k)
  case (ChunksAt offsets)
  then show ?thesis
    using assms(2) by (simp add: draw_boundaries_def chunks_ok_def sorted_wrt_filter)
next
  case ChunksRandom
  let ?P = "\<lambda>xs. sorted_wrt (<) (0 # xs) \<and> (\<forall>x\<in>set xs. x < len)"
  have "pred_state ?P (do {
      count \<leftarrow> gen_range_incl E USize 1 (min MAX_BOUNDARIES (len - 1));
      offsets \<leftarrow> draw_list count (\<lambda>_. gen_range E USize 1 len);
      State_Monad.return (remdups_adj (sort offsets)) })" if len: "len > 1"
  proof (rule pred_state_bind [where P = "\<lambda>_. True"])
    fix count
    show "pred_state ?P (do { offsets \<leftarrow> draw_list count (\<lambda>_. gen_range E USize 1 len);
        State_Monad.return (remdups_adj (sort offsets)) })"
      by (rule pred_state_bind [OF draw_list_all [OF draw_below [OF assms(1) len]]])
        (auto simp: remdups_adj_sorted)
  qed auto
  then show ?thesis by (simp add: draw_boundaries_def ChunksRandom)
qed (simp add: draw_boundaries_def)

text \<open>What holds of every plan before a connection fault is added.\<close>

definition base_plan_ok :: "transport_config \<Rightarrow> nat \<Rightarrow> delivery_plan \<Rightarrow> bool" where
  "base_plan_ok c n plan \<longleftrightarrow> connection_fault plan = None
     \<and> partitions (chunk_ends plan) (wire_length plan n)
     \<and> (extra_reply_count plan = 0 \<or> extra_reply_count plan = tr_extra c)
     \<and> (truncate_at plan \<noteq> None \<longrightarrow> tr_truncate c \<noteq> CutOff)"

lemma plain_plan_ok: "base_plan_ok c n (plain_plan E n)"
  by (simp add: base_plan_ok_def plain_plan_def wire_length_def)

lemma draw_cut_ok:
  assumes "rng_ok E"
  shows "pred_state (\<lambda>r. \<forall>n. r = Some n \<longrightarrow> n < full \<and> spec \<noteq> CutOff) (draw_cut E spec full)"
proof (cases spec)
  case CutRandom
  have "pred_state (\<lambda>r. \<forall>n. r = Some n \<longrightarrow> n < full)
      (do { n \<leftarrow> gen_range E USize 0 full; State_Monad.return (Some n) })" if "full > 0"
    by (rule pred_state_bind [OF draw_below [OF assms that]]) auto
  then show ?thesis by (simp add: draw_cut_def CutRandom)
qed (auto simp: draw_cut_def)


lemma draw_delivery_ok:
  assumes "rng_ok E" and "transport_fields_ok c"
  shows "pred_state (base_plan_ok c n) (draw_delivery E c n)"
proof -
  let ?full = "n + tr_extra c * length EXTRA_REPLY"
  have planned: "pred_state (base_plan_ok c n) (do {
      boundaries \<leftarrow> draw_boundaries E (tr_chunks c) len;
      State_Monad.return ((plain_plan E n)\<lparr>extra_reply_count := tr_extra c, truncate_at := stop,
        chunk_ends := boundaries @ (if len > 0 then [len] else [])\<rparr>) })"
    if stop: "\<forall>m. stop = Some m \<longrightarrow> m < ?full \<and> tr_truncate c \<noteq> CutOff"
      and len: "len = (case stop of Some m \<Rightarrow> m | None \<Rightarrow> ?full)" for stop len
  proof (rule pred_state_bind [OF draw_boundaries_ok [OF assms(1)]])
    show "chunks_ok (tr_chunks c)" using assms(2) by (simp add: transport_fields_ok_def)
  next
    fix boundaries assume b: "sorted_wrt (<) (0 # boundaries) \<and> (\<forall>x\<in>set boundaries. x < len)"
    have "partitions (boundaries @ (if len > 0 then [len] else [])) len"
      using b by (intro partitions_snoc) auto
    then show "pred_state (base_plan_ok c n) (State_Monad.return ((plain_plan E n)
        \<lparr>extra_reply_count := tr_extra c, truncate_at := stop,
         chunk_ends := boundaries @ (if len > 0 then [len] else [])\<rparr>))"
      using stop len
      by (auto simp: base_plan_ok_def plain_plan_def wire_length_def Let_def min_def
          split: option.splits)
  qed
  show ?thesis
    unfolding draw_delivery_def
  proof (rule pred_state_bind [where P = "\<lambda>_. True"])
    fix hit :: bool
    have "pred_state (base_plan_ok c n) (do {
        stop \<leftarrow> draw_cut E (tr_truncate c) ?full;
        let len = (case stop of Some m \<Rightarrow> m | None \<Rightarrow> ?full);
        boundaries \<leftarrow> draw_boundaries E (tr_chunks c) len;
        State_Monad.return ((plain_plan E n)\<lparr>extra_reply_count := tr_extra c, truncate_at := stop,
          chunk_ends := boundaries @ (if len > 0 then [len] else [])\<rparr>) })"
      by (rule pred_state_bind [OF draw_cut_ok [OF assms(1)]]) (simp only: Let_def, rule planned, auto)
    then show "pred_state (base_plan_ok c n) (if \<not> hit then State_Monad.return (plain_plan E n)
      else do {
        let full = ?full;
        stop \<leftarrow> draw_cut E (tr_truncate c) full;
        let len = (case stop of Some m \<Rightarrow> m | None \<Rightarrow> full);
        boundaries \<leftarrow> draw_boundaries E (tr_chunks c) len;
        State_Monad.return ((plain_plan E n)\<lparr>extra_reply_count := tr_extra c, truncate_at := stop,
          chunk_ends := boundaries @ (if len > 0 then [len] else [])\<rparr>) })"
      by (simp add: plain_plan_ok Let_def)
  qed auto
qed

lemma delivery_plan_ok:
  assumes "rng_ok E" and "transport_fields_ok c"
  shows "base_plan_ok c n (delivery_plan_of E c seed i h r n)"
  using pred_state_run_state [OF draw_delivery_ok [OF assms]]
  by (simp add: delivery_plan_of_def plain_plan_ok)

lemma partitions_cut:
  assumes "partitions ends len" and "k \<le> len"
  shows "partitions (filter (\<lambda>x. x < k) ends @ (if k > 0 then [k] else [])) k"
  by (rule partitions_snoc) (use assms in \<open>auto simp: partitions_def sorted_wrt_filter\<close>)

lemma set_fault_ok:
  assumes base: "base_plan_ok c n plan" and "exclusive_faults c" and "plan_ok (tr_fault c) len f"
    and len: "len = n + extra_reply_count plan * length EXTRA_REPLY"
  shows "partitions (chunk_ends (set_fault f plan)) (wire_length (set_fault f plan) n)"
proof -
  have cut: "truncate_at plan = None"
    using assms by (auto simp: base_plan_ok_def exclusive_faults_def plan_ok_def)
  then have "wire_length plan n = len" and "after_bytes f \<le> len"
    using assms by (auto simp: base_plan_ok_def wire_length_def plan_ok_def)
  then show ?thesis
    using base partitions_cut [of "chunk_ends plan" len "after_bytes f"] cut len
    by (simp add: set_fault_def wire_length_def base_plan_ok_def)
qed

lemma transport_plan_partitions:
  assumes "rng_ok E" and "transport_ok c"
  shows "partitions (chunk_ends (transport_plan E c seed i h r n))
      (wire_length (transport_plan E c seed i h r n) n)"
proof -
  let ?base = "delivery_plan_of E c seed i h r n"
  have base: "base_plan_ok c n ?base"
    using assms by (intro delivery_plan_ok) (simp_all add: transport_ok_def)
  then have "partitions (chunk_ends ?base) (wire_length ?base n)" by (simp add: base_plan_ok_def)
  moreover have "partitions (chunk_ends (set_fault f ?base)) (wire_length (set_fault f ?base) n)"
    if "fault_plan_of E (tr_fault c) (tr_probability c) seed i h
        (n + extra_reply_count ?base * length EXTRA_REPLY) = Some f" for f
    using base assms fault_plan_ok [OF assms(1) that]
    by (intro set_fault_ok) (auto simp: transport_ok_def)
  ultimately show ?thesis
    by (auto simp: transport_plan_def Let_def split: option.split)
qed


text \<open>C3: in every plan made from a valid configuration the chunk ends strictly increase from
  above zero and end exactly at the number of bytes the plan puts on the wire, whatever extras,
  truncation, random boundaries and connection fault were drawn. So \<open>deliver\<close> never slices out of
  range, never writes an empty chunk, and its chunks are the wire bytes.\<close>

theorem plan_covers_wire:
  assumes "rng_ok E" and "transport_ok c"
  shows "partitions (chunk_ends (transport_plan E c seed i h r (length response)))
     (length (wire_bytes (transport_plan E c seed i h r (length response)) response))"
  unfolding length_wire_bytes by (rule transport_plan_partitions [OF assms])

definition sample_transport :: transport_config where
  "sample_transport = transport_default\<lparr>tr_truncate := CutRandom, tr_chunks := ChunksRandom,
     tr_extra := 2, tr_probability := Fin 50\<rparr>"

lemma sample_transport_ok [simp]: "transport_ok sample_transport"
  using transport_default_ok
  by (simp add: sample_transport_def transport_ok_def transport_fields_ok_def exclusive_faults_def
      percent_def chunks_ok_def) (simp add: transport_default_def fault_default_def)

theorem plan_covers_wire_witness:
  "partitions (chunk_ends (transport_plan sample_externals sample_transport 1 2 ''h'' ''r'' (length ''+OK'')))
     (length (wire_bytes (transport_plan sample_externals sample_transport 1 2 ''h'' ''r'' (length ''+OK'')) ''+OK''))"
  by (rule plan_covers_wire) simp_all

section \<open>Delivery\<close>

text \<open>
  A delivery in progress: the bytes accepted so far are a prefix of the wire bytes, they are what
  the writer got beyond its earlier output, and the output fingerprint has read exactly them.
\<close>

definition accounted ::
  "bytes \<Rightarrow> writer \<Rightarrow> protocol_fingerprints \<Rightarrow> nat \<Rightarrow> protocol_fingerprints \<Rightarrow> writer \<Rightarrow> bool" where
  "accounted b w0 fps0 n fps w \<longleftrightarrow> n \<le> length b \<and> sent w = sent w0 @ take n b
     \<and> fp_bytes (fp_output fps) = fp_bytes (fp_output fps0) @ take n b
     \<and> fp_input fps = fp_input fps0"

lemma accounted_start: "accounted b w fps 0 fps w"
  by (simp add: accounted_def)

lemma accounted_write:
  assumes "accounted b w0 fps0 n fps w" and "c = drop n (take stop b)" and "k \<le> length c"
    and "sent w' = sent w @ take k c"
  shows "accounted b w0 fps0 (n + k) (fp_update DirOut (take k c) fps) w'"
proof -
  have "take (n + k) b = take n b @ take k c"
    using assms(2,3) by (auto simp: take_add min_def drop_take split: if_splits)
  then show ?thesis using assms by (auto simp: accounted_def min_def split: if_splits)
qed

lemma write_counted_step:
  "write_counted [] n fps w = (Inr (), n, fps, w)"
  "c \<noteq> [] \<Longrightarrow> next_write c w = (WriteError Interrupted m, w') \<Longrightarrow>
     write_counted c n fps w = write_counted c n fps w'"
  "c \<noteq> [] \<Longrightarrow> next_write c w = (WriteError e m, w') \<Longrightarrow> e \<noteq> Interrupted \<Longrightarrow>
     write_counted c n fps w = (Inl (IoError e m), n, fps, w')"
  "c \<noteq> [] \<Longrightarrow> next_write c w = (Wrote 0, w') \<Longrightarrow> write_counted c n fps w
     = (Inl (IoError WriteZero (msg_of ''client writer made no progress'')), n, fps, w')"
  "c \<noteq> [] \<Longrightarrow> next_write c w = (Wrote k, w') \<Longrightarrow> k \<noteq> 0 \<Longrightarrow>
     write_counted c n fps w = write_counted (drop k c) (n + k) (fp_update DirOut (take k c) fps) w'"
  by (simp_all add: write_counted.simps [of "[]"] write_counted.simps [of c])

lemma write_counted_accounted:
  assumes "write_counted c n fps w = (res, m, fps', w')" and "accounted b w0 fps0 n fps w"
    and "c = drop n (take stop b)"
  shows "accounted b w0 fps0 m fps' w' \<and> n \<le> m \<and> (res = Inr () \<longrightarrow> m = n + length c)"
  using assms
proof (induction c n fps w rule: write_counted.induct)
  case (1 c n fps w)
  obtain r w1 where r: "next_write c w = (r, w1)" by (cases "next_write c w")
  consider (empty) "c = []"
    | (again) m' where "c \<noteq> []" "r = WriteError Interrupted m'"
    | (error) k m' where "c \<noteq> []" "r = WriteError k m'" "k \<noteq> Interrupted"
    | (stuck) "c \<noteq> []" "r = Wrote 0"
    | (wrote) k where "c \<noteq> []" "r = Wrote k" "k \<noteq> 0"
  proof (cases r)
    case (Wrote k)
    then show thesis using empty stuck wrote by (cases "k = 0") auto
  next
    case (WriteError k m')
    then show thesis using empty again error by (cases "k = Interrupted") auto
  qed
  then show ?case
  proof cases
    case empty
    then show ?thesis using "1.prems" by (simp add: write_counted_step)
  next
    case again
    with r have w1: "next_write c w = (WriteError Interrupted m', w1)" by simp
    have "accounted b w0 fps0 n fps w1"
      using "1.prems"(2) next_write_error [OF w1] by (simp add: accounted_def)
    then show ?thesis
      using "1.IH"(2) [OF again(1) w1 [symmetric] refl refl] "1.prems" write_counted_step(2) [OF again(1) w1] by simp
  next
    case error
    with r have w1: "next_write c w = (WriteError k m', w1)" by simp
    then show ?thesis
      using "1.prems" next_write_error [OF w1] write_counted_step(3) [OF error(1) w1 error(3)]
      by (auto simp: accounted_def)
  next
    case stuck
    with r have w1: "next_write c w = (Wrote 0, w1)" by simp
    then show ?thesis
      using "1.prems" next_write_progress [OF w1] write_counted_step(4) [OF stuck(1) w1]
      by (auto simp: accounted_def)
  next
    case wrote
    with r have w1: "next_write c w = (Wrote k, w1)" by simp
    note p = next_write_progress [OF w1]
    have "accounted b w0 fps0 (n + k) (fp_update DirOut (take k c) fps) w1"
      using "1.prems"(2,3) p by (intro accounted_write) simp_all
    moreover have "drop k c = drop (n + k) (take stop b)"
      using "1.prems"(3) by (simp add: add.commute)
    moreover have "write_counted (drop k c) (n + k) (fp_update DirOut (take k c) fps) w1
        = (res, m, fps', w')"
      using "1.prems"(1) write_counted_step(5) [OF wrote(1) w1 wrote(3)] by simp
    ultimately have "accounted b w0 fps0 m fps' w' \<and> n + k \<le> m
        \<and> (res = Inr () \<longrightarrow> m = n + k + length (drop k c))"
      using "1.IH"(1) [OF wrote(1) w1 [symmetric] refl wrote(3)] by blast
    then show ?thesis using p by auto
  qed
qed

lemma next_flush_same: "next_flush w = (r, w') \<Longrightarrow> sent w' = sent w \<and> shutdown_result w' = shutdown_result w"
  by (auto simp: next_flush_def split: list.splits)

lemma deliver_chunks_accounted:
  assumes "deliver_chunks b start ends (out, fps, w) = (res, out', fps', w')"
    and "accounted b w0 fps0 (bytes_written out) fps w" and "bytes_written out = start"
    and "sorted_wrt (<) (start # ends)" and "last (start # ends) = length b"
  shows "accounted b w0 fps0 (bytes_written out') fps' w'
    \<and> (res = Inr () \<longrightarrow> bytes_written out' = length b
         \<and> completed_chunks out' = completed_chunks out + length ends)"
  using assms
proof (induction ends arbitrary: start out fps w)
  case (Cons stop ends)
  have stop: "start < stop" "stop \<le> length b"
  proof -
    show "start < stop" using Cons.prems(4) by simp
    have "sorted_wrt (<) (stop # ends)" using Cons.prems(4) by simp
    then have "stop \<le> last (stop # ends)" by (cases ends rule: rev_cases) (auto simp: less_imp_le)
    then show "stop \<le> length b" using Cons.prems(5) by simp
  qed
  let ?c = "drop start (take stop b)"
  obtain r m fps1 w1 where wc: "write_counted ?c start fps w = (r, m, fps1, w1)"
    by (cases "write_counted ?c start fps w")
  obtain fl w2 where fl: "next_flush w1 = (fl, w2)" by (cases "next_flush w1")
  have acc: "accounted b w0 fps0 m fps1 w1" "r = Inr () \<longrightarrow> m = stop"
    using write_counted_accounted [OF wc, of b w0 fps0 stop] Cons.prems(2,3) stop by auto
  then have acc2: "accounted b w0 fps0 m fps1 w2" using next_flush_same [OF fl] by (simp add: accounted_def)
  show ?case
  proof (cases "r = Inr () \<and> fl = None")
    case True
    let ?out = "out\<lparr>error_stage := Some ''flush'', bytes_written := m,
                 completed_chunks := Suc (completed_chunks out)\<rparr>"
    have "deliver_chunks b stop ends (?out, fps1, w2) = (res, out', fps', w')"
      using Cons.prems(1,3) wc fl True by simp
    from Cons.IH [OF this] acc acc2 True Cons.prems(4,5) show ?thesis by simp
  next
    case False
    then show ?thesis using Cons.prems(1,3) wc fl acc acc2
      by (cases r; cases fl) (auto split: prod.splits)
  qed
qed auto


lemma deliver_shutdown_same:
  "deliver_shutdown plan (out, fps, w) = (res, out', fps', w') \<Longrightarrow>
     bytes_written out' = bytes_written out \<and> completed_chunks out' = completed_chunks out
     \<and> fps' = fps \<and> sent w' = sent w"
  by (auto simp: deliver_shutdown_def split: if_splits option.splits)

lemma deliver_split:
  assumes "deliver E b plan fps w = (out, res, fps', w')"
  obtains r0 out0 fps0 w0 out1 where
    "deliver_chunks b 0 (chunk_ends plan) (\<lparr>bytes_written = 0, written_bytes_hash = [],
        completed_chunks = 0, shutdown_completed = False, error_stage = None, error_kind = None,
        fault_completed = map_option (\<lambda>_. False) (connection_fault plan), stall_end = None\<rparr>, fps, w)
       = (r0, out0, fps0, w0)"
    "(case r0 of Inl e \<Rightarrow> (Inl e, out0, fps0, w0) | Inr _ \<Rightarrow> deliver_shutdown plan (out0, fps0, w0))
       = (res, out1, fps', w')"
    "bytes_written out = bytes_written out1" "completed_chunks out = completed_chunks out1"
    "written_bytes_hash out = deterministic_hash E (take (bytes_written out1) b)"
  using assms unfolding deliver_def Let_def
  by (auto split: prod.splits sum.splits)

lemma deliver_accounted:
  assumes "deliver E b plan fps w = (out, res, fps', w')"
    and "partitions (chunk_ends plan) (length b)"
  shows "sent w' = sent w @ take (bytes_written out) b \<and> bytes_written out \<le> length b
    \<and> fp_bytes (fp_output fps') = fp_bytes (fp_output fps) @ take (bytes_written out) b
    \<and> fp_input fps' = fp_input fps
    \<and> written_bytes_hash out = deterministic_hash E (take (bytes_written out) b)
    \<and> (res = Inr () \<longrightarrow> bytes_written out = length b
         \<and> completed_chunks out = length (chunk_ends plan))"
  using assms(1)
proof (rule deliver_split)
  fix r0 out0 fps0 w0 out1
  assume chunks: "deliver_chunks b 0 (chunk_ends plan) (\<lparr>bytes_written = 0, written_bytes_hash = [],
        completed_chunks = 0, shutdown_completed = False, error_stage = None, error_kind = None,
        fault_completed = map_option (\<lambda>_. False) (connection_fault plan), stall_end = None\<rparr>, fps, w)
       = (r0, out0, fps0, w0)"
    and shut: "(case r0 of Inl e \<Rightarrow> (Inl e, out0, fps0, w0)
         | Inr _ \<Rightarrow> deliver_shutdown plan (out0, fps0, w0)) = (res, out1, fps', w')"
    and same: "bytes_written out = bytes_written out1" "completed_chunks out = completed_chunks out1"
      "written_bytes_hash out = deterministic_hash E (take (bytes_written out1) b)"
  have "accounted b w fps (bytes_written out0) fps0 w0 \<and> (r0 = Inr () \<longrightarrow>
      bytes_written out0 = length b \<and> completed_chunks out0 = length (chunk_ends plan))"
    using deliver_chunks_accounted [OF chunks, of w fps] assms(2)
    by (simp add: accounted_def partitions_def)
  moreover have "bytes_written out1 = bytes_written out0" "completed_chunks out1 = completed_chunks out0"
      "fps' = fps0" "sent w' = sent w0" "res = Inr () \<longrightarrow> r0 = Inr ()"
    using shut deliver_shutdown_same [of plan out0 fps0 w0 res out1 fps' w']
    by (auto split: sum.splits)
  ultimately show ?thesis using same by (auto simp: accounted_def)
qed

text \<open>C7: however the writer behaves (short writes, interruptions, errors, a failing flush or
  shutdown), executing a plan that covers the wire bytes accounts for every accepted byte: the
  client has received exactly the first \<open>bytes_written\<close> wire bytes, the output fingerprint has
  read exactly those, the outcome's hash is theirs, and a delivery that reports success has
  written all of them in all planned chunks.\<close>

theorem deliver_accounts:
  assumes "deliver E b plan fps w = (out, res, fps', w')"
    and "partitions (chunk_ends plan) (length b)"
  shows "sent w' = sent w @ take (bytes_written out) b \<and> bytes_written out \<le> length b
    \<and> fp_bytes (fp_output fps') = fp_bytes (fp_output fps) @ take (bytes_written out) b
    \<and> fp_input fps' = fp_input fps
    \<and> written_bytes_hash out = deterministic_hash E (take (bytes_written out) b)
    \<and> (res = Inr () \<longrightarrow> bytes_written out = length b
         \<and> completed_chunks out = length (chunk_ends plan))"
  using deliver_accounted [OF assms] .

text \<open>A writer that accepts one byte, is interrupted, and then accepts everything.\<close>

definition short_writer :: writer where
  "short_writer = \<lparr>write_script = [Wrote 1, WriteError Interrupted []], flush_script = [],
     shutdown_result = None, sent = ''>'', closed = False\<rparr>"

theorem deliver_accounts_witness:
  "\<exists>out res fps' w'. deliver sample_externals ''abc'' (plain_plan sample_externals 3) fingerprints_new short_writer
      = (out, res, fps', w')
     \<and> sent w' = ''>'' @ take (bytes_written out) ''abc''"
proof -
  obtain out res fps' w' where d: "deliver sample_externals ''abc'' (plain_plan sample_externals 3)
      fingerprints_new short_writer = (out, res, fps', w')"
    by (cases "deliver sample_externals ''abc'' (plain_plan sample_externals 3) fingerprints_new short_writer")
  have "partitions (chunk_ends (plain_plan sample_externals 3)) (length ''abc'')"
    by (simp add: plain_plan_def partitions_def)
  from deliver_accounts [OF d this] d show ?thesis by (auto simp: short_writer_def)
qed

text \<open>A client that takes everything it is given.\<close>

definition willing :: "writer \<Rightarrow> bool" where
  "willing w \<longleftrightarrow> write_script w = [] \<and> flush_script w = []"

lemma write_counted_willing:
  "write_script w = [] \<Longrightarrow> \<exists>m fps' w'. write_counted c n fps w = (Inr (), m, fps', w')
     \<and> write_script w' = [] \<and> flush_script w' = flush_script w \<and> shutdown_result w' = shutdown_result w"
  by (cases "c = []") (auto simp: write_counted.simps next_write_def)

lemma deliver_chunks_willing:
  assumes "write_script w = []" and "flush_script w = []"
  shows "\<exists>out' fps' w'. deliver_chunks b start ends (out, fps, w) = (Inr (), out', fps', w')
     \<and> shutdown_result w' = shutdown_result w \<and> willing w'"
  using assms
proof (induction ends arbitrary: start out fps w)
  case (Cons stop ends)
  obtain m fps1 w1 where w1: "write_counted (drop start (take stop b)) (bytes_written out) fps w
      = (Inr (), m, fps1, w1)" "write_script w1 = []" "flush_script w1 = []"
      "shutdown_result w1 = shutdown_result w"
    using write_counted_willing Cons.prems by metis
  have fl: "next_flush w1 = (None, w1)" using w1(3) by (simp add: next_flush_def)
  let ?out = "out\<lparr>error_stage := Some ''flush'', bytes_written := m,
                 completed_chunks := Suc (completed_chunks out)\<rparr>"
  obtain out' fps' w' where "deliver_chunks b stop ends (?out, fps1, w1) = (Inr (), out', fps', w')"
    "shutdown_result w' = shutdown_result w1" "willing w'"
    using Cons.IH [OF w1(2,3)] by metis
  then show ?case using w1(1,4) fl by simp
qed (simp add: willing_def)

text \<open>C28: a client that keeps reading gets the whole reply: with a writer that accepts what it is
  given, delivery returns success, all wire bytes are sent, and a truncated reply is followed by
  a completed shutdown.\<close>

theorem deliver_to_willing_client:
  assumes "partitions (chunk_ends plan) (length b)"
    and "write_script w = []" and "flush_script w = []" and "shutdown_result w = None"
  shows "\<exists>out fps' w'. deliver E b plan fps w = (out, Inr (), fps', w')
    \<and> sent w' = sent w @ b \<and> (shutdown_completed out \<longleftrightarrow> truncate_at plan \<noteq> None)"
proof -
  obtain out res fps' w' where d: "deliver E b plan fps w = (out, res, fps', w')"
    by (cases "deliver E b plan fps w")
  let ?start = "\<lparr>bytes_written = 0, written_bytes_hash = [], completed_chunks = 0,
      shutdown_completed = False, error_stage = None, error_kind = None,
      fault_completed = map_option (\<lambda>_. False) (connection_fault plan), stall_end = None\<rparr>"
  have keep: "deliver_chunks b s ends (o1, f1, v1) = (r, o2, f2, v2)
      \<Longrightarrow> shutdown_completed o2 = shutdown_completed o1" for s ends o1 f1 v1 r o2 f2 v2
    by (induction ends arbitrary: s o1 f1 v1)
      (auto split: prod.splits sum.splits option.splits)
  obtain o1 f1 v1 where c: "deliver_chunks b 0 (chunk_ends plan) (?start, fps, w) = (Inr (), o1, f1, v1)"
    "shutdown_result v1 = None"
    using deliver_chunks_willing [OF assms(2,3)] assms(4) by metis
  have "\<not> shutdown_completed o1" using keep [OF c(1)] by simp
  then have r: "res = Inr ()" and s: "shutdown_completed out \<longleftrightarrow> truncate_at plan \<noteq> None"
    using d c by (auto simp: deliver_def deliver_shutdown_def Let_def split: option.splits if_splits)
  have acc: "accounted b w fps (bytes_written o1) f1 v1" "bytes_written o1 = length b"
    using deliver_chunks_accounted [OF c(1), of w fps] assms(1)
    by (simp_all add: accounted_def partitions_def)
  have "sent w' = sent v1"
    using d c by (auto simp: deliver_def deliver_shutdown_def Let_def split: option.splits if_splits)
  with acc d r s show ?thesis by (auto simp: accounted_def)
qed

theorem deliver_to_willing_client_witness:
  "\<exists>out fps' w'. deliver sample_externals ''abc'' (plain_plan sample_externals 3) fingerprints_new
      (short_writer\<lparr>write_script := []\<rparr>) = (out, Inr (), fps', w')
    \<and> sent w' = sent (short_writer\<lparr>write_script := []\<rparr>) @ ''abc''
    \<and> (shutdown_completed out \<longleftrightarrow> truncate_at (plain_plan sample_externals 3) \<noteq> None)"
  by (rule deliver_to_willing_client) (simp_all add: plain_plan_def partitions_def short_writer_def)

end
