(* ===== verification/Generator.thy ===== *)
theory Generator
  imports Resp Evil_Types
begin

text \<open>
  \<open>generator.rs\<close>: bounded generation of frames and the scalar corpora. Random choices are
  computations in the state monad over the external generator, in the order the code draws.
\<close>

definition MAX_DEPTH :: nat where "MAX_DEPTH = 3"
definition MAX_ITEMS :: nat where "MAX_ITEMS = 4"
definition MAX_BLOB_BYTES :: nat where "MAX_BLOB_BYTES = 4097"

definition SIZES :: "nat list" where
  "SIZES = [0, 1, 31, 32, 33, 255, 256, 257, 4095, 4096, 4097]"

definition I64_MIN :: i64 where "I64_MIN = - (2 ^ 63)"
definition I64_MAX :: i64 where "I64_MAX = 2 ^ 63 - 1"

definition INTEGERS :: "i64 list" where
  "INTEGERS = [I64_MIN, I64_MIN + 1, -2147483649, -2147483648, -2147483647, -1, 0, 1,
     2147483646, 2147483647, 2147483648, 4294967295, 4294967296, I64_MAX - 1, I64_MAX]"

definition DOUBLES :: "string list" where
  "DOUBLES = [''0'', ''-0'', ''1'', ''-1'', ''4.9406564584124654e-324'',
     ''2.2250738585072014e-308'', ''1.7976931348623157e308'', ''-1.7976931348623157e308'',
     ''inf'', ''-inf'', ''nan'']"

definition BIG_NUMBERS :: "string list" where
  "BIG_NUMBERS = [''0'', ''-1'', ''9223372036854775807'', ''9223372036854775808'',
     ''-9223372036854775809'', ''18446744073709551615'', ''18446744073709551616'',
     ''340282366920938463463374607431768211455'', ''-340282366920938463463374607431768211455'']"

section \<open>Configuration\<close>

datatype protocol = Resp2 | Resp3

datatype corpus = BoundaryCorpus | RandomCorpus

record generator_config =
  gen_protocol :: protocol
  gen_corpus :: corpus
  gen_violations :: bool

definition generator_default :: generator_config where
  "generator_default = \<lparr>gen_protocol = Resp2, gen_corpus = BoundaryCorpus, gen_violations = False\<rparr>"

definition set_generator :: "generator_config setter" where
  "set_generator option value c =
     (if keyword option ''PROTOCOL'' then
        (if keyword value ''RESP2'' then Inr (0, c\<lparr>gen_protocol := Resp2\<rparr>)
         else if keyword value ''RESP3'' then Inr (0, c\<lparr>gen_protocol := Resp3\<rparr>)
         else Inl (evil_error ''GENERATOR PROTOCOL requires RESP2 or RESP3''))
      else if keyword option ''CORPUS'' then
        (if keyword value ''BOUNDARY'' then Inr (1, c\<lparr>gen_corpus := BoundaryCorpus\<rparr>)
         else if keyword value ''RANDOM'' then Inr (1, c\<lparr>gen_corpus := RandomCorpus\<rparr>)
         else Inl (evil_error ''GENERATOR CORPUS requires BOUNDARY or RANDOM''))
      else if keyword option ''VIOLATIONS'' then
        (if keyword value ''ON'' then Inr (2, c\<lparr>gen_violations := True\<rparr>)
         else if keyword value ''OFF'' then Inr (2, c\<lparr>gen_violations := False\<rparr>)
         else Inl (evil_error ''GENERATOR VIOLATIONS requires ON or OFF''))
      else Inl (evil_error ''GENERATOR accepts PROTOCOL, CORPUS, and VIOLATIONS''))"

definition generator_updated :: "string list \<Rightarrow> generator_config \<Rightarrow> app_error + generator_config" where
  "generator_updated argv c =
     (let (options, remainder) = chunks2 argv in
      if options = [] \<or> remainder \<noteq> []
      then Inl (evil_error ''GENERATOR requires option/value pairs'')
      else set_options set_generator (evil_error ''duplicate GENERATOR option'') [] options c)"

fun protocol_str :: "protocol \<Rightarrow> string" where
  "protocol_str Resp2 = ''RESP2''"
| "protocol_str Resp3 = ''RESP3''"

fun corpus_str :: "corpus \<Rightarrow> string" where
  "corpus_str BoundaryCorpus = ''BOUNDARY''"
| "corpus_str RandomCorpus = ''RANDOM''"

definition generator_status :: "generator_config \<Rightarrow> string" where
  "generator_status c = ''generator_protocol='' @ protocol_str (gen_protocol c)
     @ '' generator_corpus='' @ corpus_str (gen_corpus c)
     @ '' generator_violations='' @ (if gen_violations c then ''ON'' else ''OFF'')"

section \<open>Draws\<close>

definition pick :: "'r externals \<Rightarrow> 'a list \<Rightarrow> ('r, 'a) state" where
  "pick E items = do { i \<leftarrow> gen_range E USize 0 (length items); State_Monad.return (items ! i) }"

text \<open>\<open>ascii\<close>: up to \<open>max\<close> printable characters, \<open>0x21..=0x7e\<close>.\<close>

definition ascii :: "'r externals \<Rightarrow> nat \<Rightarrow> ('r, string) state" where
  "ascii E limit = do {
     len \<leftarrow> gen_range_incl E USize 0 limit;
     draw_list len (\<lambda>_. do { b \<leftarrow> gen_range_incl E U8 0x21 0x7e; State_Monad.return (char_of b) })
   }"

definition draw_boundary :: "'r externals \<Rightarrow> generator_config \<Rightarrow> ('r, bool) state" where
  "draw_boundary E c = (if gen_corpus c = BoundaryCorpus then gen_ratio E 7 10
     else State_Monad.return False)"

definition violate :: "'r externals \<Rightarrow> generator_config \<Rightarrow> ('r, bool) state" where
  "violate E c = (if gen_violations c then gen_ratio E 1 5 else State_Monad.return False)"

definition draw_count :: "'r externals \<Rightarrow> generator_config \<Rightarrow> ('r, nat) state" where
  "draw_count E c = do {
     b \<leftarrow> draw_boundary E c;
     if b then pick E [0, 1, MAX_ITEMS] else gen_range_incl E USize 0 MAX_ITEMS
   }"

definition draw_integer :: "'r externals \<Rightarrow> generator_config \<Rightarrow> ('r, i64) state" where
  "draw_integer E c = do {
     b \<leftarrow> draw_boundary E c;
     if b then pick E INTEGERS
     else do { n \<leftarrow> gen_bits E I64; State_Monad.return (of_nat n) }
   }"

definition TEXTS :: "string list" where
  "TEXTS = ['''', ''0'', ''-1'', ''2147483648'', ''9223372036854775807'', ''18446744073709551616'']"

definition draw_text :: "'r externals \<Rightarrow> generator_config \<Rightarrow> ('r, string) state" where
  "draw_text E c = do { b \<leftarrow> draw_boundary E c; if b then pick E TEXTS else ascii E 24 }"

definition PATTERNS :: "bytes list" where
  "PATTERNS = [[CHR 0x00], [CHR 0xFF], [CHR 0x0D, CHR 0x0A, CHR 0x00, CHR ''$'', CHR ''*''], ''a'']"

definition repeat_pattern :: "nat \<Rightarrow> bytes \<Rightarrow> bytes" where
  "repeat_pattern len pattern = map (\<lambda>i. pattern ! (i mod length pattern)) [0..<len]"

definition draw_blob :: "'r externals \<Rightarrow> generator_config \<Rightarrow> ('r, bytes) state" where
  "draw_blob E c = do {
     b \<leftarrow> draw_boundary E c;
     if \<not> b then do {
       len \<leftarrow> gen_range_incl E I32 0 256;
       draw_list len (\<lambda>_. do { n \<leftarrow> gen_bits E U8; State_Monad.return (char_of n) })
     }
     else do {
       q \<leftarrow> gen_ratio E 1 4;
       if q then pick E BIG_NUMBERS
       else do {
         len \<leftarrow> pick E SIZES;
         pattern \<leftarrow> pick E PATTERNS;
         State_Monad.return (repeat_pattern len pattern)
       }
     }
   }"

definition draw_double :: "'r externals \<Rightarrow> generator_config \<Rightarrow> bool \<Rightarrow> ('r, string) state" where
  "draw_double E c overflow = do {
     v \<leftarrow> violate E c;
     if v then pick E [''not-a-number'', ''1e'', ''1.2.3'']
     else do {
       b \<leftarrow> (if overflow then State_Monad.return True else draw_boundary E c);
       if b then pick E DOUBLES
       else do {
         n \<leftarrow> gen_bits E U64;
         State_Monad.return (if is_finite (f_from_bits n) then show_f64 (f_from_bits n) else ''0'')
       }
     }
   }"

definition draw_big_number :: "'r externals \<Rightarrow> generator_config \<Rightarrow> bool \<Rightarrow> ('r, string) state" where
  "draw_big_number E c overflow = do {
     v \<leftarrow> violate E c;
     if v then pick E ['''', ''12x'', ''--1'', ''1.5'']
     else do {
       b \<leftarrow> (if overflow then State_Monad.return True else draw_boundary E c);
       if b then pick E BIG_NUMBERS
       else do {
         neg \<leftarrow> gen_flag E;
         n \<leftarrow> gen_bits E U128;
         State_Monad.return ((if neg then ''-'' else '''') @ show_nat n)
       }
     }
   }"

definition draw_bulk_error :: "'r externals \<Rightarrow> generator_config \<Rightarrow> ('r, bytes) state" where
  "draw_bulk_error E c = do {
     b \<leftarrow> draw_blob E c;
     State_Monad.return (take MAX_BLOB_BYTES (''ERR '' @ b))
   }"

definition draw_verbatim :: "'r externals \<Rightarrow> generator_config \<Rightarrow> ('r, bytes) state" where
  "draw_verbatim E c = do {
     v \<leftarrow> violate E c;
     if v then State_Monad.return ''bad''
     else do { b \<leftarrow> draw_blob E c; State_Monad.return (take MAX_BLOB_BYTES (''txt:'' @ b)) }
   }"

section \<open>Frames\<close>

datatype kind = KString | KError | KInteger | KBlob | KNullBlob | KNullArray | KArray | KNull
  | KBoolean | KDouble | KBigNumber | KBulkError | KVerbatim | KMap | KSet

fun kinds_of :: "protocol \<Rightarrow> kind list" where
  "kinds_of Resp2 = [KString, KError, KInteger, KBlob, KNullBlob, KNullArray, KArray]"
| "kinds_of Resp3 = [KString, KError, KInteger, KBlob, KNull, KBoolean, KDouble, KBigNumber,
     KBulkError, KVerbatim, KArray, KMap, KSet]"

definition available :: "protocol \<Rightarrow> nat \<Rightarrow> nat" where
  "available protocol depth =
     (if depth = MAX_DEPTH then length (kinds_of protocol) - (if protocol = Resp2 then 1 else 3)
      else length (kinds_of protocol))"

definition violation :: "'r externals \<Rightarrow> generator_config \<Rightarrow> nat \<Rightarrow> ('r, frame) state" where
  "violation E c depth = (let sideband = depth < MAX_DEPTH;
        kinds = (if sideband then 5 else 3) + (if gen_protocol c = Resp2 then 1 else 0)
     in do {
       i \<leftarrow> gen_range E USize 0 kinds;
       State_Monad.return
         (if i = 0 then Double ''1e''
          else if i = 1 then BigNumber ''12x''
          else if i = 2 then VerbatimString ''bad''
          else if i = 3 \<and> sideband then Push [BulkString (Some ''message'')]
          else if i = 4 \<and> sideband then Attribute [(SimpleString ''meta'', Integer 1)]
          else Boolean True)
     })"

text \<open>
  The \<open>while items.contains(&item)\<close> loop of a set: a repeated item is replaced by the next
  integer. Each turn rules out one more of the items already present, so two turns more than
  there are items always suffice (\<open>distinct_item_fresh\<close>).
\<close>

fun distinct_item :: "nat \<Rightarrow> frame list \<Rightarrow> frame \<Rightarrow> i64 \<Rightarrow> frame" where
  "distinct_item 0 items item fallback = item"
| "distinct_item (Suc fuel) items item fallback =
     (if item \<in> set items then distinct_item fuel items (Integer fallback) (fallback + 1)
      else item)"

primrec draw_set :: "nat \<Rightarrow> ('r, frame) state \<Rightarrow> ('r, frame list) state" where
  "draw_set 0 child = State_Monad.return []"
| "draw_set (Suc n) child = do {
     items \<leftarrow> draw_set n child;
     item \<leftarrow> child;
     State_Monad.return (items @ [distinct_item (length items + 2) items item (of_nat n)])
   }"

fun build_kind ::
  "'r externals \<Rightarrow> generator_config \<Rightarrow> ('r, frame) state \<Rightarrow> kind \<Rightarrow> ('r, frame) state" where
  "build_kind E c child KString = do { t \<leftarrow> draw_text E c; State_Monad.return (SimpleString t) }"
| "build_kind E c child KError = do { t \<leftarrow> draw_text E c; State_Monad.return (SimpleError (''ERR '' @ t)) }"
| "build_kind E c child KInteger = do { n \<leftarrow> draw_integer E c; State_Monad.return (Integer n) }"
| "build_kind E c child KBlob = do { b \<leftarrow> draw_blob E c; State_Monad.return (BulkString (Some b)) }"
| "build_kind E c child KNullBlob = State_Monad.return (BulkString None)"
| "build_kind E c child KNullArray = State_Monad.return (Array None)"
| "build_kind E c child KNull = State_Monad.return Null"
| "build_kind E c child KBoolean = do { b \<leftarrow> gen_flag E; State_Monad.return (Boolean b) }"
| "build_kind E c child KDouble = do { d \<leftarrow> draw_double E c False; State_Monad.return (Double d) }"
| "build_kind E c child KBigNumber =
     do { d \<leftarrow> draw_big_number E c False; State_Monad.return (BigNumber d) }"
| "build_kind E c child KBulkError = do { b \<leftarrow> draw_bulk_error E c; State_Monad.return (BulkError b) }"
| "build_kind E c child KVerbatim = do { b \<leftarrow> draw_verbatim E c; State_Monad.return (VerbatimString b) }"
| "build_kind E c child KArray = do {
     count \<leftarrow> draw_count E c;
     items \<leftarrow> draw_list count (\<lambda>_. child);
     State_Monad.return (Array (Some items))
   }"
| "build_kind E c child KMap = do {
     count \<leftarrow> draw_count E c;
     items \<leftarrow> draw_list count (\<lambda>i. do {
       v \<leftarrow> child; State_Monad.return (BulkString (Some (''key:'' @ show_nat i)), v) });
     State_Monad.return (Map items)
   }"
| "build_kind E c child KSet = do {
     count \<leftarrow> draw_count E c;
     items \<leftarrow> draw_set count child;
     State_Monad.return (Set items)
   }"

definition frame_step ::
  "'r externals \<Rightarrow> generator_config \<Rightarrow> nat \<Rightarrow> ('r, frame) state \<Rightarrow> ('r, frame) state" where
  "frame_step E c depth child = do {
     v \<leftarrow> violate E c;
     if v then violation E c depth
     else do {
       i \<leftarrow> gen_range E USize 0 (available (gen_protocol c) depth);
       build_kind E c child (kinds_of (gen_protocol c) ! i)
     }
   }"

text \<open>
  \<open>frame_at\<close> at depth \<open>MAX_DEPTH + 1 - levels\<close>. No child is drawn at depth \<open>MAX_DEPTH\<close>
  (the aggregate kinds are not available there), so level 0 is never reached.
\<close>

primrec frame_at :: "'r externals \<Rightarrow> generator_config \<Rightarrow> nat \<Rightarrow> ('r, frame) state" where
  "frame_at E c 0 = State_Monad.return Null"
| "frame_at E c (Suc levels) = frame_step E c (MAX_DEPTH - levels) (frame_at E c levels)"

definition gen_frame :: "'r externals \<Rightarrow> generator_config \<Rightarrow> ('r, frame) state" where
  "gen_frame E c = frame_at E c MAX_DEPTH"

section \<open>Scalar mutation\<close>

definition different_number :: "string \<Rightarrow> string \<Rightarrow> string" where
  "different_number next current =
     (if next \<noteq> current then next else if current = ''0'' then ''1'' else ''0'')"

definition overflow_text :: "'r externals \<Rightarrow> bytes \<Rightarrow> ('r, string) state" where
  "overflow_text E current = do {
     b \<leftarrow> gen_flag E;
     let values = [''9223372036854775807'', ''18446744073709551615''];
     let index = (if b then 1 else 0);
     State_Monad.return (if values ! index = current then values ! (1 - index) else values ! index)
   }"

definition flip_bit0 :: "char \<Rightarrow> char" where
  "flip_bit0 c = Char (\<not> digit0 c) (digit1 c) (digit2 c) (digit3 c) (digit4 c) (digit5 c)
     (digit6 c) (digit7 c)"

definition make_different :: "bytes \<Rightarrow> bytes \<Rightarrow> nat \<Rightarrow> bytes" where
  "make_different next current prefix =
     (if next \<noteq> current then next
      else if length next \<le> prefix then next @ ''x''
      else next[prefix := flip_bit0 (next ! prefix)])"

definition push_if_same :: "string \<Rightarrow> string \<Rightarrow> string" where
  "push_if_same next value = (if next = value then next @ ''!'' else next)"

fun mutate_scalar ::
  "'r externals \<Rightarrow> generator_config \<Rightarrow> bool \<Rightarrow> frame \<Rightarrow> ('r, frame) state" where
  "mutate_scalar E c overflow (Integer value) = do {
     next \<leftarrow> (if overflow then do { b \<leftarrow> gen_flag E; State_Monad.return (if b then I64_MAX else I64_MIN) }
             else draw_integer E c);
     State_Monad.return (Integer (if next \<noteq> value then next
       else if overflow then not next else value + 1))
   }"
| "mutate_scalar E c overflow (SimpleString value) = do {
     next \<leftarrow> (if overflow then overflow_text E value else draw_text E c);
     State_Monad.return (SimpleString (push_if_same next value))
   }"
| "mutate_scalar E c overflow (SimpleError value) = do {
     next \<leftarrow> (if overflow then overflow_text E value else draw_text E c);
     State_Monad.return (SimpleError (push_if_same next value))
   }"
| "mutate_scalar E c overflow (Double value) = do {
     next \<leftarrow> draw_double E c overflow;
     State_Monad.return (Double (different_number next value))
   }"
| "mutate_scalar E c overflow (BigNumber value) = do {
     next \<leftarrow> draw_big_number E c overflow;
     State_Monad.return (BigNumber (different_number next value))
   }"
| "mutate_scalar E c overflow (BulkString (Some b)) = do {
     next \<leftarrow> (if overflow then overflow_text E b else draw_blob E c);
     State_Monad.return (BulkString (Some (make_different next b 0)))
   }"
| "mutate_scalar E c overflow (BulkError b) = do {
     next \<leftarrow> (if overflow then overflow_text E b else draw_bulk_error E c);
     State_Monad.return (BulkError (make_different next b 0))
   }"
| "mutate_scalar E c overflow (VerbatimString b) = do {
     next \<leftarrow> (if overflow then do {
         t \<leftarrow> overflow_text E (drop 4 b); State_Monad.return (''txt:'' @ t) }
       else draw_verbatim E c);
     State_Monad.return (VerbatimString (make_different next b 4))
   }"
| "mutate_scalar E c overflow (Boolean value) = State_Monad.return (Boolean (\<not> value))"
| "mutate_scalar E c overflow (Inline parts) = do {
     a \<leftarrow> ascii E 8;
     b \<leftarrow> ascii E 8;
     State_Monad.return (Inline (if [a, b] = parts then [a, b, ''x''] else [a, b]))
   }"
| "mutate_scalar E c overflow f = State_Monad.return f"

section \<open>The option interface\<close>

interpretation generator_setter: option_setter set_generator "\<lambda>_. True" 3
  by unfold_locales (simp, unfold set_generator_def, elim if_InrE, auto)

end
