(* ===== verification/Generator_Props.thy ===== *)
theory Generator_Props
  imports Generator Resp_Roundtrip
begin

text \<open>
  What generation promises: frames that the wire format can carry, within the nesting bound and
  the selected protocol; sets without duplicates; and scalar mutations that keep a frame's kind
  and always change it.
\<close>

section \<open>Printable text\<close>

definition printable :: "string \<Rightarrow> bool" where
  "printable s \<longleftrightarrow> (\<forall>c\<in>set s. 32 \<le> byte c \<and> byte c < 127)"

lemma printable_simps [simp]:
  "printable []" "printable (c # s) \<longleftrightarrow> 32 \<le> byte c \<and> byte c < 127 \<and> printable s"
  "printable (s @ t) \<longleftrightarrow> printable s \<and> printable t"
  by (auto simp: printable_def)

lemma printable_line_ok: "printable s \<Longrightarrow> line_ok s"
proof -
  assume s: "printable s"
  have "byte CHR 0x0A = 10" by (simp add: byte_def)
  with s have "CHR 0x0A \<notin> set s" by (auto simp: printable_def)
  with s show ?thesis by (auto simp: line_ok_def printable_def intro!: is_utf8_ascii)
qed

lemma printable_show_nat [simp]: "printable (show_nat n)"
  using show_nat_digits [of n] by (auto simp: printable_def is_ascii_digit_def)

lemma printable_take_drop: "printable s \<Longrightarrow> printable (take n s)" "printable s \<Longrightarrow> printable (drop n s)"
  by (auto simp: printable_def dest: in_set_takeD in_set_dropD)

lemma printable_pad: "printable s \<Longrightarrow> printable (pad_left n s)"
  by (auto simp: pad_left_def printable_def byte_def)

lemma printable_show_decimal: "printable (show_decimal m k)"
  by (simp add: show_decimal_def Let_def printable_take_drop printable_pad byte_def)

lemma printable_show_f64 [simp]: "printable (show_f64 x)"
  by (cases x) (auto simp: printable_show_decimal byte_def split: prod.split)

lemma printable_corpora:
  "\<forall>s\<in>set DOUBLES. printable s" "\<forall>s\<in>set BIG_NUMBERS. printable s" "\<forall>s\<in>set TEXTS. printable s"
  by (simp_all add: DOUBLES_def BIG_NUMBERS_def TEXTS_def byte_def)

section \<open>What the draws return\<close>

lemma pred_state_any: "(\<And>x. P x) \<Longrightarrow> pred_state P m"
  by (rule pred_stateI) simp

text \<open>Sequencing when nothing is needed of the first draw.\<close>

lemma pred_state_then: "(\<And>x. pred_state Q (f x)) \<Longrightarrow> pred_state Q (State_Monad.bind m f)"
  by (rule pred_state_bind [where P = "\<lambda>_. True"]) (auto intro: pred_state_any)

lemma pred_pick:
  assumes "rng_ok E" and "items \<noteq> []"
  shows "pred_state (\<lambda>x. x \<in> set items) (pick E items)"
  unfolding pick_def
  by (rule pred_state_bind [OF draw_below]) (use assms in auto)

lemma pred_pick_all:
  "rng_ok E \<Longrightarrow> items \<noteq> [] \<Longrightarrow> \<forall>x\<in>set items. P x \<Longrightarrow> pred_state P (pick E items)"
  by (rule pred_state_weaken [OF pred_pick]) auto

lemma pred_ascii: "rng_ok E \<Longrightarrow> pred_state (\<lambda>s. printable s) (ascii E n)"
proof -
  assume E: "rng_ok E"
  have "pred_state (\<lambda>c. 32 \<le> byte c \<and> byte c < 127)
      (do { b \<leftarrow> gen_range_incl E U8 0x21 0x7e; State_Monad.return (char_of b) })"
    by (rule pred_state_bind [OF draw_upto [OF E]]) (auto simp: byte_def)
  then have "pred_state (\<lambda>s. printable s) (draw_list len
      (\<lambda>_. do { b \<leftarrow> gen_range_incl E U8 0x21 0x7e; State_Monad.return (char_of b) }))" for len
    by (intro pred_state_weaken [OF draw_list_all]) (auto simp: printable_def)
  then show ?thesis unfolding ascii_def by (intro pred_state_then)
qed

lemma pred_text: "rng_ok E \<Longrightarrow> pred_state (\<lambda>s. printable s) (draw_text E c)"
  unfolding draw_text_def
  by (intro pred_state_then pred_state_if pred_ascii pred_pick_all printable_corpora)
    (auto simp: TEXTS_def)

lemma pred_double: "rng_ok E \<Longrightarrow> pred_state (\<lambda>s. printable s) (draw_double E c v)"
  unfolding draw_double_def
  by (intro pred_state_then pred_state_if pred_pick_all printable_corpora)
    (auto simp: DOUBLES_def byte_def)

lemma pred_big_number: "rng_ok E \<Longrightarrow> pred_state (\<lambda>s. printable s) (draw_big_number E c v)"
  unfolding draw_big_number_def
  by (intro pred_state_then pred_state_if pred_pick_all printable_corpora)
    (auto simp: BIG_NUMBERS_def byte_def)

lemma pred_count: "rng_ok E \<Longrightarrow> pred_state (\<lambda>n. n \<le> MAX_ITEMS) (draw_count E c)"
  unfolding draw_count_def
  by (intro pred_state_then pred_state_if pred_pick_all pred_state_weaken [OF draw_upto])
    (auto simp: MAX_ITEMS_def)

section \<open>Generated frames\<close>

text \<open>The kinds of frame each protocol version generates.\<close>

fun protocol_node :: "protocol \<Rightarrow> frame \<Rightarrow> bool" where
  "protocol_node Resp2 f = (case f of SimpleString _ \<Rightarrow> True | SimpleError _ \<Rightarrow> True
     | Integer _ \<Rightarrow> True | BulkString _ \<Rightarrow> True | Array _ \<Rightarrow> True | _ \<Rightarrow> False)"
| "protocol_node Resp3 f = (case f of BulkString None \<Rightarrow> False | Array None \<Rightarrow> False
     | Push _ \<Rightarrow> False | Attribute _ \<Rightarrow> False | Inline _ \<Rightarrow> False | _ \<Rightarrow> True)"

fun in_protocol :: "protocol \<Rightarrow> frame \<Rightarrow> bool" where
  "in_protocol p f = (protocol_node p f \<and> list_all (in_protocol p) (children f))"

declare in_protocol.simps [simp del]

definition generated_ok :: "generator_config \<Rightarrow> nat \<Rightarrow> frame \<Rightarrow> bool" where
  "generated_ok c k f \<longleftrightarrow> wf_frame f \<and> frame_depth f \<le> k
     \<and> (\<not> gen_violations c \<longrightarrow> in_protocol (gen_protocol c) f)"

lemma generated_okI:
  assumes "node_ok f" and "\<not> gen_violations c \<longrightarrow> protocol_node (gen_protocol c) f"
    and "\<forall>g\<in>set (children f). generated_ok c k g"
  shows "generated_ok c (Suc k) f"
  using assms frame_depth_le [of f k]
  by (simp add: generated_ok_def wf_frame.simps [of f] in_protocol.simps [of _ f] list_all_iff)

lemma generated_leaf:
  "node_ok f \<Longrightarrow> \<not> gen_violations c \<longrightarrow> protocol_node (gen_protocol c) f \<Longrightarrow> children f = []
   \<Longrightarrow> generated_ok c (Suc k) f"
  by (rule generated_okI) auto

definition scalar_kind :: "kind \<Rightarrow> bool" where
  "scalar_kind k \<longleftrightarrow> k \<noteq> KArray \<and> k \<noteq> KMap \<and> k \<noteq> KSet"

lemma generated_draw:
  assumes "pred_state P m" and "\<And>x. P x \<Longrightarrow> node_ok (g x)"
    and "\<And>x. protocol_node (gen_protocol c) (g x)" and "\<And>x. children (g x) = []"
  shows "pred_state (generated_ok c (Suc n)) (do { x \<leftarrow> m; State_Monad.return (g x) })"
  by (rule pred_state_bind [OF assms(1)]) (use assms in \<open>auto intro!: generated_leaf\<close>)

lemma generated_draw_any:
  assumes "\<And>x. node_ok (g x) \<and> protocol_node (gen_protocol c) (g x) \<and> children (g x) = []"
  shows "pred_state (generated_ok c (Suc n)) (do { x \<leftarrow> m; State_Monad.return (g x) })"
  by (rule generated_draw [where P = "\<lambda>_. True"]) (use assms pred_state_any in auto)

lemma build_scalar:
  assumes E: "rng_ok E" and k: "k \<in> set (kinds_of (gen_protocol c))" and scalar: "scalar_kind k"
  shows "pred_state (generated_ok c (Suc n)) (build_kind E c child k)"
proof -
  have kinds: "gen_protocol c = Resp2 \<and> k \<in> set (kinds_of Resp2)
      \<or> gen_protocol c = Resp3 \<and> k \<in> set (kinds_of Resp3)"
    using k by (cases "gen_protocol c") auto
  show ?thesis
  proof (cases k)
    case KString
    then show ?thesis using kinds
      by (auto intro!: generated_draw [OF pred_text [OF E]] printable_line_ok)
  next
    case KError
    then show ?thesis using kinds
      by (auto intro!: generated_draw [OF pred_text [OF E]] printable_line_ok simp: byte_def)
  next
    case KDouble
    then show ?thesis using kinds
      by (auto intro!: generated_draw [OF pred_double [OF E]] printable_line_ok)
  next
    case KBigNumber
    then show ?thesis using kinds
      by (auto intro!: generated_draw [OF pred_big_number [OF E]] printable_line_ok)
  qed (use kinds scalar in \<open>auto simp: scalar_kind_def generated_draw_any generated_leaf\<close>)
qed

lemma draw_set_all:
  assumes "pred_state P child" and "\<And>n. P (Integer n)"
  shows "pred_state (\<lambda>xs. length xs = n \<and> (\<forall>x\<in>set xs. P x)) (draw_set n child)"
proof (induction n)
  case (Suc n)
  have keep: "P x \<Longrightarrow> P (distinct_item k items x fb)" for k items x fb
    by (induction k arbitrary: x fb) (auto simp: assms(2))
  show ?case
    unfolding draw_set.simps
  proof (rule pred_state_bind [OF Suc])
    fix items assume "length items = n \<and> (\<forall>x\<in>set items. P x)"
    then show "pred_state (\<lambda>xs. length xs = Suc n \<and> (\<forall>x\<in>set xs. P x)) (do { item \<leftarrow> child;
        State_Monad.return (items @ [distinct_item (length items + 2) items item (of_nat n)]) })"
      by (intro pred_state_bind [OF assms(1)]) (auto intro: keep simp del: distinct_item.simps)
  qed
qed simp

lemma build_aggregate:
  assumes E: "rng_ok E" and k: "k \<in> set (kinds_of (gen_protocol c))" and "\<not> scalar_kind k"
    and child: "pred_state (generated_ok c (Suc n)) child"
  shows "pred_state (generated_ok c (Suc (Suc n))) (build_kind E c child k)"
proof -
  have int: "generated_ok c (Suc n) (Integer i)" for i
    by (rule generated_leaf) (cases "gen_protocol c"; simp)+
  have blob: "generated_ok c (Suc n) (BulkString (Some b))" for b
    by (rule generated_leaf) (cases "gen_protocol c"; simp)+
  have arr: "generated_ok c (Suc (Suc n)) (Array (Some xs))"
    if "\<forall>x\<in>set xs. generated_ok c (Suc n) x" for xs
    by (rule generated_okI) (use that in \<open>cases "gen_protocol c"; simp\<close>)+
  have aggr: "generated_ok c (Suc (Suc n)) (Set xs)"
    if "\<forall>x\<in>set xs. generated_ok c (Suc n) x" and "gen_protocol c = Resp3" for xs
    by (rule generated_okI) (use that in simp_all)
  have mp: "generated_ok c (Suc (Suc n)) (Map kvs)"
    if "\<forall>(a, b)\<in>set kvs. generated_ok c (Suc n) a \<and> generated_ok c (Suc n) b"
      and "gen_protocol c = Resp3" for kvs
    by (rule generated_okI) (use that in auto)
  consider "k = KArray" | "k = KMap" "gen_protocol c = Resp3" | "k = KSet" "gen_protocol c = Resp3"
    using assms(2,3) by (cases "gen_protocol c") (auto simp: scalar_kind_def)
  then show ?thesis
  proof cases
    case 1
    then show ?thesis
      by (auto intro!: pred_state_then pred_state_bind [OF draw_list_all [OF child]] arr)
  next
    case 2
    have "pred_state (\<lambda>(a, b). generated_ok c (Suc n) a \<and> generated_ok c (Suc n) b)
        (do { v \<leftarrow> child; State_Monad.return (BulkString (Some (''key:'' @ show_nat i)), v) })" for i
      by (rule pred_state_bind [OF child]) (simp add: blob)
    then have "pred_state (generated_ok c (Suc (Suc n))) (do {
        items \<leftarrow> draw_list count (\<lambda>i. do {
          v \<leftarrow> child; State_Monad.return (BulkString (Some (''key:'' @ show_nat i)), v) });
        State_Monad.return (Map items) })" for count
      by (rule pred_state_bind [OF draw_list_all]) (use 2 in \<open>auto intro!: mp\<close>)
    then show ?thesis unfolding 2(1) build_kind.simps by (rule pred_state_then)
  next
    case 3
    then show ?thesis
      by (auto intro!: pred_state_then pred_state_bind [OF draw_set_all [OF child int]] aggr)
  qed
qed

lemma violation_ok:
  assumes "gen_violations c"
  shows "pred_state (generated_ok c (if depth < MAX_DEPTH then Suc (Suc n) else Suc n)) (violation E c depth)"
proof -
  have "line_ok ''1e''" "line_ok ''12x''" "line_ok ''meta''"
    by (auto intro!: printable_line_ok simp: byte_def)
  then have "generated_ok c (Suc m) (Double ''1e'')" "generated_ok c (Suc m) (BigNumber ''12x'')"
    "generated_ok c (Suc m) (VerbatimString ''bad'')" "generated_ok c (Suc m) (Boolean True)"
    "generated_ok c (Suc m) (BulkString (Some ''message''))"
    "generated_ok c (Suc m) (SimpleString ''meta'')" "generated_ok c (Suc m) (Integer 1)" for m
    using assms by (auto intro!: generated_leaf)
  moreover from this have "generated_ok c (Suc (Suc m)) (Push [BulkString (Some ''message'')])"
    "generated_ok c (Suc (Suc m)) (Attribute [(SimpleString ''meta'', Integer 1)])" for m
    using assms by (intro generated_okI; simp)+
  ultimately show ?thesis
    unfolding violation_def Let_def by (intro pred_state_then) auto
qed

lemma kinds_of_nth:
  assumes "i < available p depth"
  shows "kinds_of p ! i \<in> set (kinds_of p)" and "depth = MAX_DEPTH \<Longrightarrow> scalar_kind (kinds_of p ! i)"
proof -
  have "available p depth \<le> length (kinds_of p)" by (simp add: available_def)
  with assms show "kinds_of p ! i \<in> set (kinds_of p)" by (intro nth_mem) simp
  assume "depth = MAX_DEPTH"
  with assms have "i < (case p of Resp2 \<Rightarrow> 6 | Resp3 \<Rightarrow> 10)" by (cases p) (simp_all add: available_def)
  then show "scalar_kind (kinds_of p ! i)"
    by (cases p) (auto simp: scalar_kind_def less_Suc_eq numeral_eq_Suc)
qed

lemma available_pos: "0 < available p depth"
  by (cases p) (simp_all add: available_def)

lemma frame_step_ok:
  assumes E: "rng_ok E" and "depth = MAX_DEPTH \<or> pred_state (generated_ok c (Suc n)) child \<and> depth < MAX_DEPTH"
  shows "pred_state (generated_ok c (if depth < MAX_DEPTH then Suc (Suc n) else Suc n)) (frame_step E c depth child)"
  unfolding frame_step_def
proof (rule pred_state_bind [where P = "\<lambda>v. v \<longrightarrow> gen_violations c"])
  show "pred_state (\<lambda>v. v \<longrightarrow> gen_violations c) (violate E c)"
    unfolding violate_def by (auto intro: pred_state_any)
  fix v :: bool assume v: "v \<longrightarrow> gen_violations c"
  have "pred_state (generated_ok c (if depth < MAX_DEPTH then Suc (Suc n) else Suc n))
      (do { i \<leftarrow> gen_range E USize 0 (available (gen_protocol c) depth);
            build_kind E c child (kinds_of (gen_protocol c) ! i) })"
  proof (rule pred_state_bind [OF draw_below [OF E available_pos]])
    fix i assume "0 \<le> i \<and> i < available (gen_protocol c) depth"
    then have i: "i < available (gen_protocol c) depth" by simp
    let ?k = "kinds_of (gen_protocol c) ! i"
    show "pred_state (generated_ok c (if depth < MAX_DEPTH then Suc (Suc n) else Suc n))
        (build_kind E c child ?k)"
    proof (cases "scalar_kind ?k")
      case True
      then show ?thesis using build_scalar [OF E kinds_of_nth(1) [OF i]] by simp
    next
      case False
      then have "depth \<noteq> MAX_DEPTH" using kinds_of_nth(2) [OF i] by blast
      then show ?thesis
        using assms(2) build_aggregate [OF E kinds_of_nth(1) [OF i] False] by simp
    qed
  qed
  then show "pred_state (generated_ok c (if depth < MAX_DEPTH then Suc (Suc n) else Suc n))
     (if v then violation E c depth
      else do { i \<leftarrow> gen_range E USize 0 (available (gen_protocol c) depth);
                build_kind E c child (kinds_of (gen_protocol c) ! i) })"
    using v violation_ok [where E = E and c = c and depth = depth and n = n] by (cases v) auto
qed

lemma gen_frame_generated_ok:
  assumes "rng_ok E"
  shows "pred_state (generated_ok c MAX_DEPTH) (gen_frame E c)"
proof -
  have "pred_state (generated_ok c 1) (frame_at E c 1)"
    using frame_step_ok [OF assms, of MAX_DEPTH c 0 "frame_at E c 0"] by simp
  then have "pred_state (generated_ok c 2) (frame_at E c 2)"
    using frame_step_ok [OF assms, of 2 c 0 "frame_at E c 1"] by (simp add: numeral_2_eq_2 MAX_DEPTH_def)
  then show ?thesis
    using frame_step_ok [OF assms, of 1 c 1 "frame_at E c 2"]
    by (simp add: numeral_2_eq_2 numeral_3_eq_3 MAX_DEPTH_def gen_frame_def)
qed

text \<open>C29: every generated reply is a frame the wire format can carry, nested at most three levels,
  and with VIOLATIONS OFF it uses only frame kinds of the selected protocol at every level. So a
  RANDOM reply is well-formed unless violations were asked for.\<close>

theorem generated_frames_well_formed:
  assumes "rng_ok E"
  shows "generated_ok c MAX_DEPTH (fst (run_state (gen_frame E c) r))"
  by (rule pred_state_run_state) (rule gen_frame_generated_ok [OF assms])

theorem generated_frames_well_formed_witness:
  "generated_ok generator_default MAX_DEPTH (fst (run_state (gen_frame sample_externals generator_default) 5))"
  by (rule generated_frames_well_formed) simp

section \<open>Sets\<close>

lemma distinct_item_taken:
  "distinct_item k items x fb \<in> set items \<Longrightarrow>
     x \<in> set items \<and> (\<forall>j<k. Integer (fb + of_nat j) \<in> set items)"
proof (induction k arbitrary: x fb)
  case (Suc k)
  then have x: "x \<in> set items" by (auto split: if_splits)
  with Suc.prems have "distinct_item k items (Integer fb) (fb + 1) \<in> set items" by simp
  from Suc.IH [OF this] have "Integer fb \<in> set items"
    and "\<forall>j<k. Integer (fb + 1 + of_nat j) \<in> set items" by simp_all
  then have "Integer (fb + of_nat j) \<in> set items" if "j < Suc k" for j
    using that by (cases j) (auto simp: add.assoc)
  with x show ?case by blast
qed simp

lemma distinct_item_fresh:
  assumes "length items < k" and "k \<le> 2 ^ 64"
  shows "distinct_item k items x fb \<notin> set items"
proof
  assume "distinct_item k items x fb \<in> set items"
  then have "(\<lambda>j. Integer (fb + of_nat j)) ` {..<k} \<subseteq> set items"
    using distinct_item_taken by blast
  moreover have "inj_on (\<lambda>j. Integer (fb + of_nat j)) {..<k}"
  proof (rule inj_onI)
    fix i j assume ij: "i \<in> {..<k}" "j \<in> {..<k}" "Integer (fb + of_nat i) = Integer (fb + of_nat j)"
    then have "(of_nat i :: i64) = of_nat j" by simp
    moreover have "i < 2 ^ LENGTH(64)" "j < 2 ^ LENGTH(64)" using ij assms(2) by simp_all
    ultimately show "i = j" by (metis of_nat_inverse)
  qed
  ultimately have "card {..<k} \<le> card (set items)" by (metis card_inj_on_le finite_set)
  then show False using assms(1) card_length [of items] by simp
qed

lemma draw_set_distinct:
  assumes "n \<le> MAX_ITEMS"
  shows "pred_state (\<lambda>xs. length xs = n \<and> distinct xs) (draw_set n child)"
  using assms
proof (induction n)
  case (Suc n)
  have step: "distinct (items @ [distinct_item (length items + 2) items item fb])"
    if "distinct items" and "length items = n" for items item fb
    using that Suc.prems distinct_item_fresh [of items "length items + 2" item fb]
    by (simp add: MAX_ITEMS_def del: distinct_item.simps)
  have IH: "pred_state (\<lambda>xs. length xs = n \<and> distinct xs) (draw_set n child)" using Suc by simp
  show ?case
    unfolding draw_set.simps
  proof (rule pred_state_bind [OF IH])
    fix items :: "frame list" assume items: "length items = n \<and> distinct items"
    show "pred_state (\<lambda>xs. length xs = Suc n \<and> distinct xs) (do { item \<leftarrow> child;
        State_Monad.return (items @ [distinct_item (length items + 2) items item (of_nat n)]) })"
      by (rule pred_state_then) (use step items in \<open>simp del: distinct_item.simps distinct_append\<close>)
  qed
qed simp

text \<open>A generated set never repeats an element: the fallback search of the set generator ends
  with an item that is not yet present, however often the random children collide.\<close>

lemma generated_sets_distinct:
  assumes "rng_ok E"
  shows "\<exists>items. fst (run_state (build_kind E c child KSet) r) = Set items \<and> distinct items
    \<and> length items \<le> MAX_ITEMS"
proof -
  have "pred_state (\<lambda>f. \<exists>items. f = Set items \<and> distinct items \<and> length items \<le> MAX_ITEMS)
      (build_kind E c child KSet)"
    unfolding build_kind.simps
    by (rule pred_state_bind [OF pred_count [OF assms]], rule pred_state_bind [OF draw_set_distinct]) auto
  then show ?thesis by (rule pred_state_run_state)
qed

section \<open>Scalar mutation\<close>

fun same_kind :: "frame \<Rightarrow> frame \<Rightarrow> bool" where
  "same_kind (SimpleString _) f = (\<exists>v. f = SimpleString v)"
| "same_kind (SimpleError _) f = (\<exists>v. f = SimpleError v)"
| "same_kind (Integer _) f = (\<exists>v. f = Integer v)"
| "same_kind (BulkString (Some _)) f = (\<exists>v. f = BulkString (Some v))"
| "same_kind (Boolean _) f = (\<exists>v. f = Boolean v)"
| "same_kind (Double _) f = (\<exists>v. f = Double v)"
| "same_kind (BigNumber _) f = (\<exists>v. f = BigNumber v)"
| "same_kind (BulkError _) f = (\<exists>v. f = BulkError v)"
| "same_kind (VerbatimString _) f = (\<exists>v. f = VerbatimString v)"
| "same_kind (Inline _) f = (\<exists>v. f = Inline v)"
| "same_kind g f = (f = g)"

definition mutable_scalar :: "frame \<Rightarrow> bool" where
  "mutable_scalar f = (case f of SimpleString _ \<Rightarrow> True | SimpleError _ \<Rightarrow> True | Integer _ \<Rightarrow> True
     | BulkString b \<Rightarrow> b \<noteq> None | Boolean _ \<Rightarrow> True | Double _ \<Rightarrow> True | BigNumber _ \<Rightarrow> True
     | BulkError _ \<Rightarrow> True | VerbatimString _ \<Rightarrow> True | Inline _ \<Rightarrow> True | _ \<Rightarrow> False)"

lemma flip_bit0_neq: "flip_bit0 c \<noteq> c"
  by (cases c) (simp add: flip_bit0_def)

lemma make_different_neq: "make_different next b n \<noteq> b"
proof (cases "next = b \<and> n < length b")
  case True
  then have "b[n := flip_bit0 (b ! n)] \<noteq> b" by (metis flip_bit0_neq nth_list_update_eq)
  then show ?thesis using True by (auto simp: make_different_def)
qed (auto simp: make_different_def)

lemma different_number_neq: "different_number next current \<noteq> current"
  by (auto simp: different_number_def)

lemma not_word_neq: "not (w :: i64) \<noteq> w"
proof
  assume "not w = w"
  then have "bit (not w) 0 = bit w 0" by simp
  then show False by (simp add: bit_not_iff)
qed

lemma mutate_scalar_changes:
  assumes "mutable_scalar f"
  shows "pred_state (\<lambda>g. g \<noteq> f \<and> same_kind f g) (mutate_scalar E c overflow f)"
  using assms
proof (cases "(E, c, overflow, f)" rule: mutate_scalar.cases)
  case (10 E c overflow parts)
  then show ?thesis by (auto intro!: pred_state_then)
qed (auto simp: mutable_scalar_def push_if_same_def make_different_neq different_number_neq
    not_word_neq intro!: pred_state_then)

lemma mutate_scalar_same: "\<not> mutable_scalar f \<Longrightarrow> mutate_scalar E c overflow f = State_Monad.return f"
  by (cases f) (auto simp: mutable_scalar_def)

end
