(* ===== verification/Framing_Config.thy ===== *)
theory Framing_Config
  imports Evil_Types
begin

text \<open>
  The configuration half of \<open>framing.rs\<close>: when, where and how a length header is corrupted.
\<close>

datatype target = AnyTarget | PathTarget string

record length_config =
  lc_probability :: f64
  lc_target :: target
  lc_kind :: "length_corruption option"

datatype framing_config = FramingAuto | FramingOff | FramingLength length_config

text \<open>
  The rest of a frame path after \<open>root\<close>: numeric children, written without leading zeros, and
  \<open>key\<close> or \<open>value\<close> right after the index of a pair.
\<close>

fun target_path :: "string \<Rightarrow> bool \<Rightarrow> string list \<Rightarrow> app_error + string" where
  "target_path path after_index [] = Inr path"
| "target_path path after_index (p # parts) =
     (let part = to_ascii_lowercase p in
      if after_index \<and> (part = ''key'' \<or> part = ''value'')
      then target_path (path @ ''.'' @ part) False parts
      else if part \<noteq> [] \<and> list_all is_ascii_digit part
      then and_then (map_err (\<lambda>_. evil_error ''frame path index is too large'') (parse_usize part)) (\<lambda>index.
        target_path (path @ ''.'' @ show_nat index) True parts)
      else Inl (evil_error ''invalid frame path: use root, numeric children, and .key/.value after a pair index''))"

definition parse_target :: "string \<Rightarrow> app_error + target" where
  "parse_target value =
     (if eq_ignore_ascii_case value ''ANY'' then Inr AnyTarget
      else (case split_on CHR ''.'' value of
        first # parts \<Rightarrow>
          if eq_ignore_ascii_case first ''root''
          then map_ok PathTarget (target_path ''root'' False parts)
          else Inl (evil_error ''TARGET requires ANY or a root frame path'')
      | [] \<Rightarrow> Inl (evil_error ''TARGET requires ANY or a root frame path'')))"

fun target_str :: "target \<Rightarrow> string" where
  "target_str AnyTarget = ''ANY''"
| "target_str (PathTarget path) = path"

fun target_matches :: "target \<Rightarrow> string \<Rightarrow> bool" where
  "target_matches AnyTarget path = True"
| "target_matches (PathTarget t) path = (t = path)"

fun corruption_name :: "length_corruption \<Rightarrow> string" where
  "corruption_name Shorter = ''SHORTER''"
| "corruption_name Longer = ''LONGER''"
| "corruption_name Negative = ''NEGATIVE''"
| "corruption_name Boundary = ''BOUNDARY''"
| "corruption_name Overflow = ''OVERFLOW''"

definition parse_corruption :: "string \<Rightarrow> app_error + length_corruption option" where
  "parse_corruption value =
     (if keyword value ''RANDOM'' then Inr None
      else if keyword value ''SHORTER'' then Inr (Some Shorter)
      else if keyword value ''LONGER'' then Inr (Some Longer)
      else if keyword value ''NEGATIVE'' then Inr (Some Negative)
      else if keyword value ''BOUNDARY'' then Inr (Some Boundary)
      else if keyword value ''OVERFLOW'' then Inr (Some Overflow)
      else Inl (evil_error ''KIND requires RANDOM, SHORTER, LONGER, NEGATIVE, BOUNDARY, or OVERFLOW''))"

definition set_length :: "length_config setter" where
  "set_length option value c =
     (if keyword option ''PROBABILITY'' then
        map_ok (\<lambda>p. (0, c\<lparr>lc_probability := p\<rparr>)) (parse_probability value)
      else if keyword option ''TARGET'' then
        map_ok (\<lambda>t. (1, c\<lparr>lc_target := t\<rparr>)) (parse_target value)
      else if keyword option ''KIND'' then
        map_ok (\<lambda>k. (2, c\<lparr>lc_kind := k\<rparr>)) (parse_corruption value)
      else Inl (evil_error ''FRAMING LENGTH accepts PROBABILITY, TARGET, and KIND''))"

definition length_default :: length_config where
  "length_default = \<lparr>lc_probability = hundred_percent, lc_target = AnyTarget, lc_kind = None\<rparr>"

definition framing_parse :: "string list \<Rightarrow> app_error + framing_config" where
  "framing_parse argv =
     (case argv of
        [] \<Rightarrow> Inl (evil_error ''FRAMING requires AUTO, OFF, or LENGTH'')
      | mode # args \<Rightarrow>
          if (keyword mode ''AUTO'' \<or> keyword mode ''OFF'') \<and> args \<noteq> []
          then Inl (evil_error ''FRAMING AUTO and OFF do not accept options'')
          else if keyword mode ''AUTO'' then Inr FramingAuto
          else if keyword mode ''OFF'' then Inr FramingOff
          else if keyword mode ''LENGTH'' then
            (let (options, remainder) = chunks2 args in
             if remainder \<noteq> [] then Inl (evil_error ''FRAMING LENGTH options require a value'')
             else map_ok FramingLength
               (set_options set_length (evil_error ''duplicate FRAMING LENGTH option'') [] options length_default))
          else Inl (evil_error ''FRAMING requires AUTO, OFF, or LENGTH''))"

fun framing_status :: "framing_config \<Rightarrow> string" where
  "framing_status FramingAuto = ''framing=AUTO''"
| "framing_status FramingOff = ''framing=OFF''"
| "framing_status (FramingLength c) =
     ''framing=LENGTH framing_probability='' @ show_fixed2 (lc_probability c)
     @ '' framing_target='' @ target_str (lc_target c)
     @ '' framing_kind='' @ (case lc_kind c of Some k \<Rightarrow> corruption_name k | None \<Rightarrow> ''RANDOM'')"

section \<open>Valid configurations\<close>

definition length_config_ok :: "length_config \<Rightarrow> bool" where
  "length_config_ok c \<longleftrightarrow> percent (lc_probability c)"

fun framing_ok :: "framing_config \<Rightarrow> bool" where
  "framing_ok (FramingLength c) = length_config_ok c"
| "framing_ok _ = True"

lemma set_length_ok: "set_length key value c = Inr (i, c') \<Longrightarrow> length_config_ok c \<Longrightarrow> length_config_ok c'"
  unfolding set_length_def length_config_ok_def
  by (elim if_InrE) (auto simp: result_simps parse_probability_percent)

lemma set_length_index: "set_length key value c = Inr (i, c') \<Longrightarrow> i < 3"
  unfolding set_length_def by (elim if_InrE) (auto simp: result_simps)

interpretation length_setter: option_setter set_length length_config_ok 3
  by unfold_locales (fact set_length_ok, fact set_length_index)

lemma framing_parse_ok [config_inv]: "framing_parse argv = Inr c \<Longrightarrow> framing_ok c"
proof (cases argv)
  case (Cons mode args)
  assume "framing_parse argv = Inr c"
  then consider "c = FramingAuto" | "c = FramingOff" | k where "c = FramingLength k"
    "set_options set_length (evil_error ''duplicate FRAMING LENGTH option'') []
        (fst (chunks2 args)) length_default = Inr k"
    unfolding framing_parse_def Cons list.case
    by (elim if_InrE) (auto simp: result_simps split: prod.splits if_splits)
  then show ?thesis
  proof cases
    case 3
    have "length_config_ok length_default" by (simp add: length_config_ok_def length_default_def)
    with 3 show ?thesis using length_setter.set_options_inv by auto
  qed simp_all
qed (simp add: framing_parse_def)

end
