(* ===== verification/Exec_Config.thy ===== *)
theory Exec_Config
  imports Evil_Types
begin

text \<open>The configuration half of \<open>exec_mutation.rs\<close>.\<close>

datatype exec_action = ExecOffAction | ExecRandomAction | RemoveAction | DuplicateAction | SwapAction

record exec_config =
  ec_action :: exec_action
  ec_probability :: f64

definition exec_default :: exec_config where
  "exec_default = \<lparr>ec_action = ExecOffAction, ec_probability = hundred_percent\<rparr>"

definition exec_invalid :: app_error where
  "exec_invalid = evil_error ''expected EXEC <OFF|RANDOM|REMOVE|DUPLICATE|SWAP> [PROBABILITY <0..100>]; OFF accepts no options''"

definition parse_exec_action :: "string \<Rightarrow> app_error + exec_action" where
  "parse_exec_action action =
     (if keyword action ''OFF'' then Inr ExecOffAction
      else if keyword action ''RANDOM'' then Inr ExecRandomAction
      else if keyword action ''REMOVE'' then Inr RemoveAction
      else if keyword action ''DUPLICATE'' then Inr DuplicateAction
      else if keyword action ''SWAP'' then Inr SwapAction
      else Inl exec_invalid)"

definition exec_parse :: "string list \<Rightarrow> app_error + exec_config" where
  "exec_parse args =
     (case args of
        [] \<Rightarrow> Inl exec_invalid
      | a # _ \<Rightarrow>
          and_then (parse_exec_action a) (\<lambda>action.
          and_then
            (if length args = 1 then Inr hundred_percent
             else if length args = 3 \<and> action \<noteq> ExecOffAction
               \<and> eq_ignore_ascii_case (args ! 1) ''PROBABILITY''
             then parse_probability (args ! 2)
             else Inl exec_invalid) (\<lambda>probability.
          Inr \<lparr>ec_action = action, ec_probability = probability\<rparr>)))"

fun exec_action_str :: "exec_action \<Rightarrow> string" where
  "exec_action_str ExecOffAction = ''OFF''"
| "exec_action_str ExecRandomAction = ''RANDOM''"
| "exec_action_str RemoveAction = ''REMOVE''"
| "exec_action_str DuplicateAction = ''DUPLICATE''"
| "exec_action_str SwapAction = ''SWAP''"

definition exec_status :: "exec_config \<Rightarrow> string" where
  "exec_status c = ''exec='' @ exec_action_str (ec_action c)
     @ '' exec_probability='' @ show_fixed2 (ec_probability c)"

definition exec_ok :: "exec_config \<Rightarrow> bool" where
  "exec_ok c \<longleftrightarrow> percent (ec_probability c)"

lemma exec_default_ok [simp, config_inv]: "exec_ok exec_default"
  by (simp add: exec_ok_def exec_default_def)

lemma exec_parse_ok [config_inv]: "exec_parse args = Inr c \<Longrightarrow> exec_ok c"
  by (cases args)
    (auto simp: exec_parse_def exec_ok_def result_simps parse_probability_percent split: if_splits)

end
