(* ===== verification/Cli.thy ===== *)
theory Cli
  imports Errors
begin

text \<open>
  The endpoint part of \<open>cli.rs\<close>, and the standard library's check that a host is an IPv6
  address (\<open>str::parse::<Ipv6Addr>\<close>), which the topology configuration uses. A path is the
  string it was parsed from. The command-line parser itself is crate \<open>clap\<close>.
\<close>

section \<open>Endpoints\<close>

record tcp_endpoint =
  host :: string
  port :: nat

datatype endpoint = Tcp tcp_endpoint | Unix string

fun as_tcp :: "endpoint \<Rightarrow> tcp_endpoint option" where
  "as_tcp (Tcp e) = Some e"
| "as_tcp (Unix path) = None"

definition connect_addr :: "tcp_endpoint \<Rightarrow> string" where
  "connect_addr e =
     (if CHR '':'' \<in> set (host e) \<and> strip_prefix ''['' (host e) = None
      then ''['' @ host e @ '']:'' @ show_nat (port e)
      else host e @ '':'' @ show_nat (port e))"

definition parse_port :: "string \<Rightarrow> app_error + nat" where
  "parse_port value = map_err (\<lambda>e. proxy_error (''invalid endpoint port: '' @ show_int_error e))
     (parse_u16 value)"

definition not_host_port :: "string \<Rightarrow> app_error" where
  "not_host_port value = ProxyError [Lit ''endpoint '', Dbg value, Lit '' must be host:port'']"

definition parse_host_port :: "string \<Rightarrow> app_error + string \<times> nat" where
  "parse_host_port value =
     (case strip_prefix ''['' value of
        Some rest \<Rightarrow>
          (case split_once2 CHR '']'' CHR '':'' rest of
             None \<Rightarrow> Inl (not_host_port value)
           | Some (h, p) \<Rightarrow> map_ok (Pair h) (parse_port p))
      | None \<Rightarrow>
          (case rsplit_once CHR '':'' value of
             None \<Rightarrow> Inl (not_host_port value)
           | Some (h, p) \<Rightarrow> map_ok (Pair h) (parse_port p)))"

definition parse_tcp_endpoint :: "string \<Rightarrow> app_error + tcp_endpoint" where
  "parse_tcp_endpoint value = and_then (parse_host_port value) (\<lambda>(h, p).
     if h = [] then Inl (proxy_error ''endpoint host must not be empty'')
     else Inr \<lparr>host = h, port = p\<rparr>)"

definition parse_endpoint :: "string \<Rightarrow> app_error + endpoint" where
  "parse_endpoint value =
     (case strip_prefix ''unix:'' value of
        Some path \<Rightarrow>
          if path = [] then Inl (proxy_error ''unix endpoint path must not be empty'')
          else Inr (Unix path)
      | None \<Rightarrow> map_ok Tcp (parse_tcp_endpoint value))"

fun show_endpoint :: "endpoint \<Rightarrow> string" where
  "show_endpoint (Tcp e) = connect_addr e"
| "show_endpoint (Unix path) = ''unix:'' @ path"

section \<open>IPv6 addresses\<close>

text \<open>
  The parser of \<open>core::net::parser\<close>: each reader returns the value and the rest of the input,
  or leaves the input alone. Only whether a text is an address matters here, so a group is
  \<open>()\<close> and the readers count groups.
\<close>

definition hex_value :: "char \<Rightarrow> nat option" where
  "hex_value c =
     (if is_ascii_digit c then Some (byte c - 48)
      else if 97 \<le> byte c \<and> byte c \<le> 102 then Some (byte c - 87)
      else if 65 \<le> byte c \<and> byte c \<le> 70 then Some (byte c - 55)
      else None)"

fun number_digits :: "(char \<Rightarrow> nat option) \<Rightarrow> nat \<Rightarrow> string \<Rightarrow> nat list \<times> string" where
  "number_digits digit radix [] = ([], [])"
| "number_digits digit radix (c # s) =
     (case digit c of
        None \<Rightarrow> ([], c # s)
      | Some d \<Rightarrow> (d # fst (number_digits digit radix s), snd (number_digits digit radix s)))"

definition read_number :: "nat \<Rightarrow> nat \<Rightarrow> bool \<Rightarrow> nat \<Rightarrow> string \<Rightarrow> string option" where
  "read_number radix max_digits allow_zero_prefix limit s =
     (let (ds, rest) = number_digits (if radix = 16 then hex_value else to_digit) radix s
      in if ds = [] \<or> length ds > max_digits
           \<or> (\<not> allow_zero_prefix \<and> hd s = CHR ''0'' \<and> length ds > 1)
           \<or> foldl (\<lambda>n d. radix * n + d) 0 ds \<ge> limit
         then None else Some rest)"

definition read_given :: "char \<Rightarrow> string \<Rightarrow> string option" where
  "read_given c s = (case s of d # t \<Rightarrow> if d = c then Some t else None | [] \<Rightarrow> None)"

definition read_separator :: "char \<Rightarrow> nat \<Rightarrow> (string \<Rightarrow> string option) \<Rightarrow> string \<Rightarrow> string option" where
  "read_separator sep i inner s = (if i > 0 then Option.bind (read_given sep s) inner else inner s)"

definition read_ipv4 :: "string \<Rightarrow> string option" where
  "read_ipv4 s = foldl (\<lambda>r i. Option.bind r
     (read_separator CHR ''.'' i (read_number 10 3 False 256))) (Some s) [0, 1, 2, 3]"

text \<open>\<open>read_groups\<close>: how many of \<open>n\<close> groups were read, whether an IPv4 tail ended them, and the rest.\<close>

fun read_groups :: "nat \<Rightarrow> nat \<Rightarrow> string \<Rightarrow> nat \<times> bool \<times> string" where
  "read_groups i 0 s = (i, False, s)"
| "read_groups i (Suc n) s =
     (case (if n > 0 then read_separator CHR '':'' i read_ipv4 s else None) of
        Some rest \<Rightarrow> (i + 2, True, rest)
      | None \<Rightarrow>
          (case read_separator CHR '':'' i (read_number 16 4 True 65536) s of
             Some rest \<Rightarrow> read_groups (Suc i) n rest
           | None \<Rightarrow> (i, False, s)))"

definition is_ipv6 :: "string \<Rightarrow> bool" where
  "is_ipv6 s =
     (let (head_size, head_ipv4, rest) = read_groups 0 8 s
      in if head_size = 8 then rest = []
         else if head_ipv4 then False
         else (case Option.bind (read_given CHR '':'' rest) (read_given CHR '':'') of
                 None \<Rightarrow> False
               | Some tail \<Rightarrow> snd (snd (read_groups 0 (8 - (head_size + 1)) tail)) = []))"

section \<open>Round trip\<close>

text \<open>
  Hosts whose printed form reads back: a host starting with a bracket, or containing one
  before the port's own separator, would be split elsewhere; the TCP host \<open>unix\<close> without
  brackets prints like a Unix path.
\<close>

definition host_ok :: "string \<Rightarrow> bool" where
  "host_ok h \<longleftrightarrow> h \<noteq> [] \<and> h \<noteq> ''unix'' \<and> hd h \<noteq> CHR ''['' \<and> CHR '']'' \<notin> set h"

lemma parse_port_show: "p < 65536 \<Longrightarrow> parse_port (show_nat p) = Inr p"
  by (simp add: parse_port_def parse_u16_def parse_int_show_nat)

lemma split_once2_append: "d \<notin> set s \<Longrightarrow> split_once2 d e (s @ d # e # t) = Some (s, t)"
proof (induction s)
  case (Cons c s)
  then show ?case by (cases s) auto
qed simp

lemma strip_prefix_Some: "strip_prefix p s = Some r \<longleftrightarrow> s = p @ r"
  by (auto simp: strip_prefix_def) (metis append_take_drop_id)

lemma strip_prefix_None_hd: "s \<noteq> [] \<Longrightarrow> hd s \<noteq> c \<Longrightarrow> strip_prefix [c] s = None"
  by (cases s) (simp_all add: strip_prefix_def)

lemma parse_tcp_connect_addr:
  assumes "host_ok (host e)" and "port e < 65536"
  shows "parse_tcp_endpoint (connect_addr e) = Inr e"
proof -
  have digits: "CHR '':'' \<notin> set (show_nat (port e))"
    using show_nat_digits [of "port e"] by (auto simp: ascii_defs)
  have h: "host e \<noteq> []" "hd (host e) \<noteq> CHR ''[''" "CHR '']'' \<notin> set (host e)"
    using assms(1) by (simp_all add: host_ok_def)
  have "parse_host_port (connect_addr e) = Inr (host e, port e)"
  proof (cases "CHR '':'' \<in> set (host e)")
    case True
    then have "connect_addr e = ''['' @ host e @ '']:'' @ show_nat (port e)"
      using h by (simp add: connect_addr_def strip_prefix_None_hd)
    then have "strip_prefix ''['' (connect_addr e) = Some (host e @ CHR '']'' # CHR '':'' # show_nat (port e))"
      by (simp add: strip_prefix_Some)
    then show ?thesis
      using h assms(2) by (simp add: parse_host_port_def split_once2_append parse_port_show)
  next
    case False
    then have c: "connect_addr e = host e @ CHR '':'' # show_nat (port e)"
      by (simp add: connect_addr_def)
    then have "strip_prefix ''['' (connect_addr e) = None"
      using h by (intro strip_prefix_None_hd) simp_all
    then show ?thesis
      using c assms(2) digits by (simp add: parse_host_port_def rsplit_once_append parse_port_show)
  qed
  then show ?thesis using h by (simp add: parse_tcp_endpoint_def)
qed

lemma connect_addr_not_unix:
  assumes "host_ok (host e)"
  shows "strip_prefix ''unix:'' (connect_addr e) = None"
proof (cases "CHR '':'' \<in> set (host e)")
  case True
  then show ?thesis
    using assms by (simp add: connect_addr_def host_ok_def strip_prefix_None_hd) (simp add: strip_prefix_def)
next
  case False
  show ?thesis
  proof (rule ccontr)
    assume "strip_prefix ''unix:'' (connect_addr e) \<noteq> None"
    then obtain r where "connect_addr e = ''unix:'' @ r" by (auto simp: strip_prefix_Some)
    with False have "host e @ CHR '':'' # show_nat (port e) = ''unix'' @ CHR '':'' # r"
      by (simp add: connect_addr_def)
    then have "takeWhile (\<lambda>c. c \<noteq> CHR '':'') (host e @ CHR '':'' # show_nat (port e))
        = takeWhile (\<lambda>c. c \<noteq> CHR '':'') (''unix'' @ CHR '':'' # r)" by simp
    moreover have "takeWhile (\<lambda>c. c \<noteq> CHR '':'') (host e @ CHR '':'' # show_nat (port e)) = host e"
      using False by (subst takeWhile_append2) auto
    ultimately have "host e = ''unix''" by simp
    with assms show False by (simp add: host_ok_def)
  qed
qed

text \<open>A TCP endpoint's printed address parses back to the same endpoint, IPv6-style hosts
  with colons included (they are printed in brackets).\<close>

lemma endpoint_roundtrip:
  assumes "host_ok (host e)" and "port e < 65536"
  shows "parse_endpoint (show_endpoint (Tcp e)) = Inr (Tcp e)"
  using parse_tcp_connect_addr [OF assms] connect_addr_not_unix [OF assms(1)]
  by (simp add: parse_endpoint_def)

end
