(* ===== verification/Topology_Config.thy ===== *)
theory Topology_Config
  imports Cli Evil_Types
begin

text \<open>\<open>topology_config.rs\<close>: the validated controls of focused cluster redirections.\<close>

datatype redirect_kind = RkMoved | RkAsk | RkRandom

datatype redirect_phase = PhaseBefore | PhaseAfter

datatype redirect_target = WrongNode | SelfNode | ReplicaNode | NextNode | RandomNode
  | EndpointTarget tcp_endpoint

datatype redirect_slot = CorrectSlot | WrongSlot | WildSlot | FixedSlot nat

record redirect_config =
  rc_kind :: redirect_kind
  rc_target :: redirect_target
  rc_slot :: redirect_slot
  rc_phase :: redirect_phase
  rc_key :: nat
  rc_until :: "u64 option"

definition redirect_default :: redirect_config where
  "redirect_default = \<lparr>rc_kind = RkMoved, rc_target = WrongNode, rc_slot = CorrectSlot,
     rc_phase = PhaseBefore, rc_key = 1, rc_until = None\<rparr>"

definition target_char :: "char \<Rightarrow> bool" where
  "target_char c \<longleftrightarrow> is_ascii_alphanumeric c \<or> c = CHR ''.'' \<or> c = CHR ''-'' \<or> c = CHR ''_'' \<or> c = CHR '':''"

definition parse_redirect_host :: "string \<Rightarrow> app_error + tcp_endpoint" where
  "parse_redirect_host value =
     (case parse_tcp_endpoint value of
        Inl _ \<Rightarrow> Inl (evil_error ''TARGET expects WRONG_NODE|SELF|REPLICA|NEXT|RANDOM|host:port'')
      | Inr e \<Rightarrow>
          if \<not> list_all target_char (host e)
             \<or> ((CHR '':'' \<in> set (host e) \<or> strip_prefix ''['' value \<noteq> None) \<and> \<not> is_ipv6 (host e))
          then Inl (evil_error ''invalid topology target host'')
          else Inr e)"

definition parse_redirect_target :: "string \<Rightarrow> app_error + redirect_target" where
  "parse_redirect_target value =
     (if keyword value ''WRONG_NODE'' then Inr WrongNode
      else if keyword value ''SELF'' then Inr SelfNode
      else if keyword value ''REPLICA'' then Inr ReplicaNode
      else if keyword value ''NEXT'' then Inr NextNode
      else if keyword value ''RANDOM'' then Inr RandomNode
      else map_ok EndpointTarget (parse_redirect_host value))"

definition parse_redirect_slot :: "string \<Rightarrow> app_error + redirect_slot" where
  "parse_redirect_slot value =
     (if keyword value ''CORRECT'' then Inr CorrectSlot
      else if keyword value ''WRONG'' then Inr WrongSlot
      else if keyword value ''WILD'' then Inr WildSlot
      else (case parse_u16 value of
        Inr slot \<Rightarrow> if slot < 16384 then Inr (FixedSlot slot)
                   else Inl (evil_error ''SLOT expects CORRECT|WRONG|WILD|0..16383'')
      | Inl _ \<Rightarrow> Inl (evil_error ''SLOT expects CORRECT|WRONG|WILD|0..16383'')))"

text \<open>One option of \<open>TOPOLOGY REDIRECT\<close>: the probability is kept beside the configuration.\<close>

definition set_redirect ::
  "string \<Rightarrow> string \<Rightarrow> f64 \<times> redirect_config \<Rightarrow> app_error + f64 \<times> redirect_config" where
  "set_redirect option value s =
     (let (probability, c) = s in
      if option = ''PROBABILITY'' then map_ok (\<lambda>p. (p, c)) (parse_probability value)
      else if option = ''KIND'' then
        (if keyword value ''MOVED'' then Inr (probability, c\<lparr>rc_kind := RkMoved\<rparr>)
         else if keyword value ''ASK'' then Inr (probability, c\<lparr>rc_kind := RkAsk\<rparr>)
         else if keyword value ''RANDOM'' then Inr (probability, c\<lparr>rc_kind := RkRandom\<rparr>)
         else Inl (evil_error ''KIND expects MOVED|ASK|RANDOM''))
      else if option = ''TARGET'' then
        map_ok (\<lambda>t. (probability, c\<lparr>rc_target := t\<rparr>)) (parse_redirect_target value)
      else if option = ''SLOT'' then
        map_ok (\<lambda>t. (probability, c\<lparr>rc_slot := t\<rparr>)) (parse_redirect_slot value)
      else if option = ''PHASE'' then
        (if keyword value ''BEFORE'' then Inr (probability, c\<lparr>rc_phase := PhaseBefore\<rparr>)
         else if keyword value ''AFTER'' then Inr (probability, c\<lparr>rc_phase := PhaseAfter\<rparr>)
         else Inl (evil_error ''PHASE expects BEFORE|AFTER''))
      else if option = ''KEY'' then
        (case parse_usize value of
           Inr index \<Rightarrow> if index > 0 then Inr (probability, c\<lparr>rc_key := index\<rparr>)
                       else Inl (evil_error ''KEY expects a positive argument index'')
         | Inl _ \<Rightarrow> Inl (evil_error ''KEY expects a positive argument index''))
      else if option = ''UNTIL'' then
        (if eq_ignore_ascii_case value ''OFF'' then Inr (probability, c\<lparr>rc_until := None\<rparr>)
         else map_ok (\<lambda>n. (probability, c\<lparr>rc_until := Some n\<rparr>))
           (map_err (\<lambda>_. evil_error ''UNTIL expects OFF or an unsigned command index'') (parse_u64 value)))
      else Inl (evil_error (''unknown topology option '' @ option)))"

text \<open>Here a duplicate is refused before its value is read.\<close>

fun redirect_options ::
  "string list \<Rightarrow> (string \<times> string) list \<Rightarrow> f64 \<times> redirect_config \<Rightarrow> app_error + f64 \<times> redirect_config" where
  "redirect_options seen [] s = Inr s"
| "redirect_options seen ((key, value) # pairs) s =
     (let option = to_ascii_uppercase key in
      if option \<in> set seen then Inl (evil_error (''duplicate topology option '' @ option))
      else and_then (set_redirect option value s) (redirect_options (option # seen) pairs))"

definition parse_topology :: "string list \<Rightarrow> app_error + f64 \<times> redirect_config option" where
  "parse_topology args =
     (case args of
        [] \<Rightarrow> Inl (evil_error ''expected TOPOLOGY <probability|OFF|REDIRECT>'')
      | first # rest \<Rightarrow>
          if \<not> eq_ignore_ascii_case first ''REDIRECT'' then
            (if rest \<noteq> [] then Inl (evil_error ''TOPOLOGY probability and OFF accept no options'')
             else map_ok (\<lambda>p. (p, None))
               (if eq_ignore_ascii_case first ''OFF'' then Inr zero_percent else parse_probability first))
          else (let (options, remainder) = chunks2 rest in
            if remainder \<noteq> [] then Inl (evil_error ''TOPOLOGY REDIRECT expects option/value pairs'')
            else map_ok (\<lambda>(p, c). (p, Some c))
              (redirect_options [] options (hundred_percent, redirect_default))))"

fun redirect_kind_str :: "redirect_kind \<Rightarrow> string" where
  "redirect_kind_str RkMoved = ''MOVED''"
| "redirect_kind_str RkAsk = ''ASK''"
| "redirect_kind_str RkRandom = ''RANDOM''"

fun redirect_target_str :: "redirect_target \<Rightarrow> string" where
  "redirect_target_str WrongNode = ''WRONG_NODE''"
| "redirect_target_str SelfNode = ''SELF''"
| "redirect_target_str ReplicaNode = ''REPLICA''"
| "redirect_target_str NextNode = ''NEXT''"
| "redirect_target_str RandomNode = ''RANDOM''"
| "redirect_target_str (EndpointTarget e) = connect_addr e"

fun redirect_slot_str :: "redirect_slot \<Rightarrow> string" where
  "redirect_slot_str CorrectSlot = ''CORRECT''"
| "redirect_slot_str WrongSlot = ''WRONG''"
| "redirect_slot_str WildSlot = ''WILD''"
| "redirect_slot_str (FixedSlot n) = show_nat n"

definition redirect_status :: "redirect_config \<Rightarrow> string" where
  "redirect_status c =
     ''topology=REDIRECT topology_kind='' @ redirect_kind_str (rc_kind c)
     @ '' topology_target='' @ redirect_target_str (rc_target c)
     @ '' topology_slot='' @ redirect_slot_str (rc_slot c)
     @ '' topology_phase='' @ (case rc_phase c of PhaseBefore \<Rightarrow> ''BEFORE'' | PhaseAfter \<Rightarrow> ''AFTER'')
     @ '' topology_key='' @ show_nat (rc_key c)
     @ '' topology_until='' @ (case rc_until c of None \<Rightarrow> ''OFF'' | Some n \<Rightarrow> show_nat (unat n))"

section \<open>Valid configurations\<close>

definition redirect_ok :: "redirect_config \<Rightarrow> bool" where
  "redirect_ok c \<longleftrightarrow> 0 < rc_key c \<and> (case rc_slot c of FixedSlot n \<Rightarrow> n < 16384 | _ \<Rightarrow> True)
     \<and> (case rc_target c of EndpointTarget e \<Rightarrow> list_all target_char (host e) | _ \<Rightarrow> True)"

lemma parse_redirect_target_ok:
  "parse_redirect_target v = Inr t \<Longrightarrow> (case t of EndpointTarget e \<Rightarrow> list_all target_char (host e) | _ \<Rightarrow> True)"
  unfolding parse_redirect_target_def
  by (elim if_InrE) (auto simp: parse_redirect_host_def result_simps split: sum.splits if_splits)

lemma parse_redirect_slot_ok:
  "parse_redirect_slot v = Inr t \<Longrightarrow> (case t of FixedSlot n \<Rightarrow> n < 16384 | _ \<Rightarrow> True)"
  unfolding parse_redirect_slot_def
  by (elim if_InrE) (auto split: sum.splits if_splits)

lemma set_redirect_ok:
  assumes "set_redirect option value (p, c) = Inr (p', c')" and "percent p" and "redirect_ok c"
  shows "percent p' \<and> redirect_ok c'"
  using assms unfolding set_redirect_def Let_def prod.case redirect_ok_def
  by (elim if_InrE)
    (auto simp: result_simps parse_probability_percent dest: parse_redirect_target_ok parse_redirect_slot_ok
      split: sum.splits if_splits)

lemma redirect_options_ok:
  assumes "redirect_options seen pairs (p, c) = Inr (p', c')" and "percent p" and "redirect_ok c"
  shows "percent p' \<and> redirect_ok c'"
  using assms
proof (induction pairs arbitrary: seen p c)
  case (Cons kv pairs)
  obtain key v where kv: "kv = (key, v)" by (cases kv)
  from Cons.prems(1) obtain p1 c1 where step: "set_redirect (to_ascii_uppercase key) v (p, c) = Inr (p1, c1)"
    and rest: "redirect_options (to_ascii_uppercase key # seen) pairs (p1, c1) = Inr (p', c')"
    by (auto simp: kv result_simps Let_def split: if_splits)
  from set_redirect_ok [OF step Cons.prems(2,3)] Cons.IH [OF rest] show ?case by simp
qed simp

lemma parse_topology_ok [config_inv]:
  assumes "parse_topology args = Inr (p, r)"
  shows "percent p \<and> (case r of Some c \<Rightarrow> redirect_ok c | None \<Rightarrow> True)"
proof (cases args)
  case (Cons first rest)
  have d: "redirect_ok redirect_default" by (simp add: redirect_ok_def redirect_default_def)
  from assms consider "r = None" "percent p"
    | c where "r = Some c" "redirect_options [] (fst (chunks2 rest)) (hundred_percent, redirect_default) = Inr (p, c)"
    by (auto simp: Cons parse_topology_def result_simps parse_probability_percent split: if_splits prod.splits)
  then show ?thesis
    using redirect_options_ok [of "[]" "fst (chunks2 rest)" hundred_percent redirect_default p] d
    by cases auto
qed (use assms in \<open>simp add: parse_topology_def\<close>)

end
