(* ===== verification/Evil_Config.thy ===== *)
theory Evil_Config
  imports Transport_Props Generator_Props Framing_Config Exec_Config Topology_Config
begin

text \<open>
  The configuration of \<open>evil.rs\<close>: the settings of one connection, command filters, the
  \<open>DEBUG EVIL\<close> commands that change them, and the status line.

  \<open>apply_debug_command\<close> mutates the configuration in place; here it returns the configuration
  after the command together with the reply or error, so that an error's effect on the
  configuration is visible.
\<close>

section \<open>Filters\<close>

datatype filter_spec = FLiteral string | FRegex string | FAttribute string

definition regex_chars :: "char list" where
  "regex_chars = ''^$.*+?()[]{}|''"

definition looks_like_regex :: "string \<Rightarrow> bool" where
  "looks_like_regex value \<longleftrightarrow> (\<exists>c\<in>set value. c \<in> set regex_chars)"

definition literal_filter :: "string \<Rightarrow> filter_spec" where
  "literal_filter value = FLiteral (to_ascii_uppercase value)"

definition compile_filter :: "'r externals \<Rightarrow> string \<Rightarrow> app_error + filter_spec" where
  "compile_filter E value =
     (case strip_prefix ''@'' value of
        Some attribute \<Rightarrow> Inr (FAttribute (to_ascii_lowercase attribute))
      | None \<Rightarrow>
          if looks_like_regex value then
            (case regex_error E value of
               Some e \<Rightarrow> Inl (EvilConfigError [Lit ''invalid regex '', Dbg value, Lit '': '', Lit e])
             | None \<Rightarrow> Inr (FRegex value))
          else Inr (literal_filter value))"

definition compile_filters :: "'r externals \<Rightarrow> string list \<Rightarrow> app_error + filter_spec list" where
  "compile_filters E values = collect_results (compile_filter E) values"

definition attributes_of :: "(string list \<times> string) list \<Rightarrow> string \<Rightarrow> string list" where
  "attributes_of table command = map snd (filter (\<lambda>(commands, _). command \<in> set commands) table)"

definition access_table :: "(string list \<times> string) list" where
  "access_table =
     [([''GET'', ''MGET'', ''EXISTS'', ''TTL'', ''PTTL'', ''HGET'', ''HGETALL'', ''HMGET'',
        ''HEXISTS'', ''LRANGE'', ''LLEN'', ''SCARD'', ''SDIFF'', ''SINTER'', ''SISMEMBER'',
        ''SMEMBERS'', ''SUNION'', ''ZCARD'', ''ZRANGE''], ''read''),
      ([''SET'', ''MSET'', ''DEL'', ''EXPIRE'', ''PEXPIRE'', ''HSET'', ''HMSET'', ''HDEL'',
        ''LPUSH'', ''RPUSH'', ''LPOP'', ''RPOP'', ''SADD'', ''SREM'', ''ZADD'', ''ZREM''], ''write'')]"

definition type_table :: "(string list \<times> string) list" where
  "type_table =
     [([''GET'', ''MGET'', ''SET'', ''MSET''], ''string''),
      ([''HGET'', ''HGETALL'', ''HMGET'', ''HEXISTS'', ''HSET'', ''HMSET'', ''HDEL''], ''hash''),
      ([''LRANGE'', ''LLEN'', ''LPUSH'', ''RPUSH'', ''LPOP'', ''RPOP''], ''list''),
      ([''SCARD'', ''SDIFF'', ''SINTER'', ''SISMEMBER'', ''SMEMBERS'', ''SUNION'', ''SADD'', ''SREM''], ''set''),
      ([''ZCARD'', ''ZRANGE'', ''ZADD'', ''ZREM''], ''zset'')]"

definition command_attributes :: "string \<Rightarrow> string list" where
  "command_attributes command =
     attributes_of access_table (to_ascii_uppercase command)
     @ attributes_of type_table (to_ascii_uppercase command)"

fun matches_command :: "'r externals \<Rightarrow> string \<Rightarrow> filter_spec \<Rightarrow> bool" where
  "matches_command E command (FLiteral v) = eq_ignore_ascii_case command v"
| "matches_command E command (FRegex source) = regex_match E source command"
| "matches_command E command (FAttribute a) = (a \<in> set (command_attributes command))"

fun filter_display :: "filter_spec \<Rightarrow> string" where
  "filter_display (FLiteral v) = v"
| "filter_display (FRegex source) = source"
| "filter_display (FAttribute v) = ''@'' @ v"

section \<open>Settings\<close>

record evil_config =
  cfg_seed :: u64
  cfg_mode :: evil_mode
  cfg_probability :: f64
  topology_probability :: f64
  topology_redirect :: "redirect_config option"
  canonicalization :: canonicalization_mode
  cfg_strategy :: mutation_strategy
  cfg_mutation_count :: mutation_count
  cfg_depth :: mutation_depth
  cfg_framing :: framing_config
  cfg_generator :: generator_config
  cfg_exec :: exec_config
  cfg_transport :: transport_config
  cfg_include :: "filter_spec list"
  cfg_exclude :: "filter_spec list"

definition DEFAULT_EXCLUDED_COMMANDS :: "string list" where
  "DEFAULT_EXCLUDED_COMMANDS = [''AUTH'', ''HELLO'', ''COMMAND'', ''CLIENT'', ''SELECT'', ''ASKING'',
     ''MULTI'', ''DISCARD'', ''SUBSCRIBE'', ''PSUBSCRIBE'', ''SSUBSCRIBE'', ''UNSUBSCRIBE'', ''QUIT'']"

definition config_default :: evil_config where
  "config_default = \<lparr>cfg_seed = 0, cfg_mode = ModeOff, cfg_probability = zero_percent,
     topology_probability = zero_percent, topology_redirect = None,
     canonicalization = CanonUnordered, cfg_strategy = Preserve, cfg_mutation_count = Many,
     cfg_depth = Inner, cfg_framing = FramingAuto, cfg_generator = generator_default,
     cfg_exec = exec_default, cfg_transport = transport_default, cfg_include = [],
     cfg_exclude = map literal_filter DEFAULT_EXCLUDED_COMMANDS\<rparr>"

definition should_mutate_command :: "'r externals \<Rightarrow> evil_config \<Rightarrow> string option \<Rightarrow> bool" where
  "should_mutate_command E c command =
     (case command of
        None \<Rightarrow> False
      | Some name \<Rightarrow>
          if cfg_include c \<noteq> [] \<and> \<not> list_ex (matches_command E name) (cfg_include c) then False
          else \<not> list_ex (matches_command E name) (cfg_exclude c))"

definition status :: "evil_config \<Rightarrow> string" where
  "status c = ''mode='' @ mode_str (cfg_mode c)
     @ '' seed='' @ show_nat (unat (cfg_seed c))
     @ '' probability='' @ show_fixed2 (cfg_probability c)
     @ '' topology_probability='' @ show_fixed2 (topology_probability c)
     @ '' canonicalize='' @ canon_str (canonicalization c)
     @ '' include=['' @ join '','' (map filter_display (cfg_include c))
     @ ''] exclude=['' @ join '','' (map filter_display (cfg_exclude c))
     @ ''] strategy='' @ strategy_str (cfg_strategy c)
     @ '' mutations='' @ count_str (cfg_mutation_count c)
     @ '' depth='' @ depth_str (cfg_depth c)
     @ '' '' @ framing_status (cfg_framing c)
     @ '' '' @ generator_status (cfg_generator c)
     @ '' '' @ transport_status (cfg_transport c)
     @ '' '' @ (case topology_redirect c of None \<Rightarrow> ''topology=LEGACY'' | Some r \<Rightarrow> redirect_status r)
     @ '' '' @ exec_status (cfg_exec c)"

section \<open>DEBUG EVIL\<close>

datatype debug_action = NoAction | ResetIncrementingState

record debug_result =
  dr_frame :: frame
  dr_action :: debug_action

definition debug_ok :: debug_result where
  "debug_ok = \<lparr>dr_frame = SimpleString ''OK'', dr_action = NoAction\<rparr>"

definition DEBUG_EVIL_HELP :: "string list" where
  "DEBUG_EVIL_HELP = [''DEBUG EVIL <subcommand> [<arg> ...]. Subcommands are:'',
     ''CANONICALIZE <ALL|UNORDERED|NONE>'',
     ''    Normalize upstream replies before mutation (default UNORDERED).'',
     ''DEPTH <ANY|INNER>'',
     ''    Weight value and length targets uniformly or toward nested frames (default INNER).'',
     ''    INNER doubles a frame's weight per nesting level so outer shells usually survive.'',
     ''EXCLUDE [<command|regex|@attribute> ...]'',
     ''    Replace exclusion filters; no arguments clears the list.'',
     ''    Filters are case-insensitive; exclusions override inclusions.'',
     ''EXEC <OFF|RANDOM|REMOVE|DUPLICATE|SWAP> [PROBABILITY <0..100>]'',
     ''    Make one correctly framed outer EXEC array edit in MUTATE/OVERFLOW.'',
     ''    Selected edits replace generic value/framing mutation; transport still applies.'',
     ''    Probability defaults to 100, independently of value probability. OFF accepts no options.'',
     ''FRAMING <AUTO|OFF>'',
     ''    Use automatic root length faults or disable length faults.'',
     ''FRAMING LENGTH [PROBABILITY <0..100>] [TARGET <ANY|path>] [KIND <RANDOM|SHORTER|LONGER|NEGATIVE|BOUNDARY|OVERFLOW>]'',
     ''    Attempt one length fault in MUTATE/OVERFLOW, independent of value probability.'',
     ''    Omitted options reset to 100, ANY, RANDOM. Paths include root.0 and root.0.value.'',
     ''GENERATOR [PROTOCOL <RESP2|RESP3>] [CORPUS <BOUNDARY|RANDOM>] [VIOLATIONS <OFF|ON>]'',
     ''    Configure generated values; supply at least one option/value pair.'',
     ''    Omitted options retain their values. VIOLATIONS ON permits malformed values.'',
     ''HELP'',
     ''    Print this help.'',
     ''INCLUDE [<command|regex|@attribute> ...]'',
     ''    Replace inclusion filters; no arguments allows all commands unless excluded.'',
     ''MODE <OFF|RANDOM|MUTATE|OVERFLOW> [PROBABILITY <0..100>]'',
     ''    OFF disables RESP mutation; RANDOM generates replies without forwarding.'',
     ''    MUTATE changes upstream replies; OVERFLOW targets extreme values and lengths.'',
     ''    Probability defaults to 100 (0 for OFF); RANDOM ignores probability.'',
     ''    Independent topology and transport faults can still apply in OFF mode.'',
     ''MODE RESET'',
     ''    Disable RESP mutation, zero its probability, and reset the shared command index.'',
     ''    Invalidate older connections and reset this connection's protocol fingerprints.'',
     ''    Preserve seed and other settings, including topology and transport faults.'',
     ''MUTATIONS <ONE|MANY>'',
     ''    Select one eligible frame per reply or mutate multiple frames (default MANY).'',
     ''SEED <seed>'',
     ''    Set the deterministic seed to an unsigned 64-bit integer (default 0).'',
     ''STATUS'',
     ''    Return the current connection's configuration.'',
     ''STRATEGY <PRESERVE|REPLACE>'',
     ''    Preserve containers and scalar types or allow frame replacement (default PRESERVE).'',
     ''TOPOLOGY <0..100|OFF>'',
     ''    Configure legacy cluster redirection faults, or disable all topology faults.'',
     ''TOPOLOGY REDIRECT [PROBABILITY <0..100>] [KIND <MOVED|ASK|RANDOM>]'',
     ''    [TARGET <WRONG_NODE|SELF|REPLICA|NEXT|RANDOM|host:port>] [SLOT <CORRECT|WRONG|WILD|0..16383>]'',
     ''    [PHASE <BEFORE|AFTER>] [KEY <argument-index>] [UNTIL <command-index|OFF>]'',
     ''    Inject focused cluster redirects; omitted options reset to defaults.'',
     ''    Defaults: 100, MOVED, WRONG_NODE, CORRECT, BEFORE, KEY 1, UNTIL OFF.'',
     ''    BEFORE skips upstream execution; AFTER replaces the reply after execution.'',
     ''    KEY is zero-based; UNTIL is an exclusive shared command index cutoff.'',
     ''TRANSPORT OFF'',
     ''    Clear all transport faults and restore transport probability to 100.'',
     ''TRANSPORT [TRUNCATE <OFF|RANDOM|bytes>] [EXTRA <0..16>] [CHUNKS <OFF|RANDOM|offsets>]'',
     ''    [PROBABILITY <0..100>] [FAULT <OFF|CLOSE|RESET|STALL>]'',
     ''    [AT <BEFORE|AFTER|REPLY|RANDOM|bytes>] [DURATION <1..3600000>]'',
     ''    Configure delivery faults; supply at least one option/value pair.'',
     ''    Omitted options retain their values. Applies independently of RESP mode.'',
     ''    TRUNCATE sends a prefix then closes; EXTRA appends unsolicited replies.'',
     ''    CHUNKS uses comma-separated increasing positive byte offsets or random splits.'',
     ''    FAULT closes, resets TCP, or explicitly stalls, then ends the connection.'',
     ''    AT selects before forwarding, before reply bytes, after the full reply, or an offset.'',
     ''    DURATION is stall milliseconds (default 10000); only FAULT STALL delays.'',
     ''    FAULT and TRUNCATE cannot both be enabled. RESET requires a TCP client.'',
     ''Related command: DEBUG CHAOS <0..100> [SEED <u64>] [HASH <BLAKE3|TLSH>]'',
     ''    Expand temperature into fault settings; zero disables all faults.'',
     ''    Return the current output fingerprint (default BLAKE3). Inspect settings with STATUS.'']"

type_synonym debug_outcome = "evil_config \<times> (app_error + debug_result)"

definition refuse :: "evil_config \<Rightarrow> string \<Rightarrow> debug_outcome" where
  "refuse c message = (c, Inl (evil_error message))"

text \<open>\<open>self.field = value?; Ok(DebugResult::ok())\<close>\<close>

definition assign :: "evil_config \<Rightarrow> app_error + 'a \<Rightarrow> ('a \<Rightarrow> evil_config) \<Rightarrow> debug_outcome" where
  "assign c r f = (case r of Inl e \<Rightarrow> (c, Inl e) | Inr v \<Rightarrow> (f v, Inr debug_ok))"

definition debug_seed :: "string list \<Rightarrow> evil_config \<Rightarrow> debug_outcome" where
  "debug_seed args c =
     (case args of
        [] \<Rightarrow> refuse c ''DEBUG EVIL SEED requires a seed''
      | seed # rest \<Rightarrow>
          if rest \<noteq> [] then refuse c ''DEBUG EVIL SEED does not accept options''
          else assign c (map_err (\<lambda>e. evil_error (''invalid seed: '' @ show_int_error e)) (parse_u64 seed))
            (\<lambda>n. c\<lparr>cfg_seed := n\<rparr>))"

definition debug_mode :: "string list \<Rightarrow> evil_config \<Rightarrow> debug_outcome" where
  "debug_mode args c =
     (case args of
        [] \<Rightarrow> refuse c ''DEBUG EVIL MODE requires a mode''
      | mode # rest \<Rightarrow>
          if eq_ignore_ascii_case mode ''RESET'' then
            (if rest \<noteq> [] then refuse c ''DEBUG EVIL MODE RESET does not accept options''
             else (c\<lparr>cfg_mode := ModeOff, cfg_probability := zero_percent\<rparr>,
               Inr \<lparr>dr_frame = SimpleString ''OK'', dr_action = ResetIncrementingState\<rparr>))
          else assign c
            (and_then (mode_from_str mode) (\<lambda>m.
               if rest = [] then Inr (m, if m = ModeOff then zero_percent else hundred_percent)
               else if length rest \<noteq> 2 \<or> \<not> eq_ignore_ascii_case (rest ! 0) ''PROBABILITY''
               then Inl (evil_error ''expected optional PROBABILITY <0.00-100.00>'')
               else map_ok (Pair m) (parse_probability (rest ! 1))))
            (\<lambda>(m, p). c\<lparr>cfg_mode := m, cfg_probability := p\<rparr>))"

definition parse_strategy :: "string \<Rightarrow> app_error + mutation_strategy" where
  "parse_strategy value =
     (if keyword value ''PRESERVE'' then Inr Preserve
      else if keyword value ''REPLACE'' then Inr Replace
      else Inl (evil_error ''DEBUG EVIL STRATEGY requires PRESERVE or REPLACE''))"

definition parse_count :: "string \<Rightarrow> app_error + mutation_count" where
  "parse_count value =
     (if keyword value ''ONE'' then Inr One
      else if keyword value ''MANY'' then Inr Many
      else Inl (evil_error ''DEBUG EVIL MUTATIONS requires ONE or MANY''))"

definition parse_depth :: "string \<Rightarrow> app_error + mutation_depth" where
  "parse_depth value =
     (if keyword value ''ANY'' then Inr AnyDepth
      else if keyword value ''INNER'' then Inr Inner
      else Inl (evil_error ''DEBUG EVIL DEPTH requires ANY or INNER''))"

definition debug_canonicalize :: "string list \<Rightarrow> evil_config \<Rightarrow> debug_outcome" where
  "debug_canonicalize args c =
     (case args of
        [] \<Rightarrow> refuse c ''DEBUG EVIL CANONICALIZE requires ALL, UNORDERED, or NONE''
      | mode # rest \<Rightarrow>
          if rest \<noteq> [] then refuse c ''DEBUG EVIL CANONICALIZE does not accept options''
          else assign c (canon_from_str mode) (\<lambda>m. c\<lparr>canonicalization := m\<rparr>))"

definition debug_help :: "string list \<Rightarrow> evil_config \<Rightarrow> debug_outcome" where
  "debug_help args c =
     (if args \<noteq> [] then refuse c ''DEBUG EVIL HELP does not accept options''
      else (c, Inr \<lparr>dr_frame = Array (Some (map SimpleString DEBUG_EVIL_HELP)), dr_action = NoAction\<rparr>))"

definition debug_status :: "string list \<Rightarrow> evil_config \<Rightarrow> debug_outcome" where
  "debug_status args c =
     (if args \<noteq> [] then refuse c ''DEBUG EVIL STATUS does not accept options''
      else (c, Inr \<lparr>dr_frame = BulkString (Some (status c)), dr_action = NoAction\<rparr>))"

definition apply_debug_command :: "'r externals \<Rightarrow> string list \<Rightarrow> evil_config \<Rightarrow> debug_outcome" where
  "apply_debug_command E argv c =
     (if length argv < 3 \<or> \<not> eq_ignore_ascii_case (argv ! 0) ''DEBUG''
         \<or> \<not> eq_ignore_ascii_case (argv ! 1) ''EVIL''
      then refuse c ''expected DEBUG EVIL subcommand''
      else let cmd = to_ascii_uppercase (argv ! 2); args = drop 3 argv in
        if cmd = ''SEED'' then debug_seed args c
        else if cmd = ''MODE'' then debug_mode args c
        else if cmd = ''EXEC'' then assign c (exec_parse args) (\<lambda>v. c\<lparr>cfg_exec := v\<rparr>)
        else if cmd = ''TRANSPORT'' then
          assign c (transport_updated args (cfg_transport c)) (\<lambda>v. c\<lparr>cfg_transport := v\<rparr>)
        else if cmd = ''GENERATOR'' then
          assign c (generator_updated args (cfg_generator c)) (\<lambda>v. c\<lparr>cfg_generator := v\<rparr>)
        else if cmd = ''FRAMING'' then assign c (framing_parse args) (\<lambda>v. c\<lparr>cfg_framing := v\<rparr>)
        else if cmd = ''STRATEGY'' then
          (if length argv \<noteq> 4 then refuse c ''DEBUG EVIL STRATEGY requires PRESERVE or REPLACE''
           else assign c (parse_strategy (argv ! 3)) (\<lambda>v. c\<lparr>cfg_strategy := v\<rparr>))
        else if cmd = ''MUTATIONS'' then
          (if length argv \<noteq> 4 then refuse c ''DEBUG EVIL MUTATIONS requires ONE or MANY''
           else assign c (parse_count (argv ! 3)) (\<lambda>v. c\<lparr>cfg_mutation_count := v\<rparr>))
        else if cmd = ''DEPTH'' then
          (if length argv \<noteq> 4 then refuse c ''DEBUG EVIL DEPTH requires ANY or INNER''
           else assign c (parse_depth (argv ! 3)) (\<lambda>v. c\<lparr>cfg_depth := v\<rparr>))
        else if cmd = ''CANONICALIZE'' then debug_canonicalize args c
        else if cmd = ''TOPOLOGY'' then
          assign c (parse_topology args)
            (\<lambda>(p, r). c\<lparr>topology_probability := p, topology_redirect := r\<rparr>)
        else if cmd = ''HELP'' then debug_help args c
        else if cmd = ''STATUS'' then debug_status args c
        else if cmd = ''INCLUDE'' then assign c (compile_filters E args) (\<lambda>v. c\<lparr>cfg_include := v\<rparr>)
        else if cmd = ''EXCLUDE'' then assign c (compile_filters E args) (\<lambda>v. c\<lparr>cfg_exclude := v\<rparr>)
        else (c, Inl (EvilConfigError [Lit ''unknown DEBUG EVIL subcommand '', Dbg cmd])))"

end
