(* ===== verification/Evil_Config_Props.thy ===== *)
theory Evil_Config_Props
  imports Evil_Config
begin

text \<open>
  What the configuration promises: a refused command changes nothing, every accepted command
  keeps the configuration valid, and filters decide as documented.
\<close>

section \<open>Valid configurations\<close>

definition config_ok :: "evil_config \<Rightarrow> bool" where
  "config_ok c \<longleftrightarrow> percent (cfg_probability c) \<and> percent (topology_probability c)
     \<and> (case topology_redirect c of Some r \<Rightarrow> redirect_ok r | None \<Rightarrow> True)
     \<and> framing_ok (cfg_framing c) \<and> exec_ok (cfg_exec c) \<and> transport_ok (cfg_transport c)"

lemma config_default_ok [simp]: "config_ok config_default"
  by (simp add: config_ok_def config_default_def)

lemma assign_cases:
  assumes "assign c r f = (c', res)"
  obtains (error) e where "r = Inl e" "c' = c" "res = Inl e"
    | (ok) v where "r = Inr v" "c' = f v" "res = Inr debug_ok"
  using assms by (cases r) (auto simp: assign_def)

lemma assign_error: "assign c r f = (c', Inl e) \<Longrightarrow> c' = c"
  by (cases r) (auto simp: assign_def)

lemma assign_ok: "assign c r f = (c', res) \<Longrightarrow> P c \<Longrightarrow> (\<And>v. r = Inr v \<Longrightarrow> P (f v)) \<Longrightarrow> P c'"
  by (cases r) (auto simp: assign_def)

lemma refuse_eq: "refuse c m = (c', res) \<longleftrightarrow> c' = c \<and> res = Inl (evil_error m)"
  by (auto simp: refuse_def)

lemma debug_query:
  "debug_help args c = (c', r) \<Longrightarrow> c' = c" "debug_status args c = (c', r) \<Longrightarrow> c' = c"
  "debug_help args c = (c', Inr q) \<Longrightarrow> dr_action q = NoAction"
  "debug_status args c = (c', Inr q) \<Longrightarrow> dr_action q = NoAction"
  by (auto simp: debug_help_def debug_status_def refuse_eq split: if_splits)

lemma if_caseE:
  assumes "(if b then x else y) = (z :: debug_outcome)"
  obtains "x = z" | "y = z"
  using assms by (cases b) auto

lemma debug_seed_error: "debug_seed args c = (c', Inl e) \<Longrightarrow> c' = c"
  by (auto simp: debug_seed_def refuse_eq split: list.splits if_splits dest: assign_error)

lemma debug_mode_error: "debug_mode args c = (c', Inl e) \<Longrightarrow> c' = c"
  by (auto simp: debug_mode_def refuse_eq split: list.splits if_splits dest: assign_error)

lemma debug_canonicalize_error: "debug_canonicalize args c = (c', Inl e) \<Longrightarrow> c' = c"
  by (auto simp: debug_canonicalize_def refuse_eq split: list.splits if_splits dest: assign_error)

lemma apply_debug_error: "apply_debug_command E argv c = (c', Inl e) \<Longrightarrow> c' = c"
  unfolding apply_debug_command_def Let_def
  by (elim if_caseE)
    (auto simp: refuse_eq dest: assign_error debug_query debug_seed_error debug_mode_error debug_canonicalize_error)

lemma debug_seed_ok: "debug_seed args c = (c', r) \<Longrightarrow> config_ok c \<Longrightarrow> config_ok c'"
  by (auto simp: debug_seed_def refuse_eq config_ok_def split: list.splits if_splits elim!: assign_ok)

lemma debug_mode_ok: "debug_mode args c = (c', r) \<Longrightarrow> config_ok c \<Longrightarrow> config_ok c'"
  by (auto simp: debug_mode_def refuse_eq config_ok_def result_simps parse_probability_percent
      split: list.splits if_splits elim!: assign_ok)

lemma debug_canonicalize_ok: "debug_canonicalize args c = (c', r) \<Longrightarrow> config_ok c \<Longrightarrow> config_ok c'"
  by (auto simp: debug_canonicalize_def refuse_eq config_ok_def split: list.splits if_splits elim!: assign_ok)

lemma assign_config_ok:
  assumes "assign c r f = (c', res)" and "config_ok c" and "\<And>v. r = Inr v \<Longrightarrow> config_ok (f v)"
  shows "config_ok c'"
  using assms(1) by (rule assign_ok) (use assms in auto)

lemma update_config_ok:
  assumes "config_ok c"
  shows "exec_parse args = Inr v \<Longrightarrow> config_ok (c\<lparr>cfg_exec := v\<rparr>)"
    and "transport_updated args (cfg_transport c) = Inr t \<Longrightarrow> config_ok (c\<lparr>cfg_transport := t\<rparr>)"
    and "config_ok (c\<lparr>cfg_generator := g\<rparr>)"
    and "framing_parse args = Inr f \<Longrightarrow> config_ok (c\<lparr>cfg_framing := f\<rparr>)"
    and "config_ok (c\<lparr>cfg_strategy := s\<rparr>)"
    and "config_ok (c\<lparr>cfg_mutation_count := n\<rparr>)"
    and "config_ok (c\<lparr>cfg_depth := d\<rparr>)"
    and "parse_topology args = Inr (p, r) \<Longrightarrow>
      config_ok (c\<lparr>topology_probability := p, topology_redirect := r\<rparr>)"
    and "config_ok (c\<lparr>cfg_include := i\<rparr>)"
    and "config_ok (c\<lparr>cfg_exclude := i\<rparr>)"
  using assms exec_parse_ok transport_updated_inv(1) framing_parse_ok parse_topology_ok
  by (auto simp: config_ok_def)

lemma apply_debug_ok:
  assumes "apply_debug_command E argv c = (c', r)" and "config_ok c"
  shows "config_ok c'"
  using assms unfolding apply_debug_command_def Let_def
  by (elim if_caseE)
    (auto simp: refuse_eq intro: update_config_ok elim!: assign_config_ok
      dest: debug_query(1,2) debug_seed_ok debug_mode_ok debug_canonicalize_ok)

text \<open>C8: a DEBUG EVIL command that is refused, for whatever reason, leaves every setting as it
  was: no option of a partly valid command is applied.\<close>

theorem refused_debug_changes_nothing:
  assumes "apply_debug_command E argv c = (c', Inl e)"
  shows "c' = c"
  using assms by (rule apply_debug_error)

theorem refused_debug_changes_nothing_witness:
  "config_default = fst (apply_debug_command sample_externals
     [''DEBUG'', ''EVIL'', ''MODE'', ''MUTATE'', ''PROBABILITY''] config_default)"
proof -
  obtain c' e where "apply_debug_command sample_externals
      [''DEBUG'', ''EVIL'', ''MODE'', ''MUTATE'', ''PROBABILITY''] config_default = (c', Inl e)"
    by (simp add: apply_debug_command_def debug_mode_def mode_from_str_def assign_def ascii_defs)
  with refused_debug_changes_nothing [OF this] show ?thesis by simp
qed

section \<open>Sequences of commands\<close>

text \<open>The configurations a client can reach from the defaults with DEBUG EVIL commands.\<close>

inductive config_reachable :: "'r externals \<Rightarrow> evil_config \<Rightarrow> bool" for E where
  initial: "config_reachable E config_default"
| command: "config_reachable E c \<Longrightarrow> apply_debug_command E argv c = (c', r) \<Longrightarrow> config_reachable E c'"

text \<open>Whatever DEBUG EVIL commands a client sends, in any order, valid or not, the configuration
  stays valid: all probabilities lie in 0..100, transport settings are consistent, redirects have
  a positive key index and a slot below 16384.\<close>

lemma reachable_config_ok:
  assumes "config_reachable E c"
  shows "config_ok c"
  using assms by induction (auto intro: apply_debug_ok)

section \<open>Filters\<close>

text \<open>Command filters decide as the help text says: without include filters everything is
  included, otherwise some include filter must match; a match of any exclusion filter always
  wins; and a reply whose command is unknown is never mutated.\<close>

lemma filters_decide:
  "should_mutate_command E c command \<longleftrightarrow>
     (\<exists>name. command = Some name
        \<and> (cfg_include c = [] \<or> (\<exists>f\<in>set (cfg_include c). matches_command E name f))
        \<and> (\<nexists>f. f \<in> set (cfg_exclude c) \<and> matches_command E name f))"
  by (cases command) (auto simp: should_mutate_command_def list_ex_iff)

text \<open>What \<open>RegexBuilder::case_insensitive(true)\<close> promises for ASCII command names.\<close>

definition regex_caseless :: "'r externals \<Rightarrow> bool" where
  "regex_caseless E \<longleftrightarrow> (\<forall>r a b. eq_ignore_ascii_case a b \<longrightarrow> regex_match E r a = regex_match E r b)"

lemma matches_command_caseless:
  assumes "regex_caseless E" and "eq_ignore_ascii_case a b"
  shows "matches_command E a f = matches_command E b f"
proof (cases f)
  case (FAttribute x)
  have "command_attributes a = command_attributes b"
    using assms(2) by (simp add: command_attributes_def eq_ignore_ascii_case_upper)
  then show ?thesis by (simp add: FAttribute)
next
  case (FRegex x)
  then show ?thesis using assms by (simp add: regex_caseless_def)
qed (use assms in \<open>simp add: eq_ignore_ascii_case_def\<close>)

text \<open>Filtering ignores the ASCII case of the command name, so the spelling a client chooses
  can neither dodge an exclusion nor an inclusion.\<close>

lemma filtering_ignores_case:
  assumes "regex_caseless E" and "eq_ignore_ascii_case a b"
  shows "should_mutate_command E c (Some a) = should_mutate_command E c (Some b)"
proof -
  have "matches_command E a = matches_command E b"
    by (rule ext) (rule matches_command_caseless [OF assms])
  then show ?thesis by (simp add: should_mutate_command_def)
qed

section \<open>Reset\<close>

lemma assign_no_action: "assign c v f = (c', Inr r) \<Longrightarrow> dr_action r = NoAction"
  by (cases v) (auto simp: assign_def debug_ok_def)

lemma debug_seed_no_action: "debug_seed args c = (c', Inr r) \<Longrightarrow> dr_action r = NoAction"
  by (auto simp: debug_seed_def refuse_eq split: list.splits if_splits dest: assign_no_action)

lemma debug_canonicalize_no_action: "debug_canonicalize args c = (c', Inr r) \<Longrightarrow> dr_action r = NoAction"
  by (auto simp: debug_canonicalize_def refuse_eq split: list.splits if_splits dest: assign_no_action)

lemma debug_mode_reset:
  "debug_mode args c = (c', Inr r) \<Longrightarrow> dr_action r = ResetIncrementingState \<Longrightarrow>
     length args = 1 \<and> eq_ignore_ascii_case (args ! 0) ''RESET''
     \<and> c' = c\<lparr>cfg_mode := ModeOff, cfg_probability := zero_percent\<rparr>"
  by (auto simp: debug_mode_def refuse_eq split: list.splits if_splits dest: assign_no_action)

lemma other_no_action:
  assumes "apply_debug_command E argv c = (c', Inr r)" and "\<not> keyword (argv ! 2) ''MODE''"
  shows "dr_action r = NoAction"
  using assms(1) unfolding apply_debug_command_def Let_def if_not_P [OF assms(2)]
  by (elim if_caseE)
    (auto simp: refuse_eq dest: assign_no_action debug_query(3,4) debug_seed_no_action debug_canonicalize_no_action)

text \<open>Only \<open>DEBUG EVIL MODE RESET\<close>, with exactly these arguments, asks for the shared command
  index to be reset; it turns mutation off and keeps every other setting.\<close>

lemma reset_only_by_mode_reset:
  assumes "apply_debug_command E argv c = (c', Inr r)" and "dr_action r = ResetIncrementingState"
  shows "length argv = 4 \<and> keyword (argv ! 2) ''MODE'' \<and> eq_ignore_ascii_case (argv ! 3) ''RESET''
    \<and> c' = c\<lparr>cfg_mode := ModeOff, cfg_probability := zero_percent\<rparr>"
proof -
  have mode: "keyword (argv ! 2) ''MODE''" using other_no_action [OF assms(1)] assms(2) by auto
  then have "3 \<le> length argv \<and> debug_mode (drop 3 argv) c = (c', Inr r)"
    using assms(1) by (simp add: apply_debug_command_def refuse_eq split: if_splits)
  with debug_mode_reset [of "drop 3 argv" c c' r] assms(2) mode show ?thesis by auto
qed

end
