(* ===== verification/Exec_Mutation.thy ===== *)
theory Exec_Mutation
  imports Evil_Config_Props
begin

text \<open>
  The reply half of \<open>exec_mutation.rs\<close>: one correctly framed edit of the outer array of an
  \<open>EXEC\<close> reply (remove, duplicate or swap), drawn from a generator of its own.
\<close>

section \<open>The edit\<close>

definition get_at :: "'a list \<Rightarrow> nat \<Rightarrow> 'a option" where
  "get_at xs i = (if i < length xs then Some (xs ! i) else None)"

definition can_swap :: "frame list \<Rightarrow> bool" where
  "can_swap items = (case items of [] \<Rightarrow> False | first # _ \<Rightarrow> list_ex (\<lambda>item. item \<noteq> first) items)"

definition swap_candidates :: "frame list \<Rightarrow> nat \<Rightarrow> nat list" where
  "swap_candidates items i = map fst (filter (\<lambda>(_, item). item \<noteq> items ! i) (enumerate 0 items))"

definition remove_at :: "nat \<Rightarrow> 'a list \<Rightarrow> 'a list" where
  "remove_at i xs = take i xs @ drop (Suc i) xs"

definition insert_at :: "nat \<Rightarrow> 'a \<Rightarrow> 'a list \<Rightarrow> 'a list" where
  "insert_at i x xs = take i xs @ x # drop i xs"

definition swap_at :: "nat \<Rightarrow> nat \<Rightarrow> 'a list \<Rightarrow> 'a list" where
  "swap_at i j xs = xs[i := xs ! j, j := xs ! i]"

fun edit :: "'r externals \<Rightarrow> exec_action \<Rightarrow> frame list \<Rightarrow> nat
   \<Rightarrow> ('r, (mutation_kind \<times> nat option \<times> frame list) option) state" where
  "edit E RemoveAction items i = State_Monad.return (Some (ExecRemove, None, remove_at i items))"
| "edit E DuplicateAction items i =
     State_Monad.return (Some (ExecDuplicate, None, insert_at (i + 1) (items ! i) items))"
| "edit E SwapAction items i = do {
     selected \<leftarrow> gen_range E USize 0 (length (swap_candidates items i));
     State_Monad.return (case get_at (swap_candidates items i) selected of
       None \<Rightarrow> None
     | Some other \<Rightarrow> Some (ExecSwap, Some other, swap_at i other items))
   }"
| "edit E _ items i = State_Monad.return None"

definition draw_action :: "'r externals \<Rightarrow> exec_action \<Rightarrow> frame list \<Rightarrow> ('r, exec_action) state" where
  "draw_action E action items =
     (if action = ExecRandomAction
      then do {
        n \<leftarrow> gen_range E USize 0 (if can_swap items then 3 else 2);
        State_Monad.return ([RemoveAction, DuplicateAction, SwapAction] ! n)
      }
      else State_Monad.return action)"

definition exec_reply :: "frame list \<Rightarrow> nat \<Rightarrow> mutation_kind \<times> nat option \<times> frame list \<Rightarrow> mutated_reply" where
  "exec_reply items i e = (case e of (kind, other, result) \<Rightarrow>
     \<lparr>reply_bytes = encode (Array (Some result)),
      reply_mutations = [\<lparr>am_path = ''root'', am_kind = kind, am_length = None,
        am_exec = Some \<lparr>original_count = length items, replacement_count = length result,
          em_index = i, other_index = other\<rparr>\<rparr>]\<rparr>)"

definition draw_edit :: "'r externals \<Rightarrow> exec_config \<Rightarrow> frame list \<Rightarrow> ('r, mutated_reply option) state" where
  "draw_edit E c items = do {
     p \<leftarrow> gen_percent E;
     if f_le (ec_probability c) p then State_Monad.return None
     else do {
       action \<leftarrow> draw_action E (ec_action c) items;
       i \<leftarrow> gen_range E USize 0 (length items);
       e \<leftarrow> edit E action items i;
       State_Monad.return (map_option (exec_reply items i) e)
     }
   }"

definition exec_applies :: "evil_config \<Rightarrow> frame list \<Rightarrow> bool" where
  "exec_applies c items \<longleftrightarrow> (cfg_mode c = ModeMutate \<or> cfg_mode c = ModeOverflow)
     \<and> ec_action (cfg_exec c) \<noteq> ExecOffAction \<and> \<not> f_eq (ec_probability (cfg_exec c)) zero_percent
     \<and> items \<noteq> [] \<and> \<not> (ec_action (cfg_exec c) = SwapAction \<and> \<not> can_swap items)"

definition exec_mutate_reply ::
  "'r externals \<Rightarrow> evil_config \<Rightarrow> u64 \<Rightarrow> string \<Rightarrow> string \<Rightarrow> frame \<Rightarrow> mutated_reply option" where
  "exec_mutate_reply E c command_index command_hash upstream_hash upstream =
     (case upstream of
        Array (Some items) \<Rightarrow>
          if exec_applies c items
          then fst (run_state (draw_edit E (cfg_exec c) items)
            (rng_for E (cfg_seed c) command_index (''exec:'' @ command_hash) upstream_hash))
          else None
      | _ \<Rightarrow> None)"

section \<open>Every edit changes the array\<close>

lemma candidates_iff: "j \<in> set (swap_candidates items i) \<longleftrightarrow> j < length items \<and> items ! j \<noteq> items ! i"
  by (auto simp: swap_candidates_def in_set_enumerate_eq image_iff)

lemma can_swap_candidates:
  assumes "can_swap items" shows "swap_candidates items i \<noteq> []"
proof -
  obtain first rest where items: "items = first # rest" using assms by (cases items) (auto simp: can_swap_def)
  with assms obtain x where "x \<in> set items" "x \<noteq> items ! 0" by (auto simp: can_swap_def list_ex_iff)
  then obtain k where "k < length items" "items ! k \<noteq> items ! 0" by (metis in_set_conv_nth)
  then have "\<exists>j. j \<in> set (swap_candidates items i)"
    unfolding candidates_iff by (cases "items ! k = items ! i") (auto simp: items)
  then show ?thesis by auto
qed

text \<open>What an edit may do to the items, by the kind it reports.\<close>

fun edited :: "frame list \<Rightarrow> nat \<Rightarrow> mutation_kind \<times> nat option \<times> frame list \<Rightarrow> bool" where
  "edited items i (ExecRemove, None, result) \<longleftrightarrow> result = take i items @ drop (Suc i) items"
| "edited items i (ExecDuplicate, None, result) \<longleftrightarrow>
     result = take (Suc i) items @ [items ! i] @ drop (Suc i) items"
| "edited items i (ExecSwap, Some j, result) \<longleftrightarrow> j < length items \<and> items ! j \<noteq> items ! i
     \<and> result = items[i := items ! j, j := items ! i]"
| "edited items i _ \<longleftrightarrow> False"

lemma edited_changes:
  assumes "edited items i e" and "i < length items"
  shows "snd (snd e) \<noteq> items"
proof (cases "(items, i, e)" rule: edited.cases)
  case (1 items' i' result)
  then have "length result = length items - 1" using assms by simp
  then show ?thesis using 1 assms(2) by auto
next
  case (2 items' i' result)
  then have "length result = Suc (length items)" using assms by simp
  then show ?thesis using 2 by auto
next
  case (3 items' i' j result)
  then have "result ! i = items ! j" "items ! j \<noteq> items ! i"
    using assms by (auto simp: nth_list_update)
  then show ?thesis using 3 by auto
qed (use assms in auto)

lemma edited_length:
  "edited items i (ExecSwap, other, result) \<Longrightarrow> length result = length items"
  by (cases other) auto

definition action_ok :: "exec_action \<Rightarrow> frame list \<Rightarrow> bool" where
  "action_ok action items \<longleftrightarrow> action \<in> {RemoveAction, DuplicateAction, SwapAction}
     \<and> (action = SwapAction \<longrightarrow> can_swap items)"

lemma edit_edited:
  assumes "rng_ok E" and "action_ok action items"
  shows "pred_state (\<lambda>e. \<exists>x. e = Some x \<and> edited items i x) (edit E action items i)"
proof (cases action)
  case SwapAction
  then have "swap_candidates items i \<noteq> []"
    using assms(2) by (simp add: action_ok_def can_swap_candidates)
  then have pos: "0 < length (swap_candidates items i)" by simp
  show ?thesis
    unfolding SwapAction edit.simps
  proof (rule pred_state_bind [OF draw_below [OF assms(1) pos]])
    fix n assume n: "0 \<le> n \<and> n < length (swap_candidates items i)"
    then have "swap_candidates items i ! n \<in> set (swap_candidates items i)" by simp
    then have "edited items i (ExecSwap, Some (swap_candidates items i ! n),
        swap_at i (swap_candidates items i ! n) items)"
      unfolding candidates_iff by (simp add: swap_at_def)
    then show "pred_state (\<lambda>e. \<exists>x. e = Some x \<and> edited items i x)
       (State_Monad.return (case get_at (swap_candidates items i) n of None \<Rightarrow> None
         | Some other \<Rightarrow> Some (ExecSwap, Some other, swap_at i other items)))"
      using n by (simp add: get_at_def)
  qed
qed (use assms(2) in \<open>auto simp: action_ok_def remove_at_def insert_at_def take_Suc_conv_app_nth\<close>)

lemma draw_action_ok:
  assumes "rng_ok E" and "exec_applies c items"
  shows "pred_state (\<lambda>action. action_ok action items) (draw_action E (ec_action (cfg_exec c)) items)"
proof (cases "ec_action (cfg_exec c) = ExecRandomAction")
  case True
  have pos: "(0 :: nat) < (if can_swap items then 3 else 2)" by simp
  have "action_ok ([RemoveAction, DuplicateAction, SwapAction] ! n) items"
    if "n < (if can_swap items then 3 else 2)" for n
    using that by (auto simp: action_ok_def less_Suc_eq numeral_eq_Suc split: if_splits)
  then show ?thesis
    unfolding True draw_action_def
    by (simp only: simp_thms if_True) (rule pred_state_bind [OF draw_below [OF assms(1) pos]], simp)
next
  case False
  then show ?thesis using assms(2)
    by (cases "ec_action (cfg_exec c)") (auto simp: draw_action_def exec_applies_def action_ok_def)
qed

lemma draw_edit_spec:
  assumes "rng_ok E" and "exec_applies c items"
  shows "pred_state (\<lambda>r. (r = None \<longrightarrow> f_lt (ec_probability (cfg_exec c)) hundred_percent)
      \<and> (\<forall>reply. r = Some reply \<longrightarrow> (\<exists>i e. i < length items \<and> edited items i e \<and> reply = exec_reply items i e)))
    (draw_edit E (cfg_exec c) items)"
  unfolding draw_edit_def
proof (rule pred_state_bind [OF draw_percent [OF assms(1)]], rule pred_state_if)
  fix p assume "f_le (Fin 0) p \<and> f_lt p (Fin 100)" "f_le (ec_probability (cfg_exec c)) p"
  then show "pred_state (\<lambda>r. (r = None \<longrightarrow> f_lt (ec_probability (cfg_exec c)) hundred_percent)
      \<and> (\<forall>reply. r = Some reply \<longrightarrow> (\<exists>i e. i < length items \<and> edited items i e \<and> reply = exec_reply items i e)))
      (State_Monad.return None)"
    by (cases p; cases "ec_probability (cfg_exec c)") (auto simp: f_lt_def)
next
  have "items \<noteq> []" using assms(2) by (simp add: exec_applies_def)
  then have pos: "0 < length items" by simp
  show "pred_state (\<lambda>r. (r = None \<longrightarrow> f_lt (ec_probability (cfg_exec c)) hundred_percent)
      \<and> (\<forall>reply. r = Some reply \<longrightarrow> (\<exists>i e. i < length items \<and> edited items i e \<and> reply = exec_reply items i e)))
      (do { action \<leftarrow> draw_action E (ec_action (cfg_exec c)) items;
            i \<leftarrow> gen_range E USize 0 (length items);
            e \<leftarrow> edit E action items i;
            State_Monad.return (map_option (exec_reply items i) e) })"
    by (rule pred_state_bind [OF draw_action_ok [OF assms]],
        rule pred_state_bind [OF draw_below [OF assms(1) pos]],
        rule pred_state_bind [OF edit_edited [OF assms(1)]]) auto
qed

section \<open>Properties\<close>

text \<open>C27: an EXEC edit is one well-framed change of the outer array: it removes, repeats or swaps
  whole items and leaves every other item and its order alone, the array really differs, the reply
  is the encoding of the edited array, and the report has the true counts and positions.\<close>

theorem exec_edit_is_one_array_edit:
  assumes "rng_ok E" and "exec_mutate_reply E c index command_hash upstream_hash f = Some reply"
  shows "\<exists>items i kind other result. f = Array (Some items) \<and> i < length items
    \<and> edited items i (kind, other, result) \<and> result \<noteq> items
    \<and> reply_bytes reply = encode (Array (Some result))
    \<and> reply_mutations reply = [\<lparr>am_path = ''root'', am_kind = kind, am_length = None,
        am_exec = Some \<lparr>original_count = length items, replacement_count = length result,
          em_index = i, other_index = other\<rparr>\<rparr>]"
proof -
  obtain items where f: "f = Array (Some items)" and ok: "exec_applies c items"
    using assms(2) by (auto simp: exec_mutate_reply_def split: frame.splits option.splits if_splits)
  let ?s = "rng_for E (cfg_seed c) index (''exec:'' @ command_hash) upstream_hash"
  have "run_state (draw_edit E (cfg_exec c) items) ?s
      = (Some reply, snd (run_state (draw_edit E (cfg_exec c) items) ?s))"
    using assms(2) f ok by (simp add: exec_mutate_reply_def prod_eq_iff)
  from pred_stateD [OF draw_edit_spec [OF assms(1) ok] this]
  obtain i e where e: "i < length items" "edited items i e" "reply = exec_reply items i e" by auto
  obtain kind other result where "e = (kind, other, result)" by (cases e) auto
  with e edited_changes [OF e(2,1)] f show ?thesis by (auto simp: exec_reply_def)
qed

text \<open>When an EXEC edit is configured at 100 percent, every nonempty EXEC array is edited;
  only a swap of an array of equal items, which would change nothing, is skipped.\<close>

lemma exec_edit_at_certainty:
  assumes "rng_ok E" and "cfg_mode c = ModeMutate \<or> cfg_mode c = ModeOverflow"
    and "ec_action (cfg_exec c) \<noteq> ExecOffAction" and "ec_probability (cfg_exec c) = hundred_percent"
  shows "exec_mutate_reply E c index command_hash upstream_hash (Array (Some items)) = None \<longleftrightarrow>
    items = [] \<or> ec_action (cfg_exec c) = SwapAction \<and> \<not> can_swap items"
proof (cases "exec_applies c items")
  case True
  let ?s = "rng_for E (cfg_seed c) index (''exec:'' @ command_hash) upstream_hash"
  obtain r s' where r: "run_state (draw_edit E (cfg_exec c) items) ?s = (r, s')" by fastforce
  from pred_stateD [OF draw_edit_spec [OF assms(1) True] r] have "r \<noteq> None"
    using assms(4) by (auto simp: f_lt_def)
  with r True show ?thesis by (auto simp: exec_mutate_reply_def exec_applies_def)
next
  case False
  then show ?thesis using assms by (auto simp: exec_mutate_reply_def exec_applies_def f_eq_def)
qed

definition sample_exec :: evil_config where
  "sample_exec = config_default\<lparr>cfg_mode := ModeMutate,
     cfg_exec := \<lparr>ec_action = DuplicateAction, ec_probability = hundred_percent\<rparr>\<rparr>"

lemma sample_exec_run:
  "exec_mutate_reply sample_externals sample_exec 1 ''a'' ''b'' (Array (Some [Null]))
     = Some (exec_reply [Null] 0 (ExecDuplicate, None, [Null, Null]))"
  by (simp add: exec_mutate_reply_def sample_exec_def exec_applies_def draw_edit_def draw_action_def
     rng_for_def sample_externals_def sample_draw_def f_eq_def insert_at_def to_le_bytes_def config_default_def
     show_nat.simps digit_char_def upt_rec byte_def)

theorem exec_edit_is_one_array_edit_witness:
  "\<exists>items i kind other result. Array (Some [Null]) = Array (Some items) \<and> edited items i (kind, other, result)
     \<and> reply_bytes (exec_reply [Null] 0 (ExecDuplicate, None, [Null, Null])) = encode (Array (Some result))"
  using exec_edit_is_one_array_edit [OF sample_rng_ok sample_exec_run] by blast

end
