(* ===== verification/Framing.thy ===== *)
theory Framing
  imports Evil_Config_Props
begin

text \<open>
  The second half of \<open>framing.rs\<close>: visiting a reply's frames with their paths, selecting a
  length header, and corrupting only its encoding. The \<open>visit\<close> closures of the code are folds
  over the list of visited frames; the visitor's running index is the list position.
\<close>

section \<open>Visiting frames\<close>

text \<open>The direct children with the path segment each is visited under.\<close>

fun named_children :: "frame \<Rightarrow> (string \<times> frame) list" where
  "named_children (Array (Some items)) = zip (map show_nat [0..<length items]) items"
| "named_children (Set items) = zip (map show_nat [0..<length items]) items"
| "named_children (Push items) = zip (map show_nat [0..<length items]) items"
| "named_children (Map items) =
     concat (map (\<lambda>(i, k, v). [(show_nat i @ ''.key'', k), (show_nat i @ ''.value'', v)])
       (zip [0..<length items] items))"
| "named_children (Attribute items) =
     concat (map (\<lambda>(i, k, v). [(show_nat i @ ''.key'', k), (show_nat i @ ''.value'', v)])
       (zip [0..<length items] items))"
| "named_children _ = []"

lemma named_pairs:
  "length is = length items \<Longrightarrow> map snd (concat (map (\<lambda>(i, k, v).
      [(show_nat i @ ''.key'', k), (show_nat i @ ''.value'', v)]) (zip is items)))
    = concat (map (\<lambda>(k, v). [k, v]) items)"
  by (induction "is" items rule: list_induct2) auto

lemma map_snd_named_children: "map snd (named_children f) = children f"
  by (cases f rule: children.cases) (simp_all add: named_pairs)

lemma length_named_children [simp]: "length (named_children f) = length (children f)"
  using map_snd_named_children [of f] by (metis length_map)

lemma named_children_size [termination_simp]: "(seg, c) \<in> set (named_children f) \<Longrightarrow> size c < size f"
proof -
  assume "(seg, c) \<in> set (named_children f)"
  then have "c \<in> set (map snd (named_children f))" by force
  then show ?thesis unfolding map_snd_named_children by (rule children_size)
qed

abbreviation subpath :: "string \<Rightarrow> string \<Rightarrow> string" where
  "subpath path seg \<equiv> path @ CHR ''.'' # seg"

fun visit :: "frame \<Rightarrow> string \<Rightarrow> nat \<Rightarrow> (frame \<times> string \<times> nat) list" where
  "visit f path depth = (f, path, depth) #
     concat (map (\<lambda>(seg, c). visit c (subpath path seg) (Suc depth)) (named_children f))"

declare visit.simps [simp del]

definition tree_depth :: "frame \<Rightarrow> nat" where
  "tree_depth f = foldl (\<lambda>deepest (_, _, level). max deepest level) 0 (visit f ''root'' 0)"

section \<open>Selecting a header\<close>

record len_header =
  h_index :: nat
  h_path :: string
  h_original :: int

definition should_apply :: "'r externals \<Rightarrow> f64 \<Rightarrow> ('r, bool) state" where
  "should_apply E probability =
     (if f_lt zero_percent probability
      then do { x \<leftarrow> gen_percent E; State_Monad.return (f_lt x probability) }
      else State_Monad.return False)"

lemma should_apply_certain:
  assumes "rng_ok E"
  shows "pred_state (\<lambda>hit. hit) (should_apply E hundred_percent)"
  unfolding should_apply_def using assms
  by (auto simp: f_lt_def intro!: pred_state_bind [OF draw_percent [OF assms]])

text \<open>Reservoir selection among the headers whose path matches: candidate \<open>n\<close> replaces the
  selection with probability \<open>1/n\<close>.\<close>

fun reservoir ::
  "'r externals \<Rightarrow> target \<Rightarrow> nat \<Rightarrow> nat \<Rightarrow> len_header option \<Rightarrow> (frame \<times> string \<times> nat) list
   \<Rightarrow> ('r, len_header option) state" where
  "reservoir E target index matched selected [] = State_Monad.return selected"
| "reservoir E target index matched selected ((f, path, level) # rest) =
     (case (declared_length f, target_matches target path) of
        (Some original, True) \<Rightarrow> do {
          hit \<leftarrow> (if matched = 0 then State_Monad.return True
                 else do { n \<leftarrow> gen_range E USize 0 (Suc matched); State_Monad.return (n = 0) });
          reservoir E target (Suc index) (Suc matched)
            (if hit then Some \<lparr>h_index = index, h_path = path, h_original = original\<rparr> else selected) rest
        }
      | _ \<Rightarrow> reservoir E target (Suc index) matched selected rest)"

definition header_weight :: "mutation_depth \<Rightarrow> frame \<times> string \<times> nat \<Rightarrow> nat" where
  "header_weight depth v = (case v of (f, _, level) \<Rightarrow>
     if declared_length f \<noteq> None then weight depth level else 0)"

definition total_weight :: "mutation_depth \<Rightarrow> (frame \<times> string \<times> nat) list \<Rightarrow> nat" where
  "total_weight depth vs = sum_list (map (header_weight depth) vs)"

fun pick_weighted ::
  "mutation_depth \<Rightarrow> nat \<Rightarrow> nat \<Rightarrow> (frame \<times> string \<times> nat) list \<Rightarrow> len_header option" where
  "pick_weighted depth index remaining [] = None"
| "pick_weighted depth index remaining ((f, path, level) # rest) =
     (case declared_length f of
        Some original \<Rightarrow>
          if remaining < weight depth level
          then Some \<lparr>h_index = index, h_path = path, h_original = original\<rparr>
          else pick_weighted depth (Suc index) (remaining - weight depth level) rest
      | None \<Rightarrow> pick_weighted depth (Suc index) remaining rest)"

definition select_weighted_header ::
  "'r externals \<Rightarrow> frame \<Rightarrow> mutation_depth \<Rightarrow> ('r, len_header option) state" where
  "select_weighted_header E f depth =
     (let visits = visit f ''root'' 0; full = total_weight depth visits in
      if full = 0 then State_Monad.return None
      else do {
        remaining \<leftarrow> gen_range E U128 0 full;
        State_Monad.return (pick_weighted depth 0 remaining visits)
      })"

definition select_header ::
  "'r externals \<Rightarrow> frame \<Rightarrow> target \<Rightarrow> mutation_depth \<Rightarrow> ('r, len_header option) state" where
  "select_header E f target depth =
     (if target = AnyTarget \<and> depth = Inner then select_weighted_header E f depth
      else reservoir E target 0 0 None (visit f ''root'' 0))"

section \<open>Corrupting a length\<close>

definition choose_different :: "'r externals \<Rightarrow> int \<Rightarrow> int list \<Rightarrow> ('r, string) state" where
  "choose_different E original values = do {
     index \<leftarrow> gen_range E USize 0 (length values);
     State_Monad.return (show_int
       (if values ! index = original then values ! (Suc index mod length values) else values ! index))
   }"

definition NEGATIVES :: "int list" where
  "NEGATIVES = [-2, -3, - (2 ^ 63)]"

definition BOUNDARIES :: "int list" where
  "BOUNDARIES = [0, 1, 2 ^ 31 - 1, 2 ^ 31, 2 ^ 32 - 1, 2 ^ 32, 2 ^ 63 - 1, 2 ^ 64 - 1]"

definition OVERFLOWS :: "string list" where
  "OVERFLOWS = [''9223372036854775808'', ''18446744073709551616'', ''-9223372036854775809'',
     ''340282366920938463463374607431768211456'']"

fun corrupt_length :: "'r externals \<Rightarrow> int \<Rightarrow> length_corruption \<Rightarrow> ('r, string) state" where
  "corrupt_length E original Shorter = State_Monad.return (show_int (original - 1))"
| "corrupt_length E original Longer = State_Monad.return (show_int (original + 1))"
| "corrupt_length E original Negative = choose_different E original NEGATIVES"
| "corrupt_length E original Boundary = choose_different E original BOUNDARIES"
| "corrupt_length E original Overflow = pick E OVERFLOWS"

definition CORRUPTIONS :: "length_corruption list" where
  "CORRUPTIONS = [Shorter, Longer, Negative, Boundary, Overflow]"

text \<open>The list drawn from is an enumeration of the type: no corruption is left out or favoured.\<close>

instantiation length_corruption :: enum
begin

definition enum_length_corruption :: "length_corruption list" where
  "enum_length_corruption = CORRUPTIONS"

definition enum_all_length_corruption :: "(length_corruption \<Rightarrow> bool) \<Rightarrow> bool" where
  "enum_all_length_corruption P = list_all P enum_class.enum"

definition enum_ex_length_corruption :: "(length_corruption \<Rightarrow> bool) \<Rightarrow> bool" where
  "enum_ex_length_corruption P = list_ex P enum_class.enum"

instance
proof
  show all: "UNIV = set (enum_class.enum :: length_corruption list)"
    using length_corruption.exhaust by (auto simp: enum_length_corruption_def CORRUPTIONS_def)
  show "distinct (enum_class.enum :: length_corruption list)" by (simp add: enum_length_corruption_def CORRUPTIONS_def)
  fix P :: "length_corruption \<Rightarrow> bool"
  show "enum_class.enum_all P \<longleftrightarrow> Ball UNIV P" by (simp add: enum_all_length_corruption_def all list_all_iff)
  show "enum_class.enum_ex P \<longleftrightarrow> Bex UNIV P" by (simp add: enum_ex_length_corruption_def all list_ex_iff)
qed

end


lemma every_corruption_drawn: "set CORRUPTIONS = UNIV"
  by (simp add: UNIV_enum enum_length_corruption_def)

section \<open>The length fault\<close>

definition length_reply :: "frame \<Rightarrow> len_header \<Rightarrow> length_corruption \<Rightarrow> string \<Rightarrow> mutated_reply" where
  "length_reply f h kind replacement =
     \<lparr>reply_bytes = encode_with_length f (h_index h) replacement,
      reply_mutations = [\<lparr>am_path = h_path h, am_kind = WrongLength,
        am_length = Some \<lparr>lm_kind = kind, lm_original = show_int (h_original h), lm_replacement = replacement\<rparr>,
        am_exec = None\<rparr>]\<rparr>"

definition auto_length :: "'r externals \<Rightarrow> frame \<Rightarrow> evil_config \<Rightarrow> ('r, mutated_reply option) state" where
  "auto_length E f c =
     (if cfg_mutation_count c = One then State_Monad.return None
      else do {
        hit \<leftarrow> should_apply E (scale (cfg_depth c) (cfg_probability c) 0 (tree_depth f));
        State_Monad.return
          (if \<not> hit then None
           else (case declared_length f of
             None \<Rightarrow> None
           | Some original \<Rightarrow>
               let header = \<lparr>h_index = 0, h_path = ''root'', h_original = original\<rparr> in
               Some (if cfg_mode c = ModeOverflow
                 then length_reply f header Boundary ''9223372036854775807''
                 else length_reply f header Longer (show_int (original + 1)))))
      })"

definition configured_length ::
  "'r externals \<Rightarrow> frame \<Rightarrow> mutation_depth \<Rightarrow> length_config \<Rightarrow> ('r, mutated_reply option) state" where
  "configured_length E f depth options = do {
     hit \<leftarrow> should_apply E (lc_probability options);
     if \<not> hit then State_Monad.return None
     else do {
       header \<leftarrow> select_header E f (lc_target options) depth;
       (case header of
          None \<Rightarrow> State_Monad.return None
        | Some h \<Rightarrow> do {
            kind \<leftarrow> (case lc_kind options of Some k \<Rightarrow> State_Monad.return k | None \<Rightarrow> pick E CORRUPTIONS);
            replacement \<leftarrow> corrupt_length E (h_original h) kind;
            State_Monad.return (Some (length_reply f h kind replacement))
          })
     }
   }"

definition mutate_length :: "'r externals \<Rightarrow> frame \<Rightarrow> evil_config \<Rightarrow> ('r, mutated_reply option) state" where
  "mutate_length E f c =
     (case cfg_framing c of
        FramingOff \<Rightarrow> State_Monad.return None
      | FramingAuto \<Rightarrow> auto_length E f c
      | FramingLength options \<Rightarrow> configured_length E f (cfg_depth c) options)"

section \<open>The running index is the encoder's index\<close>

lemma visit_preorder: "map fst (visit f path d) = preorder f"
proof (induction f arbitrary: path d rule: frame_induct)
  case (Frame f)
  have "map fst (concat (map (\<lambda>(seg, c). visit c (subpath path seg) (Suc d)) ncs))
      = concat (map preorder (map snd ncs))" if "set (map snd ncs) \<subseteq> set (children f)" for ncs
    using that by (induction ncs) (auto simp: Frame.IH)
  from this [of "named_children f"] show ?case
    by (simp add: visit.simps [of f] preorder.simps [of f] map_snd_named_children)
qed

lemma length_visit: "length (visit f path d) = frame_count f"
  using visit_preorder [of f path d] length_preorder [of f] by (metis length_map)

text \<open>A header that names a node of the frame by its encoding index, its path and its declared length.\<close>

definition header_ok :: "frame \<Rightarrow> len_header \<Rightarrow> bool" where
  "header_ok f h \<longleftrightarrow> h_index h < frame_count f
     \<and> declared_length (preorder f ! h_index h) = Some (h_original h)
     \<and> fst (snd (visit f ''root'' 0 ! h_index h)) = h_path h"

definition header_of :: "(frame \<times> string \<times> nat) list \<Rightarrow> nat \<Rightarrow> len_header \<Rightarrow> bool" where
  "header_of vs i h \<longleftrightarrow> i \<le> h_index h \<and> h_index h < i + length vs
     \<and> declared_length (fst (vs ! (h_index h - i))) = Some (h_original h)
     \<and> fst (snd (vs ! (h_index h - i))) = h_path h"

lemma header_of_Cons: "header_of vs (Suc i) h \<Longrightarrow> header_of (v # vs) i h"
  by (auto simp: header_of_def nth_Cons' )

lemma header_of_here:
  "declared_length f = Some n \<Longrightarrow> header_of ((f, path, l) # vs) i \<lparr>h_index = i, h_path = path, h_original = n\<rparr>"
  by (simp add: header_of_def)

lemma header_of_visit: "header_of (visit f ''root'' 0) 0 h \<Longrightarrow> header_ok f h"
  using visit_preorder [of f "''root''" 0]
  by (auto simp: header_of_def header_ok_def length_visit simp flip: nth_map [of _ _ fst])

lemma pick_weighted_header:
  "pick_weighted depth i r vs = Some h \<Longrightarrow> header_of vs i h"
  by (induction depth i r vs rule: pick_weighted.induct)
    (auto split: option.splits if_splits intro: header_of_here header_of_Cons)

lemma reservoir_header:
  assumes "\<forall>h. selected = Some h \<longrightarrow> P h"
    and "\<And>h. header_of vs i h \<Longrightarrow> target_matches target (h_path h) \<Longrightarrow> P h"
  shows "pred_state (\<lambda>r. \<forall>h. r = Some h \<longrightarrow> P h) (reservoir E target i n selected vs)"
  using assms
proof (induction vs arbitrary: i n selected)
  case (Cons v vs)
  obtain f path l where v: "v = (f, path, l)" by (cases v)
  have rest: "P h" if "header_of vs (Suc i) h" "target_matches target (h_path h)" for h
    using that Cons.prems(2) header_of_Cons by blast
  have go_on: "pred_state (\<lambda>r. \<forall>h. r = Some h \<longrightarrow> P h) (reservoir E target (Suc i) m s vs)"
    if "\<forall>h. s = Some h \<longrightarrow> P h" for m s
    by (rule Cons.IH) (use that rest in auto)
  have here: "P \<lparr>h_index = i, h_path = path, h_original = original\<rparr>"
    if "declared_length f = Some original" "target_matches target path" for original
    using Cons.prems(2) header_of_here [OF that(1)] that(2) by (simp add: v)
  show ?case
    using Cons.prems(1) here
    by (auto simp: v split: option.splits bool.splits if_splits intro!: pred_state_then go_on)
qed simp

lemma select_header_ok:
  "pred_state (\<lambda>r. \<forall>h. r = Some h \<longrightarrow> header_ok f h \<and> target_matches target (h_path h))
     (select_header E f target depth)"
proof (cases "target = AnyTarget \<and> depth = Inner")
  case True
  have "pred_state (\<lambda>r. \<forall>h. r = Some h \<longrightarrow> header_ok f h) (select_weighted_header E f depth)"
    unfolding select_weighted_header_def Let_def
    by (intro pred_state_if pred_state_then)
      (auto dest: pick_weighted_header header_of_visit)
  then show ?thesis using True by (simp add: select_header_def)
next
  case False
  then show ?thesis
    by (auto simp: select_header_def intro!: reservoir_header dest: header_of_visit)
qed

section \<open>The corrupted length differs\<close>

lemma length_encode_node: "g \<in> set (preorder f) \<Longrightarrow> length (encode g) \<le> length (encode f)"
proof (induction f rule: frame_induct)
  case (Frame f)
  show ?case
    using Frame.prems Frame.IH length_encode_child [of _ f]
    by (subst (asm) preorder.simps) (fastforce intro: order.trans less_imp_le)
qed

lemma length_encode_pos: "0 < length (encode f)"
proof (cases f)
  case (BulkString v)
  then show ?thesis by (cases v) (simp_all add: encode_simps length_push_line push_blob_def)
next
  case (Array v)
  then show ?thesis by (cases v) (simp_all add: encode_simps length_push_line)
qed (simp_all add: encode_simps length_push_line push_blob_def crlf_def)

lemma length_encode_all: "length fs \<le> length (encode_all fs)"
proof (induction fs)
  case (Cons f fs)
  have "1 \<le> length (encode f)" using length_encode_pos [of f] by (simp add: Suc_le_eq)
  then show ?case using Cons by simp
qed simp

lemma length_pairs: "length kvs \<le> length (encode_all (concat (map (\<lambda>(k, v). [k, v]) kvs)))"
proof -
  have "length kvs \<le> length (concat (map (\<lambda>(k, v). [k, v]) kvs))" by (induction kvs) auto
  then show ?thesis using length_encode_all by (rule order.trans)
qed

lemma declared_length_le: "declared_length f = Some n \<Longrightarrow> n \<le> int (length (encode f))"
  using length_encode_all [of "children f"]
    length_pairs [of "case f of Map kvs \<Rightarrow> kvs | Attribute kvs \<Rightarrow> kvs | _ \<Rightarrow> []"]
  by (cases f rule: declared_length.cases)
    (auto simp: encode_simps length_push_line push_blob_def)

lemma header_ok_le: "header_ok f h \<Longrightarrow> h_original h \<le> int (length (encode f))"
proof -
  assume h: "header_ok f h"
  then have "preorder f ! h_index h \<in> set (preorder f)"
    by (simp add: header_ok_def length_preorder)
  then show ?thesis
    using h length_encode_node declared_length_le unfolding header_ok_def
    by (meson of_nat_mono order.trans)
qed

lemma show_int_inj: "show_int a = show_int b \<longleftrightarrow> a = b"
proof
  let ?lo = "min 0 (min a b)" and ?hi = "max 0 (max a b)"
  assume "show_int a = show_int b"
  then have "parse_int True ?lo ?hi (show_int a) = parse_int True ?lo ?hi (show_int b)" by simp
  then show "a = b" by (simp add: parse_int_show_int)
qed simp

lemma choose_different_differs:
  assumes "rng_ok E" and "distinct values" and "1 < length values"
  shows "pred_state (\<lambda>r. r \<noteq> show_int original) (choose_different E original values)"
  unfolding choose_different_def
proof (rule pred_state_bind [OF draw_below])
  show "rng_ok E" by (rule assms(1))
  show "0 < length values" by (rule order.strict_trans [OF _ assms(3)]) simp
  fix i assume i: "0 \<le> i \<and> i < length values"
  have "values ! i \<noteq> values ! (Suc i mod length values)"
  proof -
    have "i \<noteq> Suc i mod length values" using i assms(3) by (cases "Suc i = length values") auto
    moreover have "Suc i mod length values < length values" by (rule mod_less_divisor) (use assms(3) in linarith)
    ultimately show ?thesis using i assms(2) by (simp add: nth_eq_iff_index_eq)
  qed
  then show "pred_state (\<lambda>r. r \<noteq> show_int original) (State_Monad.return (show_int
      (if values ! i = original then values ! (Suc i mod length values) else values ! i)))"
    by (auto simp: show_int_inj)
qed

lemma digit_chars:
  "digit_char 0 = CHR ''0''" "digit_char 1 = CHR ''1''" "digit_char 2 = CHR ''2''"
  "digit_char 3 = CHR ''3''" "digit_char 4 = CHR ''4''" "digit_char 5 = CHR ''5''"
  "digit_char 6 = CHR ''6''" "digit_char 7 = CHR ''7''" "digit_char 8 = CHR ''8''"
  "digit_char 9 = CHR ''9''" "digit_char (Suc 0) = CHR ''1''"
  by (simp_all add: digit_char_def)

lemma overflow_texts:
  "show_nat 9223372036854775808 = ''9223372036854775808''"
  "show_nat 18446744073709551616 = ''18446744073709551616''"
  "show_nat 9223372036854775809 = ''9223372036854775809''"
  "show_nat 340282366920938463463374607431768211456 = ''340282366920938463463374607431768211456''"
  by (simp_all add: show_nat.simps digit_chars)

lemma OVERFLOWS_show: "OVERFLOWS = map show_int [2 ^ 63, 2 ^ 64, - (2 ^ 63) - 1, 2 ^ 128]"
  by (simp add: OVERFLOWS_def show_int_def overflow_texts)

lemma corrupt_length_differs:
  assumes "rng_ok E" and "- 1 \<le> original"
  shows "pred_state (\<lambda>r. original < 2 ^ 63 - 1 \<longrightarrow> r \<noteq> show_int original) (corrupt_length E original kind)"
proof (cases kind)
  case Overflow
  have "pred_state (\<lambda>r. r \<in> set OVERFLOWS) (pick E OVERFLOWS)"
    by (rule pred_pick [OF assms(1)]) (simp add: OVERFLOWS_def)
  then show ?thesis unfolding Overflow corrupt_length.simps
    by (rule pred_state_weaken) (use assms(2) in \<open>auto simp: OVERFLOWS_show show_int_inj\<close>)
next
  case Negative
  show ?thesis unfolding Negative corrupt_length.simps
    by (rule pred_state_weaken [OF choose_different_differs [OF assms(1)]])
      (simp_all add: NEGATIVES_def)
next
  case Boundary
  show ?thesis unfolding Boundary corrupt_length.simps
    by (rule pred_state_weaken [OF choose_different_differs [OF assms(1)]])
      (simp_all add: BOUNDARIES_def)
qed (simp_all add: show_int_inj)

lemma declared_length_ge: "declared_length f = Some n \<Longrightarrow> - 1 \<le> n"
  by (cases f rule: declared_length.cases) auto

text \<open>
  What a length fault is: the reply is the frame's encoding with exactly one length header, one
  that the configuration selects, saying another number (a frame that fits a Rust allocation has
  fewer than \<open>2 ^ 63 - 1\<close> bytes).
\<close>

definition fault_chosen :: "evil_config \<Rightarrow> frame \<Rightarrow> len_header \<Rightarrow> length_corruption \<Rightarrow> bool" where
  "fault_chosen c f h kind = (case cfg_framing c of
     FramingOff \<Rightarrow> False
   | FramingAuto \<Rightarrow> cfg_mutation_count c = Many \<and> h_index h = 0 \<and> h_path h = ''root''
   | FramingLength options \<Rightarrow> target_matches (lc_target options) (h_path h) \<and> (case lc_kind options of
       None \<Rightarrow> True | Some k \<Rightarrow> k = kind))"

definition length_fault :: "evil_config \<Rightarrow> frame \<Rightarrow> mutated_reply \<Rightarrow> bool" where
  "length_fault c f reply \<longleftrightarrow> (\<exists>h kind r. reply = length_reply f h kind r \<and> header_ok f h
     \<and> fault_chosen c f h kind
     \<and> (length (encode f) < 2 ^ 63 - 1 \<longrightarrow> r \<noteq> show_int (h_original h)))"

lemma root_header_ok:
  "declared_length f = Some n \<Longrightarrow> header_ok f \<lparr>h_index = 0, h_path = ''root'', h_original = n\<rparr>"
  by (simp add: header_ok_def preorder.simps [of f] frame_count.simps [of f] visit.simps [of f])

lemma show_int_maxlen: "show_int (2 ^ 63 - 1) = ''9223372036854775807''"
  by (simp add: show_int_def show_nat.simps digit_char_def)

lemma below_maxlen: "length (encode f) < 2 ^ 63 - 1 \<Longrightarrow> n \<le> int (length (encode f)) \<Longrightarrow> n < 2 ^ 63 - 1"
proof -
  assume "length (encode f) < 2 ^ 63 - 1" and n: "n \<le> int (length (encode f))"
  then have "int (length (encode f)) < int (2 ^ 63 - 1)" by (simp only: of_nat_less_iff)
  with n show ?thesis by simp
qed

lemma auto_length_fault:
  assumes "cfg_framing c = FramingAuto"
  shows "pred_state (\<lambda>r. \<forall>reply. r = Some reply \<longrightarrow> length_fault c f reply) (auto_length E f c)"
proof -
  have fault: "length_fault c f (length_reply f \<lparr>h_index = 0, h_path = ''root'', h_original = n\<rparr> kind (show_int m))"
    if "declared_length f = Some n" "length (encode f) < 2 ^ 63 - 1 \<longrightarrow> m \<noteq> n" "cfg_mutation_count c = Many" for n m kind
    unfolding length_fault_def
    by (intro exI [of _ "\<lparr>h_index = 0, h_path = ''root'', h_original = n\<rparr>"] exI [of _ kind]
        exI [of _ "show_int m"])
      (use that assms in \<open>simp add: fault_chosen_def root_header_ok show_int_inj\<close>)
  have "length (encode f) < 2 ^ 63 - 1 \<longrightarrow> 2 ^ 63 - 1 \<noteq> n" if "declared_length f = Some n" for n
    using below_maxlen [OF _ declared_length_le [OF that]] by fastforce
  then show ?thesis
    unfolding auto_length_def Let_def
    by (cases "cfg_mutation_count c")
      (auto intro!: pred_state_then fault simp: show_int_maxlen [symmetric] split: option.splits)
qed

lemma configured_length_fault:
  assumes "rng_ok E" and "cfg_framing c = FramingLength options"
  shows "pred_state (\<lambda>r. \<forall>reply. r = Some reply \<longrightarrow> length_fault c f reply)
    (configured_length E f (cfg_depth c) options)"
proof -
  have one: "pred_state (\<lambda>r. \<forall>reply. r = Some reply \<longrightarrow> length_fault c f reply)
      (do { r \<leftarrow> corrupt_length E (h_original h) kind; State_Monad.return (Some (length_reply f h kind r)) })"
    if h: "header_ok f h" "target_matches (lc_target options) (h_path h)"
      and k: "case lc_kind options of None \<Rightarrow> True | Some k \<Rightarrow> k = kind" for h kind
  proof (rule pred_state_bind [OF corrupt_length_differs [OF assms(1)]])
    show "- 1 \<le> h_original h" using h(1) declared_length_ge unfolding header_ok_def by blast
    fix r assume "h_original h < 2 ^ 63 - 1 \<longrightarrow> r \<noteq> show_int (h_original h)"
    then have "length (encode f) < 2 ^ 63 - 1 \<longrightarrow> r \<noteq> show_int (h_original h)"
      using below_maxlen [OF _ header_ok_le [OF h(1)]] by blast
    then show "pred_state (\<lambda>r. \<forall>reply. r = Some reply \<longrightarrow> length_fault c f reply)
        (State_Monad.return (Some (length_reply f h kind r)))"
      using h k assms(2) by (auto simp: length_fault_def fault_chosen_def)
  qed
  have kinds: "pred_state (\<lambda>kind. case lc_kind options of None \<Rightarrow> True | Some k \<Rightarrow> k = kind)
      (case lc_kind options of Some k \<Rightarrow> State_Monad.return k | None \<Rightarrow> pick E CORRUPTIONS)"
    by (cases "lc_kind options") (auto intro: pred_state_any)
  show ?thesis
    unfolding configured_length_def
  proof (rule pred_state_then, rule pred_state_if)
    show "pred_state (\<lambda>r. \<forall>reply. r = Some reply \<longrightarrow> length_fault c f reply) (do {
        header \<leftarrow> select_header E f (lc_target options) (cfg_depth c);
        (case header of None \<Rightarrow> State_Monad.return None
         | Some h \<Rightarrow> do {
            kind \<leftarrow> (case lc_kind options of Some k \<Rightarrow> State_Monad.return k | None \<Rightarrow> pick E CORRUPTIONS);
            replacement \<leftarrow> corrupt_length E (h_original h) kind;
            State_Monad.return (Some (length_reply f h kind replacement)) }) })"
    proof (rule pred_state_bind [OF select_header_ok])
      fix header assume "\<forall>h. header = Some h \<longrightarrow> header_ok f h \<and> target_matches (lc_target options) (h_path h)"
      then show "pred_state (\<lambda>r. \<forall>reply. r = Some reply \<longrightarrow> length_fault c f reply)
        (case header of None \<Rightarrow> State_Monad.return None
         | Some h \<Rightarrow> do {
            kind \<leftarrow> (case lc_kind options of Some k \<Rightarrow> State_Monad.return k | None \<Rightarrow> pick E CORRUPTIONS);
            replacement \<leftarrow> corrupt_length E (h_original h) kind;
            State_Monad.return (Some (length_reply f h kind replacement)) })"
        by (cases header) (auto intro: pred_state_bind [OF kinds one])
    qed
  qed simp
qed

lemma mutate_length_fault:
  assumes "rng_ok E"
  shows "pred_state (\<lambda>r. \<forall>reply. r = Some reply \<longrightarrow> length_fault c f reply) (mutate_length E f c)"
  unfolding mutate_length_def
  using assms by (auto split: framing_config.splits intro: auto_length_fault configured_length_fault)

text \<open>The bytes of a reply node by node, each node's own bytes in encoding order.\<close>

definition heads :: "frame list \<Rightarrow> bytes" where
  "heads fs = concat (map frame_head fs)"

definition heads_from :: "header \<Rightarrow> nat \<Rightarrow> frame list \<Rightarrow> bytes" where
  "heads_from h i fs = concat (map (\<lambda>(k, g). node_head (header_at h k) g) (enumerate i fs))"

lemma heads_from_append: "heads_from h i (fs @ gs) = heads_from h i fs @ heads_from h (i + length fs) gs"
  by (simp add: heads_from_def enumerate_append_eq)

lemma encode_into_heads: "encode_into h f i = (heads_from h i (preorder f), i + frame_count f)"
proof (induction f arbitrary: i rule: frame_induct)
  case (Frame f)
  have "run_seq (map (encode_into h) cs) j
      = (heads_from h j (concat (map preorder cs)), j + sum_list (map frame_count cs))"
    if "set cs \<subseteq> set (children f)" for cs j
    using that
  proof (induction cs arbitrary: j)
    case (Cons c cs)
    then show ?case using Frame.IH [of c j]
      by (simp add: heads_from_append length_preorder add.assoc)
  qed (simp add: heads_from_def)
  from this [of "children f" "Suc i"] show ?case
    by (simp add: encode_into_node preorder.simps [of f] frame_count.simps [of f] heads_from_def)
qed

lemma heads_from_plain: "\<forall>k. i \<le> k \<and> k < i + length fs \<longrightarrow> header_at h k = None \<Longrightarrow> heads_from h i fs = heads fs"
  by (induction fs arbitrary: i) (auto simp: heads_from_def heads_def node_head_None)

lemma encode_heads: "encode f = heads (preorder f)"
  by (simp add: encode_def encode_into_heads heads_from_plain header_at_def)

lemma encode_with_length_heads:
  assumes "t < frame_count f"
  shows "encode_with_length f t r = heads (take t (preorder f)) @ node_head (Some r) (preorder f ! t)
     @ heads (drop (Suc t) (preorder f))"
proof -
  let ?P = "preorder f" and ?h = "Some (t, r)"
  have "?P = take t ?P @ (?P ! t # drop (Suc t) ?P)"
    using assms by (simp add: length_preorder id_take_nth_drop)
  then have "heads_from ?h 0 ?P = heads_from ?h 0 (take t ?P @ (?P ! t # drop (Suc t) ?P))" by simp
  also have "\<dots> = heads_from ?h 0 (take t ?P) @ node_head (Some r) (?P ! t) @ heads_from ?h (Suc t) (drop (Suc t) ?P)"
    using assms by (simp only: heads_from_append) (simp add: heads_from_def length_preorder header_at_def)
  also have "\<dots> = heads (take t ?P) @ node_head (Some r) (?P ! t) @ heads (drop (Suc t) ?P)"
    using assms by (simp add: heads_from_plain header_at_def length_preorder)
  finally show ?thesis by (simp add: encode_with_length_def encode_into_heads)
qed

lemma node_head_line:
  assumes "declared_length g = Some n"
  shows "\<exists>c body. frame_head g = push_line c (show_int n) @ body \<and> node_head (Some r) g = push_line c r @ body"
proof -
  have len: "show_nat k = show_int (int k)" for k by (simp add: show_int_def)
  have null: "''-1'' = show_int (- 1)" by (simp add: show_int_def show_nat.simps digit_char_def)
  show ?thesis using assms
    by (cases "(Some r, g)" rule: node_head.cases)
      (auto simp: encode_eqs push_blob_def or_len_def len null intro: exI [of _ "[]"])
qed

text \<open>What a path says: the item with a number, or the key or the value of the pair with a number.\<close>

inductive names_node :: "frame \<Rightarrow> string \<Rightarrow> frame \<Rightarrow> bool" for f where
  root: "names_node f ''root'' f"
| item: "names_node f p g \<Longrightarrow> g \<in> {Array (Some items), Set items, Push items} \<Longrightarrow> i < length items \<Longrightarrow>
    names_node f (p @ ''.'' @ show_nat i) (items ! i)"
| key: "names_node f p g \<Longrightarrow> g \<in> {Map pairs, Attribute pairs} \<Longrightarrow> i < length pairs \<Longrightarrow>
    names_node f (p @ ''.'' @ show_nat i @ ''.key'') (fst (pairs ! i))"
| pair_value: "names_node f p g \<Longrightarrow> g \<in> {Map pairs, Attribute pairs} \<Longrightarrow> i < length pairs \<Longrightarrow>
    names_node f (p @ ''.'' @ show_nat i @ ''.value'') (snd (pairs ! i))"

lemma names_child:
  assumes "names_node f p g" and "(seg, c) \<in> set (named_children g)"
  shows "names_node f (subpath p seg) c"
proof -
  have items: "names_node f (subpath p seg) c" if "g \<in> {Array (Some items), Set items, Push items}"
    "(seg, c) \<in> set (zip (map show_nat [0..<length items]) items)" for items
    using that(2) names_node.item [OF assms(1) that(1)] by (auto simp: set_zip)
  have pairs: "names_node f (subpath p seg) c" if "g \<in> {Map ps, Attribute ps}"
    "(seg, c) \<in> set (concat (map (\<lambda>(i, k, v). [(show_nat i @ ''.key'', k), (show_nat i @ ''.value'', v)])
       (zip [0..<length ps] ps)))" for ps
  proof -
    from that(2) obtain j k v where j: "j < length ps" "ps ! j = (k, v)"
      and e: "seg = show_nat j @ ''.key'' \<and> c = k \<or> seg = show_nat j @ ''.value'' \<and> c = v"
      by (auto simp only: set_concat set_map set_zip length_upt nth_upt mem_Collect_eq image_iff) (simp, metis)
    from e show ?thesis
      using names_node.key [OF assms(1) that(1) j(1)] names_node.pair_value [OF assms(1) that(1) j(1)] j(2) by auto
  qed
  show ?thesis
  proof (cases g rule: named_children.cases)
    case (1 xs)
    with items [of xs] assms(2) show ?thesis by simp
  next
    case (2 xs)
    with items [of xs] assms(2) show ?thesis by simp
  next
    case (3 xs)
    with items [of xs] assms(2) show ?thesis by simp
  next
    case (4 xs)
    show ?thesis by (rule pairs [of xs]) (use 4 assms(2) in \<open>simp_all only: named_children.simps insert_iff simp_thms\<close>)
  next
    case (5 xs)
    show ?thesis by (rule pairs [of xs]) (use 5 assms(2) in \<open>simp_all only: named_children.simps insert_iff simp_thms\<close>)
  qed (use assms(2) in simp_all)
qed

lemma visit_names:
  "(g', p', d') \<in> set (visit g p d) \<Longrightarrow> names_node f p g \<Longrightarrow> names_node f p' g'"
proof (induction g arbitrary: p d rule: frame_induct)
  case (Frame g)
  from Frame.prems(1) consider "g' = g" "p' = p"
    | seg c where "(seg, c) \<in> set (named_children g)" "(g', p', d') \<in> set (visit c (subpath p seg) (Suc d))"
    by (subst (asm) visit.simps) auto
  then show ?case
  proof cases
    case 2
    then have "c \<in> snd ` set (named_children g)" by force
    then have "c \<in> set (children g)" by (simp flip: map_snd_named_children)
    then show ?thesis using Frame.IH 2 names_child [OF Frame.prems(2) 2(1)] by blast
  qed (use Frame.prems(2) in simp)
qed


text \<open>An instance: a length one too long on a one-element array.\<close>

definition sample_framing :: evil_config where
  "sample_framing = config_default\<lparr>cfg_framing :=
     FramingLength \<lparr>lc_probability = Fin 100, lc_target = PathTarget ''root'', lc_kind = Some Longer\<rparr>\<rparr>"

definition sample_array :: frame where
  "sample_array = Array (Some [Null])"

lemma sample_framing_run:
  "run_state (mutate_length sample_externals sample_array sample_framing) 1
     = (Some (length_reply sample_array \<lparr>h_index = 0, h_path = ''root'', h_original = 1\<rparr> Longer ''2''), 8)"
  by (simp add: mutate_length_def sample_framing_def configured_length_def should_apply_def
     sample_externals_def sample_draw_def select_header_def sample_array_def visit.simps [of "Array (Some [Null])"] visit.simps [of Null]
     f_lt_def show_int_def show_nat.simps digit_chars)


section \<open>Weighted selection\<close>

lemma total_weight_Cons:
  "total_weight depth ((f, path, level) # vs) =
     (if declared_length f = None then 0 else weight depth level) + total_weight depth vs"
  by (simp add: total_weight_def header_weight_def)

lemma pick_weighted_hits:
  assumes "r < total_weight depth vs"
  shows "\<exists>h k. pick_weighted depth i r vs = Some h \<and> h_index h = i + k \<and> k < length vs
    \<and> total_weight depth (take k vs) \<le> r \<and> r < total_weight depth (take (Suc k) vs)"
  using assms
proof (induction depth i r vs rule: pick_weighted.induct)
  case (2 depth i r f path level vs)
  let ?v = "(f, path, level)"
  have step: "\<exists>h k. pick_weighted depth i r (?v # vs) = Some h \<and> h_index h = i + k \<and> k < length (?v # vs)
      \<and> total_weight depth (take k (?v # vs)) \<le> r \<and> r < total_weight depth (take (Suc k) (?v # vs))"
    if "pick_weighted depth i r (?v # vs) = pick_weighted depth (Suc i) (r - w) vs"
      "\<exists>h k. pick_weighted depth (Suc i) (r - w) vs = Some h \<and> h_index h = Suc i + k \<and> k < length vs
        \<and> total_weight depth (take k vs) \<le> r - w \<and> r - w < total_weight depth (take (Suc k) vs)"
      "w = (if declared_length f = None then 0 else weight depth level)" "w \<le> r" for w
  proof -
    from that(2) obtain h k where "pick_weighted depth (Suc i) (r - w) vs = Some h" "h_index h = Suc i + k"
      "k < length vs" "total_weight depth (take k vs) \<le> r - w"
      "r - w < total_weight depth (take (Suc k) vs)" by blast
    with that show ?thesis
      by (intro exI [of _ h] exI [of _ "Suc k"])
        (auto simp: total_weight_Cons simp del: pick_weighted.simps split: if_splits)
  qed
  show ?case
  proof (cases "declared_length f")
    case None
    then show ?thesis using step [of 0] 2 by (simp add: total_weight_Cons)
  next
    case (Some n)
    show ?thesis
    proof (cases "r < weight depth level")
      case True
      with Some show ?thesis by (auto simp: total_weight_def header_weight_def intro!: exI [of _ 0])
    next
      case False
      then have "r - weight depth level < total_weight depth vs"
        using 2(3) Some by (auto simp: total_weight_Cons)
      then show ?thesis using step [of "weight depth level"] 2(2) [OF Some False] Some False by simp
    qed
  qed
qed (simp add: total_weight_def)

text \<open>Weighted header selection is exact: whatever offset below the total weight is drawn,
  the selected header is the one whose interval of cumulative weights holds the offset, so each
  header is chosen with probability proportional to its weight.\<close>

lemma weighted_header_is_proportional:
  assumes "r < total_weight depth (visit f ''root'' 0)"
  shows "\<exists>h. pick_weighted depth 0 r (visit f ''root'' 0) = Some h
    \<and> total_weight depth (take (h_index h) (visit f ''root'' 0)) \<le> r
    \<and> r < total_weight depth (take (Suc (h_index h)) (visit f ''root'' 0))
    \<and> declared_length (preorder f ! h_index h) = Some (h_original h)"
proof -
  obtain h where h: "pick_weighted depth 0 r (visit f ''root'' 0) = Some h"
    "total_weight depth (take (h_index h) (visit f ''root'' 0)) \<le> r"
    "r < total_weight depth (take (Suc (h_index h)) (visit f ''root'' 0))"
    using pick_weighted_hits [OF assms, of 0] by auto
  moreover have "header_ok f h" using h(1) by (auto dest: pick_weighted_header header_of_visit)
  ultimately show ?thesis by (auto simp: header_ok_def)
qed

section \<open>Paths identify frames\<close>

text \<open>A continuation of a path: nothing, or a dot and more.\<close>

definition tail_ok :: "string \<Rightarrow> bool" where
  "tail_ok t \<longleftrightarrow> t = [] \<or> hd t = CHR ''.''"

definition clash :: "string \<Rightarrow> string \<Rightarrow> bool" where
  "clash a b \<longleftrightarrow> (\<exists>t u. tail_ok t \<and> tail_ok u \<and> a @ t = b @ u)"

lemma takeWhile_dot: "tail_ok t \<Longrightarrow> takeWhile (\<lambda>c. c \<noteq> CHR ''.'') (show_nat n @ t) = show_nat n"
proof -
  assume t: "tail_ok t"
  have "c \<noteq> CHR ''.''" if "c \<in> set (show_nat n)" for c
    using show_nat_digits [of n] that by (auto simp: list_all_iff ascii_defs)
  with t show ?thesis
    by (subst takeWhile_append2) (auto simp: tail_ok_def takeWhile_eq_Nil_iff)
qed

lemma show_nat_tail: "tail_ok t \<Longrightarrow> tail_ok u \<Longrightarrow> show_nat i @ t = show_nat j @ u \<longleftrightarrow> i = j \<and> t = u"
proof
  assume "tail_ok t" "tail_ok u" and eq: "show_nat i @ t = show_nat j @ u"
  then have "show_nat i = show_nat j" by (metis takeWhile_dot)
  then have "show_int (int i) = show_int (int j)" by (simp add: show_int_def)
  with eq show "i = j \<and> t = u" by (simp add: show_int_inj)
qed simp

lemma tail_ok_append: "tail_ok t \<Longrightarrow> tail_ok u \<Longrightarrow> tail_ok (t @ u)"
  by (cases t) (auto simp: tail_ok_def)

lemma clash_index: "clash (show_nat i @ t) (show_nat j @ u) \<Longrightarrow> tail_ok t \<Longrightarrow> tail_ok u \<Longrightarrow> i = j \<and> clash t u"
proof -
  assume "clash (show_nat i @ t) (show_nat j @ u)" and t: "tail_ok t" "tail_ok u"
  then obtain v w where "tail_ok v" "tail_ok w" "show_nat i @ t @ v = show_nat j @ u @ w"
    by (auto simp: clash_def)
  moreover from this t have "tail_ok (t @ v)" "tail_ok (u @ w)" by (auto intro: tail_ok_append)
  ultimately show ?thesis by (auto simp: show_nat_tail clash_def)
qed

abbreviation apart :: "string list \<Rightarrow> bool" where
  "apart \<equiv> sorted_wrt (\<lambda>a b. \<not> clash a b)"

lemma apart_indices: "apart (map show_nat [m..<n])"
  using clash_index [of _ "[]" _ "[]"]
  by (auto simp: sorted_wrt_map tail_ok_def intro!: sorted_wrt_mono_rel [OF _ sorted_wrt_upt])

lemma key_value_apart: "\<not> clash ''.key'' ''.value''"
  by (auto simp: clash_def)

lemma apart_pairs:
  "apart (map fst (concat (map (\<lambda>(i, k, v). [(show_nat i @ ''.key'', k), (show_nat i @ ''.value'', v)])
     (zip [m..<m + length kvs] kvs))))"
proof (induction kvs arbitrary: m)
  case (Cons kv kvs)
  have tail: "tail_ok ''.key''" "tail_ok ''.value''" by (simp_all add: tail_ok_def)
  have later: "\<not> clash (show_nat m @ s) (show_nat i @ s')" if "m < i" "tail_ok s" "tail_ok s'" for s s' i
    using clash_index [of m s i s'] that by auto
  note ne = later [OF _ tail(1) tail(1)] later [OF _ tail(1) tail(2)]
    later [OF _ tail(2) tail(1)] later [OF _ tail(2) tail(2)]
  have same: "\<not> clash (show_nat m @ ''.key'') (show_nat m @ ''.value'')"
    using clash_index [OF _ tail, of m m] key_value_apart by auto
  have "[m..<m + length (kv # kvs)] = m # [Suc m..<Suc m + length kvs]"
    by (simp add: upt_conv_Cons del: upt_Suc)
  then show ?case
    using Cons.IH [of "Suc m"] same ne
    by (auto simp: case_prod_beta Suc_le_eq simp del: upt_Suc dest!: set_zip_leftD)
qed simp

lemma apart_named_children: "apart (map fst (named_children f))"
  using apart_pairs [of 0] apart_indices [of 0]
  by (cases f rule: named_children.cases) simp_all

lemma visit_path: "(g, p, l) \<in> set (visit f path d) \<Longrightarrow> \<exists>t. p = path @ t \<and> tail_ok t"
proof (induction f arbitrary: path d rule: frame_induct)
  case (Frame f)
  from Frame.prems consider "p = path"
    | seg c where "(seg, c) \<in> set (named_children f)" "(g, p, l) \<in> set (visit c (subpath path seg) (Suc d))"
    by (subst (asm) visit.simps) auto
  then show ?case
  proof cases
    case 2
    then have "c \<in> set (map snd (named_children f))" by force
    then have "c \<in> set (children f)" by (simp add: map_snd_named_children)
    from Frame.IH [OF this 2(2)] show ?thesis by (auto simp: tail_ok_def)
  qed (auto simp: tail_ok_def)
qed

lemma distinct_visit_children:
  assumes "apart (map fst ncs)"
    and "\<And>seg c. (seg, c) \<in> set ncs \<Longrightarrow> distinct (map (\<lambda>v. fst (snd v)) (visit c (subpath path seg) d))"
  shows "distinct (map (\<lambda>v. fst (snd v)) (concat (map (\<lambda>(seg, c). visit c (subpath path seg) d) ncs)))"
  using assms
proof (induction ncs)
  case (Cons nc ncs)
  obtain seg c where nc: "nc = (seg, c)" by (cases nc)
  have False if "(g, p, l) \<in> set (visit c (subpath path seg) d)" "(seg', c') \<in> set ncs"
    "(g', p, l') \<in> set (visit c' (subpath path seg') d)" for g p l seg' c' g' l'
  proof -
    have "clash seg seg'" using visit_path [OF that(1)] visit_path [OF that(3)] by (auto simp: clash_def)
    moreover have "\<not> clash seg seg'" using Cons.prems(1) that(2) nc by force
    ultimately show False by blast
  qed
  then show ?case using Cons nc by fastforce
qed simp

lemma distinct_visit: "distinct (map (\<lambda>v. fst (snd v)) (visit f path d))"
proof (induction f arbitrary: path d rule: frame_induct)
  case (Frame f)
  have "distinct (map (\<lambda>v. fst (snd v)) (visit c (subpath path seg) (Suc d)))"
    if "(seg, c) \<in> set (named_children f)" for seg c
  proof -
    have "c \<in> set (map snd (named_children f))" using that by force
    then show ?thesis using Frame.IH by (simp add: map_snd_named_children)
  qed
  note rest = distinct_visit_children [OF apart_named_children this]
  have "p \<noteq> path" if "(seg, c) \<in> set (named_children f)"
    "(g, p, l) \<in> set (visit c (subpath path seg) (Suc d))" for seg c g p l
    using visit_path [OF that(2)] by auto
  then show ?case using rest by (subst visit.simps) force
qed

text \<open>A frame path names at most one frame of a reply, whatever its nesting and the digits of
  its indices, so \<open>TARGET\<close> with a path and the paths of the mutation log are unambiguous.\<close>

lemma paths_identify_frames:
  assumes "i < frame_count f" and "j < frame_count f"
    and "fst (snd (visit f ''root'' 0 ! i)) = fst (snd (visit f ''root'' 0 ! j))"
  shows "i = j"
proof -
  have "map (\<lambda>v. fst (snd v)) (visit f ''root'' 0) ! i = map (\<lambda>v. fst (snd v)) (visit f ''root'' 0) ! j"
    using assms by (simp add: length_visit)
  then show ?thesis
    using distinct_visit [of f "''root''" 0] assms(1,2) by (subst (asm) nth_eq_iff_index_eq) (auto simp: length_visit)
qed

end
