(* ===== verification/Mutation.thy ===== *)
theory Mutation
  imports Framing
begin

text \<open>
  \<open>mutation.rs\<close>: mutating the frames of a reply. The code mutates the tree in place; here an
  operation returns the new tree, \<open>with_children\<close> putting back the children it has visited.
  Replacement subtrees are terminal in both. The generator is threaded by the state monad.
\<close>

section \<open>Rebuilding a frame from its children\<close>

fun pair_up :: "'a list \<Rightarrow> ('a \<times> 'a) list" where
  "pair_up (k # v # rest) = (k, v) # pair_up rest"
| "pair_up _ = []"

fun with_children :: "frame \<Rightarrow> frame list \<Rightarrow> frame" where
  "with_children (Array (Some _)) cs = Array (Some cs)"
| "with_children (Set _) cs = Set cs"
| "with_children (Push _) cs = Push cs"
| "with_children (Map _) cs = Map (pair_up cs)"
| "with_children (Attribute _) cs = Attribute (pair_up cs)"
| "with_children f _ = f"

section \<open>Which frames may be mutated\<close>

definition value_frame :: "frame \<Rightarrow> bool" where
  "value_frame f = (case f of SimpleString _ \<Rightarrow> True | SimpleError _ \<Rightarrow> True | Integer _ \<Rightarrow> True
     | BulkString b \<Rightarrow> b \<noteq> None | Double _ \<Rightarrow> True | BigNumber _ \<Rightarrow> True
     | BulkError _ \<Rightarrow> True | VerbatimString _ \<Rightarrow> True | _ \<Rightarrow> False)"

definition eligible :: "frame \<Rightarrow> evil_config \<Rightarrow> bool" where
  "eligible f c \<longleftrightarrow>
     (if cfg_strategy c = Replace then True
      else if value_frame f then True
      else (case f of Boolean _ \<Rightarrow> cfg_mode c = ModeMutate | Inline _ \<Rightarrow> cfg_mode c = ModeMutate
        | _ \<Rightarrow> False))"

definition own_weight :: "evil_config \<Rightarrow> nat \<Rightarrow> frame \<Rightarrow> nat" where
  "own_weight c depth f = (if eligible f c then weight (cfg_depth c) depth else 0)"

fun eligible_weight :: "frame \<Rightarrow> evil_config \<Rightarrow> nat \<Rightarrow> nat" where
  "eligible_weight f c depth = own_weight c depth f
     + sum_list (map (\<lambda>child. eligible_weight child c (Suc depth)) (children f))"

declare eligible_weight.simps [simp del]

text \<open>\<open>Option::max\<close>: \<open>None\<close> is below every depth.\<close>

fun max_depth :: "nat option \<Rightarrow> nat option \<Rightarrow> nat option" where
  "max_depth None b = b"
| "max_depth a None = a"
| "max_depth (Some a) (Some b) = Some (max a b)"

fun eligible_max_depth :: "frame \<Rightarrow> evil_config \<Rightarrow> nat \<Rightarrow> nat option" where
  "eligible_max_depth f c depth =
     foldl max_depth (if eligible f c then Some depth else None)
       (map (\<lambda>child. eligible_max_depth child c (Suc depth)) (children f))"

declare eligible_max_depth.simps [simp del]

section \<open>Mutating one frame\<close>

definition mutate_one :: "'r externals \<Rightarrow> evil_config \<Rightarrow> frame \<Rightarrow> ('r, frame \<times> mutation_kind) state" where
  "mutate_one E c f =
     (if cfg_mode c = ModeOverflow
      then (if value_frame f
        then do { g \<leftarrow> mutate_scalar E (cfg_generator c) True f; State_Monad.return (g, OverflowValue) }
        else State_Monad.return (Integer I64_MAX, OverflowValue))
      else (case cfg_strategy c of
        Preserve \<Rightarrow> do {
          g \<leftarrow> mutate_scalar E (cfg_generator c) False f;
          State_Monad.return (g, RandomValue)
        }
      | Replace \<Rightarrow> do {
          replacement \<leftarrow> gen_frame E (cfg_generator c);
          State_Monad.return
            (if f \<noteq> replacement then replacement else if f = Integer 0 then Integer 1 else Integer 0,
             RandomFrame)
        }))"

section \<open>One mutation: the frame a weight offset selects\<close>

definition select_weight :: "'r externals \<Rightarrow> frame \<Rightarrow> evil_config \<Rightarrow> ('r, nat option) state" where
  "select_weight E f c =
     (let full = eligible_weight f c 0 in
      if full = 0 then State_Monad.return None
      else do {
        n \<leftarrow> gen_range E (case cfg_depth c of AnyDepth \<Rightarrow> USize | Inner \<Rightarrow> U128) 0 full;
        State_Monad.return (Some n)
      })"

text \<open>
  The search either uses up the children without reaching the offset, returning what remains of
  it, or reaches a frame, returning the list in which that frame is to be replaced together with
  the mutation to run.
\<close>

type_synonym ('r, 'a) search = "nat + ('r, 'a \<times> applied_mutation) state"

definition hit_map :: "('a \<Rightarrow> 'b) \<Rightarrow> ('r, 'a) search \<Rightarrow> ('r, 'b) search" where
  "hit_map h = map_sum id (\<lambda>m. do { (x, am) \<leftarrow> m; State_Monad.return (h x, am) })"

fun first_hit :: "(string \<times> frame \<Rightarrow> nat \<Rightarrow> ('r, frame) search) \<Rightarrow> nat \<Rightarrow> (string \<times> frame) list
   \<Rightarrow> ('r, frame list) search" where
  "first_hit step remaining [] = Inl remaining"
| "first_hit step remaining (x # xs) =
     (case step x remaining of
        Inr m \<Rightarrow> hit_map (\<lambda>g. g # map snd xs) (Inr m)
      | Inl rest \<Rightarrow> hit_map (\<lambda>cs. snd x # cs) (first_hit step rest xs))"

lemma first_hit_cong [fundef_cong]:
  "xs = ys \<Longrightarrow> r = s \<Longrightarrow> (\<And>x n. x \<in> set ys \<Longrightarrow> f x n = g x n) \<Longrightarrow> first_hit f r xs = first_hit g s ys"
proof (induction xs arbitrary: ys r s)
  case (Cons x xs)
  have "first_hit f n xs = first_hit g n xs" for n using Cons.IH Cons.prems by auto
  moreover have "f x n = g x n" for n using Cons.prems(1) [symmetric] Cons.prems(3) [of x] by simp
  ultimately show ?case using Cons.prems(1,2) by (auto split: sum.splits)
qed simp

fun mutate_selected ::
  "'r externals \<Rightarrow> evil_config \<Rightarrow> string \<Rightarrow> nat \<Rightarrow> nat \<Rightarrow> frame \<Rightarrow> ('r, frame) search" where
  "mutate_selected E c path depth remaining f =
     (if eligible f c \<and> remaining < weight (cfg_depth c) depth
      then Inr (do { (g, kind) \<leftarrow> mutate_one E c f; State_Monad.return (g, applied path kind) })
      else hit_map (with_children f)
        (first_hit (\<lambda>(seg, child) r. mutate_selected E c (subpath path seg) (Suc depth) r child)
          (remaining - own_weight c depth f) (named_children f)))"

declare mutate_selected.simps [simp del]

section \<open>Many mutations: every frame gets its chance\<close>

fun traverse :: "('a \<Rightarrow> ('r, 'b) state) \<Rightarrow> 'a list \<Rightarrow> ('r, 'b list) state" where
  "traverse step [] = State_Monad.return []"
| "traverse step (x # xs) = do { y \<leftarrow> step x; ys \<leftarrow> traverse step xs; State_Monad.return (y # ys) }"

lemma traverse_cong [fundef_cong]:
  "xs = ys \<Longrightarrow> (\<And>x. x \<in> set ys \<Longrightarrow> f x = g x) \<Longrightarrow> traverse f xs = traverse g ys"
  by (induction xs arbitrary: ys) auto

function mutate_frame :: "'r externals \<Rightarrow> evil_config \<Rightarrow> nat \<Rightarrow> string \<Rightarrow> nat \<Rightarrow> frame
   \<Rightarrow> ('r, frame \<times> applied_mutation list) state" where
  "mutate_frame E c deepest path depth f = do {
     hit \<leftarrow> (if eligible f c
       then should_apply E (scale (cfg_depth c) (cfg_probability c) depth deepest)
       else State_Monad.return False);
     if hit
     then do { (g, kind) \<leftarrow> mutate_one E c f; State_Monad.return (g, [applied path kind]) }
     else do {
       rs \<leftarrow> traverse (\<lambda>(seg, child). mutate_frame E c deepest (subpath path seg) (Suc depth) child)
         (named_children f);
       State_Monad.return (with_children f (map fst rs), concat (map snd rs))
     }
   }"
  by pat_completeness auto

termination by (relation "measure (\<lambda>(E, c, deepest, path, depth, f). size f)") (auto simp: named_children_size)

declare mutate_frame.simps [simp del]

section \<open>Mutating a reply\<close>

definition mutate_value :: "'r externals \<Rightarrow> frame \<Rightarrow> evil_config \<Rightarrow> ('r, frame \<times> applied_mutation list) state" where
  "mutate_value E f c =
     (case cfg_mutation_count c of
        One \<Rightarrow> do {
          hit \<leftarrow> should_apply E (cfg_probability c);
          selected \<leftarrow> (if hit then select_weight E f c else State_Monad.return None);
          (case selected of
             None \<Rightarrow> State_Monad.return (f, [])
           | Some remaining \<Rightarrow> (case mutate_selected E c ''root'' 0 remaining f of
               Inl _ \<Rightarrow> State_Monad.return (f, [])
             | Inr m \<Rightarrow> do { (g, am) \<leftarrow> m; State_Monad.return (g, [am]) }))
        }
      | Many \<Rightarrow> mutate_frame E c
          (case eligible_max_depth f c 0 of Some deepest \<Rightarrow> deepest | None \<Rightarrow> 0) ''root'' 0 f)"

definition is_length :: "framing_config \<Rightarrow> bool" where
  "is_length framing = (case framing of FramingLength _ \<Rightarrow> True | _ \<Rightarrow> False)"

definition mutate :: "'r externals \<Rightarrow> frame \<Rightarrow> evil_config \<Rightarrow> ('r, mutated_reply) state" where
  "mutate E upstream c =
     (if \<not> (cfg_mode c = ModeMutate \<or> cfg_mode c = ModeOverflow)
      then State_Monad.return \<lparr>reply_bytes = encode upstream, reply_mutations = []\<rparr>
      else do {
        framed \<leftarrow> (if cfg_mutation_count c = One \<and> is_length (cfg_framing c)
                   then mutate_length E upstream c else State_Monad.return None);
        (case framed of
           Some reply \<Rightarrow> State_Monad.return reply
         | None \<Rightarrow> do {
             (f, mutations) \<leftarrow> mutate_value E upstream c;
             final \<leftarrow> (if cfg_mutation_count c = Many then mutate_length E f c
                       else State_Monad.return None);
             State_Monad.return (case final of
               Some reply \<Rightarrow> reply\<lparr>reply_mutations := mutations @ reply_mutations reply\<rparr>
             | None \<Rightarrow> \<lparr>reply_bytes = encode f, reply_mutations = mutations\<rparr>)
           })
      })"

end
