(* ===== verification/Mutation_Props.thy ===== *)
theory Mutation_Props
  imports Mutation
begin

text \<open>
  What reply mutation guarantees: the report names exactly the frames that changed, \<open>PRESERVE\<close>
  keeps the shape of the reply, \<open>ONE\<close> selects in proportion to the weights, and a reply
  without a report is untouched.
\<close>

section \<open>Rebuilding\<close>

lemma pair_up_pairs: "pair_up (concat (map (\<lambda>(k, v). [k, v]) items)) = items"
  by (induction items) auto

lemma with_children_children [simp]: "with_children f (children f) = f"
  by (cases f rule: children.cases) (simp_all add: pair_up_pairs)

lemma pairs_exist:
  "length cs = 2 * n \<Longrightarrow> \<exists>items. length items = n \<and> cs = concat (map (\<lambda>(k, v). [k, v]) items)"
proof (induction n arbitrary: cs)
  case (Suc n)
  then obtain k v rest where cs: "cs = k # v # rest" "length rest = 2 * n"
    by (auto simp: length_Suc_conv)
  with Suc.IH obtain items where "length items = n" "rest = concat (map (\<lambda>(k, v). [k, v]) items)" by blast
  with cs show ?case by (intro exI [of _ "(k, v) # items"]) simp
qed simp

lemma length_pairs_eq: "length (concat (map (\<lambda>(k, v). [k, v]) items)) = 2 * length items"
  by (induction items) auto

lemma zip_pairs:
  "length a = length is \<Longrightarrow> length b = length is \<Longrightarrow>
   concat (map (\<lambda>(i, k, v). [(show_nat i @ ''.key'', k), (show_nat i @ ''.value'', v)]) (zip is b))
     = zip (map fst (concat (map (\<lambda>(i, k, v). [(show_nat i @ ''.key'', k), (show_nat i @ ''.value'', v)]) (zip is a))))
         (concat (map (\<lambda>(k, v). [k, v]) b))"
proof (induction "is" arbitrary: a b)
  case (Cons i "is")
  then show ?case by (cases a; cases b) auto
qed simp

lemma named_with_children:
  assumes "length cs = length (children f)"
  shows "named_children (with_children f cs) = zip (map fst (named_children f)) cs"
proof (cases f rule: children.cases)
  case (4 items)
  with assms obtain items' where "length items' = length items" "cs = concat (map (\<lambda>(k, v). [k, v]) items')"
    using pairs_exist [of cs "length items"] by (auto simp: length_pairs_eq)
  then show ?thesis using 4 zip_pairs [of items "[0..<length items]" items'] by (simp add: pair_up_pairs)
next
  case (5 items)
  with assms obtain items' where "length items' = length items" "cs = concat (map (\<lambda>(k, v). [k, v]) items')"
    using pairs_exist [of cs "length items"] by (auto simp: length_pairs_eq)
  then show ?thesis using 5 zip_pairs [of items "[0..<length items]" items'] by (simp add: pair_up_pairs)
qed (use assms in auto)

lemma children_with_children: "length cs = length (children f) \<Longrightarrow> children (with_children f cs) = cs"
  using named_with_children [of cs f] map_snd_named_children [of "with_children f cs"]
  by (metis length_map length_named_children map_snd_zip)

lemma with_children_inject:
  assumes "length cs = length (children f)" and "with_children f cs = f"
  shows "cs = children f"
  using children_with_children [OF assms(1)] assms(2) by simp

section \<open>One frame\<close>

definition kind_of :: "evil_config \<Rightarrow> mutation_kind" where
  "kind_of c = (if cfg_mode c = ModeOverflow then OverflowValue
     else case cfg_strategy c of Preserve \<Rightarrow> RandomValue | Replace \<Rightarrow> RandomFrame)"

definition changed :: "evil_config \<Rightarrow> frame \<Rightarrow> frame \<Rightarrow> bool" where
  "changed c f g \<longleftrightarrow> eligible f c \<and> g \<noteq> f \<and> (cfg_strategy c = Preserve \<longrightarrow> same_kind f g)"

lemma value_frame_scalar: "value_frame f \<Longrightarrow> mutable_scalar f"
  by (auto simp: value_frame_def mutable_scalar_def split: frame.splits)

lemma mutate_one_changes:
  assumes "eligible f c"
  shows "pred_state (\<lambda>r. changed c f (fst r) \<and> snd r = kind_of c) (mutate_one E c f)"
proof -
  have scalar: "pred_state (\<lambda>r. changed c f (fst r) \<and> snd r = k)
      (do { g \<leftarrow> mutate_scalar E (cfg_generator c) b f; State_Monad.return (g, k) })"
    if "mutable_scalar f" for b k
    by (rule pred_state_bind [OF mutate_scalar_changes [OF that]]) (use assms in \<open>simp add: changed_def\<close>)
  have mutable: "mutable_scalar f" if "cfg_strategy c \<noteq> Replace"
    using assms that value_frame_scalar [of f]
    by (auto simp: eligible_def mutable_scalar_def split: if_splits frame.splits)
  consider "cfg_mode c = ModeOverflow" | "cfg_mode c \<noteq> ModeOverflow" "cfg_strategy c = Preserve"
    | "cfg_mode c \<noteq> ModeOverflow" "cfg_strategy c = Replace"
    by (cases "cfg_strategy c") auto
  then show ?thesis
  proof cases
    case 1
    have "cfg_strategy c = Replace" if "\<not> value_frame f"
      using that assms 1 by (auto simp: eligible_def split: if_splits frame.splits)
    then show ?thesis
      using 1 assms scalar [OF value_frame_scalar]
      by (auto simp: mutate_one_def kind_of_def changed_def) (auto simp: value_frame_def)
  next
    case 2
    then show ?thesis using scalar mutable by (simp add: mutate_one_def kind_of_def)
  next
    case 3
    then show ?thesis using assms
      by (auto simp: mutate_one_def kind_of_def changed_def intro!: pred_state_then)
  qed
qed

section \<open>The frames that a report names\<close>

text \<open>
  \<open>edits c path f g ms\<close>: \<open>g\<close> is \<open>f\<close> with exactly the frames that \<open>ms\<close> names, in
  encoding order, replaced by different ones, each of them eligible and outside any other.
\<close>

inductive edits :: "evil_config \<Rightarrow> string \<Rightarrow> frame \<Rightarrow> frame \<Rightarrow> applied_mutation list \<Rightarrow> bool" for c where
  here: "changed c f g \<Longrightarrow> edits c path f g [applied path (kind_of c)]"
| inside: "list_all2 (\<lambda>x y. edits c (subpath path (fst x)) (snd x) (fst y) (snd y)) (named_children f) rs
    \<Longrightarrow> edits c path f (with_children f (map fst rs)) (concat (map snd rs))"

lemma edits_refl: "edits c path f f []"
proof (induction f arbitrary: path rule: frame_induct)
  case (Frame f)
  let ?rs = "map (\<lambda>x. (snd x, [] :: applied_mutation list)) (named_children f)"
  have "edits c (subpath path (fst x)) (snd x) (snd x) []" if "x \<in> set (named_children f)" for x
  proof -
    have "snd x \<in> set (map snd (named_children f))" using that by simp
    then show ?thesis using Frame by (simp only: map_snd_named_children)
  qed
  then have "edits c path f (with_children f (map fst ?rs)) (concat (map snd ?rs))"
    by (intro inside) (simp add: list_all2_conv_all_nth)
  moreover have "concat (map snd ?rs) = []" by simp
  moreover have "map fst ?rs = children f" using map_snd_named_children [of f] by (simp add: comp_def)
  ultimately show ?case by (simp only: with_children_children)
qed

lemma all_unchanged:
  "list_all2 (\<lambda>x y. snd y = [] \<longleftrightarrow> fst y = snd x) xs rs \<Longrightarrow>
     (\<forall>y\<in>set rs. snd y = []) \<longleftrightarrow> map fst rs = map snd xs"
proof (induction xs rs rule: list_all2_induct)
  case (Cons x xs y ys)
  then show ?case by (cases "snd y = []") simp_all
qed simp

lemma edits_empty_eq: "edits c path f g ms \<Longrightarrow> ms = [] \<longleftrightarrow> g = f"
proof (induction rule: edits.induct)
  case (here f g path)
  then show ?case by (simp add: changed_def)
next
  case (inside path f rs)
  have len: "length (map fst rs) = length (children f)"
    using list_all2_lengthD [OF inside] by simp
  have "list_all2 (\<lambda>x y. snd y = [] \<longleftrightarrow> fst y = snd x) (named_children f) rs"
    using inside by (rule list_all2_mono) simp
  then have "(\<forall>y\<in>set rs. snd y = []) \<longleftrightarrow> map fst rs = map snd (named_children f)"
    by (rule all_unchanged)
  moreover have "with_children f (map fst rs) = f \<longleftrightarrow> map fst rs = children f"
  proof
    show "with_children f (map fst rs) = f \<Longrightarrow> map fst rs = children f"
      by (rule with_children_inject [OF len])
    show "map fst rs = children f \<Longrightarrow> with_children f (map fst rs) = f"
      by (simp only: with_children_children)
  qed
  moreover have "concat (map snd rs) = [] \<longleftrightarrow> (\<forall>y\<in>set rs. snd y = [])" by auto
  ultimately show ?case by (simp only: map_snd_named_children)
qed

section \<open>The searches make only edits\<close>

lemma pred_traverse:
  "(\<And>x. x \<in> set xs \<Longrightarrow> pred_state (P x) (step x)) \<Longrightarrow> pred_state (list_all2 P xs) (traverse step xs)"
proof (induction xs)
  case (Cons x xs)
  have "pred_state (P x) (step x)" "pred_state (list_all2 P xs) (traverse step xs)" using Cons by auto
  then show ?case unfolding traverse.simps by (auto elim!: pred_state_bind)
qed simp

lemma child_of_named: "x \<in> set (named_children f) \<Longrightarrow> snd x \<in> set (children f)"
  by (metis image_eqI list.set_map map_snd_named_children)

lemma mutate_one_edits:
  "eligible f c \<Longrightarrow> pred_state (\<lambda>r. edits c path f (fst r) [snd r])
     (do { (g, kind) \<leftarrow> mutate_one E c f; State_Monad.return (g, applied path kind) })"
  by (rule pred_state_bind [OF mutate_one_changes]) (auto intro: edits.here)

lemma mutate_frame_edits:
  "pred_state (\<lambda>r. edits c path f (fst r) (snd r)) (mutate_frame E c deepest path depth f)"
proof (induction f arbitrary: path depth rule: frame_induct)
  case (Frame f)
  have one: "pred_state (\<lambda>r. edits c path f (fst r) (snd r))
      (do { (g, kind) \<leftarrow> mutate_one E c f; State_Monad.return (g, [applied path kind]) })" if "eligible f c"
    by (rule pred_state_bind [OF mutate_one_changes [OF that]]) (auto intro: edits.here)
  have many: "pred_state (\<lambda>r. edits c path f (fst r) (snd r)) (do {
      rs \<leftarrow> traverse (\<lambda>(seg, child). mutate_frame E c deepest (subpath path seg) (Suc depth) child) (named_children f);
      State_Monad.return (with_children f (map fst rs), concat (map snd rs)) })"
    by (rule pred_state_bind [OF pred_traverse [where
          P = "\<lambda>x y. edits c (subpath path (fst x)) (snd x) (fst y) (snd y)"]])
      (use Frame child_of_named in \<open>auto intro: edits.inside\<close>)
  have hit: "pred_state (\<lambda>hit. hit \<longrightarrow> eligible f c) (if eligible f c
       then should_apply E (scale (cfg_depth c) (cfg_probability c) depth deepest)
       else State_Monad.return False)"
    by (cases "eligible f c") (auto intro: pred_state_any)
  show ?case
    unfolding mutate_frame.simps [of E c deepest path depth f]
    by (rule pred_state_bind [OF hit]) (use one many in auto)
qed

lemma pred_hit_map:
  "hit_map h s = Inr m \<Longrightarrow> (\<And>m'. s = Inr m' \<Longrightarrow> pred_state P m') \<Longrightarrow>
   (\<And>x am. P (x, am) \<Longrightarrow> Q (h x, am)) \<Longrightarrow> pred_state Q m"
  by (cases s) (auto simp: hit_map_def elim!: pred_state_bind)

lemma first_hit_edits:
  assumes "first_hit step r xs = Inr m"
    and "\<And>x r m. x \<in> set xs \<Longrightarrow> step x r = Inr m \<Longrightarrow> pred_state (\<lambda>y. R x (fst y) [snd y]) m"
    and "\<And>x. R x (snd x) []"
  shows "pred_state (\<lambda>r. \<exists>rs. list_all2 (\<lambda>x y. R x (fst y) (snd y)) xs rs \<and> fst r = map fst rs
    \<and> [snd r] = concat (map snd rs)) m"
  using assms(1,2)
proof (induction xs arbitrary: r m)
  case (Cons x xs)
  show ?case
  proof (cases "step x r")
    case (Inl r')
    let ?P = "\<lambda>r. \<exists>rs. list_all2 (\<lambda>x y. R x (fst y) (snd y)) xs rs \<and> fst r = map fst rs
      \<and> [snd r] = concat (map snd rs)"
    have "hit_map (\<lambda>cs. snd x # cs) (first_hit step r' xs) = Inr m" using Cons.prems(1) Inl by simp
    then show ?thesis
    proof (rule pred_hit_map [where P = ?P])
      show "pred_state ?P m'" if "first_hit step r' xs = Inr m'" for m'
        using Cons.IH [OF that] Cons.prems(2) by simp
      show "\<exists>rs. list_all2 (\<lambda>x y. R x (fst y) (snd y)) (x # xs) rs
          \<and> fst (snd x # cs, am) = map fst rs \<and> [snd (snd x # cs, am)] = concat (map snd rs)"
        if P: "?P (cs, am)" for cs am
      proof -
        obtain rs where "list_all2 (\<lambda>x y. R x (fst y) (snd y)) xs rs" "cs = map fst rs"
          "[am] = concat (map snd rs)" using P by auto
        then show ?thesis using assms(3) [of x] by (intro exI [of _ "(snd x, []) # rs"]) simp
      qed
    qed
  next
    case (Inr m')
    have "hit_map (\<lambda>g. g # map snd xs) (Inr m') = Inr m" using Cons.prems(1) Inr by simp
    then show ?thesis
    proof (rule pred_hit_map [where P = "\<lambda>y. R x (fst y) [snd y]"])
      show "pred_state (\<lambda>y. R x (fst y) [snd y]) m''" if "(Inr m' :: (_, frame) search) = Inr m''" for m''
        using that Cons.prems(2) [of x r m'] Inr by simp
      have refl: "list_all2 (\<lambda>x y. R x (fst y) (snd y)) xs (map (\<lambda>x. (snd x, [])) xs)"
        using assms(3) by (simp add: list_all2_conv_all_nth)
      show "\<exists>rs. list_all2 (\<lambda>x y. R x (fst y) (snd y)) (x # xs) rs
          \<and> fst (g # map snd xs, am) = map fst rs \<and> [snd (g # map snd xs, am)] = concat (map snd rs)"
        if "R x (fst (g, am)) [snd (g, am)]" for g am
        using that refl by (intro exI [of _ "(g, [am]) # map (\<lambda>x. (snd x, [])) xs"]) (simp add: comp_def)
    qed
  qed
qed simp

lemma mutate_selected_edits:
  "mutate_selected E c path depth r f = Inr m \<Longrightarrow> pred_state (\<lambda>r. edits c path f (fst r) [snd r]) m"
proof (induction f arbitrary: path depth r m rule: frame_induct)
  case (Frame f)
  show ?case
  proof (cases "eligible f c \<and> r < weight (cfg_depth c) depth")
    case True
    with Frame.prems have "m = do { (g, kind) \<leftarrow> mutate_one E c f; State_Monad.return (g, applied path kind) }"
      by (simp add: mutate_selected.simps [of E c path depth r f])
    with True mutate_one_edits show ?thesis by blast
  next
    case False
    let ?step = "\<lambda>(seg, child) r. mutate_selected E c (subpath path seg) (Suc depth) r child"
    from False Frame.prems have "hit_map (with_children f)
        (first_hit ?step (r - own_weight c depth f) (named_children f)) = Inr m"
      by (subst (asm) mutate_selected.simps) (simp only: if_False)
    then show ?thesis
    proof (rule pred_hit_map)
      fix m' assume "first_hit ?step (r - own_weight c depth f) (named_children f) = Inr m'"
      then show "pred_state (\<lambda>r. \<exists>rs. list_all2 (\<lambda>x y. edits c (subpath path (fst x)) (snd x) (fst y) (snd y))
          (named_children f) rs \<and> fst r = map fst rs \<and> [snd r] = concat (map snd rs)) m'"
        by (rule first_hit_edits) (use Frame.IH child_of_named edits_refl in \<open>auto split: prod.splits\<close>)
    next
      fix cs am assume "\<exists>rs. list_all2 (\<lambda>x y. edits c (subpath path (fst x)) (snd x) (fst y) (snd y))
          (named_children f) rs \<and> fst (cs, am) = map fst rs \<and> [snd (cs, am)] = concat (map snd rs)"
      then show "edits c path f (fst (with_children f cs, am)) [snd (with_children f cs, am)]"
        by (auto dest: edits.inside)
    qed
  qed
qed

section \<open>The frame that a weight offset selects\<close>

type_synonym visited = "frame \<times> string \<times> nat"

definition visited_weight :: "evil_config \<Rightarrow> visited \<Rightarrow> nat" where
  "visited_weight c v = (case v of (f, _, depth) \<Rightarrow> own_weight c depth f)"

definition cumulative :: "evil_config \<Rightarrow> visited list \<Rightarrow> nat" where
  "cumulative c vs = sum_list (map (visited_weight c) vs)"

lemma cumulative_simps [simp]:
  "cumulative c [] = 0"
  "cumulative c (v # vs) = visited_weight c v + cumulative c vs"
  "cumulative c (vs @ ws) = cumulative c vs + cumulative c ws"
  by (simp_all add: cumulative_def)

lemma eligible_weight_visit: "eligible_weight f c d = cumulative c (visit f path d)"
proof (induction f arbitrary: path d rule: frame_induct)
  case (Frame f)
  have "sum_list (map (\<lambda>child. eligible_weight child c (Suc d)) (map snd ncs))
      = cumulative c (concat (map (\<lambda>(seg, ch). visit ch (subpath path seg) (Suc d)) ncs))"
    if "set (map snd ncs) \<subseteq> set (children f)" for ncs
    using that
  proof (induction ncs)
    case (Cons nc ncs)
    then have "eligible_weight (snd nc) c (Suc d) = cumulative c (visit (snd nc) (subpath path (fst nc)) (Suc d))"
      by (intro Frame.IH) simp
    with Cons show ?case by (simp add: case_prod_beta)
  qed simp
  from this [of "named_children f"] show ?case
    by (simp add: map_snd_named_children visit.simps [of f] eligible_weight.simps [of f] visited_weight_def)
qed

fun locate :: "evil_config \<Rightarrow> nat \<Rightarrow> visited list \<Rightarrow> nat + string" where
  "locate c r [] = Inl r"
| "locate c r ((f, path, depth) # vs) =
     (if r < own_weight c depth f then Inr path else locate c (r - own_weight c depth f) vs)"

lemma locate_append:
  "locate c r (xs @ ys) = (case locate c r xs of Inl r' \<Rightarrow> locate c r' ys | Inr p \<Rightarrow> Inr p)"
  by (induction c r xs rule: locate.induct) auto

abbreviation reports :: "string \<Rightarrow> ('r, 'a \<times> applied_mutation) state \<Rightarrow> bool" where
  "reports path m \<equiv> pred_state (\<lambda>r. am_path (snd r) = path) m"

definition same_search :: "('r, 'a) search \<Rightarrow> nat + string \<Rightarrow> bool" where
  "same_search = rel_sum (=) (\<lambda>m p. reports p m)"

lemma same_search_simps [simp]:
  "same_search (Inl a) (Inl b) \<longleftrightarrow> a = b" "same_search (Inr m) (Inr p) \<longleftrightarrow> reports p m"
  "\<not> same_search (Inl a) (Inr p)" "\<not> same_search (Inr m) (Inl b)"
  by (simp_all add: same_search_def)

lemma same_search_hit_map: "same_search s t \<Longrightarrow> same_search (hit_map h s) t"
  by (cases s; cases t) (auto simp: hit_map_def elim!: pred_state_bind)

lemma first_hit_locate:
  assumes "\<And>x r. x \<in> set xs \<Longrightarrow> same_search (step x r) (locate c r (part x))"
  shows "same_search (first_hit step r xs) (locate c r (concat (map part xs)))"
  using assms
proof (induction xs arbitrary: r)
  case (Cons x xs)
  have x: "same_search (step x r) (locate c r (part x))" using Cons.prems by simp
  have rest: "same_search (first_hit step n xs) (locate c n (concat (map part xs)))" for n
    using Cons by simp
  show ?case
    using x rest
    by (cases "step x r"; cases "locate c r (part x)")
      (auto simp: locate_append intro!: same_search_hit_map)
qed simp

lemma mutate_selected_locate:
  "same_search (mutate_selected E c path d r f) (locate c r (visit f path d))"
proof (induction f arbitrary: path d r rule: frame_induct)
  case (Frame f)
  let ?step = "\<lambda>(seg, child) r. mutate_selected E c (subpath path seg) (Suc d) r child"
  let ?part = "\<lambda>(seg, child). visit child (subpath path seg) (Suc d)"
  have reports: "reports path (do { (g, kind) \<leftarrow> mutate_one E c f; State_Monad.return (g, applied path kind) })"
    by (rule pred_state_then) auto
  have rest: "same_search (hit_map (with_children f) (first_hit ?step n (named_children f)))
      (locate c n (concat (map ?part (named_children f))))" for n
    by (intro same_search_hit_map first_hit_locate)
      (use Frame.IH child_of_named in \<open>auto split: prod.splits\<close>)
  show ?case
    using reports rest
    by (auto simp: mutate_selected.simps [of E c path d r f] visit.simps [of f] own_weight_def)
qed

lemma locate_hits:
  "r < cumulative c vs \<Longrightarrow> \<exists>k < length vs. locate c r vs = Inr (fst (snd (vs ! k)))
     \<and> cumulative c (take k vs) \<le> r \<and> r < cumulative c (take (Suc k) vs)"
proof (induction c r vs rule: locate.induct)
  case (2 c r f path depth vs)
  show ?case
  proof (cases "r < own_weight c depth f")
    case True
    then show ?thesis by (intro exI [of _ 0]) (simp add: visited_weight_def)
  next
    case False
    then have "r - own_weight c depth f < cumulative c vs" using 2(2) by (auto simp: visited_weight_def)
    from 2(1) [OF False this] obtain k where "k < length vs"
      "locate c (r - own_weight c depth f) vs = Inr (fst (snd (vs ! k)))"
      "cumulative c (take k vs) \<le> r - own_weight c depth f"
      "r - own_weight c depth f < cumulative c (take (Suc k) vs)" by auto
    with False show ?thesis
      by (intro exI [of _ "Suc k"]) (auto simp: visited_weight_def)
  qed
qed simp

lemma locate_miss: "cumulative c vs \<le> r \<Longrightarrow> locate c r vs = Inl (r - cumulative c vs)"
  by (induction c r vs rule: locate.induct) (auto simp: visited_weight_def)

text \<open>C32: the single-mutation search is exact: every offset below the total weight reaches a
  frame, the one whose interval of cumulative weights in encoding order holds the offset, and that
  frame is the one the report names; so each eligible frame is hit in proportion to its weight.\<close>

theorem selection_is_proportional:
  assumes "r < eligible_weight f c 0"
  shows "\<exists>m k. mutate_selected E c ''root'' 0 r f = Inr m \<and> k < frame_count f
    \<and> cumulative c (take k (visit f ''root'' 0)) \<le> r
    \<and> r < cumulative c (take (Suc k) (visit f ''root'' 0))
    \<and> am_path (snd (fst (run_state m s))) = fst (snd (visit f ''root'' 0 ! k))"
proof -
  from assms have "r < cumulative c (visit f ''root'' 0)" by (simp add: eligible_weight_visit [of f c 0 "''root''"])
  from locate_hits [OF this] obtain k where k: "k < frame_count f"
    "locate c r (visit f ''root'' 0) = Inr (fst (snd (visit f ''root'' 0 ! k)))"
    "cumulative c (take k (visit f ''root'' 0)) \<le> r" "r < cumulative c (take (Suc k) (visit f ''root'' 0))"
    by (auto simp: length_visit)
  have "same_search (mutate_selected E c ''root'' 0 r f) (Inr (fst (snd (visit f ''root'' 0 ! k))))"
    using mutate_selected_locate [of E c "''root''" 0 r f] k(2) by simp
  then obtain m where m: "mutate_selected E c ''root'' 0 r f = Inr m"
    "reports (fst (snd (visit f ''root'' 0 ! k))) m"
    by (cases "mutate_selected E c ''root'' 0 r f") auto
  from pred_state_run_state [OF m(2)] have "am_path (snd (fst (run_state m s))) = fst (snd (visit f ''root'' 0 ! k))" .
  with m k show ?thesis by blast
qed

text \<open>The outer array and its null of the sample weigh one and two when every frame is eligible.\<close>

definition sample_replace :: evil_config where
  "sample_replace = config_default\<lparr>cfg_mode := ModeMutate, cfg_probability := hundred_percent,
     cfg_strategy := Replace, cfg_mutation_count := One, cfg_framing := FramingOff\<rparr>"

lemma sample_replace_weight: "eligible_weight sample_array sample_replace 0 = 3"
  by (simp add: sample_array_def sample_replace_def eligible_weight.simps [of "Array (Some [Null])"]
      eligible_weight.simps [of Null] own_weight_def eligible_def config_default_def)

lemma sample_array_count: "frame_count sample_array = 2"
  by (simp add: sample_array_def frame_count.simps [of "Array (Some [Null])"] frame_count.simps [of Null])

theorem selection_is_proportional_witness:
  "\<exists>m k. mutate_selected sample_externals sample_replace ''root'' 0 2 sample_array = Inr m \<and> k < 2
     \<and> am_path (snd (fst (run_state m 5))) = fst (snd (visit sample_array ''root'' 0 ! k))"
proof -
  have "(2 :: nat) < eligible_weight sample_array sample_replace 0" by (simp add: sample_replace_weight)
  from selection_is_proportional [OF this, of sample_externals 5] show ?thesis
    using sample_array_count by metis
qed

section \<open>The report of a reply\<close>

lemma mutate_value_edits:
  "pred_state (\<lambda>r. edits c ''root'' f (fst r) (snd r)
     \<and> (cfg_mutation_count c = One \<longrightarrow> length (snd r) \<le> 1)) (mutate_value E f c)"
proof (cases "cfg_mutation_count c")
  case One
  have hit: "pred_state (\<lambda>r. edits c ''root'' f (fst r) (snd r) \<and> length (snd r) \<le> 1)
      (case mutate_selected E c ''root'' 0 remaining f of
         Inl _ \<Rightarrow> State_Monad.return (f, [])
       | Inr m \<Rightarrow> do { (g, am) \<leftarrow> m; State_Monad.return (g, [am]) })" for remaining
  proof (cases "mutate_selected E c ''root'' 0 remaining f")
    case (Inr m)
    show ?thesis unfolding Inr sum.case
      by (rule pred_state_bind [OF mutate_selected_edits [OF Inr]]) auto
  qed (simp add: edits_refl)
  show ?thesis
    unfolding mutate_value_def One mutation_count.case
    by (intro pred_state_then) (use hit edits_refl in \<open>auto split: option.splits\<close>)
next
  case Many
  then show ?thesis by (simp add: mutate_value_def mutate_frame_edits)
qed

text \<open>A reply of the mutator: value edits, then perhaps a length fault on the edited frame.\<close>

definition mutated_from :: "evil_config \<Rightarrow> frame \<Rightarrow> frame \<Rightarrow> applied_mutation list \<Rightarrow> mutated_reply \<Rightarrow> bool" where
  "mutated_from c f g ms reply \<longleftrightarrow> edits c ''root'' f g ms
     \<and> (reply = \<lparr>reply_bytes = encode g, reply_mutations = ms\<rparr>
       \<or> (\<exists>faulted. length_fault c g faulted \<and> reply_bytes reply = reply_bytes faulted
            \<and> reply_mutations reply = ms @ reply_mutations faulted))"

lemma length_fault_reports: "length_fault c g faulted \<Longrightarrow> length (reply_mutations faulted) = 1"
  by (auto simp: length_fault_def length_reply_def)

lemma mutated_from_self: "length_fault c f reply \<Longrightarrow> mutated_from c f f [] reply"
  by (auto simp: mutated_from_def edits_refl)

lemma mutate_active:
  assumes "cfg_mode c = ModeMutate \<or> cfg_mode c = ModeOverflow" and "rng_ok E"
  shows "pred_state (\<lambda>reply. (\<exists>g ms. mutated_from c f g ms reply)
    \<and> (cfg_mutation_count c = One \<longrightarrow> length (reply_mutations reply) \<le> 1)) (mutate E f c)"
proof -
  let ?P = "\<lambda>reply. (\<exists>g ms. mutated_from c f g ms reply)
    \<and> (cfg_mutation_count c = One \<longrightarrow> length (reply_mutations reply) \<le> 1)"
  have first: "pred_state (\<lambda>r. \<forall>reply. r = Some reply \<longrightarrow> length_fault c f reply)
      (if cfg_mutation_count c = One \<and> is_length (cfg_framing c)
       then mutate_length E f c else State_Monad.return None)"
    using mutate_length_fault [OF assms(2)] by (intro pred_state_if) auto
  have last: "pred_state (\<lambda>r. \<forall>reply. r = Some reply \<longrightarrow> length_fault c g reply \<and> cfg_mutation_count c = Many)
      (if cfg_mutation_count c = Many then mutate_length E g c else State_Monad.return None)" for g
    using mutate_length_fault [OF assms(2)] by (intro pred_state_if) (auto elim: pred_state_weaken)
  have edited: "pred_state ?P (do {
      (g, ms) \<leftarrow> mutate_value E f c;
      final \<leftarrow> (if cfg_mutation_count c = Many then mutate_length E g c else State_Monad.return None);
      State_Monad.return (case final of
        Some reply \<Rightarrow> reply\<lparr>reply_mutations := ms @ reply_mutations reply\<rparr>
      | None \<Rightarrow> \<lparr>reply_bytes = encode g, reply_mutations = ms\<rparr>) })"
  proof (rule pred_state_bind [OF mutate_value_edits], clarify)
    fix g ms assume g: "edits c ''root'' f (fst (g, ms)) (snd (g, ms))"
      and one: "cfg_mutation_count c = One \<longrightarrow> length (snd (g, ms)) \<le> 1"
    have fin: "?P (case final of Some reply \<Rightarrow> reply\<lparr>reply_mutations := ms @ reply_mutations reply\<rparr>
        | None \<Rightarrow> \<lparr>reply_bytes = encode g, reply_mutations = ms\<rparr>)"
      if "\<forall>reply. final = Some reply \<longrightarrow> length_fault c g reply \<and> cfg_mutation_count c = Many" for final
    proof (cases final)
      case None
      then show ?thesis using g one by (auto simp: mutated_from_def)
    next
      case (Some reply)
      have "mutated_from c f g ms (reply\<lparr>reply_mutations := ms @ reply_mutations reply\<rparr>)"
        unfolding mutated_from_def
        by (intro conjI disjI2 exI [of _ reply]) (use g that Some in simp_all)
      then show ?thesis using Some that by auto
    qed
    show "pred_state ?P (do {
      final \<leftarrow> (if cfg_mutation_count c = Many then mutate_length E g c else State_Monad.return None);
      State_Monad.return (case final of
        Some reply \<Rightarrow> reply\<lparr>reply_mutations := ms @ reply_mutations reply\<rparr>
      | None \<Rightarrow> \<lparr>reply_bytes = encode g, reply_mutations = ms\<rparr>) })"
      by (rule pred_state_bind [OF last], subst pred_state_return) (rule fin)
  qed
  show ?thesis
    unfolding mutate_def
  proof (rule pred_state_if, use assms(1) in simp, rule pred_state_bind [OF first])
    fix framed assume framed: "\<forall>reply. framed = Some reply \<longrightarrow> length_fault c f reply"
    show "pred_state ?P (case framed of Some reply \<Rightarrow> State_Monad.return reply | None \<Rightarrow> do {
      (g, ms) \<leftarrow> mutate_value E f c;
      final \<leftarrow> (if cfg_mutation_count c = Many then mutate_length E g c else State_Monad.return None);
      State_Monad.return (case final of
        Some reply \<Rightarrow> reply\<lparr>reply_mutations := ms @ reply_mutations reply\<rparr>
      | None \<Rightarrow> \<lparr>reply_bytes = encode g, reply_mutations = ms\<rparr>) })"
    proof (cases framed)
      case None
      then show ?thesis using edited by (simp only: option.case)
    next
      case (Some reply)
      then have "length_fault c f reply" using framed by simp
      then have "?P reply" by (auto dest: mutated_from_self simp: length_fault_reports)
      then show ?thesis unfolding Some option.case pred_state_return .
    qed
  qed
qed

lemma mutate_off:
  "\<not> (cfg_mode c = ModeMutate \<or> cfg_mode c = ModeOverflow) \<Longrightarrow>
     mutate E f c = State_Monad.return \<lparr>reply_bytes = encode f, reply_mutations = []\<rparr>"
  by (simp add: mutate_def)

text \<open>C5: the mutation report is exact: the reply is the encoding of the upstream frame with
  exactly the reported frames replaced, each one eligible and by a different frame (of its own kind
  under \<open>PRESERVE\<close>), followed at most by one reported length fault; \<open>COUNT ONE\<close> reports at most one
  mutation; and outside the mutating modes the reply is the upstream encoding.\<close>

theorem mutation_report_is_exact:
  assumes "rng_ok E" and "run_state (mutate E f c) s = (reply, s')"
  shows "if cfg_mode c = ModeMutate \<or> cfg_mode c = ModeOverflow
    then (\<exists>g ms. mutated_from c f g ms reply)
      \<and> (cfg_mutation_count c = One \<longrightarrow> length (reply_mutations reply) \<le> 1)
    else reply = \<lparr>reply_bytes = encode f, reply_mutations = []\<rparr>"
proof (cases "cfg_mode c = ModeMutate \<or> cfg_mode c = ModeOverflow")
  case True
  then show ?thesis using pred_stateD [OF mutate_active [OF True assms(1)] assms(2)] by simp
next
  case False
  then show ?thesis using assms(2) by (simp add: mutate_off)
qed

theorem mutation_report_is_exact_witness:
  "(\<exists>g ms. mutated_from sample_replace sample_array g ms
      (fst (run_state (mutate sample_externals sample_array sample_replace) 3)))
    \<and> length (reply_mutations (fst (run_state (mutate sample_externals sample_array sample_replace) 3))) \<le> 1"
  using mutation_report_is_exact [where E = sample_externals and f = sample_array
      and c = sample_replace and s = 3, OF sample_rng_ok prod.collapse [symmetric]]
  by (simp add: sample_replace_def)

text \<open>A reply with no reported mutation is byte for byte the encoding of the upstream frame:
  nothing is ever changed silently.\<close>

lemma unreported_reply_is_untouched:
  assumes "rng_ok E" and "run_state (mutate E f c) s = (reply, s')" and "reply_mutations reply = []"
  shows "reply_bytes reply = encode f"
proof (cases "cfg_mode c = ModeMutate \<or> cfg_mode c = ModeOverflow")
  case True
  then obtain g ms where *: "mutated_from c f g ms reply"
    using pred_stateD [OF mutate_active [OF True assms(1)] assms(2)] by auto
  then have "ms = []" and enc: "reply_bytes reply = encode g"
    using assms(3) length_fault_reports by (fastforce simp: mutated_from_def)+
  then have "g = f" using * edits_empty_eq [of c "''root''" f g ms] by (simp add: mutated_from_def)
  with enc show ?thesis by simp
next
  case False
  then show ?thesis using assms(2) by (auto simp: mutate_off)
qed

section \<open>PRESERVE keeps the shape\<close>

text \<open>The same frame paths and depths, each frame of the same kind and with as many children.\<close>

definition same_node :: "visited \<Rightarrow> visited \<Rightarrow> bool" where
  "same_node v w \<longleftrightarrow> snd w = snd v
     \<and> (same_kind (fst v) (fst w)
       \<or> (\<exists>cs. length cs = length (children (fst v)) \<and> fst w = with_children (fst v) cs))"

lemma same_kind_leaf: "same_kind f g \<Longrightarrow> children f = [] \<Longrightarrow> named_children g = []"
proof -
  assume "same_kind f g" "children f = []"
  then have "children g = []" by (cases "(f, g)" rule: same_kind.cases) auto
  then show ?thesis by (metis length_0_conv length_named_children)
qed

lemma eligible_preserve_leaf: "changed c f g \<Longrightarrow> cfg_strategy c = Preserve \<Longrightarrow> children f = []"
  by (auto simp: changed_def eligible_def value_frame_def split: if_splits frame.splits option.splits)

lemma edits_shape:
  assumes "edits c path f g ms" and "cfg_strategy c = Preserve"
  shows "list_all2 same_node (visit f path d) (visit g path d)"
  using assms(1)
proof (induction arbitrary: d rule: edits.induct)
  case (here f g path)
  have leaf: "children f = []" by (rule eligible_preserve_leaf [OF here assms(2)])
  have kind: "same_kind f g" using here assms(2) by (simp add: changed_def)
  have "named_children f = []" using leaf by (metis length_0_conv length_named_children)
  with kind same_kind_leaf [OF kind leaf] show ?case
    by (simp add: visit.simps [of f] visit.simps [of g] same_node_def)
next
  case (inside path f rs)
  have len: "length (map fst rs) = length (children f)"
    using list_all2_lengthD [OF inside] by simp
  have each: "list_all2 (\<lambda>x y. list_all2 same_node (visit (snd x) (subpath path (fst x)) (Suc d))
      (visit (fst y) (subpath path (fst x)) (Suc d))) (named_children f) rs"
    using inside by (rule list_all2_mono) simp
  have join: "list_all2 same_node
      (concat (map (\<lambda>(seg, ch). visit ch (subpath path seg) (Suc d)) xs))
      (concat (map (\<lambda>(seg, ch). visit ch (subpath path seg) (Suc d)) (zip (map fst xs) (map fst ys))))"
    if "list_all2 (\<lambda>x y. list_all2 same_node (visit (snd x) (subpath path (fst x)) (Suc d))
      (visit (fst y) (subpath path (fst x)) (Suc d))) xs ys" for xs ys
    using that by (induction rule: list_all2_induct) (auto simp: case_prod_beta intro: list_all2_appendI)
  have root: "same_node (f, path, d) (with_children f (map fst rs), path, d)"
    unfolding same_node_def using len by (intro conjI disjI2 exI [of _ "map fst rs"]) simp_all
  show ?case
    using root join [OF each]
    by (simp add: visit.simps [of f] visit.simps [of "with_children f (map fst rs)"]
        named_with_children [OF len])
qed

lemma mutate_length_off:
  "cfg_framing c = FramingOff \<Longrightarrow> mutate_length E f c = State_Monad.return None"
  by (simp add: mutate_length_def)

text \<open>C19: without framing faults, \<open>STRATEGY PRESERVE\<close> keeps the shape of every reply: the result is
  a correctly framed reply with the same frame paths, every frame of the same kind and every
  collection of the same size; only scalar values differ.\<close>

theorem preserve_keeps_shape:
  assumes "cfg_strategy c = Preserve" and "cfg_framing c = FramingOff"
    and "run_state (mutate E f c) s = (reply, s')"
  shows "\<exists>g. reply_bytes reply = encode g \<and> list_all2 same_node (visit f ''root'' 0) (visit g ''root'' 0)"
proof -
  let ?P = "\<lambda>reply. \<exists>g. reply_bytes reply = encode g
    \<and> list_all2 same_node (visit f ''root'' 0) (visit g ''root'' 0)"
  have same: "list_all2 same_node (visit f ''root'' 0) (visit f ''root'' 0)"
    by (rule edits_shape [OF edits_refl assms(1)])
  have shape: "\<exists>g'. encode g = encode g' \<and> list_all2 same_node (visit f ''root'' 0) (visit g' ''root'' 0)"
    if "edits c ''root'' f g ms" for g ms
    using edits_shape [OF that assms(1)] by blast
  have edited: "pred_state ?P (do {
      (g, ms) \<leftarrow> mutate_value E f c;
      final \<leftarrow> State_Monad.return None;
      State_Monad.return (case final of
        Some reply \<Rightarrow> reply\<lparr>reply_mutations := ms @ reply_mutations reply\<rparr>
      | None \<Rightarrow> \<lparr>reply_bytes = encode g, reply_mutations = ms\<rparr>) })"
    by (rule pred_state_bind [OF mutate_value_edits]) (auto intro: shape)
  have off: "(if b then mutate_length E g c else State_Monad.return None) = State_Monad.return None" for b g
    by (simp add: mutate_length_off assms(2))
  have "pred_state ?P (mutate E f c)"
    using edited same by (auto simp: mutate_def is_length_def off assms(2))
  then show ?thesis by (rule pred_stateD) (rule assms(3))
qed

section \<open>ONE mutates when it is certain to\<close>

lemma select_weight_in_range:
  assumes "rng_ok E" and "0 < eligible_weight f c 0"
  shows "pred_state (\<lambda>r. \<exists>n. r = Some n \<and> n < eligible_weight f c 0) (select_weight E f c)"
  unfolding select_weight_def Let_def
  using assms by (auto intro!: pred_state_bind [OF draw_below [OF assms]])

text \<open>C22: at probability 100, \<open>COUNT ONE\<close> without a configured length fault mutates exactly one
  frame of every reply that has an eligible frame: the drawn offset always reaches a frame.\<close>

theorem one_mutation_at_certainty:
  assumes "rng_ok E" and "cfg_mode c = ModeMutate \<or> cfg_mode c = ModeOverflow"
    and "cfg_mutation_count c = One" and "\<not> is_length (cfg_framing c)"
    and "cfg_probability c = hundred_percent" and "0 < eligible_weight f c 0"
    and "run_state (mutate E f c) s = (reply, s')"
  shows "\<exists>am g. reply_mutations reply = [am] \<and> reply_bytes reply = encode g \<and> g \<noteq> f
    \<and> edits c ''root'' f g [am]"
proof -
  let ?Q = "\<lambda>r. \<exists>am. snd r = [am] \<and> edits c ''root'' f (fst r) [am]"
  let ?P = "\<lambda>reply. \<exists>am g. reply_mutations reply = [am] \<and> reply_bytes reply = encode g
    \<and> edits c ''root'' f g [am]"
  have hit: "pred_state ?Q (case mutate_selected E c ''root'' 0 n f of
         Inl _ \<Rightarrow> State_Monad.return (f, [])
       | Inr m \<Rightarrow> do { (g, am) \<leftarrow> m; State_Monad.return (g, [am]) })" if n: "n < eligible_weight f c 0" for n
  proof -
    have "n < cumulative c (visit f ''root'' 0)" using n eligible_weight_visit [of f c 0 "''root''"] by simp
    then obtain p where "locate c n (visit f ''root'' 0) = Inr p" using locate_hits by blast
    then have "same_search (mutate_selected E c ''root'' 0 n f) (Inr p)"
      using mutate_selected_locate [of E c "''root''" 0 n f] by simp
    then obtain m where m: "mutate_selected E c ''root'' 0 n f = Inr m"
      by (cases "mutate_selected E c ''root'' 0 n f") auto
    show ?thesis unfolding m sum.case
      by (rule pred_state_bind [OF mutate_selected_edits [OF m]]) auto
  qed
  have "pred_state ?Q (mutate_value E f c)"
    unfolding mutate_value_def assms(3,5) mutation_count.case
    by (rule pred_state_bind [OF should_apply_certain [OF assms(1)]], simp,
        rule pred_state_bind [OF select_weight_in_range [OF assms(1,6)]]) (use hit in auto)
  then have "pred_state ?P (mutate E f c)"
    unfolding mutate_def using assms(2-4)
    by (auto elim!: pred_state_bind simp del: split_paired_Ex)
  from pred_stateD [OF this assms(7)] obtain am g where *: "reply_mutations reply = [am]"
    "reply_bytes reply = encode g" "edits c ''root'' f g [am]" by blast
  moreover have "g \<noteq> f" using edits_empty_eq [OF *(3)] by simp
  ultimately show ?thesis by blast
qed

text \<open>The two sample settings at work.\<close>

theorem preserve_keeps_shape_witness:
  "\<exists>g. reply_bytes (fst (run_state (mutate sample_externals sample_frame
        (config_default\<lparr>cfg_mode := ModeMutate, cfg_framing := FramingOff\<rparr>)) 3)) = encode g
     \<and> list_all2 same_node (visit sample_frame ''root'' 0) (visit g ''root'' 0)"
  by (rule preserve_keeps_shape [OF _ _ prod.collapse [symmetric]]) (simp_all add: config_default_def)

theorem one_mutation_at_certainty_witness:
  "\<exists>am g. reply_mutations (fst (run_state (mutate sample_externals sample_array sample_replace) 3)) = [am]
     \<and> g \<noteq> sample_array \<and> edits sample_replace ''root'' sample_array g [am]"
proof -
  have "0 < eligible_weight sample_array sample_replace 0" by (simp add: sample_replace_weight)
  from one_mutation_at_certainty [OF sample_rng_ok _ _ _ _ this prod.collapse [symmetric], of 3]
  show ?thesis by (auto simp: sample_replace_def is_length_def)
qed

end
