(* ===== verification/Canonicalize.thy ===== *)
theory Canonicalize
  imports Mutation_Props Exec_Mutation "HOL-Library.Product_Lexorder" "HOL-Library.Multiset"
begin

text \<open>
  The reply pipeline of \<open>evil.rs\<close>: canonical forms of replies whose element order a server may
  choose, random replies, and the mutation of a command's reply. Rust's \<open>sort_by_key\<close> and
  \<open>sort_by\<close> are stable sorts, as is HOL's \<open>sort_key\<close>; \<open>Vec<u8>\<close> keys compare
  lexicographically, as do HOL strings under the byte order of their characters.
\<close>

section \<open>Sorting by encoding\<close>

definition frame_key :: "frame \<Rightarrow> bytes" where
  "frame_key f = encode f"

definition pair_key :: "frame \<times> frame \<Rightarrow> bytes \<times> bytes" where
  "pair_key kv = (frame_key (fst kv), frame_key (snd kv))"

section \<open>ALL: every container\<close>

fun canon_all :: "frame \<Rightarrow> frame" where
  "canon_all (Array (Some items)) = Array (Some (sort_key frame_key (map canon_all items)))"
| "canon_all (Set items) = Set (sort_key frame_key (map canon_all items))"
| "canon_all (Push items) = Push (sort_key frame_key (map canon_all items))"
| "canon_all (Map items) = Map (sort_key pair_key (map (\<lambda>(k, v). (canon_all k, canon_all v)) items))"
| "canon_all (Attribute items) =
     Attribute (sort_key pair_key (map (\<lambda>(k, v). (canon_all k, canon_all v)) items))"
| "canon_all f = f"

section \<open>UNORDERED: only what the protocol leaves unordered\<close>

fun canon_unordered :: "frame \<Rightarrow> frame" where
  "canon_unordered (Array (Some items)) = Array (Some (map canon_unordered items))"
| "canon_unordered (Push items) = Push (map canon_unordered items)"
| "canon_unordered (Map items) =
     Map (sort_key pair_key (map (\<lambda>(k, v). (canon_unordered k, canon_unordered v)) items))"
| "canon_unordered (Attribute items) =
     Attribute (sort_key pair_key (map (\<lambda>(k, v). (canon_unordered k, canon_unordered v)) items))"
| "canon_unordered (Set items) = Set (sort_key frame_key (map canon_unordered items))"
| "canon_unordered f = f"

fun canon_array_items :: "frame \<Rightarrow> frame" where
  "canon_array_items (Array (Some items)) =
     Array (Some (sort_key frame_key (map canon_unordered items)))"
| "canon_array_items f = f"

definition flatten_pairs :: "('a \<times> 'a) list \<Rightarrow> 'a list" where
  "flatten_pairs kvs = concat (map (\<lambda>(k, v). [k, v]) kvs)"

fun canon_array_pairs :: "frame \<Rightarrow> frame" where
  "canon_array_pairs (Array (Some items)) =
     (case chunks2 (map canon_unordered items) of (kvs, remainder) \<Rightarrow>
        Array (Some (flatten_pairs (sort_key pair_key kvs) @ remainder)))"
| "canon_array_pairs f = f"

definition UNORDERED_ARRAYS :: "string list" where
  "UNORDERED_ARRAYS = [''HKEYS'', ''HVALS'', ''SDIFF'', ''SINTER'', ''SMEMBERS'', ''SUNION'']"

definition canon_unordered_reply :: "string option \<Rightarrow> frame \<Rightarrow> frame" where
  "canon_unordered_reply command f =
     (let g = canon_unordered f in
      case command of
        None \<Rightarrow> g
      | Some c \<Rightarrow>
          if to_ascii_uppercase c = ''HGETALL'' then canon_array_pairs g
          else if to_ascii_uppercase c \<in> set UNORDERED_ARRAYS then canon_array_items g
          else g)"

section \<open>Canonical replies\<close>

fun canonicalize_reply :: "canonicalization_mode \<Rightarrow> string option \<Rightarrow> frame \<Rightarrow> frame" where
  "canonicalize_reply CanonAll command f = canon_all f"
| "canonicalize_reply CanonUnordered command f = canon_unordered_reply command f"
| "canonicalize_reply CanonNone command f = f"

text \<open>Items and commands are zipped; items beyond the last command stay as they are.\<close>

fun zip_canon :: "canonicalization_mode \<Rightarrow> frame list \<Rightarrow> string list \<Rightarrow> frame list" where
  "zip_canon mode (item # items) (c # cs) = canonicalize_reply mode (Some c) item # zip_canon mode items cs"
| "zip_canon mode items _ = items"

fun canonicalize_transaction_reply :: "canonicalization_mode \<Rightarrow> string list \<Rightarrow> frame \<Rightarrow> frame" where
  "canonicalize_transaction_reply mode commands (Array (Some items)) =
     Array (Some (zip_canon mode items commands))"
| "canonicalize_transaction_reply mode commands f = f"

section \<open>Replies of a command\<close>

definition random_reply :: "'r externals \<Rightarrow> evil_config \<Rightarrow> u64 \<Rightarrow> string \<Rightarrow> mutated_reply" where
  "random_reply E c command_index command_hash =
     (let f = fst (run_state (gen_frame E (cfg_generator c))
        (rng_for E (cfg_seed c) command_index command_hash []))
      in \<lparr>reply_bytes = encode f, reply_mutations = [applied ''root'' RandomFrame]\<rparr>)"

definition mutate_reply ::
  "'r externals \<Rightarrow> evil_config \<Rightarrow> u64 \<Rightarrow> string \<Rightarrow> string \<Rightarrow> frame \<Rightarrow> mutated_reply" where
  "mutate_reply E c command_index command_hash upstream_hash upstream =
     fst (run_state (mutate E upstream c)
       (rng_for E (cfg_seed c) command_index command_hash upstream_hash))"

definition mutate_command_reply ::
  "'r externals \<Rightarrow> evil_config \<Rightarrow> u64 \<Rightarrow> string option \<Rightarrow> string \<Rightarrow> string \<Rightarrow> frame \<Rightarrow> mutated_reply" where
  "mutate_command_reply E c command_index command command_hash upstream_hash upstream =
     (case (if (case command of Some name \<Rightarrow> eq_ignore_ascii_case name ''EXEC'' | None \<Rightarrow> False)
            then exec_mutate_reply E c command_index command_hash upstream_hash upstream
            else None) of
        Some reply \<Rightarrow> reply
      | None \<Rightarrow> mutate_reply E c command_index command_hash upstream_hash upstream)"

end
