(* ===== verification/Canonicalize_Props.thy ===== *)
theory Canonicalize_Props
  imports Canonicalize
begin

text \<open>
  What canonicalization guarantees: it is idempotent, it only reorders what the protocol leaves
  unordered, and replies that differ in nothing but that order get the same canonical encoding,
  so the seeds drawn from its hash do not depend on a server's iteration order.
\<close>

section \<open>Sorting by a key\<close>

lemma map_sort_key: "map f (sort_key f xs) = sort (map f xs)"
  by (rule sym, rule properties_for_sort) (simp_all add: mset_map)

lemma sort_key_idem [simp]: "sort_key f (sort_key f xs) = sort_key f xs"
  by (rule sort_key_id_if_sorted) simp

lemma map_sort_fixed:
  assumes "\<And>x. x \<in> set xs \<Longrightarrow> g (g x) = g x"
  shows "map g (sort_key f (map g xs)) = sort_key f (map g xs)"
  by (rule map_idI) (use assms in auto)

abbreviation both :: "(frame \<Rightarrow> frame) \<Rightarrow> frame \<times> frame \<Rightarrow> frame \<times> frame" where
  "both g \<equiv> \<lambda>(k, v). (g k, g v)"

lemma map_sort_both_fixed:
  assumes "\<And>k v. (k, v) \<in> set kvs \<Longrightarrow> g (g k) = g k \<and> g (g v) = g v"
  shows "map (both g) (sort_key f (map (both g) kvs)) = sort_key f (map (both g) kvs)"
  by (rule map_idI) (use assms in auto)

section \<open>Idempotence\<close>

lemma canon_all_idem: "canon_all (canon_all f) = canon_all f"
proof (induction f rule: canon_all.induct)
  case (4 items)
  then have "map (both canon_all) (sort_key pair_key (map (both canon_all) items))
      = sort_key pair_key (map (both canon_all) items)" by (intro map_sort_both_fixed) blast
  then show ?case by simp
next
  case (5 items)
  then have "map (both canon_all) (sort_key pair_key (map (both canon_all) items))
      = sort_key pair_key (map (both canon_all) items)" by (intro map_sort_both_fixed) blast
  then show ?case by simp
qed (simp_all add: map_sort_fixed)

lemma canon_unordered_idem: "canon_unordered (canon_unordered f) = canon_unordered f"
proof (induction f rule: canon_unordered.induct)
  case (3 items)
  then have "map (both canon_unordered) (sort_key pair_key (map (both canon_unordered) items))
      = sort_key pair_key (map (both canon_unordered) items)" by (intro map_sort_both_fixed) blast
  then show ?case by simp
next
  case (4 items)
  then have "map (both canon_unordered) (sort_key pair_key (map (both canon_unordered) items))
      = sort_key pair_key (map (both canon_unordered) items)" by (intro map_sort_both_fixed) blast
  then show ?case by simp
qed (simp_all add: map_sort_fixed)

lemma flatten_pairs_simps [simp]:
  "flatten_pairs [] = []" "flatten_pairs ((k, v) # kvs) = k # v # flatten_pairs kvs"
  by (simp_all add: flatten_pairs_def)

lemma chunk_flatten: "length r < 2 \<Longrightarrow> chunks2 (flatten_pairs kvs @ r) = (kvs, r)"
proof (induction kvs)
  case Nil
  then show ?case by (cases r rule: chunks2.cases) auto
qed auto

lemma flatten_chunk: "flatten_pairs (fst (chunks2 xs)) @ snd (chunks2 xs) = xs"
  unfolding flatten_pairs_def by (rule chunks2_concat)

lemma set_flatten: "set (flatten_pairs kvs) = fst ` set kvs \<union> snd ` set kvs"
  by (induction kvs) force+

lemma sort_pairs_members:
  "set (flatten_pairs (sort_key k (fst (chunks2 xs))) @ snd (chunks2 xs)) = set xs"
  using arg_cong [OF flatten_chunk [of xs], of set] by (simp add: set_flatten)

lemma canon_array_pairs_fixed:
  assumes "canon_unordered f = f"
  shows "canon_unordered (canon_array_pairs f) = canon_array_pairs f"
    and "canon_array_pairs (canon_array_pairs f) = canon_array_pairs f"
proof -
  show "canon_unordered (canon_array_pairs f) = canon_array_pairs f"
  proof (cases f rule: canon_array_pairs.cases)
    case (1 items)
    then have fixed: "map canon_unordered items = items" using assms by simp
    have "map canon_unordered (flatten_pairs (sort_key pair_key (fst (chunks2 items))) @ snd (chunks2 items))
        = flatten_pairs (sort_key pair_key (fst (chunks2 items))) @ snd (chunks2 items)"
    proof (rule map_idI)
      fix x assume "x \<in> set (flatten_pairs (sort_key pair_key (fst (chunks2 items))) @ snd (chunks2 items))"
      then have "x \<in> set items" by (simp only: sort_pairs_members)
      then show "canon_unordered x = x" using fixed by (metis map_eq_conv map_ident)
    qed
    then show ?thesis using 1 fixed by (simp add: case_prod_beta)
  qed (use assms in simp_all)
  then show "canon_array_pairs (canon_array_pairs f) = canon_array_pairs f"
  proof (cases f rule: canon_array_pairs.cases)
    case (1 items)
    then have fixed: "map canon_unordered items = items" using assms by simp
    moreover assume "canon_unordered (canon_array_pairs f) = canon_array_pairs f"
    ultimately show ?thesis using 1
      by (simp add: case_prod_beta chunk_flatten length_snd_chunks2)
  qed simp_all
qed

lemma canon_array_items_fixed:
  assumes "canon_unordered f = f"
  shows "canon_unordered (canon_array_items f) = canon_array_items f"
    and "canon_array_items (canon_array_items f) = canon_array_items f"
proof -
  have sorted: "map canon_unordered (sort_key frame_key items) = sort_key frame_key items"
    if "map canon_unordered items = items" for items
    by (rule map_idI) (use that in \<open>metis map_eq_conv map_ident set_sort\<close>)
  show "canon_unordered (canon_array_items f) = canon_array_items f"
    "canon_array_items (canon_array_items f) = canon_array_items f"
    using assms sorted by (cases f rule: canon_array_items.cases; simp)+
qed

lemma canonicalize_idem:
  "canonicalize_reply m c (canonicalize_reply m c f) = canonicalize_reply m c f"
proof (cases m)
  case CanonUnordered
  have "canon_unordered_reply c (canon_unordered_reply c f) = canon_unordered_reply c f"
    using canon_array_pairs_fixed [OF canon_unordered_idem [of f]]
      canon_array_items_fixed [OF canon_unordered_idem [of f]]
    by (cases c) (simp_all add: canon_unordered_reply_def Let_def canon_unordered_idem)
  then show ?thesis by (simp add: CanonUnordered)
qed (simp_all add: canon_all_idem)

section \<open>Replies up to order\<close>

text \<open>\<open>reorder f g\<close>: \<open>g\<close> is \<open>f\<close> with the elements of sets and the entries of maps and
  attributes, at any depth, in another order.\<close>

abbreviation on_both :: "(frame \<Rightarrow> frame \<Rightarrow> bool) \<Rightarrow> frame \<times> frame \<Rightarrow> frame \<times> frame \<Rightarrow> bool" where
  "on_both R \<equiv> \<lambda>p q. R (fst p) (fst q) \<and> R (snd p) (snd q)"

inductive reorder :: "frame \<Rightarrow> frame \<Rightarrow> bool" where
  leaf: "children f = [] \<Longrightarrow> reorder f f"
| array: "list_all2 reorder xs ys \<Longrightarrow> reorder (Array (Some xs)) (Array (Some ys))"
| push: "list_all2 reorder xs ys \<Longrightarrow> reorder (Push xs) (Push ys)"
| set_order: "list_all2 reorder xs ys \<Longrightarrow> mset zs = mset ys \<Longrightarrow> reorder (Set xs) (Set zs)"
| map_order: "list_all2 (\<lambda>p q. reorder (fst p) (fst q) \<and> reorder (snd p) (snd q)) xs ys
    \<Longrightarrow> mset zs = mset ys \<Longrightarrow> reorder (Map xs) (Map zs)"
| attribute_order: "list_all2 (\<lambda>p q. reorder (fst p) (fst q) \<and> reorder (snd p) (snd q)) xs ys
    \<Longrightarrow> mset zs = mset ys \<Longrightarrow> reorder (Attribute xs) (Attribute zs)"

text \<open>A whole reply: a command may also leave the order of its top-level array open.\<close>

definition reordered_reply :: "string option \<Rightarrow> frame \<Rightarrow> frame \<Rightarrow> bool" where
  "reordered_reply c f g \<longleftrightarrow> reorder f g
     \<or> (\<exists>name. c = Some name \<and> to_ascii_uppercase name \<in> set UNORDERED_ARRAYS
         \<and> (\<exists>xs ys zs. f = Array (Some xs) \<and> g = Array (Some zs) \<and> list_all2 reorder xs ys \<and> mset zs = mset ys))
     \<or> (\<exists>name. c = Some name \<and> to_ascii_uppercase name = ''HGETALL''
         \<and> (\<exists>xs r ys s zs. f = Array (Some (flatten_pairs xs @ r)) \<and> g = Array (Some (flatten_pairs zs @ s))
           \<and> length r < 2 \<and> list_all2 (on_both reorder) xs ys \<and> mset zs = mset ys \<and> list_all2 reorder r s))"

section \<open>Canonicalizing only reorders\<close>

lemma list_all2_map_self: "(\<And>x. x \<in> set xs \<Longrightarrow> R x (g x)) \<Longrightarrow> list_all2 R xs (map g xs)"
  by (simp add: list_all2_conv_all_nth)

lemma reorder_canon: "reorder f (canon_unordered f)"
proof (induction f rule: canon_unordered.induct)
  case (3 items)
  then have "list_all2 (on_both reorder) items (map (both canon_unordered) items)"
    by (intro list_all2_map_self) auto
  then show ?case by (auto intro: reorder.map_order)
next
  case (4 items)
  then have "list_all2 (on_both reorder) items (map (both canon_unordered) items)"
    by (intro list_all2_map_self) auto
  then show ?case by (auto intro: reorder.attribute_order)
next
  case (5 items)
  then have "list_all2 reorder items (map canon_unordered items)" by (intro list_all2_map_self) auto
  then show ?case by (auto intro: reorder.set_order)
qed (auto intro: reorder.intros list_all2_map_self)

lemma chunk_map: "chunks2 (map g xs) = (map (\<lambda>(k, v). (g k, g v)) (fst (chunks2 xs)), map g (snd (chunks2 xs)))"
  by (induction xs rule: chunks2.induct) auto

lemma reordered_canonical: "reordered_reply c f (canonicalize_reply CanonUnordered c f)"
proof (cases c)
  case None
  then show ?thesis by (simp add: reordered_reply_def canon_unordered_reply_def reorder_canon)
next
  case (Some name)
  consider (pairs) items where "to_ascii_uppercase name = ''HGETALL''" "f = Array (Some items)"
    | (items) items where "to_ascii_uppercase name \<noteq> ''HGETALL''"
        "to_ascii_uppercase name \<in> set UNORDERED_ARRAYS" "f = Array (Some items)"
    | (plain) "canonicalize_reply CanonUnordered c f = canon_unordered f"
  proof (cases "\<exists>items. f = Array (Some items)")
    case True
    then obtain items where items: "f = Array (Some items)" by blast
    show ?thesis
    proof (cases "to_ascii_uppercase name = ''HGETALL''")
      case True
      from that(1) [OF True items] show ?thesis .
    next
      case False
      note not_pairs = this
      show ?thesis
      proof (cases "to_ascii_uppercase name \<in> set UNORDERED_ARRAYS")
        case True
        from that(2) [OF not_pairs True items] show ?thesis .
      next
        case False
        then have "canonicalize_reply CanonUnordered c f = canon_unordered f"
          using not_pairs Some by (simp add: canon_unordered_reply_def Let_def)
        then show ?thesis by (rule that(3))
      qed
    qed
  next
    case False
    then have "\<not> (\<exists>items. canon_unordered f = Array (Some items))"
      by (cases f rule: canon_unordered.cases) auto
    then have "canon_array_pairs (canon_unordered f) = canon_unordered f"
      "canon_array_items (canon_unordered f) = canon_unordered f"
      by (cases "canon_unordered f" rule: canon_array_items.cases; simp)+
    then show ?thesis using that Some by (simp add: canon_unordered_reply_def Let_def)
  qed
  then show ?thesis
  proof cases
    case pairs
    let ?kvs = "fst (chunks2 items)" and ?r = "snd (chunks2 items)"
    have kvs: "list_all2 (on_both reorder) ?kvs (map (both canon_unordered) ?kvs)"
      by (intro list_all2_map_self) (auto simp: reorder_canon)
    have r: "list_all2 reorder ?r (map canon_unordered ?r)"
      by (intro list_all2_map_self) (rule reorder_canon)
    have "canonicalize_reply CanonUnordered c f = Array (Some (flatten_pairs
        (sort_key pair_key (map (both canon_unordered) ?kvs)) @ map canon_unordered ?r))"
      using pairs Some canon_unordered_idem
      by (simp add: canon_unordered_reply_def case_prod_beta chunk_map comp_def)
    moreover have "f = Array (Some (flatten_pairs ?kvs @ ?r))" using pairs by (simp add: flatten_chunk)
    ultimately show ?thesis
      unfolding reordered_reply_def using pairs(1) Some kvs r length_snd_chunks2 [of items]
      by (intro disjI2 exI [of _ name] conjI exI [of _ ?kvs] exI [of _ ?r]
          exI [of _ "map (both canon_unordered) ?kvs"] exI [of _ "map canon_unordered ?r"]
          exI [of _ "sort_key pair_key (map (both canon_unordered) ?kvs)"]) simp_all
  next
    case items
    have "list_all2 reorder items (map canon_unordered items)"
      by (intro list_all2_map_self) (rule reorder_canon)
    moreover have "canonicalize_reply CanonUnordered c f
        = Array (Some (sort_key frame_key (map canon_unordered items)))"
      using items Some canon_unordered_idem
      by (simp add: canon_unordered_reply_def comp_def)
    ultimately show ?thesis
      unfolding reordered_reply_def using items(2,3) Some
      by (intro disjI2 disjI1 exI [of _ name] conjI exI [of _ items]
          exI [of _ "map canon_unordered items"]
          exI [of _ "sort_key frame_key (map canon_unordered items)"]) simp_all
  next
    case plain
    then show ?thesis by (simp add: reordered_reply_def reorder_canon del: canonicalize_reply.simps)
  qed
qed

section \<open>The canonical encoding absorbs the order\<close>

abbreviation same_canon :: "frame \<Rightarrow> frame \<Rightarrow> bool" where
  "same_canon f g \<equiv> encode (canon_unordered f) = encode (canon_unordered g)"

lemma encode_all_map: "encode_all xs = concat (map encode xs)"
  by (simp add: encode_all_def)

lemma encode_all_pairs: "encode_all (flatten_pairs kvs) = concat (map (\<lambda>(a, b). a @ b) (map pair_key kvs))"
  by (induction kvs) (auto simp: pair_key_def frame_key_def)

lemma encode_sorted:
  assumes "mset (map encode xs) = mset (map encode ys)"
  shows "encode_all (sort_key frame_key xs) = encode_all (sort_key frame_key ys)"
proof -
  have "sort (map encode xs) = sort (map encode ys)"
    by (rule properties_for_sort) (use assms [symmetric] in simp_all)
  then show ?thesis
    using map_sort_key [of encode] by (simp add: encode_all_map frame_key_def [abs_def])
qed

lemma encode_sorted_pairs:
  assumes "mset (map pair_key xs) = mset (map pair_key ys)"
  shows "encode_all (flatten_pairs (sort_key pair_key xs)) = encode_all (flatten_pairs (sort_key pair_key ys))"
proof -
  have "sort (map pair_key xs) = sort (map pair_key ys)"
    by (rule properties_for_sort) (use assms [symmetric] in simp_all)
  then show ?thesis by (simp only: encode_all_pairs map_sort_key)
qed

lemma same_all: "list_all2 same_canon xs ys \<Longrightarrow>
   map encode (map canon_unordered xs) = map encode (map canon_unordered ys)"
  by (induction rule: list_all2_induct) simp_all

lemma same_pairs: "list_all2 (on_both same_canon) xs ys \<Longrightarrow>
   map pair_key (map (both canon_unordered) xs) = map pair_key (map (both canon_unordered) ys)"
  by (induction rule: list_all2_induct) (simp_all add: case_prod_beta pair_key_def frame_key_def)

lemma same_reordered:
  assumes "list_all2 same_canon xs ys" and "mset zs = mset ys"
  shows "mset (map encode (map canon_unordered xs)) = mset (map encode (map canon_unordered zs))"
  unfolding same_all [OF assms(1)] by (simp only: mset_map assms(2))

lemma same_reordered_pairs:
  assumes "list_all2 (on_both same_canon) xs ys" and "mset zs = mset ys"
  shows "mset (map pair_key (map (both canon_unordered) xs)) = mset (map pair_key (map (both canon_unordered) zs))"
  unfolding same_pairs [OF assms(1)] by (simp only: mset_map assms(2))

lemma encode_pairs:
  "encode (Map kvs) = push_line CHR ''%'' (show_nat (length kvs)) @ encode_all (flatten_pairs kvs)"
  "encode (Attribute kvs) = push_line CHR ''|'' (show_nat (length kvs)) @ encode_all (flatten_pairs kvs)"
  by (simp_all add: encode_aggregates flatten_pairs_def)

lemma reorder_same: "reorder f g \<Longrightarrow> same_canon f g"
proof (induction rule: reorder.induct)
  case (array xs ys)
  from array have "list_all2 same_canon xs ys" by (rule list_all2_mono) simp
  from same_all [OF this] list_all2_lengthD [OF this] show ?case
    by (simp add: encode_aggregates encode_all_map comp_def)
next
  case (push xs ys)
  from push have "list_all2 same_canon xs ys" by (rule list_all2_mono) simp
  from same_all [OF this] list_all2_lengthD [OF this] show ?case
    by (simp add: encode_aggregates encode_all_map comp_def)
next
  case (set_order xs ys zs)
  from set_order(1) have *: "list_all2 same_canon xs ys" by (rule list_all2_mono) simp
  have "length xs = length zs" using list_all2_lengthD [OF *] arg_cong [OF set_order(2), of size] by simp
  with encode_sorted [OF same_reordered [OF * set_order(2)]] show ?case
    by (simp add: encode_aggregates)
next
  case (map_order xs ys zs)
  from map_order(1) have *: "list_all2 (on_both same_canon) xs ys" by (rule list_all2_mono) simp
  have "length xs = length zs" using list_all2_lengthD [OF *] arg_cong [OF map_order(2), of size] by simp
  with encode_sorted_pairs [OF same_reordered_pairs [OF * map_order(2)]] show ?case
    by (simp add: encode_pairs)
next
  case (attribute_order xs ys zs)
  from attribute_order(1) have *: "list_all2 (on_both same_canon) xs ys" by (rule list_all2_mono) simp
  have "length xs = length zs" using list_all2_lengthD [OF *] arg_cong [OF attribute_order(2), of size] by simp
  with encode_sorted_pairs [OF same_reordered_pairs [OF * attribute_order(2)]] show ?case
    by (simp add: encode_pairs)
qed simp

lemma reorder_all2: "list_all2 reorder xs ys \<Longrightarrow> list_all2 same_canon xs ys"
  by (erule list_all2_mono) (rule reorder_same)

lemma reorder_pairs2: "list_all2 (on_both reorder) xs ys \<Longrightarrow> list_all2 (on_both same_canon) xs ys"
  by (erule list_all2_mono) (auto intro: reorder_same)

lemma canonical_unordered_array:
  "to_ascii_uppercase name \<in> set UNORDERED_ARRAYS \<Longrightarrow>
     canon_unordered_reply (Some name) (Array (Some xs))
       = Array (Some (sort_key frame_key (map canon_unordered xs)))"
  using canon_unordered_idem by (auto simp: canon_unordered_reply_def UNORDERED_ARRAYS_def Let_def comp_def)

lemma map_flatten: "map g (flatten_pairs kvs) = flatten_pairs (map (both g) kvs)"
  by (induction kvs) auto

lemma canonical_pairs:
  "to_ascii_uppercase name = ''HGETALL'' \<Longrightarrow> length r < 2 \<Longrightarrow>
     canon_unordered_reply (Some name) (Array (Some (flatten_pairs kvs @ r)))
       = Array (Some (flatten_pairs (sort_key pair_key (map (both canon_unordered) kvs)) @ map canon_unordered r))"
  using canon_unordered_idem
  by (simp add: canon_unordered_reply_def Let_def map_flatten chunk_flatten comp_def case_prod_unfold)

lemma chunk_all2:
  "list_all2 R xs ys \<Longrightarrow> list_all2 (\<lambda>p q. R (fst p) (fst q) \<and> R (snd p) (snd q))
     (fst (chunks2 xs)) (fst (chunks2 ys)) \<and> list_all2 R (snd (chunks2 xs)) (snd (chunks2 ys))"
proof (induction xs arbitrary: ys rule: chunks2.induct)
  case (1 k v rest)
  then obtain k' v' rest' where "ys = k' # v' # rest'" "R k k'" "R v v'" "list_all2 R rest rest'"
    by (auto simp: list_all2_Cons1)
  with 1 show ?case by simp
qed (auto simp: list_all2_Cons1)

lemma not_array_plain:
  "(\<And>items. f \<noteq> Array (Some items)) \<Longrightarrow> canonicalize_reply CanonUnordered c f = canon_unordered f"
proof -
  assume "\<And>items. f \<noteq> Array (Some items)"
  then have "canon_array_pairs (canon_unordered f) = canon_unordered f"
    "canon_array_items (canon_unordered f) = canon_unordered f"
    by (cases f rule: canon_unordered.cases; simp)+
  then show ?thesis by (cases c) (simp_all add: canon_unordered_reply_def Let_def)
qed

lemma reorder_array: "reorder f g \<Longrightarrow> f = Array (Some xs) \<Longrightarrow> \<exists>ys. g = Array (Some ys) \<and> list_all2 reorder xs ys"
  by (induction rule: reorder.induct) (auto elim: list_all2_mono)

lemma reorder_not_array: "reorder f g \<Longrightarrow> (\<And>xs. f \<noteq> Array (Some xs)) \<Longrightarrow> g \<noteq> Array (Some ys)"
  by (induction rule: reorder.induct) auto

lemma pairs_same:
  assumes "to_ascii_uppercase name = ''HGETALL''" "length r < 2" "list_all2 (on_both reorder) xs ys"
    "mset zs = mset ys" "list_all2 reorder r s"
  shows "encode (canon_unordered_reply (Some name) (Array (Some (flatten_pairs xs @ r))))
    = encode (canon_unordered_reply (Some name) (Array (Some (flatten_pairs zs @ s))))"
proof -
  have s: "length s < 2" using assms(2) list_all2_lengthD [OF assms(5)] by simp
  have len: "length xs = length zs"
    using list_all2_lengthD [OF assms(3)] arg_cong [OF assms(4), of size] by simp
  have flat: "length (flatten_pairs kvs) = 2 * length kvs" for kvs :: "(frame \<times> frame) list"
    by (induction kvs) auto
  note kvs = encode_sorted_pairs [OF same_reordered_pairs [OF reorder_pairs2 [OF assms(3)] assms(4)]]
  note rest = same_all [OF reorder_all2 [OF assms(5)]]
  have "encode_all (map canon_unordered r) = encode_all (map canon_unordered s)"
    unfolding encode_all_map rest ..
  with kvs show ?thesis
    using len list_all2_lengthD [OF assms(5)]
    by (simp add: canonical_pairs [OF assms(1,2)] canonical_pairs [OF assms(1) s] encode_aggregates flat)
qed

lemma items_same:
  assumes "to_ascii_uppercase name \<in> set UNORDERED_ARRAYS" "list_all2 reorder xs ys" "mset zs = mset ys"
  shows "encode (canon_unordered_reply (Some name) (Array (Some xs)))
    = encode (canon_unordered_reply (Some name) (Array (Some zs)))"
proof -
  have "length xs = length zs"
    using list_all2_lengthD [OF assms(2)] arg_cong [OF assms(3), of size] by simp
  with encode_sorted [OF same_reordered [OF reorder_all2 [OF assms(2)] assms(3)]] show ?thesis
    by (simp add: canonical_unordered_array [OF assms(1)] encode_aggregates)
qed

lemma reordered_same:
  assumes "reordered_reply c f g"
  shows "encode (canonicalize_reply CanonUnordered c f) = encode (canonicalize_reply CanonUnordered c g)"
proof -
  consider (order) "reorder f g"
    | (items) name xs ys zs where "c = Some name" "to_ascii_uppercase name \<in> set UNORDERED_ARRAYS"
        "f = Array (Some xs)" "g = Array (Some zs)" "list_all2 reorder xs ys" "mset zs = mset ys"
    | (pairs) name xs r ys s zs where "c = Some name" "to_ascii_uppercase name = ''HGETALL''"
        "f = Array (Some (flatten_pairs xs @ r))" "g = Array (Some (flatten_pairs zs @ s))" "length r < 2"
        "list_all2 (on_both reorder) xs ys" "mset zs = mset ys" "list_all2 reorder r s"
    using assms unfolding reordered_reply_def by blast
  then show ?thesis
  proof cases
    case order
    show ?thesis
    proof (cases "\<exists>xs. f = Array (Some xs)")
      case True
      then obtain xs ys where f: "f = Array (Some xs)" and g: "g = Array (Some ys)" and all: "list_all2 reorder xs ys"
        using reorder_array [OF order] by blast
      consider name where "c = Some name" "to_ascii_uppercase name = ''HGETALL''"
        | name where "c = Some name" "to_ascii_uppercase name \<in> set UNORDERED_ARRAYS"
        | "\<forall>name. c = Some name \<longrightarrow> to_ascii_uppercase name \<noteq> ''HGETALL''
            \<and> to_ascii_uppercase name \<notin> set UNORDERED_ARRAYS" by blast
      then show ?thesis
      proof cases
        case 1
        note kvs = chunk_all2 [OF all, THEN conjunct1] and rest = chunk_all2 [OF all, THEN conjunct2]
        show ?thesis
          using pairs_same [OF 1(2) length_snd_chunks2 [of xs] kvs refl rest] f g 1(1)
          by (simp add: flatten_chunk)
      next
        case 2
        then show ?thesis using items_same [OF 2(2) all refl] f g by simp
      next
        case 3
        then show ?thesis using reorder_same [OF order]
          by (cases c) (simp_all add: canon_unordered_reply_def Let_def)
      qed
    next
      case False
      then show ?thesis
        using not_array_plain [of f c] not_array_plain [of g c] reorder_not_array [OF order] reorder_same [OF order]
        by metis
    qed
  next
    case items
    then show ?thesis using items_same [OF items(2,5,6)] by simp
  next
    case pairs
    then show ?thesis using pairs_same [OF pairs(2,5,6,7,8)] by simp
  qed
qed

section \<open>Properties\<close>

text \<open>Canonicalization is idempotent in every mode: a canonical reply is its own canonical form.\<close>

lemma canonicalization_idempotent:
  "canonicalize_reply m c (canonicalize_reply m c f) = canonicalize_reply m c f"
  by (rule canonicalize_idem)

text \<open>C18: canonicalization in UNORDERED mode only reorders: the canonical reply is the original with
  the elements of sets and the entries of maps (and of the arrays that SMEMBERS, HGETALL and the like
  return) in another order, nothing added, lost or changed; and two replies that differ only in such
  an order have the same canonical encoding, so the hash that seeds every fault is the same.\<close>

theorem canonical_form_absorbs_order:
  "reordered_reply c f (canonicalize_reply CanonUnordered c f)
   \<and> (reordered_reply c f g \<longrightarrow>
      encode (canonicalize_reply CanonUnordered c f) = encode (canonicalize_reply CanonUnordered c g))"
  using reordered_canonical reordered_same by blast

theorem canonical_form_absorbs_order_witness:
  "encode (canonicalize_reply CanonUnordered (Some ''smembers'') (Array (Some [Null, Boolean True])))
    = encode (canonicalize_reply CanonUnordered (Some ''smembers'') (Array (Some [Boolean True, Null])))"
proof -
  have "reordered_reply (Some ''smembers'') (Array (Some [Null, Boolean True])) (Array (Some [Boolean True, Null]))"
    unfolding reordered_reply_def
  proof (rule disjI2, rule disjI1, intro exI conjI)
    show "Some ''smembers'' = Some ''smembers''" ..
    have "to_ascii_uppercase ''smembers'' = ''SMEMBERS''"
      by (simp add: ascii_defs to_ascii_uppercase_def)
    then show "to_ascii_uppercase ''smembers'' \<in> set UNORDERED_ARRAYS" by (simp add: UNORDERED_ARRAYS_def)
    show "list_all2 reorder [Null, Boolean True] [Null, Boolean True]" by (simp add: reorder.leaf)
    show "mset [Boolean True, Null] = mset [Null, Boolean True]" by simp
  qed (rule refl)+
  with canonical_form_absorbs_order show ?thesis by blast
qed

end
