(* ===== verification/Float_Print.thy ===== *)
theory Float_Print
  imports Float64
begin

text \<open>
  Rounding and printing of \<open>f64\<close>: rounding stays close to a value and is idempotent, and the
  decimal printed for a positive value reads back as that value, so a setting that the program
  passes on as text arrives as it was.
\<close>

section \<open>Rounding stays close\<close>

text \<open>A crude bound is enough here: rounding a value never more than doubles it.\<close>

lemma ilog2_bounds: "0 < n \<Longrightarrow> 0 \<le> ilog2 n \<and> 2 ^ nat (ilog2 n) \<le> n \<and> n < 2 * 2 ^ nat (ilog2 n)"
proof (induction n rule: ilog2.induct)
  case (1 n)
  show ?case
  proof (cases "n \<le> 1")
    case True
    then show ?thesis using 1 by (simp add: ilog2.simps [of n])
  next
    case False
    then have IH: "0 \<le> ilog2 (n div 2)" "2 ^ nat (ilog2 (n div 2)) \<le> n div 2"
        "n div 2 < 2 * 2 ^ nat (ilog2 (n div 2))" using 1 by auto
    then have step: "nat (ilog2 n) = Suc (nat (ilog2 (n div 2)))"
      using False by (simp add: ilog2.simps [of n] Suc_nat_eq_nat_zadd1)
    define p where "p = (2 :: nat) ^ nat (ilog2 (n div 2))"
    have "2 * p \<le> n" "n < 4 * p" using IH unfolding p_def [symmetric] by linarith+
    moreover have "0 \<le> ilog2 n" using IH(1) False by (simp add: ilog2.simps [of n])
    ultimately show ?thesis unfolding step by (simp add: p_def)
  qed
qed

lemma pow2_powi: "pow2 e = power_int 2 e"
  by (cases "0 \<le> e") (simp_all add: pow2_def power_int_def power_one_over inverse_eq_divide)

lemma floor_log2_le:
  assumes "0 < r" shows "pow2 (floor_log2 r) \<le> r"
proof -
  obtain n d where q: "quotient_of r = (n, d)" by fastforce
  have d: "0 < d" using quotient_of_denom_pos [OF q] .
  have r: "r = of_int n / of_int d" by (rule quotient_of_div [OF q])
  then have n: "0 < n" using assms d by (simp add: zero_less_divide_iff)
  let ?a = "ilog2 (nat n)" and ?b = "ilog2 (nat d)"
  have a: "0 \<le> ?a" "2 ^ nat ?a \<le> nat n" and b: "0 \<le> ?b" "nat d < 2 * 2 ^ nat ?b"
    using ilog2_bounds [of "nat n"] ilog2_bounds [of "nat d"] n d by auto
  have "(of_nat (2 ^ nat ?a) :: rat) \<le> of_nat (nat n)" using a(2) by (simp only: of_nat_le_iff)
  then have an: "(2 :: rat) ^ nat ?a \<le> of_int n" using n by simp
  have "(of_nat (nat d) :: rat) \<le> of_nat (2 * 2 ^ nat ?b)" using b(2) by (simp only: of_nat_le_iff)
  then have bd: "of_int d \<le> (2 :: rat) * 2 ^ nat ?b" using d by simp
  have "pow2 (?a - ?b - 1) = 2 ^ nat ?a / (2 * 2 ^ nat ?b)"
    using a(1) b(1) by (simp add: pow2_powi power_int_diff) (simp add: power_int_def)
  also have "\<dots> \<le> of_int n / of_int d"
    by (rule frac_le) (use an bd d n in auto)
  also have "\<dots> = r" by (rule r [symmetric])
  finally show ?thesis by (simp add: floor_log2_def q Let_def)
qed

lemma round_half_even_le: "of_int (round_half_even x) \<le> x + 1 / 2"
  by (simp add: round_half_even_def Let_def) linarith

lemma round_half_even_nonneg: "0 \<le> x \<Longrightarrow> 0 \<le> round_half_even x"
  by (simp add: round_half_even_def Let_def)

lemma round_mag_close:
  assumes "0 \<le> r" shows "0 \<le> round_mag r \<and> round_mag r \<le> r + (r + 1) / 2"
proof (cases "r = 0")
  case False
  with assms have r: "0 < r" by simp
  let ?u = "pow2 (ulp_exp r)"
  have pos: "0 < ?u" by (simp add: pow2_powi)
  have "pow2 (floor_log2 r - 52) \<le> pow2 (floor_log2 r)"
    unfolding pow2_powi by (rule power_int_increasing) simp_all
  with floor_log2_le [OF r] have 1: "pow2 (floor_log2 r - 52) \<le> r" by linarith
  have 2: "pow2 (- 1074) \<le> 1" by (simp add: pow2_def)
  have u: "?u \<le> r + 1" using 1 2 r by (simp add: ulp_exp_def max_def)
  have "0 \<le> round_half_even (r / ?u)" using r pos by (intro round_half_even_nonneg) simp
  then have lower: "0 \<le> of_int (round_half_even (r / ?u)) * ?u" using pos by simp
  have "of_int (round_half_even (r / ?u)) * ?u \<le> (r / ?u + 1 / 2) * ?u"
    using round_half_even_le [of "r / ?u"] pos by (intro mult_right_mono) simp_all
  also have "\<dots> = r + ?u / 2" using pos by (simp add: distrib_right)
  also have "\<dots> \<le> r + (r + 1) / 2" using u by simp
  finally show ?thesis using lower False by (simp add: round_mag_def)
qed (simp add: round_mag_def)

lemma f_round_close:
  assumes "0 \<le> r" and "r \<le> 100"
  obtains m where "f_round r = Fin m" "0 \<le> m" "m \<le> r + (r + 1) / 2"
proof -
  have m: "0 \<le> round_mag r" "round_mag r \<le> r + (r + 1) / 2" using round_mag_close [OF assms(1)] by auto
  have "(151 :: rat) < pow2 1024" by (simp add: pow2_def)
  moreover have "round_mag r \<le> 151"
    using m(2) assms(2) by (simp add: field_simps)
  ultimately have "\<not> pow2 1024 \<le> round_mag r" unfolding not_le by (rule order.strict_trans1 [rotated])
  then have "f_round r = Fin (round_mag r)" using assms(1) by (simp add: f_round_def)
  with m that show ?thesis by blast
qed

section \<open>Rounded values\<close>

lemma pow2_add: "pow2 (a + b) = pow2 a * pow2 b"
  by (simp add: pow2_powi power_int_add)

lemma pow2_pos [simp]: "0 < pow2 e"
  by (simp add: pow2_powi)

lemma pow2_nonneg: "0 \<le> e \<Longrightarrow> pow2 e = of_int (2 ^ nat e)"
  by (simp add: pow2_def)

lemma pow2_less: "pow2 a < pow2 b \<Longrightarrow> a < b"
proof (rule ccontr)
  assume "pow2 a < pow2 b" and "\<not> a < b"
  then have "pow2 b \<le> pow2 a" unfolding pow2_powi by (intro power_int_increasing) simp_all
  with \<open>pow2 a < pow2 b\<close> show False by simp
qed

lemma floor_log2_upper:
  assumes "0 < r" shows "r < pow2 (floor_log2 r + 1)"
proof -
  obtain n d where q: "quotient_of r = (n, d)" by fastforce
  have d: "0 < d" using quotient_of_denom_pos [OF q] .
  have r: "r = of_int n / of_int d" by (rule quotient_of_div [OF q])
  then have n: "0 < n" using assms d by (simp add: zero_less_divide_iff)
  let ?a = "ilog2 (nat n)" and ?b = "ilog2 (nat d)"
  have a: "0 \<le> ?a" "nat n < 2 * 2 ^ nat ?a" and b: "0 \<le> ?b" "2 ^ nat ?b \<le> nat d"
    using ilog2_bounds [of "nat n"] ilog2_bounds [of "nat d"] n d by auto
  have "(of_nat (nat n) :: rat) < of_nat (2 * 2 ^ nat ?a)" using a(2) by (simp only: of_nat_less_iff)
  then have an: "of_int n < (2 :: rat) * 2 ^ nat ?a" using n by simp
  have "(of_nat (2 ^ nat ?b) :: rat) \<le> of_nat (nat d)" using b(2) by (simp only: of_nat_le_iff)
  then have bd: "(2 :: rat) ^ nat ?b \<le> of_int d" using d by simp
  have "r < 2 * 2 ^ nat ?a / 2 ^ nat ?b"
    unfolding r by (rule frac_less) (use an bd n in auto)
  also have "\<dots> = pow2 (?a - ?b + 1)"
    using a(1) b(1) by (simp add: pow2_powi power_int_diff power_int_add) (simp add: power_int_def)
  finally have upper: "r < pow2 (?a - ?b + 1)" .
  then show ?thesis by (simp add: floor_log2_def q Let_def)
qed

text \<open>A value of the format: a multiple of its own unit in the last place.\<close>

definition representable :: "rat \<Rightarrow> bool" where
  "representable m \<longleftrightarrow> (\<exists>n. m = of_int n * pow2 (ulp_exp m))"

lemma round_half_even_int: "round_half_even (of_int n) = n"
  by (simp add: round_half_even_def)

lemma round_mag_representable:
  assumes "representable m" and "0 < m" shows "round_mag m = m"
proof -
  obtain n where n: "m = of_int n * pow2 (ulp_exp m)" using assms(1) unfolding representable_def by blast
  then have "m / pow2 (ulp_exp m) = of_int n" by (metis nonzero_mult_div_cancel_right pow2_pos less_irrefl)
  then have "round_mag m = of_int n * pow2 (ulp_exp m)" using assms(2) by (simp add: round_mag_def round_half_even_int)
  with n show ?thesis by simp
qed

lemma multiple_representable:
  assumes "0 < n" and "n \<le> 2 ^ 53" and "- 1074 \<le> q"
  shows "representable (of_int n * pow2 q)"
proof -
  have small: "representable (of_int n * pow2 q)" if n: "0 < n" "n < 2 ^ 53" and q: "- 1074 \<le> q" for n :: int and q
  proof -
    let ?m = "of_int n * pow2 q" and ?u = "ulp_exp (of_int n * pow2 q)"
    have pos: "0 < ?m" using n by simp
    have "(of_int n :: rat) < of_int (2 ^ 53)" using n(2) by (simp only: of_int_less_iff)
    then have "?m < pow2 53 * pow2 q" by (intro mult_strict_right_mono) (simp_all add: pow2_def)
    then have "pow2 (floor_log2 ?m) < pow2 (53 + q)"
      unfolding pow2_add by (rule order.strict_trans1 [OF floor_log2_le [OF pos]])
    then have u: "?u \<le> q" using pow2_less q by (fastforce simp: ulp_exp_def)
    then have "pow2 q = pow2 (q - ?u) * pow2 ?u" by (simp flip: pow2_add)
    then have "?m = of_int (n * 2 ^ nat (q - ?u)) * pow2 ?u" using u by (simp add: pow2_nonneg)
    then show ?thesis unfolding representable_def by blast
  qed
  show ?thesis
  proof (cases "n = 2 ^ 53")
    case True
    have "of_int n * pow2 q = of_int (2 ^ 52) * pow2 (q + 1)" by (simp add: True pow2_add) (simp add: pow2_def)
    then show ?thesis using small [of "2 ^ 52" "q + 1"] assms(3) by simp
  next
    case False
    then show ?thesis using small [of n q] assms by simp
  qed
qed

lemma round_half_even_mono_int: "x \<le> of_int n \<Longrightarrow> round_half_even x \<le> n"
proof -
  assume x: "x \<le> of_int n"
  show ?thesis
  proof (cases "x = of_int n")
    case False
    with x have "floor x < n" by (simp add: floor_less_iff)
    then show ?thesis by (simp add: round_half_even_def Let_def)
  qed (simp add: round_half_even_int)
qed

lemma round_mag_is_representable:
  assumes "0 < r" and "round_mag r \<noteq> 0" shows "representable (round_mag r)" and "0 < round_mag r"
proof -
  let ?q = "ulp_exp r" and ?n = "round_half_even (r / pow2 (ulp_exp r))"
  have m: "round_mag r = of_int ?n * pow2 ?q" using assms(1) by (simp add: round_mag_def)
  have "r < pow2 (floor_log2 r + 1)" by (rule floor_log2_upper [OF assms(1)])
  also have "\<dots> \<le> pow2 (53 + ?q)" unfolding pow2_powi by (rule power_int_increasing) (simp_all add: ulp_exp_def)
  finally have "r / pow2 ?q \<le> of_int (2 ^ 53)" by (simp add: pow2_add divide_le_eq) (simp add: pow2_def)
  then have n: "?n \<le> 2 ^ 53" by (rule round_half_even_mono_int)
  have "0 \<le> ?n" using assms(1) by (intro round_half_even_nonneg divide_nonneg_pos) simp_all
  moreover have "?n \<noteq> 0" using assms(2) m by auto
  ultimately have pos: "0 < ?n" by linarith
  show "representable (round_mag r)" unfolding m by (rule multiple_representable [OF pos n]) (simp add: ulp_exp_def)
  show "0 < round_mag r" using pos by (simp add: m)
qed

section \<open>Printing and reading back\<close>

lemma exact_decimal_value:
  assumes "representable r" and "0 < r" and "exact_decimal r = (m, k)"
  shows "of_nat m * pow10 k = r"
proof -
  let ?q = "ulp_exp r"
  obtain n where n: "r = of_int n * pow2 ?q" using assms(1) unfolding representable_def by blast
  have pos: "0 < n" using assms(2) n by (metis mult_pos_pos of_int_0_less_iff pow2_pos zero_less_mult_pos2)
  show ?thesis
  proof (cases "0 \<le> ?q")
    case True
    then have int: "r = of_int (n * 2 ^ nat ?q)" using n by (simp add: pow2_nonneg)
    then have "floor r = n * 2 ^ nat ?q" by (metis floor_of_int)
    then have "m = nat (n * 2 ^ nat ?q)" "k = 0" using assms(3) True by (simp_all add: exact_decimal_def Let_def)
    then show ?thesis using int pos by (simp add: pow10_def)
  next
    case False
    have "r / pow2 ?q = of_int n" using n by (metis nonzero_mult_div_cancel_right pow2_pos less_irrefl)
    then have mk: "m = nat n * 5 ^ nat (- ?q)" "k = ?q"
      using assms(3) False by (auto simp: exact_decimal_def Let_def)
    have "(10 :: rat) ^ j = 5 ^ j * 2 ^ j" for j :: nat by (simp flip: power_mult_distrib)
    then have "of_nat m * pow10 k = of_int n / 2 ^ nat (- ?q)" using False pos by (simp add: mk pow10_def)
    also have "\<dots> = of_int n * pow2 ?q" using False by (simp add: pow2_def)
    finally show ?thesis using n by simp
  qed
qed

lemma shortest_rounds:
  assumes "representable r" and "0 < r" and "shortest r = (m, k)"
  shows "round_mag (of_nat m * pow10 k) = r"
proof (cases "find (\<lambda>(m, k). round_mag (of_nat m * pow10 k) = r) (concat (map (candidates r) [1..<18]))")
  case None
  then have "exact_decimal r = (m, k)" using assms(3) by (simp add: shortest_def)
  from exact_decimal_value [OF assms(1,2) this] show ?thesis using round_mag_representable [OF assms(1,2)] by simp
next
  case (Some mk)
  then have "mk = (m, k)" using assms(3) by (simp add: shortest_def)
  with Some show ?thesis by (auto simp: find_Some_iff)
qed

abbreviation digits :: "string \<Rightarrow> nat list" where
  "digits s \<equiv> map (\<lambda>c. byte c - 48) s"

lemma take_digits_all:
  assumes "\<forall>c\<in>set s. is_ascii_digit c" and "t = [] \<or> \<not> is_ascii_digit (hd t)"
  shows "take_digits (s @ t) = (digits s, t)"
  using assms
proof (induction s)
  case Nil
  then show ?case by (cases t) (simp_all add: to_digit_def)
qed (simp add: to_digit_def)

lemma digits_value_snoc: "digits_value (ds @ [d]) = 10 * digits_value ds + d"
  by (simp add: digits_value_def)

lemma digits_value_zeros: "digits_value (replicate k 0 @ ds) = digits_value ds"
  by (induction k) (simp_all add: digits_value_def)

lemma digits_value_show: "digits_value (digits (show_nat n)) = n"
proof (induction n rule: show_nat.induct)
  case (1 n)
  show ?case
  proof (cases "n < 10")
    case True
    then show ?thesis by (simp add: show_nat.simps [of n] digits_value_def digit_char_cases)
  next
    case False
    then show ?thesis using 1 by (simp add: show_nat.simps [of n] digits_value_snoc digit_char_cases)
  qed
qed

lemma digits_value_pad: "digits_value (digits (pad_left w (show_nat n))) = n"
proof -
  have "byte CHR ''0'' - 48 = 0" by (simp add: byte_def)
  then show ?thesis by (simp add: pad_left_def digits_value_zeros digits_value_show)
qed

lemma parse_mantissa_point:
  assumes "take_digits s = (w, CHR ''.'' # t)" and "take_digits t = (f, [])" and "w @ f \<noteq> []"
  shows "parse_mantissa s = Some (digits_value (w @ f), - int (length f), [])"
  using assms by (simp add: parse_mantissa_def)

lemma parse_show_decimal:
  "parse_number (show_decimal m k) = Some (of_nat m * pow10 k)" (is ?number)
  "strip_sign (show_decimal m k) = (False, show_decimal m k)" (is ?sign)
proof -
  have sign: "strip_sign (c # s) = (False, c # s)" if "is_ascii_digit c" for c s
    using that by (auto simp: ascii_defs of_char_Char)
  have "?number \<and> ?sign"
  proof (cases "0 \<le> k")
    case True
    let ?s = "show_nat (m * 10 ^ nat k)"
    have s: "show_decimal m k = ?s" using True by (simp add: show_decimal_def)
    have "take_digits ?s = (digits ?s, [])" using take_digits_all [of ?s "[]"] show_nat_digits by simp
    then have "parse_number ?s = Some (of_nat m * pow10 k)"
      using True by (simp add: parse_number_def parse_mantissa_def parse_exponent_def digits_value_show pow10_def)
    moreover obtain c r where "?s = c # r" "is_ascii_digit c"
      using show_nat_nonempty [of "m * 10 ^ nat k"] show_nat_digits [of "m * 10 ^ nat k"] by (cases ?s) auto
    ultimately show ?thesis using sign unfolding s by metis
  next
    case False
    let ?n = "nat (- k)" let ?ds = "pad_left (Suc ?n) (show_nat m)" let ?w = "length ?ds - ?n"
    have s: "show_decimal m k = take ?w ?ds @ CHR ''.'' # drop ?w ?ds"
      using False by (simp add: show_decimal_def Let_def)
    have len: "?n < length ?ds" by (simp add: pad_left_def)
    have "is_ascii_digit CHR ''0''" by (simp add: is_ascii_digit_def byte_def)
    then have all: "\<forall>c\<in>set ?ds. is_ascii_digit c"
      using show_nat_digits by (auto simp: pad_left_def)
    then have parts: "\<forall>c\<in>set (take ?w ?ds). is_ascii_digit c" "\<forall>c\<in>set (drop ?w ?ds). is_ascii_digit c"
      by (meson in_set_takeD, meson in_set_dropD)
    have dot: "\<not> is_ascii_digit CHR ''.''" by (simp add: is_ascii_digit_def byte_def)
    have t1: "take_digits (show_decimal m k) = (digits (take ?w ?ds), CHR ''.'' # drop ?w ?ds)"
      unfolding s by (rule take_digits_all [OF parts(1)]) (use dot in simp)
    have t2: "take_digits (drop ?w ?ds) = (digits (drop ?w ?ds), [])"
      using take_digits_all [OF parts(2), of "[]"] by simp
    have whole: "digits (take ?w ?ds) @ digits (drop ?w ?ds) = digits ?ds"
      by (simp only: append_take_drop_id flip: map_append)
    have frac: "length (digits (drop ?w ?ds)) = ?n" using len by simp
    have "?ds \<noteq> []" using len by auto
    then have "parse_mantissa (show_decimal m k) = Some (digits_value (digits ?ds), - int ?n, [])"
      using parse_mantissa_point [OF t1 t2] by (simp only: whole frac map_is_Nil_conv not_False_eq_True simp_thms)
    then have "?number" using False
      by (simp add: parse_number_def parse_exponent_def digits_value_pad)
    moreover obtain c r where "show_decimal m k = c # r" "is_ascii_digit c"
    proof (cases "take ?w ?ds")
      case Nil
      then show ?thesis using len by simp
    next
      case (Cons c r)
      then show ?thesis using parts(1) s that [of c] by simp
    qed
    ultimately show ?thesis using sign by metis
  qed
  then show ?number ?sign by blast+
qed

text \<open>What rounding gives for a nonnegative number reads back from its decimal as it was.\<close>

lemma parse_show_f64:
  assumes "0 \<le> r" and "f_round r = Fin m"
  shows "parse_f64 (show_f64 (Fin m)) = Inr (Fin m)"
proof (cases "m = 0")
  case True
  show ?thesis unfolding True
    by (simp add: parse_f64_def parse_number_def parse_mantissa_def parse_exponent_def digits_value_def
        f_signed_def f_round_def round_mag_def pow2_def to_digit_def ascii_defs)
next
  case False
  have m: "m = round_mag r" "\<not> pow2 1024 \<le> m"
    using assms by (auto simp: f_round_def Let_def split: if_splits)
  have "0 < r"
  proof (rule ccontr)
    assume "\<not> 0 < r"
    then have "r = 0" using assms(1) by simp
    then show False using False m(1) by (simp add: round_mag_def)
  qed
  note rep = round_mag_is_representable [OF this False [unfolded m(1)], folded m(1)]
  obtain c k where s: "shortest m = (c, k)" by force
  have rounds: "round_mag (of_nat c * pow10 k) = m" by (rule shortest_rounds [OF rep s])
  have shown: "show_f64 (Fin m) = show_decimal c k" using rep(2) s by simp
  have "show_decimal c k \<noteq> []" using parse_show_decimal(1) [of c k]
    by (auto simp: parse_number_def parse_mantissa_def)
  moreover have "(0 :: rat) \<le> of_nat c * pow10 k" by (simp add: pow10_def)
  with rounds m(2) have "f_round (of_nat c * pow10 k) = Fin m" by (simp add: f_round_def)
  ultimately show ?thesis
    by (simp only: shown) (simp add: parse_f64_def parse_show_decimal f_signed_def)
qed

end
