(* ===== verification/Chaos.thy ===== *)
theory Chaos
  imports Evil_Config_Props Float_Print
begin

text \<open>
  \<open>chaos.rs\<close>: \<open>DEBUG CHAOS\<close> expands a temperature into ordinary evil settings. The
  expansion is staged in a copy of the configuration, which replaces the original only when every
  part of it was accepted.
\<close>

section \<open>The command\<close>

definition chaos_usage :: app_error where
  "chaos_usage = evil_error ''expected DEBUG CHAOS <0..100> [SEED <u64>] [HASH <BLAKE3|TLSH>]''"

definition set_chaos :: "(u64 \<times> protocol_hash) setter" where
  "set_chaos key value c =
     (if keyword key ''SEED'' then
        map_ok (\<lambda>n. (0, n, snd c))
          (map_err (\<lambda>_. evil_error ''SEED requires an unsigned 64-bit integer'') (parse_u64 value))
      else if keyword key ''HASH'' then map_ok (\<lambda>h. (1, fst c, h)) (hash_from_str value)
      else Inl chaos_usage)"

definition parse_temperature :: "string \<Rightarrow> app_error + f64" where
  "parse_temperature value =
     (case parse_f64 value of
        Inl _ \<Rightarrow> Inl (evil_error ''temperature must be a finite number in 0..100'')
      | Inr t \<Rightarrow>
          if \<not> (f_le zero_percent t \<and> f_le t hundred_percent)
          then Inl (evil_error ''temperature must be a finite number in 0..100'')
          else Inr t)"

section \<open>The preset of a temperature\<close>

definition above :: "f64 \<Rightarrow> rat \<Rightarrow> bool" where
  "above t n \<longleftrightarrow> f_lt (Fin n) t"

definition chaos_base :: "u64 \<Rightarrow> f64 \<Rightarrow> evil_config \<Rightarrow> evil_config" where
  "chaos_base seed t c = c\<lparr>
     cfg_seed := seed,
     cfg_mode := (if f_eq t zero_percent then ModeOff else ModeMutate),
     cfg_probability := t,
     cfg_strategy := (if above t 50 then Replace else Preserve),
     cfg_mutation_count := (if above t 25 then Many else One),
     cfg_depth := Inner,
     cfg_framing := FramingOff,
     cfg_exec := exec_default,
     cfg_transport := transport_default,
     topology_redirect := None,
     topology_probability := f_div (f_max (f_sub t (Fin 50)) zero_percent) (Fin 2)\<rparr>"

definition chaos_generator :: "f64 \<Rightarrow> evil_config \<Rightarrow> app_error + evil_config" where
  "chaos_generator t c = map_ok (\<lambda>g. c\<lparr>cfg_generator := g\<rparr>)
     (generator_updated [''CORPUS'', ''BOUNDARY'', ''VIOLATIONS'', if above t 75 then ''ON'' else ''OFF'']
       (cfg_generator c))"

definition chaos_exec :: "f64 \<Rightarrow> evil_config \<Rightarrow> app_error + evil_config" where
  "chaos_exec t c =
     (if above t 25
      then map_ok (\<lambda>e. c\<lparr>cfg_exec := e\<rparr>)
        (exec_parse [''RANDOM'', ''PROBABILITY'', show_f64 (f_div (f_sub t (Fin 25)) (Fin 3))])
      else Inr c)"

definition chaos_framing :: "f64 \<Rightarrow> evil_config \<Rightarrow> app_error + evil_config" where
  "chaos_framing t c =
     (if above t 50
      then map_ok (\<lambda>f. c\<lparr>cfg_framing := f\<rparr>)
        (framing_parse [''LENGTH'', ''PROBABILITY'', show_f64 (f_mul (f_sub t (Fin 50)) (Fin 2)),
           ''TARGET'', ''ANY'', ''KIND'', ''RANDOM''])
      else Inr c)"

definition chaos_transport :: "f64 \<Rightarrow> evil_config \<Rightarrow> app_error + evil_config" where
  "chaos_transport t c =
     (if above t 75
      then map_ok (\<lambda>n. c\<lparr>cfg_transport := n\<rparr>)
        (transport_updated [''TRUNCATE'', ''RANDOM'', ''CHUNKS'', ''RANDOM'', ''PROBABILITY'',
           show_f64 (f_sub t (Fin 75))] (cfg_transport c))
      else Inr c)"

definition chaos_preset :: "u64 \<Rightarrow> f64 \<Rightarrow> evil_config \<Rightarrow> app_error + evil_config" where
  "chaos_preset seed t c =
     and_then (chaos_generator t (chaos_base seed t c)) (\<lambda>c.
     and_then (chaos_exec t c) (\<lambda>c.
     and_then (chaos_framing t c) (chaos_transport t)))"

definition chaos_apply :: "string list \<Rightarrow> evil_config \<Rightarrow> evil_config \<times> (app_error + protocol_hash)" where
  "chaos_apply argv c =
     (if length argv < 3 \<or> \<not> eq_ignore_ascii_case (argv ! 0) ''DEBUG''
          \<or> \<not> eq_ignore_ascii_case (argv ! 1) ''CHAOS''
      then (c, Inl chaos_usage)
      else (case parse_temperature (argv ! 2) of
        Inl e \<Rightarrow> (c, Inl e)
      | Inr t \<Rightarrow>
          (let (options, tail) = chunks2 (drop 3 argv) in
           if tail \<noteq> [] then (c, Inl chaos_usage)
           else (case set_options set_chaos (evil_error ''duplicate DEBUG CHAOS option'') []
                  options (cfg_seed c, Blake3) of
             Inl e \<Rightarrow> (c, Inl e)
           | Inr (seed, hash) \<Rightarrow>
               (case chaos_preset seed t c of Inl e \<Rightarrow> (c, Inl e) | Inr next \<Rightarrow> (next, Inr hash))))))"

interpretation chaos_setter: option_setter set_chaos "\<lambda>_. True" 2
  by unfold_locales (simp, unfold set_chaos_def, elim if_InrE, auto simp: result_simps)

section \<open>The preset\<close>

lemma percent_val: "percent t \<Longrightarrow> \<exists>x. val t = Some x \<and> 0 \<le> x \<and> x \<le> 100"
  by (cases t) (auto simp: percent_def)

lemma f_round_percent: "0 \<le> r \<Longrightarrow> r \<le> 60 \<Longrightarrow> \<exists>m. f_round r = Fin m \<and> 0 \<le> m \<and> m \<le> 91"
  using f_round_close [of r] by (force simp: field_simps)

lemma topology_share_percent:
  assumes "percent t"
  shows "percent (f_div (f_max (f_sub t (Fin 50)) zero_percent) (Fin 2))"
proof -
  obtain x where x: "val t = Some x" "0 \<le> x" "x \<le> 100" using percent_val [OF assms] by blast
  have sub: "f_sub t (Fin 50) = f_round (x - 50)" by (simp add: f_sub_def f_op_def x(1))
  have "\<exists>m. f_max (f_round (x - 50)) zero_percent = Fin m \<and> 0 \<le> m \<and> m \<le> 91"
  proof (cases "50 \<le> x")
    case True
    then obtain m where m: "f_round (x - 50) = Fin m" "0 \<le> m" "m \<le> 91"
      using f_round_percent [of "x - 50"] x(3) by auto
    then show ?thesis by (auto simp: f_max_def)
  next
    case False
    have "f_max (f_round (x - 50)) zero_percent = zero_percent"
      using False round_mag_close [of "50 - x"] by (auto simp: f_round_def f_max_def Let_def)
    then show ?thesis by auto
  qed
  then obtain m where m: "f_max (f_round (x - 50)) zero_percent = Fin m" "0 \<le> m" "m \<le> 91" by blast
  then have "f_div (Fin m) (Fin 2) = f_round (m / 2)" by (simp add: f_div_def f_op_def)
  with f_round_percent [of "m / 2"] m show ?thesis by (auto simp: sub percent_def)
qed

lemma chaos_generator_eq:
  "chaos_generator t c = Inr (c\<lparr>cfg_generator := (cfg_generator c)\<lparr>
     gen_corpus := BoundaryCorpus, gen_violations := above t 75\<rparr>\<rparr>)"
  by (simp add: chaos_generator_def generator_updated_def set_generator_def ascii_defs)

lemma preset_threshold: "val t = Some x \<Longrightarrow> above t n \<longleftrightarrow> n < x"
  by (cases t) (auto simp: above_def f_lt_def)

text \<open>
  The configuration a temperature asks for, as numbers. \<open>share x n k\<close> is the probability
  \<open>(x - n) * k\<close>, rounded to an \<open>f64\<close> after the subtraction and after the scaling. Every other
  field of the old configuration stays.
\<close>

definition share :: "rat \<Rightarrow> rat \<Rightarrow> rat \<Rightarrow> f64" where
  "share x n k = f_round (the (val (f_round (x - n))) * k)"

definition preset_of :: "u64 \<Rightarrow> f64 \<Rightarrow> rat \<Rightarrow> evil_config \<Rightarrow> evil_config" where
  "preset_of seed t x c = c\<lparr>
     cfg_seed := seed,
     cfg_mode := if x = 0 then ModeOff else ModeMutate,
     cfg_probability := t,
     cfg_strategy := if x \<le> 50 then Preserve else Replace,
     cfg_mutation_count := if x \<le> 25 then One else Many,
     cfg_depth := Inner,
     cfg_framing := if x \<le> 50 then FramingOff
       else FramingLength \<lparr>lc_probability = share x 50 2, lc_target = AnyTarget, lc_kind = None\<rparr>,
     cfg_exec := if x \<le> 25 then exec_default
       else \<lparr>ec_action = ExecRandomAction, ec_probability = share x 25 (1 / 3)\<rparr>,
     cfg_transport := if x \<le> 75 then transport_default
       else transport_default\<lparr>tr_truncate := CutRandom, tr_chunks := ChunksRandom,
         tr_probability := f_round (x - 75)\<rparr>,
     topology_redirect := None,
     topology_probability := if x \<le> 50 then Fin 0 else share x 50 (1 / 2),
     cfg_generator := (cfg_generator c)\<lparr>gen_corpus := BoundaryCorpus, gen_violations := \<not> x \<le> 75\<rparr>\<rparr>"

text \<open>What the option pairs after the temperature ask for.\<close>

definition chosen :: "(string \<times> string) list \<Rightarrow> string \<Rightarrow> (string \<Rightarrow> 'e + 'a) \<Rightarrow> 'a \<Rightarrow> 'a \<Rightarrow> bool" where
  "chosen pairs name parse fallback x \<longleftrightarrow>
     (\<forall>(key, value)\<in>set pairs. keyword key name \<longrightarrow> parse value = Inr x)
   \<and> ((\<forall>(key, value)\<in>set pairs. \<not> keyword key name) \<longrightarrow> x = fallback)"

lemma chosen_Cons: "chosen ((key, value) # pairs) name parse d x \<longleftrightarrow>
    (if keyword key name then parse value = Inr x \<and> chosen pairs name parse x x
     else chosen pairs name parse d x)"
  by (auto simp: chosen_def)

lemma set_chaos_options:
  "set_options set_chaos dup seen pairs (s0, h0) = Inr (s, h) \<Longrightarrow>
     (if 0 \<in> set seen then s = s0 \<and> chosen pairs ''SEED'' parse_u64 s s else chosen pairs ''SEED'' parse_u64 s0 s)
   \<and> (if 1 \<in> set seen then h = h0 \<and> chosen pairs ''HASH'' hash_from_str h h else chosen pairs ''HASH'' hash_from_str h0 h)"
proof (induction pairs arbitrary: seen s0 h0)
  case (Cons p pairs)
  obtain key v where p: "p = (key, v)" by force
  from Cons.prems obtain i s1 h1 where put: "set_chaos key v (s0, h0) = Inr (i, s1, h1)" "i \<notin> set seen"
      and rest: "set_options set_chaos dup (i # seen) pairs (s1, h1) = Inr (s, h)"
    unfolding p by (elim chaos_setter.set_options_Cons) auto
  note IH = Cons.IH [OF rest]
  consider "keyword key ''SEED''" "parse_u64 v = Inr s1" "h1 = h0" "i = 0"
    | "\<not> keyword key ''SEED''" "keyword key ''HASH''" "hash_from_str v = Inr h1" "s1 = s0" "i = 1"
    using put(1) unfolding set_chaos_def by (auto simp: result_simps split: if_splits)
  then show ?case using IH put(2) by cases (auto simp: p chosen_Cons split: if_splits)
qed (simp add: chosen_def)

text \<open>A probability that was printed for an option and read back is the probability that was printed.\<close>

lemma printed_probability:
  assumes "0 \<le> r" and "parse_probability (show_f64 (f_round r)) = Inr p"
  shows "p = f_round r"
proof (cases "f_round r")
  case (Fin m)
  then show ?thesis using assms(2) parse_show_f64 [OF assms(1) Fin]
    by (auto simp: parse_probability_def split: if_splits)
next
  case Inf
  have "parse_f64 ''inf'' = Inr Inf" by code_simp
  then show ?thesis using assms(2) Inf by (simp add: parse_probability_def split: if_splits)
qed (use assms(1) in \<open>simp_all add: f_round_def Let_def split: if_splits\<close>)

lemma exec_parse_random:
  "exec_parse [''RANDOM'', ''PROBABILITY'', v] = map_ok (\<lambda>p. \<lparr>ec_action = ExecRandomAction, ec_probability = p\<rparr>)
     (parse_probability v)"
  by (cases "parse_probability v") (simp_all add: exec_parse_def parse_exec_action_def ascii_defs)

lemma framing_parse_length:
  "framing_parse [''LENGTH'', ''PROBABILITY'', v, ''TARGET'', ''ANY'', ''KIND'', ''RANDOM''] =
     map_ok (\<lambda>p. FramingLength \<lparr>lc_probability = p, lc_target = AnyTarget, lc_kind = None\<rparr>) (parse_probability v)"
  by (cases "parse_probability v")
    (simp_all add: framing_parse_def set_length_def length_default_def parse_target_def parse_corruption_def ascii_defs)

lemma transport_random:
  "transport_updated [''TRUNCATE'', ''RANDOM'', ''CHUNKS'', ''RANDOM'', ''PROBABILITY'', v] transport_default =
     map_ok (\<lambda>p. transport_default\<lparr>tr_truncate := CutRandom, tr_chunks := ChunksRandom, tr_probability := p\<rparr>)
       (parse_probability v)"
  by (cases "parse_probability v")
    (simp_all add: transport_updated_def set_transport_def parse_cut_def parse_chunks_def transport_default_def
      fault_default_def ascii_defs)

lemma chaos_preset_cases:
  assumes "chaos_preset seed t c = Inr c'"
  obtains c1 c2 c3 where "chaos_generator t (chaos_base seed t c) = Inr c1" "chaos_exec t c1 = Inr c2"
    "chaos_framing t c2 = Inr c3" "chaos_transport t c3 = Inr c'"
  using assms by (auto simp: chaos_preset_def result_simps)

lemma share_scaled:
  assumes "val t = Some x" and "n \<le> x" and "x \<le> n + 100"
  shows "\<exists>y. f_sub t (Fin n) = Fin y \<and> 0 \<le> y \<and> share x n k = f_round (y * k)"
proof -
  obtain y where y: "f_round (x - n) = Fin y" "0 \<le> y" using f_round_close [of "x - n"] assms by auto
  then show ?thesis using assms by (simp add: f_sub_def f_op_def share_def)
qed

lemma topology_share:
  assumes "val t = Some x" and "0 \<le> x" and "x \<le> 100"
  shows "f_div (f_max (f_sub t (Fin 50)) zero_percent) (Fin 2) = (if x \<le> 50 then Fin 0 else share x 50 (1 / 2))"
proof (cases "50 \<le> x")
  case True
  obtain y where y: "f_sub t (Fin 50) = Fin y" "0 \<le> y" "share x 50 (1 / 2) = f_round (y * (1 / 2))"
    using share_scaled [OF assms(1) True, of "1 / 2"] assms(3) by auto
  have "f_round 0 = Fin 0" by (simp add: f_round_def round_mag_def pow2_def)
  then show ?thesis using y True assms(1) by (auto simp: f_max_def f_div_def f_op_def f_sub_def)
next
  case False
  have "f_max (f_sub t (Fin 50)) zero_percent = Fin 0"
    using False round_mag_close [of "50 - x"] assms(1)
    by (auto simp: f_sub_def f_op_def f_round_def f_max_def Let_def)
  moreover have "f_round 0 = Fin 0" by (simp add: f_round_def round_mag_def pow2_def)
  ultimately show ?thesis using False by (simp add: f_div_def f_op_def)
qed

lemma chaos_exec_eq:
  assumes "val t = Some x" and "x \<le> 100" and "chaos_exec t c = Inr c'"
  shows "c' = (if x \<le> 25 then c
    else c\<lparr>cfg_exec := \<lparr>ec_action = ExecRandomAction, ec_probability = share x 25 (1 / 3)\<rparr>\<rparr>)"
proof (cases "x \<le> 25")
  case False
  then obtain y where y: "f_sub t (Fin 25) = Fin y" "0 \<le> y" "share x 25 (1 / 3) = f_round (y / 3)"
    using share_scaled [OF assms(1), of 25 "1 / 3"] assms(2) by force
  have div: "f_div (Fin y) (Fin 3) = f_round (y / 3)" by (simp add: f_div_def f_op_def)
  show ?thesis using assms(3) False y printed_probability [of "y / 3"]
    by (auto simp: chaos_exec_def preset_threshold [OF assms(1)] exec_parse_random result_simps div)
qed (use assms in \<open>simp add: chaos_exec_def preset_threshold\<close>)

lemma chaos_framing_eq:
  assumes "val t = Some x" and "x \<le> 100" and "chaos_framing t c = Inr c'"
  shows "c' = (if x \<le> 50 then c
    else c\<lparr>cfg_framing := FramingLength \<lparr>lc_probability = share x 50 2, lc_target = AnyTarget, lc_kind = None\<rparr>\<rparr>)"
proof (cases "x \<le> 50")
  case False
  then obtain y where y: "f_sub t (Fin 50) = Fin y" "0 \<le> y" "share x 50 2 = f_round (y * 2)"
    using share_scaled [OF assms(1), of 50 2] assms(2) by auto
  have mul: "f_mul (Fin y) (Fin 2) = f_round (y * 2)" by (simp add: f_mul_def f_op_def)
  show ?thesis using assms(3) False y printed_probability [of "y * 2"]
    by (auto simp: chaos_framing_def preset_threshold [OF assms(1)] framing_parse_length result_simps mul)
qed (use assms in \<open>simp add: chaos_framing_def preset_threshold\<close>)

lemma chaos_transport_eq:
  assumes "val t = Some x" and "cfg_transport c = transport_default" and "chaos_transport t c = Inr c'"
  shows "c' = (if x \<le> 75 then c
    else c\<lparr>cfg_transport := transport_default\<lparr>tr_truncate := CutRandom, tr_chunks := ChunksRandom,
      tr_probability := f_round (x - 75)\<rparr>\<rparr>)"
proof (cases "x \<le> 75")
  case False
  have sub: "f_sub t (Fin 75) = f_round (x - 75)" by (simp add: f_sub_def f_op_def assms(1))
  show ?thesis using assms(2,3) False printed_probability [of "x - 75"]
    by (auto simp: chaos_transport_def preset_threshold [OF assms(1)] transport_random result_simps sub)
qed (use assms in \<open>simp add: chaos_transport_def preset_threshold\<close>)

lemma chaos_preset_of:
  assumes "chaos_preset seed t c = Inr c'" and x: "val t = Some x" "0 \<le> x" "x \<le> 100"
  shows "c' = preset_of seed t x c"
  using assms(1)
proof (rule chaos_preset_cases)
  fix c1 c2 c3
  assume s: "chaos_generator t (chaos_base seed t c) = Inr c1" "chaos_exec t c1 = Inr c2"
    "chaos_framing t c2 = Inr c3" "chaos_transport t c3 = Inr c'"
  have zero: "f_eq t zero_percent \<longleftrightarrow> x = 0" using x(1) by (cases t) (auto simp: f_eq_def)
  have base: "chaos_base seed t c = c\<lparr>cfg_seed := seed, cfg_mode := if x = 0 then ModeOff else ModeMutate,
      cfg_probability := t, cfg_strategy := if x \<le> 50 then Preserve else Replace,
      cfg_mutation_count := if x \<le> 25 then One else Many, cfg_depth := Inner, cfg_framing := FramingOff,
      cfg_exec := exec_default, cfg_transport := transport_default, topology_redirect := None,
      topology_probability := if x \<le> 50 then Fin 0 else share x 50 (1 / 2)\<rparr>"
    unfolding chaos_base_def zero preset_threshold [OF x(1)] topology_share [OF x] by (simp add: not_le)
  have c1: "c1 = (chaos_base seed t c)\<lparr>cfg_generator := (cfg_generator c)\<lparr>
      gen_corpus := BoundaryCorpus, gen_violations := \<not> x \<le> 75\<rparr>\<rparr>"
    using s(1) by (simp add: chaos_generator_eq preset_threshold [OF x(1)] base not_le)
  note c2 = chaos_exec_eq [OF x(1,3) s(2)] and c3 = chaos_framing_eq [OF x(1,3) s(3)]
  have "cfg_transport c3 = transport_default" by (simp add: c1 c2 c3 base)
  from chaos_transport_eq [OF x(1) this s(4)] show ?thesis
    by (simp add: c1 c2 c3 base preset_of_def)
qed

lemma chaos_base_ok: "percent t \<Longrightarrow> config_ok c \<Longrightarrow> config_ok (chaos_base seed t c)"
  using topology_share_percent [of t]
  by (simp add: config_ok_def chaos_base_def transport_default_ok)

lemma chaos_preset_ok:
  assumes "chaos_preset seed t c = Inr c'" and "percent t" and "config_ok c"
  shows "config_ok c'"
  using assms(1)
proof (rule chaos_preset_cases)
  fix c1 c2 c3
  assume s: "chaos_generator t (chaos_base seed t c) = Inr c1" "chaos_exec t c1 = Inr c2"
    "chaos_framing t c2 = Inr c3" "chaos_transport t c3 = Inr c'"
  have "config_ok c1"
    using s(1) update_config_ok(3) [OF chaos_base_ok [OF assms(2,3)]] by (auto simp: chaos_generator_eq)
  then have "config_ok c2" using s(2) update_config_ok(1)
    by (auto simp: chaos_exec_def result_simps split: if_splits)
  then have "config_ok c3" using s(3) update_config_ok(4)
    by (auto simp: chaos_framing_def result_simps split: if_splits)
  then show "config_ok c'" using s(4) update_config_ok(2)
    by (auto simp: chaos_transport_def result_simps split: if_splits)
qed

lemma parse_temperature_percent: "parse_temperature v = Inr t \<Longrightarrow> percent t"
  by (auto simp: parse_temperature_def percent_def split: sum.splits if_splits)

lemma chaos_apply_cases:
  assumes "chaos_apply argv c = (c', r)"
  obtains (refused) e where "r = Inl e" "c' = c"
    | (accepted) t seed h where "parse_temperature (argv ! 2) = Inr t"
        "set_options set_chaos (evil_error ''duplicate DEBUG CHAOS option'') []
           (fst (chunks2 (drop 3 argv))) (cfg_seed c, Blake3) = Inr (seed, h)"
        "chaos_preset seed t c = Inr c'" "r = Inr h"
  using assms unfolding chaos_apply_def
  by (auto simp: Let_def split: if_splits sum.splits prod.splits)

lemma chaos_apply_ok: "chaos_apply argv c = (c', r) \<Longrightarrow> config_ok c \<Longrightarrow> config_ok c'"
  by (elim chaos_apply_cases) (auto dest: chaos_preset_ok parse_temperature_percent)

text \<open>C34: DEBUG CHAOS is all or nothing: refused, for whatever reason and at whatever stage of the
  expansion, it changes nothing; accepted, it installs exactly the preset of its temperature, every
  field of the configuration given: the seed of the SEED option or the old one, each fault family only
  above its threshold and at its share of the temperature (which comes back exactly from the decimal it
  is passed as), filters, canonicalization and protocol as they were; it answers with the hash of
  the HASH option or BLAKE3, and the result is a valid configuration.\<close>

theorem chaos_is_all_or_nothing:
  assumes "chaos_apply argv c = (c', r)"
  shows "(case r of Inl _ \<Rightarrow> c' = c
      | Inr hash \<Rightarrow> \<exists>t x seed. parse_temperature (argv ! 2) = Inr t \<and> val t = Some x \<and> 0 \<le> x \<and> x \<le> 100
          \<and> chosen (fst (chunks2 (drop 3 argv))) ''SEED'' parse_u64 (cfg_seed c) seed
          \<and> chosen (fst (chunks2 (drop 3 argv))) ''HASH'' hash_from_str Blake3 hash
          \<and> c' = preset_of seed t x c)
    \<and> (config_ok c \<longrightarrow> config_ok c')"
  using assms
proof (cases rule: chaos_apply_cases)
  case (accepted t seed h)
  obtain x where "val t = Some x" "0 \<le> x" "x \<le> 100"
    using percent_val [OF parse_temperature_percent [OF accepted(1)]] by blast
  with accepted show ?thesis
    using chaos_apply_ok [OF assms] chaos_preset_of set_chaos_options [OF accepted(2)] by fastforce
qed simp

theorem chaos_is_all_or_nothing_witness:
  "chaos_apply [''debug'', ''chaos'', ''0'', ''seed'', ''7''] config_default
     = (preset_of 7 (Fin 0) 0 config_default, Inr Blake3)"
proof -
  have zero: "parse_temperature ''0'' = Inr (Fin 0)"
    by (simp add: parse_temperature_def parse_f64_def parse_number_def parse_mantissa_def parse_exponent_def
        digits_value_def f_signed_def f_round_def round_mag_def pow2_def to_digit_def ascii_defs)
  have seven: "parse_u64 ''7'' = Inr 7" by code_simp
  obtain c' where r: "chaos_apply [''debug'', ''chaos'', ''0'', ''seed'', ''7''] config_default = (c', Inr Blake3)"
    by (simp add: chaos_apply_def zero set_chaos_def seven chaos_preset_def chaos_generator_eq
        chaos_exec_def chaos_framing_def chaos_transport_def above_def f_lt_def ascii_defs)
  from chaos_is_all_or_nothing [OF this] r show ?thesis by (auto simp: chosen_def zero seven ascii_defs)
qed

end
