(* ===== verification/Transaction.thy ===== *)
theory Transaction
  imports Prelude
begin

text \<open>
  \<open>transaction.rs\<close>: the tracker that remembers which commands the server queued since an
  accepted MULTI, so that the EXEC reply can be matched with their names, and the transaction
  protocol of the server it watches, as a step relation the tracker is compared with.
\<close>

section \<open>The tracker\<close>

text \<open>\<open>TransactionCommands\<close>: \<open>queued\<close> is \<open>None\<close> outside a transaction.\<close>

record transaction_commands =
  queued :: "string list option"

definition transaction_default :: transaction_commands where
  "transaction_default = \<lparr>queued = None\<rparr>"

definition reply_ok :: bytes where "reply_ok = ''+OK'' @ [CHR 0x0D, CHR 0x0A]"

definition reply_queued :: bytes where "reply_queued = ''+QUEUED'' @ [CHR 0x0D, CHR 0x0A]"

definition starts_with :: "string \<Rightarrow> string \<Rightarrow> bool" where
  "starts_with p s \<longleftrightarrow> take (length p) s = p"

definition ends_transaction :: "bytes \<Rightarrow> bool" where
  "ends_transaction reply \<longleftrightarrow>
     (reply \<noteq> [] \<and> (hd reply = CHR ''*'' \<or> hd reply = CHR ''_'')) \<or> starts_with ''-EXECABORT '' reply"

definition observe ::
  "transaction_commands \<Rightarrow> string list \<Rightarrow> bytes \<Rightarrow> string list option \<times> transaction_commands" where
  "observe t argv reply =
     (case argv of
        [] \<Rightarrow> (None, t)
      | c # _ \<Rightarrow>
          let command = to_ascii_uppercase c in
          if command = ''MULTI'' \<and> reply = reply_ok then (None, t\<lparr>queued := Some []\<rparr>)
          else if command = ''DISCARD'' \<and> reply = reply_ok then (None, t\<lparr>queued := None\<rparr>)
          else if command = ''EXEC'' \<and> ends_transaction reply
            then (queued t, t\<lparr>queued := None\<rparr>)
          else if reply = reply_queued
            then (None, case queued t of
                          Some commands \<Rightarrow> t\<lparr>queued := Some (commands @ [command])\<rparr>
                        | None \<Rightarrow> t)
          else (None, t))"

section \<open>The server's side\<close>

text \<open>
  What a Valkey or Redis server documents about transactions, one exchange (the command's
  arguments and the reply's bytes) per step, over the names of the commands it has queued:
  MULTI opens a queue, a queued command is answered \<open>+QUEUED\<close>, an error leaves the queue as it
  is, and EXEC, DISCARD, RESET or an aborted EXEC closes it. Outside a transaction a command may be
  answered with anything, except that EXEC without MULTI is an error.
\<close>

abbreviation is_error :: "bytes \<Rightarrow> bool" where
  "is_error reply \<equiv> reply \<noteq> [] \<and> hd reply = CHR ''-''"

definition control_commands :: "string set" where
  "control_commands = {''MULTI'', ''EXEC'', ''DISCARD'', ''RESET''}"

inductive server_step :: "string list option \<Rightarrow> string list \<Rightarrow> bytes \<Rightarrow> string list option \<Rightarrow> bool" where
  open_tx: "to_ascii_uppercase c = ''MULTI'' \<Longrightarrow> server_step None (c # args) reply_ok (Some [])"
| enqueue: "to_ascii_uppercase c \<notin> control_commands \<Longrightarrow>
    server_step (Some q) (c # args) reply_queued (Some (q @ [to_ascii_uppercase c]))"
| reject: "is_error reply \<Longrightarrow> \<not> starts_with ''-EXECABORT '' reply \<Longrightarrow> server_step s argv reply s"
| exec: "to_ascii_uppercase c = ''EXEC'' \<Longrightarrow> ends_transaction reply \<Longrightarrow>
    server_step (Some q) (c # args) reply None"
| discard: "to_ascii_uppercase c = ''DISCARD'' \<Longrightarrow> server_step (Some q) (c # args) reply_ok None"
| reset: "to_ascii_uppercase c = ''RESET'' \<Longrightarrow> server_step s (c # args) reply None"
| plain: "to_ascii_uppercase c \<notin> control_commands \<Longrightarrow> server_step None (c # args) reply None"

inductive_cases exec_stepE: "server_step (Some q) (c # args) reply s'"

text \<open>A conversation: the exchanges so far, the server's queue and the tracker that saw them.\<close>

inductive conversation :: "string list option \<Rightarrow> transaction_commands \<Rightarrow> bool" where
  start: "conversation None transaction_default"
| exchange: "conversation s t \<Longrightarrow> server_step s argv reply s' \<Longrightarrow>
    conversation s' (snd (observe t argv reply))"

lemma reply_simps [simp]:
  "\<not> ends_transaction reply_ok" "\<not> ends_transaction reply_queued" "reply_ok \<noteq> reply_queued"
  "reply_queued \<noteq> reply_ok" "\<not> is_error reply_ok" "\<not> is_error reply_queued"
  by (simp_all add: reply_ok_def reply_queued_def ends_transaction_def starts_with_def)

lemma is_error_ends: "is_error r \<Longrightarrow> ends_transaction r \<longleftrightarrow> starts_with ''-EXECABORT '' r"
  by (auto simp: ends_transaction_def)

text \<open>An error reply, and any exchange the tracker is not interested in, leaves it unchanged.\<close>

lemma observe_error:
  assumes "is_error reply" and "\<not> starts_with ''-EXECABORT '' reply"
  shows "observe t argv reply = (None, t)"
proof -
  have "reply \<noteq> reply_ok" "reply \<noteq> reply_queued" using assms(1) by (auto simp: reply_ok_def reply_queued_def)
  then show ?thesis
    using assms is_error_ends [OF assms(1)] by (cases argv) (simp_all add: observe_def Let_def)
qed

lemma observe_simps:
  "to_ascii_uppercase c = ''MULTI'' \<Longrightarrow> queued (snd (observe t (c # a) reply_ok)) = Some []"
  "to_ascii_uppercase c = ''EXEC'' \<Longrightarrow> ends_transaction r \<Longrightarrow> fst (observe t (c # a) r) = queued t"
  "to_ascii_uppercase c = ''EXEC'' \<Longrightarrow> ends_transaction r \<Longrightarrow> queued (snd (observe t (c # a) r)) = None"
  "to_ascii_uppercase c \<notin> control_commands \<Longrightarrow> queued t = Some q \<Longrightarrow>
     queued (snd (observe t (c # a) reply_queued)) = Some (q @ [to_ascii_uppercase c])"
  by (simp_all add: observe_def Let_def control_commands_def)

text \<open>While the server has a queue, the tracker has the same one.\<close>

lemma conversation_queue: "conversation s t \<Longrightarrow> s = Some q \<Longrightarrow> queued t = Some q"
proof (induction arbitrary: q rule: conversation.induct)
  case (exchange s t argv reply s')
  from exchange.hyps(2) exchange.IH exchange.prems show ?case
    by (cases rule: server_step.cases) (simp_all add: observe_simps observe_error)
qed simp

lemma conversation_exec:
  assumes "conversation (Some q) t" and "to_ascii_uppercase c = ''EXEC''" and "ends_transaction reply"
  shows "fst (observe t (c # args) reply) = Some q \<and> queued (snd (observe t (c # args) reply)) = None"
  using conversation_queue [OF assms(1)] assms(2,3) by (simp add: observe_simps)

text \<open>C33: in every conversation with a server that follows the transaction protocol, however
  commands are rejected, aborted, discarded or reset on the way, the tracker's queue is the server's while a
  transaction is open, and the EXEC that ends it hands out exactly the commands the server ran,
  in order, and forgets them.\<close>

theorem tracker_simulates_server:
  assumes "conversation s t"
  shows "(\<forall>q. s = Some q \<longrightarrow> queued t = Some q)
     \<and> (\<forall>q c args reply. s = Some q \<and> to_ascii_uppercase c = ''EXEC'' \<and> ends_transaction reply \<longrightarrow>
          fst (observe t (c # args) reply) = Some q \<and> queued (snd (observe t (c # args) reply)) = None)"
  using conversation_queue [OF assms] conversation_exec assms by blast

lemma sample_conversation:
  "conversation (Some [''SMEMBERS''])
     (snd (observe (snd (observe (snd (observe transaction_default [''multi''] reply_ok))
        [''GET''] ''-ERR wrong number of arguments''))
        [''smembers'', ''k''] reply_queued))"
proof -
  have up: "to_ascii_uppercase ''multi'' = ''MULTI''" "to_ascii_uppercase ''smembers'' = ''SMEMBERS''"
    by (simp_all add: ascii_defs)
  have "server_step None [''multi''] reply_ok (Some [])" using up(1) by (rule open_tx)
  moreover have "server_step (Some []) [''GET''] ''-ERR wrong number of arguments'' (Some [])"
    by (rule reject) (simp_all add: starts_with_def)
  moreover have "server_step (Some []) [''smembers'', ''k''] reply_queued (Some [''SMEMBERS''])"
    using enqueue [of "''smembers''" "[]" "[''k'']"] up(2) by (simp add: control_commands_def)
  ultimately show ?thesis
    using conversation.start conversation.exchange by blast
qed

theorem tracker_simulates_server_witness:
  "queued (snd (observe (snd (observe (snd (observe transaction_default [''multi''] reply_ok))
        [''GET''] ''-ERR wrong number of arguments''))
        [''smembers'', ''k''] reply_queued)) = Some [''SMEMBERS'']"
  using tracker_simulates_server [OF sample_conversation] by simp

end
