(* ===== verification/Stats.thy ===== *)
theory Stats
  imports Evil_Types
begin

text \<open>
  \<open>stats.rs\<close>: the process-lifetime counters. Every update is one relaxed atomic
  read-modify-write, so concurrent updates are some sequence of the operations below; the
  counters are 64-bit and wrap. The periodic report logs what it reads of them.
\<close>

record stats =
  clients_total :: u64
  clients_active :: u64
  evil_updates :: u64
  evil_status_reads :: u64
  evil_rejected :: u64
  evil_resets :: u64
  mode_off :: u64
  mode_random :: u64
  mode_mutate :: u64
  mode_overflow :: u64

definition stats_default :: stats where
  "stats_default = \<lparr>clients_total = 0, clients_active = 0, evil_updates = 0,
     evil_status_reads = 0, evil_rejected = 0, evil_resets = 0,
     mode_off = 0, mode_random = 0, mode_mutate = 0, mode_overflow = 0\<rparr>"

definition client_connected :: "stats \<Rightarrow> stats" where
  "client_connected s =
     s\<lparr>clients_total := clients_total s + 1, clients_active := clients_active s + 1\<rparr>"

definition client_dropped :: "stats \<Rightarrow> stats" where
  "client_dropped s = s\<lparr>clients_active := clients_active s - 1\<rparr>"

definition configuration_updated :: "stats \<Rightarrow> stats" where
  "configuration_updated s = s\<lparr>evil_updates := evil_updates s + 1\<rparr>"

definition status_read :: "stats \<Rightarrow> stats" where
  "status_read s = s\<lparr>evil_status_reads := evil_status_reads s + 1\<rparr>"

definition command_rejected :: "stats \<Rightarrow> stats" where
  "command_rejected s = s\<lparr>evil_rejected := evil_rejected s + 1\<rparr>"

definition stats_reset :: "stats \<Rightarrow> stats" where
  "stats_reset s = s\<lparr>evil_resets := evil_resets s + 1\<rparr>"

definition mode_selected :: "evil_mode \<Rightarrow> stats \<Rightarrow> stats" where
  "mode_selected m s =
     (case m of
        ModeOff \<Rightarrow> s\<lparr>mode_off := mode_off s + 1\<rparr>
      | ModeRandom \<Rightarrow> s\<lparr>mode_random := mode_random s + 1\<rparr>
      | ModeMutate \<Rightarrow> s\<lparr>mode_mutate := mode_mutate s + 1\<rparr>
      | ModeOverflow \<Rightarrow> s\<lparr>mode_overflow := mode_overflow s + 1\<rparr>)"

text \<open>The fields of a report are loaded one after another without a lock: \<open>load\<close> takes each
  to the state its load finds. \<open>report\<close> logs one every second.\<close>

definition log_summary :: "(nat \<Rightarrow> stats) \<Rightarrow> (string \<times> u64) list" where
  "log_summary load =
     [(''clients_total'', clients_total (load 0)),
      (''clients_active'', clients_active (load 1)),
      (''evil_updates'', evil_updates (load 2)),
      (''evil_status_reads'', evil_status_reads (load 3)),
      (''evil_rejected'', evil_rejected (load 4)),
      (''evil_resets'', evil_resets (load 5)),
      (''mode_off'', mode_off (load 6)),
      (''mode_random'', mode_random (load 7)),
      (''mode_mutate'', mode_mutate (load 8)),
      (''mode_overflow'', mode_overflow (load 9))]"

section \<open>Accounting\<close>

text \<open>The operations as events; a guard is dropped at most once, so a run never drops more
  clients than are connected.\<close>

datatype stats_event = Connected | Dropped | Updated | StatusRead | Rejected | ResetDone
  | Selected evil_mode

fun stats_apply :: "stats_event \<Rightarrow> stats \<Rightarrow> stats" where
  "stats_apply Connected = client_connected"
| "stats_apply Dropped = client_dropped"
| "stats_apply Updated = configuration_updated"
| "stats_apply StatusRead = status_read"
| "stats_apply Rejected = command_rejected"
| "stats_apply ResetDone = stats_reset"
| "stats_apply (Selected m) = mode_selected m"

definition mode_counter :: "evil_mode \<Rightarrow> stats \<Rightarrow> u64" where
  "mode_counter m = (case m of ModeOff \<Rightarrow> mode_off | ModeRandom \<Rightarrow> mode_random
     | ModeMutate \<Rightarrow> mode_mutate | ModeOverflow \<Rightarrow> mode_overflow)"

lemmas stats_defs = client_connected_def client_dropped_def configuration_updated_def
  status_read_def command_rejected_def stats_reset_def mode_selected_def mode_counter_def

lemma stats_fold:
  "clients_total (fold stats_apply es s) = clients_total s + of_nat (count_list es Connected)"
  "clients_active (fold stats_apply es s) =
     clients_active s + of_nat (count_list es Connected) - of_nat (count_list es Dropped)"
  "evil_updates (fold stats_apply es s) = evil_updates s + of_nat (count_list es Updated)"
  "evil_resets (fold stats_apply es s) = evil_resets s + of_nat (count_list es ResetDone)"
  "mode_counter m (fold stats_apply es s) = mode_counter m s + of_nat (count_list es (Selected m))"
proof (induction es arbitrary: s)
  case (Cons e es)
  { case 1 show ?case using Cons.IH(1) by (cases e) (simp_all add: stats_defs split: evil_mode.splits) next
    case 2 show ?case using Cons.IH(2) by (cases e) (simp_all add: stats_defs split: evil_mode.splits) next
    case 3 show ?case using Cons.IH(3) by (cases e) (simp_all add: stats_defs split: evil_mode.splits) next
    case 4 show ?case using Cons.IH(4) by (cases e) (simp_all add: stats_defs split: evil_mode.splits) next
    case 5 show ?case using Cons.IH(5) by (cases e) (simp_all add: stats_defs split: evil_mode.splits) }
qed simp_all

text \<open>In every prefix of a run at most as many clients were dropped as connected; then the
  active count is exact: it neither underflows nor loses a concurrent update.\<close>

definition guarded :: "stats_event list \<Rightarrow> bool" where
  "guarded es \<longleftrightarrow> (\<forall>n\<le>length es. count_list (take n es) Dropped \<le> count_list (take n es) Connected)"

lemma stats_account_run:
  assumes "guarded es" and "length es < 2 ^ 64"
  shows "unat (clients_total (fold stats_apply es stats_default)) = count_list es Connected"
    and "unat (clients_active (fold stats_apply es stats_default))
      = count_list es Connected - count_list es Dropped"
    and "unat (mode_counter m (fold stats_apply es stats_default)) = count_list es (Selected m)"
proof -
  have small: "unat (of_nat (count_list es e) :: u64) = count_list es e" for e
  proof -
    have "count_list es e \<le> length es" by (rule count_le_length)
    then show ?thesis using assms(2) by (simp add: unsigned_of_nat take_bit_nat_eq_self_iff)
  qed
  have zero: "clients_total stats_default = 0" "clients_active stats_default = 0"
    "mode_counter m stats_default = 0"
    by (simp_all add: stats_default_def mode_counter_def split: evil_mode.splits)
  have le: "count_list es Dropped \<le> count_list es Connected"
    using assms(1) by (auto simp: guarded_def dest: spec [of _ "length es"])
  show "unat (clients_total (fold stats_apply es stats_default)) = count_list es Connected"
    "unat (mode_counter m (fold stats_apply es stats_default)) = count_list es (Selected m)"
    using zero by (simp_all add: stats_fold small)
  have "(of_nat (count_list es Dropped) :: u64) \<le> of_nat (count_list es Connected)"
    using le by (simp add: word_le_nat_alt small)
  then show "unat (clients_active (fold stats_apply es stats_default))
      = count_list es Connected - count_list es Dropped"
    using zero by (simp add: stats_fold unat_sub small)
qed

text \<open>The four mode counters together count every selection of a mode.\<close>

lemma mode_counters_total:
  assumes "guarded es" and "length es < 2 ^ 64"
  shows "(\<Sum>m\<in>UNIV. unat (mode_counter m (fold stats_apply es stats_default)))
    = length (filter (\<lambda>e. \<exists>m. e = Selected m) es)"
proof -
  have "(\<Sum>m\<in>UNIV. count_list es (Selected m)) = length (filter (\<lambda>e. \<exists>m. e = Selected m) es)"
  proof (induction es)
    case (Cons e es)
    have "(\<Sum>m\<in>UNIV. count_list (e # es) (Selected m))
        = (\<Sum>m\<in>UNIV. count_list es (Selected m)) + (\<Sum>m\<in>UNIV. if e = Selected m then 1 else 0)"
      by (subst sum.distrib [symmetric]) (rule sum.cong, simp_all)
    also have "(\<Sum>m\<in>UNIV. if e = Selected m then 1 else (0 :: nat)) = (if \<exists>m. e = Selected m then 1 else 0)"
      by (cases e) simp_all
    finally show ?case using Cons by simp
  qed simp
  then show ?thesis by (simp add: stats_account_run(3) [OF assms])
qed

text \<open>A report is not a snapshot: a client that connects between two loads makes the active
  count exceed the total. Loaded within one state, it never does.\<close>

lemma summary_may_tear:
  "log_summary (\<lambda>i. fold stats_apply (replicate i Connected) stats_default)
     ! 1 = (''clients_active'', 1)"
  "log_summary (\<lambda>i. fold stats_apply (replicate i Connected) stats_default)
     ! 0 = (''clients_total'', 0)"
  by (simp_all add: log_summary_def stats_default_def client_connected_def)

lemma summary_of_one_state:
  assumes "guarded es" and "length es < 2 ^ 64"
  shows "snd (log_summary (\<lambda>_. fold stats_apply es stats_default) ! 1)
    \<le> snd (log_summary (\<lambda>_. fold stats_apply es stats_default) ! 0)"
  using stats_account_run [OF assms] by (simp add: log_summary_def word_le_nat_alt)

end
