(* ===== verification/Cluster.thy ===== *)
theory Cluster
  imports Cli Resp
begin

text \<open>
  \<open>cluster.rs\<close>: the cluster topology the proxy discovers at start-up, the allocation of one
  local listener to every node, the synthesized CLUSTER SLOTS reply, and the map that takes an
  upstream address or node id to the local listener.

  A \<open>SocketAddr\<close> is the text of its IP address with its port: the program only copies it,
  changes its port, compares it and prints it. A \<open>BTreeMap\<close> is a HOL map.
\<close>

section \<open>Data\<close>

record socket_addr =
  sa_ip :: string
  sa_port :: nat

record local_node =
  upstream :: tcp_endpoint
  local_addr :: socket_addr
  node_id :: "bytes option"

record local_slot_range =
  slot_start :: nat
  slot_end :: nat
  primary :: local_node
  replicas :: "local_node list"

record proxy_target =
  target_upstream :: endpoint
  target_listen :: endpoint

datatype topology =
    Standalone proxy_target
  | Cluster "proxy_target list" "local_slot_range list"

record redirection_map =
  local_by_upstream :: "string \<rightharpoonup> string"
  local_by_unique_upstream_port :: "nat \<rightharpoonup> string"
  local_by_node_id :: "bytes \<rightharpoonup> string"

definition redirection_map_default :: redirection_map where
  "redirection_map_default = \<lparr>local_by_upstream = Map.empty,
     local_by_unique_upstream_port = Map.empty, local_by_node_id = Map.empty\<rparr>"

definition socket_addr_to_endpoint :: "socket_addr \<Rightarrow> tcp_endpoint" where
  "socket_addr_to_endpoint a = \<lparr>host = sa_ip a, port = sa_port a\<rparr>"

definition local_text :: "local_node \<Rightarrow> string" where
  "local_text n = connect_addr (socket_addr_to_endpoint (local_addr n))"

definition slot_nodes :: "local_slot_range \<Rightarrow> local_node list" where
  "slot_nodes s = primary s # replicas s"

section \<open>The redirection map\<close>

type_synonym port_map = "nat \<rightharpoonup> string option"

text \<open>The entry API: a port keeps its listener only while every mapping agrees on it.\<close>

definition insert_port :: "nat \<Rightarrow> string \<Rightarrow> port_map \<Rightarrow> port_map" where
  "insert_port p local m =
     m(p \<mapsto> (case m p of
               None \<Rightarrow> Some local
             | Some existing \<Rightarrow> if existing \<noteq> Some local then None else existing))"

definition insert_mapping ::
  "tcp_endpoint \<times> string \<Rightarrow> (string \<rightharpoonup> string) \<times> port_map \<Rightarrow> (string \<rightharpoonup> string) \<times> port_map" where
  "insert_mapping x ms = (case (x, ms) of ((up, local), (by_up, by_port)) \<Rightarrow>
     (by_up(connect_addr up \<mapsto> local), insert_port (port up) local by_port))"

definition from_mappings :: "(tcp_endpoint \<times> string) list \<Rightarrow> redirection_map" where
  "from_mappings mappings =
     (case fold insert_mapping mappings (Map.empty, Map.empty) of (by_up, by_port) \<Rightarrow>
        \<lparr>local_by_upstream = by_up,
         local_by_unique_upstream_port = (\<lambda>p. Option.bind (by_port p) (\<lambda>local. local)),
         local_by_node_id = Map.empty\<rparr>)"

definition insert_node_id :: "local_node \<Rightarrow> redirection_map \<Rightarrow> redirection_map" where
  "insert_node_id n m =
     (case node_id n of
        Some i \<Rightarrow> m\<lparr>local_by_node_id := (local_by_node_id m)(i \<mapsto> local_text n)\<rparr>
      | None \<Rightarrow> m)"

definition from_slot_ranges :: "local_slot_range list \<Rightarrow> redirection_map" where
  "from_slot_ranges slots =
     (let nodes = concat (map slot_nodes slots);
          m = from_mappings (map (\<lambda>n. (upstream n, local_text n)) nodes)
      in fold insert_node_id nodes m)"

definition or_else :: "'a option \<Rightarrow> 'a option \<Rightarrow> 'a option" where
  "or_else x y = (case x of Some a \<Rightarrow> Some a | None \<Rightarrow> y)"

definition rewrite_server :: "redirection_map \<Rightarrow> string \<Rightarrow> string option" where
  "rewrite_server m server =
     (case ok (parse_tcp_endpoint server) of
        Some e \<Rightarrow> or_else (local_by_upstream m (connect_addr e))
                    (local_by_unique_upstream_port m (port e))
      | None \<Rightarrow>
          Option.bind (rsplit_once CHR '':'' server) (\<lambda>(_, p).
          Option.bind (ok (parse_u16 p)) (local_by_unique_upstream_port m)))"

definition rewrite_node :: "redirection_map \<Rightarrow> bytes option \<Rightarrow> string \<Rightarrow> string option" where
  "rewrite_node m i server =
     or_else (Option.bind i (local_by_node_id m)) (rewrite_server m server)"

section \<open>The topology\<close>

fun targets :: "topology \<Rightarrow> proxy_target list" where
  "targets (Standalone t) = [t]"
| "targets (Cluster ts slots) = ts"

definition node_to_resp_frame :: "local_node \<Rightarrow> frame" where
  "node_to_resp_frame n =
     (let i = (case node_id n of Some i \<Rightarrow> i
               | None \<Rightarrow> ''evilresp-'' @ show_nat (sa_port (local_addr n)))
      in Array (Some [BulkString (Some (sa_ip (local_addr n))),
           Integer (of_nat (sa_port (local_addr n))), BulkString (Some i)]))"

definition slot_to_resp_frame :: "local_slot_range \<Rightarrow> frame" where
  "slot_to_resp_frame s =
     Array (Some ([Integer (of_nat (slot_start s)), Integer (of_nat (slot_end s))]
       @ map node_to_resp_frame (slot_nodes s)))"

fun local_slots_response :: "topology \<Rightarrow> frame option" where
  "local_slots_response (Standalone t) = None"
| "local_slots_response (Cluster ts slots) = Some (Array (Some (map slot_to_resp_frame slots)))"

fun local_redirection_map :: "topology \<Rightarrow> redirection_map" where
  "local_redirection_map (Standalone t) = redirection_map_default"
| "local_redirection_map (Cluster ts slots) = from_slot_ranges slots"

section \<open>Allocating listeners\<close>

record allocation =
  by_endpoint :: "string \<rightharpoonup> socket_addr"
  by_id :: "bytes \<rightharpoonup> socket_addr"
  id_by_local :: "socket_addr \<rightharpoonup> bytes"
  allocated :: "proxy_target list"

definition allocation_empty :: allocation where
  "allocation_empty = \<lparr>by_endpoint = Map.empty, by_id = Map.empty, id_by_local = Map.empty,
     allocated = []\<rparr>"

definition bind_id :: "bytes \<Rightarrow> socket_addr \<Rightarrow> allocation \<Rightarrow> allocation" where
  "bind_id i a s = s\<lparr>by_id := (by_id s)(i \<mapsto> a), id_by_local := (id_by_local s)(a \<mapsto> i)\<rparr>"

text \<open>The branch of a node that is known already, by its id or by its endpoint.\<close>

definition reuse_local :: "local_node \<Rightarrow> socket_addr \<Rightarrow> allocation \<Rightarrow> app_error + allocation" where
  "reuse_local n a s =
     (let s = s\<lparr>by_endpoint := (by_endpoint s)(connect_addr (upstream n) \<mapsto> a)\<rparr>
      in case node_id n of
           None \<Rightarrow> Inr s
         | Some i \<Rightarrow>
             if (case id_by_local s a of Some existing \<Rightarrow> existing \<noteq> i | None \<Rightarrow> False)
             then Inl (proxy_error ''cluster endpoint has conflicting node IDs'')
             else Inr (bind_id i a s))"

definition allocate_local :: "socket_addr \<Rightarrow> local_node \<Rightarrow> allocation \<Rightarrow> app_error + allocation" where
  "allocate_local listen n s =
     (let offset = length (allocated s) in
      if offset \<ge> 65536 then Inl (proxy_error ''cluster has more local nodes than u16 ports'')
      else if sa_port listen + offset \<ge> 65536
      then Inl (proxy_error (''cluster local port mapping from '' @ show_nat (sa_port listen)
             @ '' overflows u16''))
      else
        (let a = listen\<lparr>sa_port := sa_port listen + offset\<rparr>;
             s = s\<lparr>by_endpoint := (by_endpoint s)(connect_addr (upstream n) \<mapsto> a)\<rparr>;
             s = (case node_id n of Some i \<Rightarrow> bind_id i a s | None \<Rightarrow> s)
         in Inr (s\<lparr>allocated := allocated s @ [\<lparr>target_upstream = Tcp (upstream n),
              target_listen = Tcp (socket_addr_to_endpoint a)\<rparr>]\<rparr>)))"

definition allocate_node :: "socket_addr \<Rightarrow> local_node \<Rightarrow> allocation \<Rightarrow> app_error + allocation" where
  "allocate_node listen n s =
     (let known = by_endpoint s (connect_addr (upstream n));
          named = Option.bind (node_id n) (by_id s)
      in if (case (known, named) of (Some e, Some i) \<Rightarrow> e \<noteq> i | _ \<Rightarrow> False)
         then Inl (proxy_error ''cluster node ID conflicts with endpoint mapping'')
         else case or_else named known of
                Some a \<Rightarrow> reuse_local n a s
              | None \<Rightarrow> allocate_local listen n s)"

fun allocate_nodes :: "socket_addr \<Rightarrow> local_node list \<Rightarrow> allocation \<Rightarrow> app_error + allocation" where
  "allocate_nodes listen [] s = Inr s"
| "allocate_nodes listen (n # ns) s = and_then (allocate_node listen n s) (allocate_nodes listen ns)"

text \<open>Every primary is allocated before every replica.\<close>

definition allocation_order :: "local_slot_range list \<Rightarrow> local_node list" where
  "allocation_order slots = map primary slots @ concat (map replicas slots)"

text \<open>The second pass indexes \<open>local_by_upstream\<close>, which panics on a missing key: \<open>None\<close>.\<close>

definition set_local :: "allocation \<Rightarrow> local_node \<Rightarrow> local_node option" where
  "set_local s n =
     map_option (\<lambda>a. n\<lparr>local_addr := a\<rparr>) (by_endpoint s (connect_addr (upstream n)))"

definition set_locals :: "allocation \<Rightarrow> local_slot_range \<Rightarrow> local_slot_range option" where
  "set_locals s r =
     Option.bind (set_local s (primary r)) (\<lambda>p.
     Option.bind (collect_options (set_local s) (replicas r)) (\<lambda>rs.
     Some (r\<lparr>primary := p, replicas := rs\<rparr>)))"

definition map_cluster_slots ::
  "local_slot_range list \<Rightarrow> socket_addr \<Rightarrow> app_error + topology option" where
  "map_cluster_slots slots listen =
     (if sa_port listen = 0
      then Inl (proxy_error ''cluster proxy mode requires a non-zero --listen port'')
      else and_then (allocate_nodes listen (allocation_order slots) allocation_empty) (\<lambda>s.
        Inr (map_option (Cluster (allocated s)) (collect_options (set_locals s) slots))))"

section \<open>Reading CLUSTER SLOTS\<close>

definition u16_of :: "i64 \<Rightarrow> nat option" where
  "u16_of v = (if 0 \<le> sint v \<and> sint v < 65536 then Some (nat (sint v)) else None)"

definition as_slot :: "frame option \<Rightarrow> string \<Rightarrow> app_error + nat" where
  "as_slot f name =
     (case f of
        Some (Integer v) \<Rightarrow>
          ok_or (proxy_error (name @ '' '' @ show_int (sint v) @ '' is outside u16 range'')) (u16_of v)
      | _ \<Rightarrow> Inl (proxy_error (name @ '' is not an integer'')))"

definition announced_host :: "bytes \<Rightarrow> tcp_endpoint \<Rightarrow> string" where
  "announced_host b bootstrap =
     (let h = from_utf8_lossy b in if h = [] \<or> h = ''?'' then host bootstrap else h)"

definition node_host :: "frame \<Rightarrow> tcp_endpoint \<Rightarrow> app_error + string" where
  "node_host f bootstrap =
     (case f of
        BulkString (Some b) \<Rightarrow> Inr (announced_host b bootstrap)
      | VerbatimString b \<Rightarrow> Inr (announced_host b bootstrap)
      | SimpleString h \<Rightarrow> Inr h
      | _ \<Rightarrow> Inl (proxy_error ''cluster slot node host is not a string''))"

definition node_port :: "frame \<Rightarrow> app_error + nat" where
  "node_port f =
     (case f of
        Integer p \<Rightarrow> ok_or (proxy_error (''invalid cluster node port '' @ show_int (sint p))) (u16_of p)
      | _ \<Rightarrow> Inl (proxy_error ''cluster slot node port is not an integer''))"

definition announced_id :: "frame option \<Rightarrow> bytes option" where
  "announced_id f =
     (case f of
        Some (BulkString (Some b)) \<Rightarrow> if b = [] then None else Some b
      | Some (VerbatimString b) \<Rightarrow> if b = [] then None else Some b
      | Some (SimpleString b) \<Rightarrow> if b = [] then None else Some b
      | _ \<Rightarrow> None)"

definition nth_opt :: "'a list \<Rightarrow> nat \<Rightarrow> 'a option" where
  "nth_opt xs i = (if i < length xs then Some (xs ! i) else None)"

definition parse_node :: "tcp_endpoint \<Rightarrow> frame \<Rightarrow> app_error + local_node" where
  "parse_node bootstrap node =
     (case node of
        Array (Some (h # p # others)) \<Rightarrow>
          and_then (node_host h bootstrap) (\<lambda>h. and_then (node_port p) (\<lambda>p.
            Inr \<lparr>upstream = \<lparr>host = h, port = p\<rparr>,
                 local_addr = \<lparr>sa_ip = ''127.0.0.1'', sa_port = 0\<rparr>,
                 node_id = announced_id (nth_opt others 0)\<rparr>))
      | Array (Some _) \<Rightarrow> Inl (proxy_error ''cluster slot node has fewer than two items'')
      | _ \<Rightarrow> Inl (proxy_error ''cluster slot node is not an array''))"

definition parse_slot_range :: "tcp_endpoint \<Rightarrow> frame \<Rightarrow> app_error + local_slot_range" where
  "parse_slot_range bootstrap item =
     (case item of
        Array (Some parts) \<Rightarrow>
          if length parts < 3
          then Inl (proxy_error ''cluster slot entry has fewer than three items'')
          else
            and_then (as_slot (nth_opt parts 0) ''start slot'') (\<lambda>a.
            and_then (as_slot (nth_opt parts 1) ''end slot'') (\<lambda>b.
            and_then (parse_node bootstrap (parts ! 2)) (\<lambda>p.
            and_then (collect_results (parse_node bootstrap) (drop 3 parts)) (\<lambda>rs.
              Inr \<lparr>slot_start = a, slot_end = b, primary = p, replicas = rs\<rparr>))))
      | _ \<Rightarrow> Inl (proxy_error ''cluster slot entry is not an array''))"

definition parse_cluster_slots :: "frame list \<Rightarrow> tcp_endpoint \<Rightarrow> app_error + local_slot_range list" where
  "parse_cluster_slots items bootstrap = collect_results (parse_slot_range bootstrap) items"

definition cluster_slots_command :: frame where
  "cluster_slots_command =
     Array (Some [BulkString (Some ''CLUSTER''), BulkString (Some ''SLOTS'')])"

text \<open>What is done with the reply frame; \<open>dbg\<close> is the derived \<open>Debug\<close> form of a frame.\<close>

definition read_slots_reply ::
  "(frame \<Rightarrow> string) \<Rightarrow> frame \<Rightarrow> tcp_endpoint \<Rightarrow> app_error + local_slot_range list" where
  "read_slots_reply dbg f proxy =
     (case f of
        Array (Some items) \<Rightarrow> parse_cluster_slots items proxy
      | SimpleError e \<Rightarrow> Inl (proxy_error (''CLUSTER SLOTS failed: '' @ e))
      | other \<Rightarrow> Inl (proxy_error (''CLUSTER SLOTS returned unexpected frame '' @ dbg other)))"

text \<open>
  \<open>discover\<close>: \<open>fetch\<close> stands for the exchange with the upstream (connect, send the command, read
  and parse one frame), \<open>parse_addr\<close> for the parsing of a socket address. Any failure of the
  probe falls back to a standalone proxy.
\<close>

definition standalone :: "endpoint \<Rightarrow> endpoint \<Rightarrow> topology" where
  "standalone up listen = Standalone \<lparr>target_upstream = up, target_listen = listen\<rparr>"

definition discover ::
  "(tcp_endpoint \<Rightarrow> app_error + frame) \<Rightarrow> (string \<Rightarrow> app_error + socket_addr) \<Rightarrow> (frame \<Rightarrow> string)
   \<Rightarrow> endpoint \<Rightarrow> endpoint \<Rightarrow> app_error + topology option" where
  "discover fetch parse_addr dbg proxy listen =
     (case (as_tcp proxy, as_tcp listen) of
        (Some p, Some l) \<Rightarrow>
          and_then (parse_addr (connect_addr l)) (\<lambda>addr.
            case and_then (fetch p) (\<lambda>f. read_slots_reply dbg f p) of
              Inr [] \<Rightarrow> Inr (Some (standalone (Tcp p) listen))
            | Inl _ \<Rightarrow> Inr (Some (standalone (Tcp p) listen))
            | Inr slots \<Rightarrow> map_cluster_slots slots addr)
      | _ \<Rightarrow> Inr (Some (standalone proxy listen)))"

end
