(* ===== verification/Cluster_Props.thy ===== *)
theory Cluster_Props
  imports Cluster
begin

text \<open>
  The allocation of local listeners: its invariant, what the finished topology promises to every
  discovered node, and the local addresses the redirection map can answer with.
\<close>

section \<open>Invariant of the allocation\<close>

abbreviation nth_local :: "socket_addr \<Rightarrow> nat \<Rightarrow> socket_addr" where
  "nth_local listen i \<equiv> listen\<lparr>sa_port := sa_port listen + i\<rparr>"

definition mapped_ok :: "socket_addr \<Rightarrow> allocation \<Rightarrow> bool" where
  "mapped_ok listen s \<longleftrightarrow>
     (\<forall>a \<in> ran (by_endpoint s) \<union> ran (by_id s). \<exists>i < length (allocated s). a = nth_local listen i)"

definition target_ok :: "socket_addr \<Rightarrow> (string \<rightharpoonup> socket_addr) \<Rightarrow> nat \<Rightarrow> proxy_target \<Rightarrow> bool" where
  "target_ok listen m i t \<longleftrightarrow> sa_port listen + i < 65536 \<and>
     (\<exists>e. t = \<lparr>target_upstream = Tcp e,
              target_listen = Tcp (socket_addr_to_endpoint (nth_local listen i))\<rparr>
        \<and> m (connect_addr e) = Some (nth_local listen i))"

definition allocated_ok :: "socket_addr \<Rightarrow> allocation \<Rightarrow> bool" where
  "allocated_ok listen s \<longleftrightarrow>
     (\<forall>i < length (allocated s). target_ok listen (by_endpoint s) i (allocated s ! i))"

definition ids_ok :: "allocation \<Rightarrow> bool" where
  "ids_ok s \<longleftrightarrow> (\<forall>i a. by_id s i = Some a \<longleftrightarrow> id_by_local s a = Some i)"

definition alloc_ok :: "socket_addr \<Rightarrow> allocation \<Rightarrow> bool" where
  "alloc_ok listen s \<longleftrightarrow> mapped_ok listen s \<and> allocated_ok listen s \<and> ids_ok s"

text \<open>A node is registered with an address; later allocations only extend the maps.\<close>

definition registered :: "allocation \<Rightarrow> local_node \<Rightarrow> bool" where
  "registered s n \<longleftrightarrow> (\<exists>a. by_endpoint s (connect_addr (upstream n)) = Some a
     \<and> (\<forall>i. node_id n = Some i \<longrightarrow> by_id s i = Some a))"

definition extends :: "allocation \<Rightarrow> allocation \<Rightarrow> bool" where
  "extends s s' \<longleftrightarrow> by_endpoint s \<subseteq>\<^sub>m by_endpoint s' \<and> by_id s \<subseteq>\<^sub>m by_id s'"

lemma extends_refl [simp]: "extends s s"
  by (simp add: extends_def)

lemma extends_trans: "extends s t \<Longrightarrow> extends t u \<Longrightarrow> extends s u"
  by (auto simp: extends_def intro: map_le_trans)

lemma extends_upd:
  assumes "by_endpoint s k = None \<or> by_endpoint s k = Some a"
  shows "by_endpoint s \<subseteq>\<^sub>m (by_endpoint s)(k \<mapsto> a)"
  using assms by (auto simp: map_le_def)

lemma map_le_Some: "m \<subseteq>\<^sub>m m' \<Longrightarrow> m k = Some v \<Longrightarrow> m' k = Some v"
  by (force simp: map_le_def)

lemma registered_extends: "registered s n \<Longrightarrow> extends s s' \<Longrightarrow> registered s' n"
  unfolding registered_def extends_def by (meson map_le_Some)

lemma alloc_ok_empty [simp]: "alloc_ok listen allocation_empty"
  by (simp add: alloc_ok_def mapped_ok_def allocated_ok_def ids_ok_def allocation_empty_def)

lemma target_ok_mono: "target_ok listen m i t \<Longrightarrow> m \<subseteq>\<^sub>m m' \<Longrightarrow> target_ok listen m' i t"
  unfolding target_ok_def by (metis map_le_Some)

lemma mapped_extend:
  assumes "mapped_ok listen s" and "\<exists>i < length (allocated s). a = nth_local listen i"
  shows "mapped_ok listen (s\<lparr>by_endpoint := (by_endpoint s)(k \<mapsto> a)\<rparr>)"
    and "mapped_ok listen (bind_id i a s)"
  using assms unfolding mapped_ok_def bind_id_def by (auto simp: ran_def split: if_splits)

lemma ids_bind:
  assumes "ids_ok s" and "by_id s i = None \<or> by_id s i = Some a"
    and "id_by_local s a = None \<or> id_by_local s a = Some i"
  shows "ids_ok (bind_id i a s)"
proof (cases "by_id s i = Some a")
  case True
  then have "(by_id s)(i \<mapsto> a) = by_id s" "(id_by_local s)(a \<mapsto> i) = id_by_local s"
    using assms(1) by (simp_all add: ids_ok_def fun_upd_idem)
  then show ?thesis using assms(1) by (simp add: ids_ok_def bind_id_def)
next
  case False
  then have "by_id s i = None" "id_by_local s a = None" using assms by (auto simp: ids_ok_def)
  then have "by_id s j \<noteq> Some a" "id_by_local s b \<noteq> Some i" for j b
    using assms(1) unfolding ids_ok_def by (metis option.distinct(1))+
  then show ?thesis using assms(1) by (auto simp: ids_ok_def bind_id_def)
qed

lemma reuse_local_step:
  assumes ok: "alloc_ok listen s" and r: "reuse_local n a s = Inr s'"
    and a: "or_else (Option.bind (node_id n) (by_id s)) (by_endpoint s (connect_addr (upstream n))) = Some a"
    and agree: "\<And>e i. by_endpoint s (connect_addr (upstream n)) = Some e \<Longrightarrow>
        Option.bind (node_id n) (by_id s) = Some i \<Longrightarrow> e = i"
  shows "alloc_ok listen s' \<and> extends s s' \<and> registered s' n"
proof -
  let ?k = "connect_addr (upstream n)"
  let ?s = "s\<lparr>by_endpoint := (by_endpoint s)(?k \<mapsto> a)\<rparr>"
  have k: "by_endpoint s ?k = None \<or> by_endpoint s ?k = Some a"
  proof (cases "Option.bind (node_id n) (by_id s)")
    case None
    then show ?thesis using a by (simp add: or_else_def)
  next
    case (Some i)
    then show ?thesis using a agree [of _ i] by (cases "by_endpoint s ?k") (simp_all add: or_else_def)
  qed
  have known: "\<exists>i < length (allocated s). a = nth_local listen i"
  proof -
    have "a \<in> ran (by_endpoint s) \<union> ran (by_id s)"
      using a by (cases "Option.bind (node_id n) (by_id s)"; cases "node_id n")
        (auto simp: or_else_def intro: ranI)
    then show ?thesis using ok by (auto simp: alloc_ok_def mapped_ok_def)
  qed
  have "allocated_ok listen ?s"
    using ok target_ok_mono [OF _ extends_upd [OF k]] by (simp add: alloc_ok_def allocated_ok_def)
  then have up: "alloc_ok listen ?s" "extends s ?s"
    using ok mapped_extend(1) [of listen s a ?k] known extends_upd [OF k]
    by (simp_all add: alloc_ok_def ids_ok_def extends_def)
  show ?thesis
  proof (cases "node_id n")
    case None
    then have "s' = ?s" using r by (simp add: reuse_local_def)
    then show ?thesis using None up by (simp add: registered_def)
  next
    case (Some i)
    from r Some have s': "s' = bind_id i a ?s" and free: "id_by_local s a = None \<or> id_by_local s a = Some i"
      by (auto simp: reuse_local_def Let_def split: if_splits option.splits)
    have i: "by_id s i = None \<or> by_id s i = Some a"
      using a Some by (cases "by_id s i") (auto simp: or_else_def)
    have "ids_ok s'"
      unfolding s' using up(1) i free by (intro ids_bind) (auto simp: alloc_ok_def)
    moreover have "mapped_ok listen s'"
      unfolding s' using up(1) known by (intro mapped_extend(2)) (auto simp: alloc_ok_def)
    moreover have "allocated_ok listen s'"
      using up(1) unfolding s' by (simp add: alloc_ok_def allocated_ok_def bind_id_def)
    moreover have "extends s s'"
      using up(2) i unfolding s' by (auto simp: extends_def bind_id_def map_le_def)
    moreover have "registered s' n"
      unfolding s' registered_def using Some by (simp add: bind_id_def)
    ultimately show ?thesis by (simp add: alloc_ok_def)
  qed
qed

lemma allocate_local_step:
  assumes ok: "alloc_ok listen s" and r: "allocate_local listen n s = Inr s'"
    and fresh: "by_endpoint s (connect_addr (upstream n)) = None"
      "Option.bind (node_id n) (by_id s) = None"
  shows "alloc_ok listen s' \<and> extends s s' \<and> registered s' n"
proof -
  let ?k = "connect_addr (upstream n)" and ?len = "length (allocated s)"
  let ?a = "nth_local listen ?len"
  let ?s = "s\<lparr>by_endpoint := (by_endpoint s)(?k \<mapsto> ?a)\<rparr>"
  let ?t = "case node_id n of Some i \<Rightarrow> bind_id i ?a ?s | None \<Rightarrow> ?s"
  let ?new = "\<lparr>target_upstream = Tcp (upstream n), target_listen = Tcp (socket_addr_to_endpoint ?a)\<rparr>"
  from r have port: "sa_port listen + ?len < 65536"
    and s': "s' = ?t\<lparr>allocated := allocated ?t @ [?new]\<rparr>"
    by (auto simp: allocate_local_def Let_def split: if_splits)
  have al: "allocated s' = allocated s @ [?new]" and be: "by_endpoint s' = (by_endpoint s)(?k \<mapsto> ?a)"
    unfolding s' by (auto simp: bind_id_def split: option.splits)
  have bi: "by_id s' = (case node_id n of Some i \<Rightarrow> (by_id s)(i \<mapsto> ?a) | None \<Rightarrow> by_id s)"
    and il: "id_by_local s' = (case node_id n of Some i \<Rightarrow> (id_by_local s)(?a \<mapsto> i) | None \<Rightarrow> id_by_local s)"
    unfolding s' by (auto simp: bind_id_def split: option.splits)
  have unused: "id_by_local s ?a = None"
  proof (rule ccontr)
    assume "id_by_local s ?a \<noteq> None"
    then obtain i where "by_id s i = Some ?a" using ok by (auto simp: alloc_ok_def ids_ok_def)
    then have "?a \<in> ran (by_id s)" by (auto simp: ran_def)
    then obtain j where "j < ?len" "?a = nth_local listen j"
      using ok by (auto simp: alloc_ok_def mapped_ok_def)
    then show False by (cases listen) simp
  qed
  have "mapped_ok listen s'"
  proof -
    have "ran (by_endpoint s') \<union> ran (by_id s') \<subseteq> insert ?a (ran (by_endpoint s) \<union> ran (by_id s))"
      unfolding be bi by (auto simp: ran_def split: if_splits option.splits)
    then show ?thesis
      unfolding mapped_ok_def al length_append_singleton
    proof (intro ballI)
      fix b assume "b \<in> ran (by_endpoint s') \<union> ran (by_id s')"
        and "ran (by_endpoint s') \<union> ran (by_id s') \<subseteq> insert ?a (ran (by_endpoint s) \<union> ran (by_id s))"
      then consider "b = ?a" | "b \<in> ran (by_endpoint s) \<union> ran (by_id s)" by blast
      then show "\<exists>i < Suc ?len. b = nth_local listen i"
      proof cases
        case 2
        then show ?thesis using ok less_SucI unfolding alloc_ok_def mapped_ok_def by blast
      qed blast
    qed
  qed
  moreover have "allocated_ok listen s'"
  proof -
    have le: "by_endpoint s \<subseteq>\<^sub>m by_endpoint s'"
      unfolding be using extends_upd fresh(1) by blast
    show ?thesis
      unfolding allocated_ok_def al length_append_singleton
    proof (intro allI impI)
      fix i assume i: "i < Suc ?len"
      show "target_ok listen (by_endpoint s') i ((allocated s @ [?new]) ! i)"
      proof (cases "i = ?len")
        case True
        then show ?thesis using port by (simp add: target_ok_def be exI [of _ "upstream n"])
      next
        case False
        then have "i < ?len" using i by simp
        then show ?thesis
          using ok target_ok_mono [OF _ le] by (simp add: nth_append alloc_ok_def allocated_ok_def)
      qed
    qed
  qed
  moreover have "ids_ok s'"
  proof (cases "node_id n")
    case (Some i)
    then have "by_id s i = None" using fresh(2) by simp
    then have "ids_ok (bind_id i ?a s)" using ok unused by (intro ids_bind) (simp_all add: alloc_ok_def)
    then show ?thesis using Some by (simp add: ids_ok_def bi il bind_id_def)
  qed (use ok in \<open>simp add: ids_ok_def bi il alloc_ok_def\<close>)
  moreover have "extends s s'"
    using fresh unfolding extends_def be bi by (auto simp: map_le_def split: option.splits)
  moreover have "registered s' n"
    unfolding registered_def be bi by simp
  ultimately show ?thesis by (simp add: alloc_ok_def)
qed

lemma allocate_node_step:
  assumes "alloc_ok listen s" and "allocate_node listen n s = Inr s'"
  shows "alloc_ok listen s' \<and> extends s s' \<and> registered s' n"
proof -
  let ?known = "by_endpoint s (connect_addr (upstream n))" and ?named = "Option.bind (node_id n) (by_id s)"
  have agree: "\<And>e i. ?known = Some e \<Longrightarrow> ?named = Some i \<Longrightarrow> e = i"
    using assms(2) by (auto simp: allocate_node_def Let_def split: if_splits)
  show ?thesis
  proof (cases "or_else ?named ?known")
    case None
    then have "?known = None" "?named = None" by (auto simp: or_else_def split: option.splits)
    then show ?thesis
      using assms allocate_local_step [OF assms(1)] by (simp add: allocate_node_def or_else_def)
  next
    case (Some a)
    then have "reuse_local n a s = Inr s'"
      using assms(2) by (auto simp: allocate_node_def Let_def split: if_splits)
    then show ?thesis using reuse_local_step [OF assms(1) _ Some agree] by blast
  qed
qed

lemma allocate_nodes_steps:
  assumes "alloc_ok listen s" and "allocate_nodes listen ns s = Inr s'"
  shows "alloc_ok listen s' \<and> extends s s' \<and> (\<forall>n\<in>set ns. registered s' n)"
  using assms
proof (induction ns arbitrary: s)
  case (Cons n ns)
  then obtain t where t: "allocate_node listen n s = Inr t" "allocate_nodes listen ns t = Inr s'"
    by (auto simp: result_simps)
  note one = allocate_node_step [OF Cons.prems(1) t(1)]
  with Cons.IH [OF _ t(2)] show ?case
    by (auto intro: extends_trans registered_extends)
qed simp

section \<open>What the topology promises\<close>

abbreviation all_nodes :: "local_slot_range list \<Rightarrow> local_node list" where
  "all_nodes slots \<equiv> concat (map slot_nodes slots)"

definition same_node :: "local_node \<Rightarrow> local_node \<Rightarrow> bool" where
  "same_node n n' \<longleftrightarrow> upstream n' = upstream n \<and> node_id n' = node_id n"

definition same_range :: "local_slot_range \<Rightarrow> local_slot_range \<Rightarrow> bool" where
  "same_range r r' \<longleftrightarrow> slot_start r' = slot_start r \<and> slot_end r' = slot_end r
     \<and> list_all2 same_node (slot_nodes r) (slot_nodes r')"

definition placed :: "allocation \<Rightarrow> local_node \<Rightarrow> bool" where
  "placed s n \<longleftrightarrow> registered s n \<and> by_endpoint s (connect_addr (upstream n)) = Some (local_addr n)"

lemma set_allocation_order: "set (allocation_order slots) = set (all_nodes slots)"
  by (auto simp: allocation_order_def slot_nodes_def)

lemma set_local_registered:
  assumes "registered s n"
  obtains n' where "set_local s n = Some n'" "same_node n n'" "placed s n'"
proof -
  from assms obtain a where a: "by_endpoint s (connect_addr (upstream n)) = Some a"
      "\<forall>i. node_id n = Some i \<longrightarrow> by_id s i = Some a"
    by (auto simp: registered_def)
  then show ?thesis
    by (intro that [of "n\<lparr>local_addr := a\<rparr>"])
      (simp_all add: registered_def set_local_def same_node_def placed_def)
qed

lemma collect_options_total:
  assumes "\<forall>x\<in>set xs. \<exists>y. f x = Some y \<and> P x y"
  shows "\<exists>ys. collect_options f xs = Some ys \<and> list_all2 P xs ys"
  using assms by (induction xs) auto

lemma list_all2_second: "list_all2 (\<lambda>x y. P x y \<and> Q y) xs ys \<longleftrightarrow> list_all2 P xs ys \<and> (\<forall>y\<in>set ys. Q y)"
  by (induction xs arbitrary: ys) (auto simp: list_all2_Cons1)

lemma set_locals_registered:
  assumes "\<forall>n\<in>set (slot_nodes r). registered s n"
  shows "\<exists>r'. set_locals s r = Some r' \<and> same_range r r' \<and> (\<forall>n\<in>set (slot_nodes r'). placed s n)"
proof -
  have one: "\<exists>n'. set_local s n = Some n' \<and> same_node n n' \<and> placed s n'" if "registered s n" for n
    using set_local_registered [OF that] by metis
  obtain p where p: "set_local s (primary r) = Some p" "same_node (primary r) p" "placed s p"
    using one assms by (auto simp: slot_nodes_def)
  obtain rs where rs: "collect_options (set_local s) (replicas r) = Some rs"
      "list_all2 (\<lambda>n n'. same_node n n' \<and> placed s n') (replicas r) rs"
    using collect_options_total [of "replicas r" "set_local s" "\<lambda>n n'. same_node n n' \<and> placed s n'"]
      one assms by (auto simp: slot_nodes_def)
  from p rs show ?thesis
    by (simp add: set_locals_def same_range_def slot_nodes_def list_all2_second)
qed

lemma target_upstreams:
  assumes "allocate_nodes listen ns s = Inr s'" and "t \<in> set (allocated s')"
  shows "t \<in> set (allocated s) \<or> (\<exists>n\<in>set ns. target_upstream t = Tcp (upstream n))"
  using assms
proof (induction ns arbitrary: s)
  case (Cons n ns)
  then obtain u where u: "allocate_node listen n s = Inr u" "allocate_nodes listen ns u = Inr s'"
    by (auto simp: result_simps)
  have "t \<in> set (allocated u) \<Longrightarrow> t \<in> set (allocated s) \<or> target_upstream t = Tcp (upstream n)"
    using u(1) by (auto simp: allocate_node_def reuse_local_def allocate_local_def bind_id_def Let_def
        split: if_splits option.splits)
  then show ?case using Cons.IH [OF u(2) Cons.prems(2)] by auto
qed simp

lemma map_cluster_slots_run:
  assumes "map_cluster_slots slots listen = Inr r"
  obtains s out where "alloc_ok listen s" and "r = Some (Cluster (allocated s) out)"
    and "list_all2 same_range slots out" and "\<forall>n\<in>set (all_nodes out). placed s n"
    and "\<forall>t\<in>set (allocated s). \<exists>n\<in>set (all_nodes slots). target_upstream t = Tcp (upstream n)"
proof -
  from assms obtain s where s: "allocate_nodes listen (allocation_order slots) allocation_empty = Inr s"
      and r: "r = map_option (Cluster (allocated s)) (collect_options (set_locals s) slots)"
    by (auto simp: map_cluster_slots_def result_simps split: if_splits)
  from allocate_nodes_steps [OF _ s] have ok: "alloc_ok listen s"
      and reg: "\<forall>n\<in>set (all_nodes slots). registered s n"
    by (simp_all add: set_allocation_order)
  have "\<forall>r\<in>set slots. \<exists>r'. set_locals s r = Some r' \<and>
      (same_range r r' \<and> (\<forall>n\<in>set (slot_nodes r'). placed s n))"
    using reg set_locals_registered by simp
  from collect_options_total [OF this] obtain out where "collect_options (set_locals s) slots = Some out"
      "list_all2 same_range slots out" "\<forall>r\<in>set out. \<forall>n\<in>set (slot_nodes r). placed s n"
    by (auto simp: list_all2_second)
  moreover have "\<forall>t\<in>set (allocated s). \<exists>n\<in>set (all_nodes slots). target_upstream t = Tcp (upstream n)"
    using target_upstreams [OF s] by (auto simp: set_allocation_order allocation_empty_def)
  ultimately show ?thesis using that ok r by auto
qed

lemma placed_target:
  assumes "alloc_ok listen s" and "placed s n"
  obtains i where "i < length (allocated s)" "local_addr n = nth_local listen i"
    "target_listen (allocated s ! i) = Tcp (socket_addr_to_endpoint (local_addr n))"
proof -
  have "local_addr n \<in> ran (by_endpoint s)" using assms(2) by (auto simp: placed_def ran_def)
  then obtain i where "i < length (allocated s)" "local_addr n = nth_local listen i"
    using assms(1) by (auto simp: alloc_ok_def mapped_ok_def)
  moreover from this have "target_listen (allocated s ! i) = Tcp (socket_addr_to_endpoint (local_addr n))"
    using assms(1) by (auto simp: alloc_ok_def allocated_ok_def target_ok_def)
  ultimately show ?thesis by (rule that)
qed

lemma placed_local_iff:
  assumes "alloc_ok listen s" and "placed s n" and "placed s m"
  shows "connect_addr (upstream n) = connect_addr (upstream m) \<Longrightarrow> local_addr n = local_addr m"
    and "node_id n = Some i \<Longrightarrow> node_id m = Some j \<Longrightarrow> local_addr n = local_addr m \<longleftrightarrow> i = j"
proof -
  show "local_addr n = local_addr m" if "connect_addr (upstream n) = connect_addr (upstream m)"
    using assms(2,3) that by (auto simp: placed_def)
  have "by_id s i = Some (local_addr n)" "by_id s j = Some (local_addr m)"
    if "node_id n = Some i" "node_id m = Some j"
    using assms(2,3) that by (auto simp: placed_def registered_def)
  then show "local_addr n = local_addr m \<longleftrightarrow> i = j" if "node_id n = Some i" "node_id m = Some j"
    using assms(1) that unfolding alloc_ok_def ids_ok_def by (metis option.inject)
qed

lemma allocated_listens:
  assumes "alloc_ok listen s"
  shows "map target_listen (allocated s) =
     map (\<lambda>i. Tcp (socket_addr_to_endpoint (nth_local listen i))) [0..<length (allocated s)]"
  using assms by (intro nth_equalityI) (auto simp: alloc_ok_def allocated_ok_def target_ok_def)

text \<open>C16: an accepted CLUSTER SLOTS layout is mapped without losing or inventing anything. The
  second pass never indexes a missing endpoint; the listeners are the requested address with
  consecutive ports that fit 16 bits; ranges, endpoints and ids are kept; every node has a
  listener of its own proxy; one endpoint has one listener, and two nodes that announce ids share
  one exactly when the ids are equal.\<close>

theorem every_node_gets_its_listener:
  assumes "map_cluster_slots slots listen = Inr r"
  shows "\<exists>ts out. r = Some (Cluster ts out) \<and> list_all2 same_range slots out
     \<and> map target_listen ts = map (\<lambda>i. Tcp (socket_addr_to_endpoint (nth_local listen i))) [0..<length ts]
     \<and> (ts \<noteq> [] \<longrightarrow> sa_port listen + length ts \<le> 65536)
     \<and> (\<forall>n\<in>set (all_nodes out). \<exists>t\<in>set ts. target_listen t = Tcp (socket_addr_to_endpoint (local_addr n)))
     \<and> (\<forall>n\<in>set (all_nodes out). \<forall>m\<in>set (all_nodes out).
          (connect_addr (upstream n) = connect_addr (upstream m) \<longrightarrow> local_addr n = local_addr m)
        \<and> (\<forall>i j. node_id n = Some i \<longrightarrow> node_id m = Some j \<longrightarrow> (local_addr n = local_addr m \<longleftrightarrow> i = j)))"
proof -
  from map_cluster_slots_run [OF assms] obtain s out where s: "alloc_ok listen s"
      and r: "r = Some (Cluster (allocated s) out)" and same: "list_all2 same_range slots out"
      and pl: "\<forall>n\<in>set (all_nodes out). placed s n" by blast
  have "\<exists>t\<in>set (allocated s). target_listen t = Tcp (socket_addr_to_endpoint (local_addr n))"
    if "n \<in> set (all_nodes out)" for n
    using placed_target [OF s] pl that by (metis nth_mem)
  moreover have "sa_port listen + length (allocated s) \<le> 65536" if "allocated s \<noteq> []"
    using s that by (cases "length (allocated s)")
      (auto simp: alloc_ok_def allocated_ok_def target_ok_def dest: spec [of _ "length (allocated s) - 1"])
  ultimately show ?thesis
    using r same allocated_listens [OF s] pl placed_local_iff [OF s]
    by (intro exI [of _ "allocated s"] exI [of _ out]) blast
qed

abbreviation sample_node :: "string \<Rightarrow> nat \<Rightarrow> bytes option \<Rightarrow> nat \<Rightarrow> local_node" where
  "sample_node h p i l \<equiv> \<lparr>upstream = \<lparr>host = h, port = p\<rparr>,
     local_addr = \<lparr>sa_ip = ''127.0.0.1'', sa_port = l\<rparr>, node_id = i\<rparr>"

definition sample_slots :: "nat \<Rightarrow> nat \<Rightarrow> nat \<Rightarrow> local_slot_range list" where
  "sample_slots a b c =
     [\<lparr>slot_start = 0, slot_end = 8191, primary = sample_node ''db1'' 6379 (Some ''a'') a,
       replicas = [sample_node ''db3'' 6379 None c]\<rparr>,
      \<lparr>slot_start = 8192, slot_end = 16383, primary = sample_node ''db2'' 6379 (Some ''b'') b,
       replicas = [sample_node ''alias'' 6380 (Some ''a'') a]\<rparr>]"

abbreviation sample_target :: "string \<Rightarrow> nat \<Rightarrow> proxy_target" where
  "sample_target h p \<equiv> \<lparr>target_upstream = Tcp \<lparr>host = h, port = 6379\<rparr>,
     target_listen = Tcp \<lparr>host = ''127.0.0.1'', port = p\<rparr>\<rparr>"

abbreviation sample_topology :: topology where
  "sample_topology \<equiv> Cluster [sample_target ''db1'' 7000, sample_target ''db2'' 7001, sample_target ''db3'' 7002]
     (sample_slots 7000 7001 7002)"

lemma sample_mapped:
  "map_cluster_slots (sample_slots 0 0 0) \<lparr>sa_ip = ''127.0.0.1'', sa_port = 7000\<rparr> = Inr (Some sample_topology)"
  by (simp add: map_cluster_slots_def sample_slots_def allocation_order_def allocation_empty_def
      allocate_node_def allocate_local_def reuse_local_def bind_id_def or_else_def set_locals_def
      set_local_def socket_addr_to_endpoint_def connect_addr_def strip_prefix_def show_nat.simps
      digit_char_def Let_def)

theorem every_node_gets_its_listener_witness:
  "list_all2 same_range (sample_slots 0 0 0) (sample_slots 7000 7001 7002)"
  using every_node_gets_its_listener [OF sample_mapped] by simp

lemma sample_db2:
  "sample_node ''db2'' 6379 (Some ''b'') 7001 \<in> set (all_nodes (sample_slots 7000 7001 7002))"
  by (simp add: sample_slots_def slot_nodes_def)

end
