(* ===== verification/Cluster_Map.thy ===== *)
theory Cluster_Map
  imports Cluster_Props
begin

text \<open>
  The redirection map of \<open>cluster.rs\<close>: what it can answer, the contract its clients rely on, and
  the answers in a discovered topology.
\<close>

section \<open>The redirection map\<close>

lemma insert_mapping_simp [simp]:
  "insert_mapping (v, w) (U, P) = (U(connect_addr v \<mapsto> w), insert_port (port v) w P)"
  by (simp add: insert_mapping_def)

lemma from_mappings_fold:
  fixes xs :: "(tcp_endpoint \<times> string) list"
  assumes "fold insert_mapping xs (U, P) = (U', P')"
  shows "U' k = Some l \<Longrightarrow> U k = Some l \<or> (\<exists>u. (u, l) \<in> set xs \<and> connect_addr u = k)"
    and "(u, l) \<in> set xs \<Longrightarrow> \<exists>l'. U' (connect_addr u) = Some l'"
    and "U k \<noteq> None \<Longrightarrow> U' k \<noteq> None"
    and "P' p = Some (Some l) \<Longrightarrow> P p = Some (Some l) \<or> (\<exists>u. (u, l) \<in> set xs \<and> port u = p)"
  using assms
proof (induction xs arbitrary: U P k)
  case (Cons x xs)
  obtain v w where x: "x = (v, w)" by (cases x)
  have f: "fold insert_mapping xs (U(connect_addr v \<mapsto> w), insert_port (port v) w P) = (U', P')"
    if "fold insert_mapping (x # xs) (U, P) = (U', P')" for U P
    using that x by simp
  { case (1 U P k)
    from Cons.IH(1) [OF 1(1) f [OF 1(2)]] x show ?case by (auto split: if_splits) next
    case (2 U P)
    from Cons.IH(2) [OF _ f [OF 2(2)]] Cons.IH(3) [where k = "connect_addr u", OF _ f [OF 2(2)]] 2(1) x
    show ?case by auto next
    case (3 U P k)
    from Cons.IH(3) [OF _ f [OF 3(2)]] 3(1) show ?case by auto next
    case (4 U P)
    from Cons.IH(4) [OF 4(1) f [OF 4(2)]] x show ?case
      by (auto simp: insert_port_def split: if_splits option.splits) }
qed simp_all

lemma from_mappings_props:
  shows "local_by_upstream (from_mappings xs) k = Some l \<Longrightarrow> \<exists>u. (u, l) \<in> set xs \<and> connect_addr u = k"
    and "(u, l) \<in> set xs \<Longrightarrow> \<exists>l'. local_by_upstream (from_mappings xs) (connect_addr u) = Some l'"
    and "local_by_unique_upstream_port (from_mappings xs) p = Some l \<Longrightarrow> \<exists>u. (u, l) \<in> set xs \<and> port u = p"
    and "local_by_node_id (from_mappings xs) = Map.empty"
proof -
  obtain U P where f: "fold insert_mapping xs (Map.empty, Map.empty) = (U, P)" by force
  have m: "from_mappings xs = \<lparr>local_by_upstream = U,
      local_by_unique_upstream_port = (\<lambda>p. Option.bind (P p) (\<lambda>local. local)), local_by_node_id = Map.empty\<rparr>"
    by (simp add: from_mappings_def f)
  show "local_by_upstream (from_mappings xs) k = Some l \<Longrightarrow> \<exists>u. (u, l) \<in> set xs \<and> connect_addr u = k"
    using from_mappings_fold(1) [OF f] m by auto
  show "(u, l) \<in> set xs \<Longrightarrow> \<exists>l'. local_by_upstream (from_mappings xs) (connect_addr u) = Some l'"
    using from_mappings_fold(2) [OF f] m by auto
  show "local_by_unique_upstream_port (from_mappings xs) p = Some l \<Longrightarrow> \<exists>u. (u, l) \<in> set xs \<and> port u = p"
    using from_mappings_fold(4) [OF f] m by (auto simp: bind_eq_Some_conv)
  show "local_by_node_id (from_mappings xs) = Map.empty" by (simp add: m)
qed

lemma fold_insert_node_id:
  "local_by_upstream (fold insert_node_id ns m) = local_by_upstream m"
  "local_by_unique_upstream_port (fold insert_node_id ns m) = local_by_unique_upstream_port m"
  "local_by_node_id (fold insert_node_id ns m) i = Some l \<Longrightarrow>
     local_by_node_id m i = Some l \<or> (\<exists>n\<in>set ns. node_id n = Some i \<and> local_text n = l)"
  "local_by_node_id m i \<noteq> None \<or> (\<exists>n\<in>set ns. node_id n = Some i) \<Longrightarrow>
     local_by_node_id (fold insert_node_id ns m) i \<noteq> None"
proof (induction ns arbitrary: m)
  case (Cons n ns)
  { case 1 show ?case using Cons.IH(1) by (simp add: insert_node_id_def split: option.split) next
    case 2 show ?case using Cons.IH(2) by (simp add: insert_node_id_def split: option.split) next
    case 3 then show ?case using Cons.IH(3) [of "insert_node_id n m"]
      by (auto simp: insert_node_id_def split: option.splits if_splits) next
    case 4
    then have "local_by_node_id (insert_node_id n m) i \<noteq> None \<or> (\<exists>n\<in>set ns. node_id n = Some i)"
      by (auto simp: insert_node_id_def split: option.splits)
    from Cons.IH(4) [OF this] show ?case by simp }
qed simp_all

text \<open>The addresses a redirection map can answer with.\<close>

definition answers :: "redirection_map \<Rightarrow> string set" where
  "answers m = ran (local_by_upstream m) \<union> ran (local_by_unique_upstream_port m) \<union> ran (local_by_node_id m)"

lemma rewrite_server_answers: "rewrite_server m s = Some l \<Longrightarrow> l \<in> answers m"
  by (auto simp: rewrite_server_def answers_def or_else_def bind_eq_Some_conv intro: ranI
      split: option.splits)

lemma rewrite_node_answers: "rewrite_node m i s = Some l \<Longrightarrow> l \<in> answers m"
  using rewrite_server_answers [of m s l]
  by (auto simp: rewrite_node_def or_else_def bind_eq_Some_conv answers_def intro: ranI
      split: option.splits)

lemma from_slot_ranges_answers: "answers (from_slot_ranges slots) \<subseteq> local_text ` set (all_nodes slots)"
proof
  let ?ns = "all_nodes slots" and ?xs = "map (\<lambda>n. (upstream n, local_text n)) (all_nodes slots)"
  fix l assume "l \<in> answers (from_slot_ranges slots)"
  then consider k where "local_by_upstream (from_mappings ?xs) k = Some l"
    | p where "local_by_unique_upstream_port (from_mappings ?xs) p = Some l"
    | i where "local_by_node_id (fold insert_node_id ?ns (from_mappings ?xs)) i = Some l"
    by (auto simp: answers_def ran_def from_slot_ranges_def Let_def fold_insert_node_id(1,2))
  then show "l \<in> local_text ` set ?ns"
  proof cases
    case 1
    from from_mappings_props(1) [OF 1] show ?thesis by auto
  next
    case 2
    from from_mappings_props(3) [OF 2] show ?thesis by auto
  next
    case 3
    from fold_insert_node_id(3) [OF 3] show ?thesis by (auto simp: from_mappings_props(4))
  qed
qed

lemma from_slot_ranges_lookup:
  assumes agree: "\<And>a b. a \<in> set (all_nodes slots) \<Longrightarrow> b \<in> set (all_nodes slots) \<Longrightarrow>
      connect_addr (upstream a) = connect_addr (upstream b) \<Longrightarrow> local_addr a = local_addr b"
    and ids: "\<And>a b. a \<in> set (all_nodes slots) \<Longrightarrow> b \<in> set (all_nodes slots) \<Longrightarrow> node_id a = Some i \<Longrightarrow>
      node_id b = Some i \<Longrightarrow> local_addr a = local_addr b"
    and n: "n \<in> set (all_nodes slots)"
  shows "local_by_upstream (from_slot_ranges slots) (connect_addr (upstream n)) = Some (local_text n)"
    and "node_id n = Some i \<Longrightarrow> local_by_node_id (from_slot_ranges slots) i = Some (local_text n)"
proof -
  let ?ns = "all_nodes slots" and ?xs = "map (\<lambda>n. (upstream n, local_text n)) (all_nodes slots)"
  obtain l where l: "local_by_upstream (from_mappings ?xs) (connect_addr (upstream n)) = Some l"
    using from_mappings_props(2) [of "upstream n" "local_text n" ?xs] n by auto
  from from_mappings_props(1) [OF l] obtain b where "b \<in> set ?ns" "l = local_text b"
      "connect_addr (upstream b) = connect_addr (upstream n)" by auto
  with agree [OF n, of b] l
  show "local_by_upstream (from_slot_ranges slots) (connect_addr (upstream n)) = Some (local_text n)"
    by (simp add: from_slot_ranges_def Let_def fold_insert_node_id local_text_def)
  assume i: "node_id n = Some i"
  then obtain l where l: "local_by_node_id (fold insert_node_id ?ns (from_mappings ?xs)) i = Some l"
    using fold_insert_node_id(4) [of "from_mappings ?xs" i ?ns] n by blast
  from fold_insert_node_id(3) [OF l] obtain b where "b \<in> set ?ns" "node_id b = Some i" "l = local_text b"
    by (auto simp: from_mappings_props(4))
  with ids [OF n _ i, of b] l show "local_by_node_id (from_slot_ranges slots) i = Some (local_text n)"
    by (simp add: from_slot_ranges_def Let_def local_text_def)
qed

section \<open>The contract of the map\<close>

text \<open>
  What the rewriting of replies relies on: whatever address a map answers with belongs to a known
  set. Every redirection map satisfies it with its own values, and the map of a discovered
  topology with the addresses of its listeners.
\<close>

locale rewriting_map =
  fixes m :: redirection_map and listeners :: "string set"
  assumes answer_listens: "rewrite_node m i s = Some l \<Longrightarrow> l \<in> listeners"

interpretation own_answers: rewriting_map m "answers m" for m
  by unfold_locales (rule rewrite_node_answers)

definition listen_texts :: "topology \<Rightarrow> string set" where
  "listen_texts t = (\<lambda>x. show_endpoint (target_listen x)) ` set (targets t)"

text \<open>A topology whose nodes were all placed; \<open>map_cluster_slots\<close> makes no other.\<close>

definition consistent :: "topology \<Rightarrow> bool" where
  "consistent t = (case t of Standalone x \<Rightarrow> True
     | Cluster ts out \<Rightarrow> local_text ` set (all_nodes out) \<subseteq> listen_texts t)"

lemma local_map_answers: "consistent t \<Longrightarrow> answers (local_redirection_map t) \<subseteq> listen_texts t"
proof (cases t)
  case (Cluster ts out)
  assume "consistent t"
  with Cluster from_slot_ranges_answers [of out] show ?thesis by (simp add: consistent_def)
qed (simp add: answers_def redirection_map_default_def)

lemma placed_text:
  assumes "alloc_ok listen s" and "placed s n"
  shows "local_text n \<in> listen_texts (Cluster (allocated s) out)"
  using placed_target [OF assms] unfolding listen_texts_def local_text_def
  by (metis (no_types, lifting) targets.simps(2) image_eqI nth_mem show_endpoint.simps(1))

lemma mapped_consistent:
  assumes "map_cluster_slots slots listen = Inr (Some t)"
  shows "consistent t"
proof -
  from map_cluster_slots_run [OF assms] obtain s out where "alloc_ok listen s"
      "Some t = Some (Cluster (allocated s) out)" "\<forall>n\<in>set (all_nodes out). placed s n" by blast
  then show ?thesis using placed_text [of listen s _ out] by (force simp: consistent_def)
qed

lemma mapped_rewrites:
  assumes "map_cluster_slots slots listen = Inr (Some (Cluster ts out))" and "n \<in> set (all_nodes out)"
    and "host_ok (host (upstream n))" and "port (upstream n) < 65536"
  shows "rewrite_server (from_slot_ranges out) (connect_addr (upstream n)) = Some (local_text n)"
    and "node_id n = Some i \<Longrightarrow> rewrite_node (from_slot_ranges out) (Some i) s = Some (local_text n)"
proof -
  from map_cluster_slots_run [OF assms(1)] obtain st out' where st0: "alloc_ok listen st"
      "Some (Cluster ts out) = Some (Cluster (allocated st) out')" "\<forall>n\<in>set (all_nodes out'). placed st n"
    by blast
  then have st: "alloc_ok listen st" "\<forall>n\<in>set (all_nodes out). placed st n" by auto
  note same = placed_local_iff [OF st(1)]
  have agree: "\<And>a b. a \<in> set (all_nodes out) \<Longrightarrow> b \<in> set (all_nodes out) \<Longrightarrow>
      connect_addr (upstream a) = connect_addr (upstream b) \<Longrightarrow> local_addr a = local_addr b"
    using st(2) same(1) by blast
  have ids: "\<And>a b. a \<in> set (all_nodes out) \<Longrightarrow> b \<in> set (all_nodes out) \<Longrightarrow> node_id a = Some i \<Longrightarrow>
      node_id b = Some i \<Longrightarrow> local_addr a = local_addr b" for i
    using st(2) same(2) by blast
  have "local_by_upstream (from_slot_ranges out) (connect_addr (upstream n)) = Some (local_text n)"
    by (rule from_slot_ranges_lookup(1)) (fact agree, fact ids, fact assms(2))
  then show "rewrite_server (from_slot_ranges out) (connect_addr (upstream n)) = Some (local_text n)"
    by (simp add: rewrite_server_def or_else_def parse_tcp_connect_addr [OF assms(3,4)])
  assume i: "node_id n = Some i"
  have "local_by_node_id (from_slot_ranges out) i = Some (local_text n)"
    by (rule from_slot_ranges_lookup(2)) (fact agree, fact ids, fact assms(2), fact i)
  then show "rewrite_node (from_slot_ranges out) (Some i) s = Some (local_text n)"
    by (simp add: rewrite_node_def or_else_def)
qed

lemma same_nodes: "list_all2 same_range slots out \<Longrightarrow> list_all2 same_node (all_nodes slots) (all_nodes out)"
  by (induction slots out rule: list_all2_induct) (auto simp: same_range_def intro: list_all2_appendI)

lemma list_all2_left: "list_all2 P xs ys \<Longrightarrow> x \<in> set xs \<Longrightarrow> \<exists>y\<in>set ys. P x y"
  by (induction rule: list_all2_induct) auto

lemma target_node:
  assumes "map_cluster_slots slots listen = Inr (Some (Cluster ts out))" and "t \<in> set ts"
  obtains n where "n \<in> set (all_nodes out)" and "target_upstream t = Tcp (upstream n)"
    and "show_endpoint (target_listen t) = local_text n"
proof -
  from map_cluster_slots_run [OF assms(1)] obtain s where s: "alloc_ok listen s" and ts: "ts = allocated s"
      and same: "list_all2 same_range slots out" and pl: "\<forall>n\<in>set (all_nodes out). placed s n"
      and ups: "\<forall>t\<in>set (allocated s). \<exists>n\<in>set (all_nodes slots). target_upstream t = Tcp (upstream n)"
    by auto
  from assms(2) ts obtain i where i: "i < length (allocated s)" "t = allocated s ! i"
    by (auto simp: in_set_conv_nth)
  then obtain e where e: "target_upstream t = Tcp e"
      "target_listen t = Tcp (socket_addr_to_endpoint (nth_local listen i))"
      "by_endpoint s (connect_addr e) = Some (nth_local listen i)"
    using s by (auto simp: alloc_ok_def allocated_ok_def target_ok_def)
  from ups assms(2) ts obtain n0 where n0: "n0 \<in> set (all_nodes slots)" "target_upstream t = Tcp (upstream n0)"
    by blast
  then have "upstream n0 = e" using e(1) by simp
  note n0 = n0(1) this
  from list_all2_left [OF same_nodes [OF same] n0(1)] obtain n where n: "n \<in> set (all_nodes out)"
      "same_node n0 n" by blast
  then have "placed s n" "upstream n = e" using pl n0(2) by (auto simp: same_node_def)
  with e(2,3) have "show_endpoint (target_listen t) = local_text n"
    by (simp add: placed_def local_text_def)
  then show ?thesis using that n(1) e(1) \<open>upstream n = e\<close> by auto
qed

text \<open>C11: in a discovered topology no answer of the redirection map leads past the proxy: it is the
  address of one of the proxy's listeners. And nothing is lost: the address of every discovered
  node with a well-formed host, and its id whatever address comes with it, are answered by that
  node's listener; the node a listener forwards to is answered by that very listener.\<close>

theorem redirections_stay_local:
  assumes "map_cluster_slots slots listen = Inr (Some (Cluster ts out))"
  shows "(\<forall>i s l. rewrite_node (local_redirection_map (Cluster ts out)) i s = Some l
            \<longrightarrow> l \<in> listen_texts (Cluster ts out))
     \<and> (\<forall>n\<in>set (all_nodes out). host_ok (host (upstream n)) \<and> port (upstream n) < 65536 \<longrightarrow>
          rewrite_server (local_redirection_map (Cluster ts out)) (connect_addr (upstream n)) = Some (local_text n)
        \<and> (\<forall>i s. node_id n = Some i \<longrightarrow>
              rewrite_node (local_redirection_map (Cluster ts out)) (Some i) s = Some (local_text n)))
     \<and> (\<forall>t\<in>set ts. \<forall>e. target_upstream t = Tcp e \<and> host_ok (host e) \<and> port e < 65536 \<longrightarrow>
          rewrite_server (local_redirection_map (Cluster ts out)) (connect_addr e)
            = Some (show_endpoint (target_listen t)))"
proof (intro conjI allI impI ballI)
  fix i s l assume "rewrite_node (local_redirection_map (Cluster ts out)) i s = Some l"
  then show "l \<in> listen_texts (Cluster ts out)"
    using own_answers.answer_listens local_map_answers [OF mapped_consistent [OF assms]] by blast
next
  fix n assume "n \<in> set (all_nodes out)" "host_ok (host (upstream n)) \<and> port (upstream n) < 65536"
  then show "rewrite_server (local_redirection_map (Cluster ts out)) (connect_addr (upstream n)) = Some (local_text n)"
    "\<And>i s. node_id n = Some i \<Longrightarrow>
      rewrite_node (local_redirection_map (Cluster ts out)) (Some i) s = Some (local_text n)"
    using mapped_rewrites [OF assms] by simp_all
next
  fix t e assume t: "t \<in> set ts" and e: "target_upstream t = Tcp e \<and> host_ok (host e) \<and> port e < 65536"
  from target_node [OF assms t] obtain n where n: "n \<in> set (all_nodes out)"
      "target_upstream t = Tcp (upstream n)" "show_endpoint (target_listen t) = local_text n" by blast
  then have "upstream n = e" using e by simp
  with n show "rewrite_server (local_redirection_map (Cluster ts out)) (connect_addr e)
      = Some (show_endpoint (target_listen t))"
    using mapped_rewrites(1) [OF assms] e by auto
qed

theorem redirections_stay_local_witness:
  "rewrite_node (local_redirection_map sample_topology) (Some ''b'') ''elsewhere:1'' = Some ''127.0.0.1:7001''"
  using redirections_stay_local [OF sample_mapped]
  by (simp add: sample_slots_def slot_nodes_def host_ok_def local_text_def socket_addr_to_endpoint_def
      connect_addr_def strip_prefix_def show_nat.simps digit_char_def)

end
