(* ===== verification/Cluster_Rewrite.thy ===== *)
theory Cluster_Rewrite
  imports Cluster_Map "HOL-Library.Sublist"
begin

text \<open>
  \<open>cluster_rewrite.rs\<close>: the replies to CLUSTER SHARDS and CLUSTER NODES, with every node address
  replaced by that of its local listener and every node without one removed.
\<close>

section \<open>Which commands\<close>

definition is_cluster_subcommand :: "string list \<Rightarrow> string \<Rightarrow> bool" where
  "is_cluster_subcommand argv sub \<longleftrightarrow>
     length argv = 2 \<and> eq_ignore_ascii_case (argv ! 0) ''CLUSTER'' \<and> eq_ignore_ascii_case (argv ! 1) sub"

definition is_cluster_shards :: "string list \<Rightarrow> bool" where
  "is_cluster_shards argv \<longleftrightarrow> is_cluster_subcommand argv ''SHARDS''"

definition is_cluster_nodes :: "string list \<Rightarrow> bool" where
  "is_cluster_nodes argv \<longleftrightarrow> is_cluster_subcommand argv ''NODES''"

section \<open>Key/value entries\<close>

text \<open>\<open>MapEntries\<close>: the pairs of a RESP3 map or of a flat RESP2 array, and which it was.\<close>

record map_entries =
  flat :: bool
  pairs :: "(frame \<times> frame) list"

fun string_of :: "frame \<Rightarrow> string option" where
  "string_of (BulkString (Some b)) = Some (from_utf8_lossy b)"
| "string_of (VerbatimString b) = Some (from_utf8_lossy b)"
| "string_of (SimpleString v) = Some v"
| "string_of _ = None"

definition key_is :: "frame \<Rightarrow> string \<Rightarrow> bool" where
  "key_is key name =
     (case string_of key of Some k \<Rightarrow> eq_ignore_ascii_case k name | None \<Rightarrow> False)"

fun parse_entries :: "frame \<Rightarrow> map_entries option" where
  "parse_entries (Map ps) = Some \<lparr>flat = False, pairs = ps\<rparr>"
| "parse_entries (Array (Some items)) =
     (if even (length items)
      then (let ps = fst (chunks2 items) in
            if \<forall>(k, v)\<in>set ps. string_of k \<noteq> None then Some \<lparr>flat = True, pairs = ps\<rparr> else None)
      else None)"
| "parse_entries _ = None"

definition into_frame :: "map_entries \<Rightarrow> frame" where
  "into_frame e =
     (if flat e then Array (Some (concat (map (\<lambda>(k, v). [k, v]) (pairs e)))) else Map (pairs e))"

definition entry_value :: "map_entries \<Rightarrow> string \<Rightarrow> frame option" where
  "entry_value e name = map_option snd (List.find (\<lambda>(k, v). key_is k name) (pairs e))"

definition entry_string :: "map_entries \<Rightarrow> string \<Rightarrow> string option" where
  "entry_string e name =
     Option.bind (entry_value e name) (\<lambda>f. Option.bind (string_of f) (\<lambda>v.
       if v \<noteq> [] then Some v else None))"

definition entry_integer :: "map_entries \<Rightarrow> string \<Rightarrow> i64 option" where
  "entry_integer e name =
     Option.bind (entry_value e name) (\<lambda>f.
       case f of
         Integer v \<Rightarrow> Some v
       | other \<Rightarrow> Option.bind (string_of other) (\<lambda>v. ok (parse_i64 v)))"

section \<open>CLUSTER SHARDS\<close>

definition local_endpoint ::
  "redirection_map \<Rightarrow> string option \<Rightarrow> string \<Rightarrow> i64 \<Rightarrow> tcp_endpoint option" where
  "local_endpoint m i h p =
     Option.bind (u16_of p) (\<lambda>p.
     let up = (if h = [] \<or> h = ''?'' then '':'' @ show_nat p
               else connect_addr \<lparr>host = h, port = p\<rparr>)
     in Option.bind (rewrite_node m i up) (\<lambda>l. ok (parse_tcp_endpoint l)))"

definition first_some :: "'a option list \<Rightarrow> 'a option" where
  "first_some xs = foldr or_else xs None"

definition set_address :: "tcp_endpoint \<Rightarrow> frame \<times> frame \<Rightarrow> frame \<times> frame" where
  "set_address l kv = (case kv of (k, v) \<Rightarrow>
     (k, if key_is k ''ip'' \<or> key_is k ''endpoint'' \<or> key_is k ''hostname''
         then BulkString (Some (host l))
         else if key_is k ''port'' then Integer (of_nat (port l))
         else v))"

definition rewrite_shard_node :: "redirection_map \<Rightarrow> frame \<Rightarrow> frame option" where
  "rewrite_shard_node m node =
     Option.bind (parse_entries node) (\<lambda>e.
     Option.bind (entry_integer e ''port'') (\<lambda>p.
     let h = (case first_some [entry_string e ''ip'', entry_string e ''endpoint'',
                 entry_string e ''hostname''] of Some h \<Rightarrow> h | None \<Rightarrow> [])
     in Option.bind (local_endpoint m (entry_string e ''id'') h p) (\<lambda>l.
        Some (into_frame (e\<lparr>pairs := map (set_address l) (pairs e)\<rparr>)))))"

text \<open>The loop over a shard's entries: \<open>has_nodes\<close> is that of the last node list.\<close>

fun rewrite_entries :: "redirection_map \<Rightarrow> bool \<Rightarrow> (frame \<times> frame) list \<Rightarrow> bool \<times> (frame \<times> frame) list" where
  "rewrite_entries m has_nodes [] = (has_nodes, [])"
| "rewrite_entries m has_nodes ((k, v) # rest) =
     (case (key_is k ''nodes'', v) of
        (True, Array (Some nodes)) \<Rightarrow>
          (let kept = List.map_filter (rewrite_shard_node m) nodes;
               (h, out) = rewrite_entries m (kept \<noteq> []) rest
           in (h, (k, Array (Some kept)) # out))
      | _ \<Rightarrow> (let (h, out) = rewrite_entries m has_nodes rest in (h, (k, v) # out)))"

definition rewrite_shard :: "redirection_map \<Rightarrow> frame \<Rightarrow> frame option" where
  "rewrite_shard m shard =
     Option.bind (parse_entries shard) (\<lambda>e.
     let (has_nodes, ps) = rewrite_entries m False (pairs e)
     in if has_nodes then Some (into_frame (e\<lparr>pairs := ps\<rparr>)) else None)"

definition rewrite_cluster_shards :: "frame \<Rightarrow> redirection_map \<Rightarrow> frame" where
  "rewrite_cluster_shards reply m =
     (case reply of
        Array (Some shards) \<Rightarrow> Array (Some (List.map_filter (rewrite_shard m) shards))
      | _ \<Rightarrow> reply)"

section \<open>CLUSTER NODES\<close>

text \<open>The bus part \<open>cport,hostname,aux...\<close>: the first extra field, the hostname, is blanked.\<close>

definition rewrite_bus :: "string \<Rightarrow> string" where
  "rewrite_bus bus =
     (case split_on CHR '','' bus of
        [] \<Rightarrow> []
      | cport # extra \<Rightarrow>
          cport @ concat (map (\<lambda>(i, field). '','' @ (if i > 0 then field else []))
                    (zip [0..<length extra] extra)))"

definition rewrite_nodes_line :: "redirection_map \<Rightarrow> string \<Rightarrow> string option" where
  "rewrite_nodes_line m line =
     (let fields = splitn 3 CHR '' '' line in
      Option.bind (nth_opt fields 0) (\<lambda>i.
      Option.bind (nth_opt fields 1) (\<lambda>address.
      let rest = (case nth_opt fields 2 of Some r \<Rightarrow> r | None \<Rightarrow> []);
          (socket, bus) = (case split_once CHR ''@'' address of
                             None \<Rightarrow> (address, None)
                           | Some (s, b) \<Rightarrow> (s, Some b))
      in Option.bind (rewrite_node m (Some i) socket) (\<lambda>local.
         let rewritten = local @ (case bus of Some b \<Rightarrow> ''@'' @ rewrite_bus b | None \<Rightarrow> [])
         in Some (if rest = [] then i @ '' '' @ rewritten
                  else i @ '' '' @ rewritten @ '' '' @ rest)))))"

definition rewrite_nodes_text :: "redirection_map \<Rightarrow> bytes \<Rightarrow> bytes" where
  "rewrite_nodes_text m text =
     concat (map (\<lambda>line. line @ [CHR 0x0A])
       (List.map_filter (rewrite_nodes_line m) (str_lines (from_utf8_lossy text))))"

definition rewrite_cluster_nodes :: "frame \<Rightarrow> redirection_map \<Rightarrow> frame" where
  "rewrite_cluster_nodes reply m =
     (case reply of
        BulkString (Some text) \<Rightarrow> BulkString (Some (rewrite_nodes_text m text))
      | VerbatimString text \<Rightarrow> VerbatimString (rewrite_nodes_text m text)
      | _ \<Rightarrow> reply)"

section \<open>Nothing but local listeners\<close>

text \<open>A node entry names exactly one endpoint.\<close>

definition names_only :: "tcp_endpoint \<Rightarrow> frame \<Rightarrow> bool" where
  "names_only l f \<longleftrightarrow> (\<exists>e. parse_entries f = Some e \<and> (\<forall>(k, v)\<in>set (pairs e).
     (key_is k ''ip'' \<or> key_is k ''endpoint'' \<or> key_is k ''hostname'' \<longrightarrow> v = BulkString (Some (host l)))
   \<and> (key_is k ''port'' \<longrightarrow> v = Integer (of_nat (port l)))))"

definition node_lists :: "map_entries \<Rightarrow> frame list" where
  "node_lists e = concat (map (\<lambda>(k, v). case v of
     Array (Some nodes) \<Rightarrow> if key_is k ''nodes'' then nodes else [] | _ \<Rightarrow> []) (pairs e))"

lemma chunks2_pairs: "chunks2 (concat (map (\<lambda>(k, v). [k, v]) ps)) = (ps, [])"
  by (induction ps) auto

lemma length_flat: "length (concat (map (\<lambda>(k, v). [k, v]) ps)) = 2 * length ps"
  by (induction ps) auto

lemma parse_into_frame:
  assumes "flat e \<longrightarrow> (\<forall>(k, v)\<in>set (pairs e). string_of k \<noteq> None)"
  shows "parse_entries (into_frame e) = Some e"
  using assms by (cases e) (auto simp: into_frame_def chunks2_pairs length_flat Let_def)

lemma parse_entries_keys: "parse_entries f = Some e \<Longrightarrow> flat e \<Longrightarrow> \<forall>(k, v)\<in>set (pairs e). string_of k \<noteq> None"
  by (cases f rule: parse_entries.cases) (auto simp: Let_def split: if_splits)

lemma reparse:
  assumes "parse_entries f = Some e" and "map fst ps = map fst (pairs e)"
  shows "parse_entries (into_frame (e\<lparr>pairs := ps\<rparr>)) = Some (e\<lparr>pairs := ps\<rparr>)"
proof (rule parse_into_frame, simp, rule impI)
  assume "flat e"
  from parse_entries_keys [OF assms(1) this] have "\<forall>k\<in>set (map fst (pairs e)). string_of k \<noteq> None"
    by auto
  then have "\<forall>k\<in>set (map fst ps). string_of k \<noteq> None" by (simp only: assms(2))
  then show "\<forall>x\<in>set ps. case x of (k, v) \<Rightarrow> \<exists>y. string_of k = Some y" by auto
qed

lemma key_is_unique: "key_is k a \<Longrightarrow> key_is k b \<Longrightarrow> eq_ignore_ascii_case a b"
  by (auto simp: key_is_def eq_ignore_ascii_case_def split: option.splits)

lemma key_is_port:
  "key_is k ''port'' \<Longrightarrow> \<not> (key_is k ''ip'' \<or> key_is k ''endpoint'' \<or> key_is k ''hostname'')"
  using key_is_unique [of k "''port''" "''ip''"] key_is_unique [of k "''port''" "''endpoint''"]
    key_is_unique [of k "''port''" "''hostname''"]
  by (auto simp: eq_ignore_ascii_case_def to_ascii_lowercase_def dest: arg_cong [of _ _ length])

text \<open>The loop's step on a node list and on any other entry.\<close>

definition node_list :: "frame \<Rightarrow> frame \<Rightarrow> frame list option" where
  "node_list k v = (case v of Array (Some nodes) \<Rightarrow> if key_is k ''nodes'' then Some nodes else None | _ \<Rightarrow> None)"

lemma rewrite_entries_step:
  "rewrite_entries m b ((k, v) # ps) =
     (case node_list k v of
        Some nodes \<Rightarrow> (let kept = List.map_filter (rewrite_shard_node m) nodes;
                        r = rewrite_entries m (kept \<noteq> []) ps
                     in (fst r, (k, Array (Some kept)) # snd r))
      | None \<Rightarrow> (let r = rewrite_entries m b ps in (fst r, (k, v) # snd r)))"
  by (cases v; cases "key_is k ''nodes''")
    (auto simp: node_list_def Let_def case_prod_unfold split: option.splits)

declare rewrite_entries.simps(2) [simp del]

lemma node_lists_Cons:
  "node_lists (e\<lparr>pairs := (k, v) # ps\<rparr>) =
     (case node_list k v of Some nodes \<Rightarrow> nodes | None \<Rightarrow> []) @ node_lists (e\<lparr>pairs := ps\<rparr>)"
  by (cases v) (auto simp: node_lists_def node_list_def split: option.splits)

lemma node_list_Some: "node_list k v = Some ns \<Longrightarrow> node_list k (Array (Some ms)) = Some ms"
  by (auto simp: node_list_def split: frame.splits option.splits if_splits)

lemma rewrite_entries_keys: "map fst (snd (rewrite_entries m b ps)) = map fst ps"
proof (induction ps arbitrary: b)
  case (Cons kv ps)
  then show ?case by (cases kv) (auto simp: rewrite_entries_step Let_def split: option.splits)
qed simp

context rewriting_map
begin

lemma local_endpoint_listens:
  "local_endpoint m i h p = Some l \<Longrightarrow> \<exists>x\<in>listeners. parse_tcp_endpoint x = Inr l"
  using answer_listens by (fastforce simp: local_endpoint_def bind_eq_Some_conv Let_def ok_Some)

lemma shard_node_local:
  assumes "rewrite_shard_node m node = Some f"
  shows "\<exists>l. names_only l f \<and> (\<exists>x\<in>listeners. parse_tcp_endpoint x = Inr l)"
proof -
  from assms obtain e l i h p where e: "parse_entries node = Some e" and l: "local_endpoint m i h p = Some l"
      and f: "f = into_frame (e\<lparr>pairs := map (set_address l) (pairs e)\<rparr>)"
    by (auto simp: rewrite_shard_node_def bind_eq_Some_conv Let_def)
  have "map fst (map (set_address l) (pairs e)) = map fst (pairs e)"
    by (simp add: set_address_def comp_def case_prod_unfold)
  from reparse [OF e this] f have "names_only l f"
    by (auto simp: names_only_def set_address_def key_is_port)
  then show ?thesis using local_endpoint_listens [OF l] by blast
qed

lemma entries_local:
  "n \<in> set (node_lists (e\<lparr>pairs := snd (rewrite_entries m b ps)\<rparr>)) \<Longrightarrow>
     \<exists>l. names_only l n \<and> (\<exists>x\<in>listeners. parse_tcp_endpoint x = Inr l)"
proof (induction ps arbitrary: b)
  case (Cons kv ps)
  obtain k v where kv: "kv = (k, v)" by (cases kv)
  show ?case
  proof (cases "node_list k v")
    case (Some nodes)
    let ?kept = "List.map_filter (rewrite_shard_node m) nodes"
    have "n \<in> set ?kept \<or> n \<in> set (node_lists (e\<lparr>pairs := snd (rewrite_entries m (?kept \<noteq> []) ps)\<rparr>))"
      using Cons.prems kv Some by (simp add: rewrite_entries_step node_lists_Cons Let_def node_list_Some [OF Some])
    then show ?thesis using Cons.IH shard_node_local by (auto simp: List.map_filter_def)
  next
    case None
    then have "n \<in> set (node_lists (e\<lparr>pairs := snd (rewrite_entries m b ps)\<rparr>))"
      using Cons.prems kv by (simp add: rewrite_entries_step node_lists_Cons Let_def)
    then show ?thesis by (rule Cons.IH)
  qed
qed (simp add: node_lists_def)

lemma shard_local:
  assumes "rewrite_shard m shard = Some f"
  shows "\<exists>e. parse_entries f = Some e \<and> (\<forall>n\<in>set (node_lists e).
     \<exists>l. names_only l n \<and> (\<exists>x\<in>listeners. parse_tcp_endpoint x = Inr l))"
proof -
  from assms obtain e where e: "parse_entries shard = Some e"
      and f: "f = into_frame (e\<lparr>pairs := snd (rewrite_entries m False (pairs e))\<rparr>)"
    by (auto simp: rewrite_shard_def bind_eq_Some_conv Let_def case_prod_unfold split: if_splits)
  from reparse [OF e rewrite_entries_keys] f show ?thesis using entries_local by auto
qed

end

text \<open>The bus part keeps its fields, except that the second one, the hostname, is blank.\<close>

lemma join_Cons: "join [d] (w # ws) = w @ concat (map ((#) d) ws)"
  by (induction ws arbitrary: w) simp_all

lemma rewrite_bus_join: "rewrite_bus b = join [CHR '',''] ((split_on CHR '','' b)[1 := []])"
proof -
  obtain c extra where s: "split_on CHR '','' b = c # extra"
    by (cases "split_on CHR '','' b") (simp_all add: split_on_def)
  have "map (\<lambda>(i, field). '','' @ (if i > 0 then field else [])) (zip [0..<length extra] extra)
      = map ((#) CHR '','') (extra[0 := []])"
    by (intro nth_equalityI) (auto simp: nth_list_update)
  then show ?thesis by (simp add: rewrite_bus_def s join_Cons)
qed

section \<open>The lines of CLUSTER NODES\<close>

lemma split_once_append: "d \<notin> set a \<Longrightarrow> split_once d (a @ d # b) = Some (a, b)"
  by (induction a) auto

lemma split_once_none: "split_once d s = None \<longleftrightarrow> d \<notin> set s"
  by (induction s) auto

lemma split_once_some: "split_once d s = Some (a, b) \<Longrightarrow> s = a @ d # b \<and> d \<notin> set a"
  by (induction s arbitrary: a) (auto split: if_splits)

text \<open>A line of the reply: id, socket, bus part and what follows. Up to the last each ends at the
  first space, and the socket also at the first at sign.\<close>

definition bus_text :: "string option \<Rightarrow> string" where
  "bus_text bus = (case bus of Some b \<Rightarrow> ''@'' @ b | None \<Rightarrow> [])"

definition reads_line :: "string \<Rightarrow> string \<Rightarrow> string \<Rightarrow> string option \<Rightarrow> string \<Rightarrow> bool" where
  "reads_line line i socket bus tail \<longleftrightarrow> line = i @ '' '' @ socket @ bus_text bus @ tail
     \<and> CHR '' '' \<notin> set (i @ socket @ bus_text bus) \<and> CHR ''@'' \<notin> set socket \<and> (tail = [] \<or> hd tail = CHR '' '')"

text \<open>The same line with another socket, a bus part without a hostname, and no lone space at the end.\<close>

definition line_with :: "string \<Rightarrow> string \<Rightarrow> string option \<Rightarrow> string \<Rightarrow> string" where
  "line_with i socket bus tail = i @ '' '' @ socket
     @ bus_text (map_option (\<lambda>b. join '','' ((split_on CHR '','' b)[1 := []])) bus)
     @ (if tail = '' '' then [] else tail)"

lemma rewrite_nodes_line_reads:
  assumes "reads_line line i socket bus tail"
  shows "rewrite_nodes_line m line = map_option (\<lambda>l. line_with i l bus tail) (rewrite_node m (Some i) socket)"
proof -
  let ?address = "socket @ bus_text bus"
  have i: "CHR '' '' \<notin> set i" and addr: "CHR '' '' \<notin> set ?address" and at: "CHR ''@'' \<notin> set socket"
    and line: "line = i @ CHR '' '' # ?address @ tail"
    using assms by (simp_all add: reads_line_def)
  obtain rest where fields: "splitn 3 CHR '' '' line = i # ?address # rest"
    and rest: "tail = [] \<and> rest = [] \<or> (\<exists>r. tail = CHR '' '' # r \<and> rest = [r])"
  proof (cases tail)
    case Nil
    then have "splitn 3 CHR '' '' line = [i, ?address]"
      using split_once_append [OF i] addr
      by (simp add: line numeral_3_eq_3 split_once_none [THEN iffD2])
    with Nil show ?thesis using that [of "[]"] by simp
  next
    case (Cons c r)
    then have c: "c = CHR '' ''" using assms by (simp add: reads_line_def)
    have "split_once CHR '' '' (?address @ CHR '' '' # r) = Some (?address, r)"
      by (rule split_once_append [OF addr])
    then have "splitn 3 CHR '' '' line = [i, ?address, r]"
      using split_once_append [OF i] by (simp add: line numeral_3_eq_3 Cons c)
    with Cons c show ?thesis using that [of "[r]"] by simp
  qed
  have parts: "split_once CHR ''@'' (socket @ bus_text bus) = map_option (Pair socket) bus"
    using split_once_append [OF at] at by (cases bus) (simp_all add: bus_text_def split_once_none [THEN iffD2])
  have nth: "nth_opt (i # ?address # rest) 0 = Some i" "nth_opt (i # ?address # rest) 1 = Some ?address"
    "(case nth_opt (i # ?address # rest) 2 of Some r \<Rightarrow> r | None \<Rightarrow> []) = (case rest of [] \<Rightarrow> [] | r # _ \<Rightarrow> r)"
    by (auto simp: nth_opt_def numeral_2_eq_2 split: list.splits)
  have "rewrite_nodes_line m line = (let r = (case rest of [] \<Rightarrow> [] | r # _ \<Rightarrow> r) in
      map_option (\<lambda>l. let new = l @ bus_text (map_option rewrite_bus bus) in
        if r = [] then i @ '' '' @ new else i @ '' '' @ new @ '' '' @ r) (rewrite_node m (Some i) socket))"
    unfolding rewrite_nodes_line_def Let_def fields nth Option.bind.bind_lunit parts
    by (cases bus; cases "rewrite_node m (Some i) socket") (simp_all add: bus_text_def)
  moreover have "map_option (\<lambda>b. join '','' ((split_on CHR '','' b)[1 := []])) bus = map_option rewrite_bus bus"
    by (cases bus) (simp_all add: rewrite_bus_join)
  ultimately show ?thesis
    using rest unfolding line_with_def Let_def by (cases "rewrite_node m (Some i) socket") auto
qed

lemma rewritten_line_reads:
  assumes "rewrite_nodes_line m line = Some out"
  obtains i socket bus tail where "reads_line line i socket bus tail"
proof -
  from assms have two: "nth_opt (splitn 3 CHR '' '' line) 1 \<noteq> None"
    by (auto simp: rewrite_nodes_line_def bind_eq_Some_conv Let_def)
  obtain i b where ib: "split_once CHR '' '' line = Some (i, b)"
    using two by (cases "split_once CHR '' '' line") (auto simp: numeral_3_eq_3 nth_opt_def)
  obtain address tail where at: "b = address @ tail" "CHR '' '' \<notin> set address" "tail = [] \<or> hd tail = CHR '' ''"
  proof (cases "split_once CHR '' '' b")
    case None
    then show ?thesis using that [of b "[]"] by (simp add: split_once_none)
  next
    case (Some ar)
    obtain a r where "ar = (a, r)" by force
    with split_once_some [of _ b a r] Some show ?thesis using that [of a "'' '' @ r"] by simp
  qed
  obtain socket bus where "address = socket @ bus_text bus" "CHR ''@'' \<notin> set socket"
  proof (cases "split_once CHR ''@'' address")
    case None
    then show ?thesis using that [of address None] by (simp add: split_once_none bus_text_def)
  next
    case (Some sb)
    obtain sk bs where "sb = (sk, bs)" by force
    with split_once_some [of _ address sk bs] Some show ?thesis using that [of sk "Some bs"] by (simp add: bus_text_def)
  qed
  with at split_once_some [OF ib] show ?thesis by (intro that [of i socket bus tail]) (auto simp: reads_line_def)
qed

text \<open>C36: no shard of a rewritten CLUSTER SHARDS reply leads past the proxy: in every node list of
  every shard that is left, each node names one endpoint only, in all of its address fields, and
  that endpoint is one of the proxy's listeners.\<close>

theorem shards_name_only_listeners:
  assumes "map_cluster_slots slots listen = Inr (Some t)"
    and "rewrite_cluster_shards reply (local_redirection_map t) = Array (Some shards)"
  shows "\<forall>f\<in>set shards. \<exists>e. parse_entries f = Some e \<and> (\<forall>n\<in>set (node_lists e).
     \<exists>l. names_only l n \<and> (\<exists>x\<in>listen_texts t. parse_tcp_endpoint x = Inr l))"
proof
  fix f assume "f \<in> set shards"
  then obtain s where "rewrite_shard (local_redirection_map t) s = Some f"
    using assms(2) by (auto simp: rewrite_cluster_shards_def List.map_filter_def split: frame.splits option.splits)
  from own_answers.shard_local [OF this] local_map_answers [OF mapped_consistent [OF assms(1)]]
  show "\<exists>e. parse_entries f = Some e \<and> (\<forall>n\<in>set (node_lists e).
     \<exists>l. names_only l n \<and> (\<exists>x\<in>listen_texts t. parse_tcp_endpoint x = Inr l))"
    by (meson subsetD)
qed


lemma sample_rewrites:
  "rewrite_node (local_redirection_map sample_topology) (Some ''b'') s = Some ''127.0.0.1:7001''"
proof -
  have m: "local_redirection_map sample_topology = \<lparr>local_by_upstream =
      [''db1:6379'' \<mapsto> ''127.0.0.1:7000'', ''db3:6379'' \<mapsto> ''127.0.0.1:7002'',
       ''db2:6379'' \<mapsto> ''127.0.0.1:7001'', ''alias:6380'' \<mapsto> ''127.0.0.1:7000''],
      local_by_unique_upstream_port = (\<lambda>p. Option.bind
        ([6379 \<mapsto> None, 6380 \<mapsto> Some ''127.0.0.1:7000''] p) (\<lambda>l. l)),
      local_by_node_id = [''a'' \<mapsto> ''127.0.0.1:7000'', ''b'' \<mapsto> ''127.0.0.1:7001'']\<rparr>"
    by (simp add: from_slot_ranges_def sample_slots_def slot_nodes_def insert_node_id_def from_mappings_def
      insert_port_def local_text_def socket_addr_to_endpoint_def connect_addr_def strip_prefix_def
      show_nat.simps digit_char_def fun_upd_twist)
  show "rewrite_node (local_redirection_map sample_topology) (Some ''b'') s = Some ''127.0.0.1:7001''"
    unfolding m by (simp add: rewrite_node_def or_else_def)
qed

lemma sample_nodes_reply:
  assumes "rewrite_node m (Some ''b'') ''db2:6379'' = Some l"
  shows "rewrite_cluster_nodes (BulkString (Some ''b db2:6379@16379,db2.net,shard=1 master - 0'')) m
     = BulkString (Some (''b '' @ l @ ''@16379,,shard=1 master - 0'' @ [CHR 0x0A]))"
proof -
  have line: "rewrite_nodes_line m ''b db2:6379@16379,db2.net,shard=1 master - 0''
      = Some (''b '' @ l @ ''@16379,,shard=1 master - 0'')"
    by (simp add: rewrite_nodes_line_def numeral_3_eq_3 nth_opt_def assms rewrite_bus_def split_on_def)
  have "is_utf8 ''b db2:6379@16379,db2.net,shard=1 master - 0''"
    by (rule is_utf8_ascii) (simp add: byte_def of_char_Char)
  then show ?thesis
    by (simp add: rewrite_cluster_nodes_def rewrite_nodes_text_def str_lines_def split_on_def
        List.map_filter_def line)
qed


lemma sample_shard_node:
  assumes "rewrite_node m (Some ''b'') ''db2:6379'' = Some ''127.0.0.1:7001''"
  shows "rewrite_cluster_shards (Array (Some [Map [(SimpleString ''nodes'', Array (Some
       [Map [(SimpleString ''id'', SimpleString ''b''), (SimpleString ''ip'', SimpleString ''db2''),
             (SimpleString ''port'', Integer 6379)]]))]])) m
     = Array (Some [Map [(SimpleString ''nodes'', Array (Some
       [Map [(SimpleString ''id'', SimpleString ''b''), (SimpleString ''ip'', BulkString (Some ''127.0.0.1'')),
             (SimpleString ''port'', Integer 7001)]]))]])"
proof -
  have addr: "connect_addr \<lparr>host = ''db2'', port = 6379\<rparr> = ''db2:6379''"
    by (simp add: connect_addr_def show_nat.simps digit_char_def)
  have "parse_tcp_endpoint (connect_addr \<lparr>host = ''127.0.0.1'', port = 7001\<rparr>) = Inr \<lparr>host = ''127.0.0.1'', port = 7001\<rparr>"
    by (rule parse_tcp_connect_addr) (simp_all add: host_ok_def)
  then have loc: "parse_tcp_endpoint ''127.0.0.1:7001'' = Inr \<lparr>host = ''127.0.0.1'', port = 7001\<rparr>"
    by (simp add: connect_addr_def show_nat.simps digit_char_def)
  have keys: "key_is (SimpleString a) b \<longleftrightarrow> eq_ignore_ascii_case a b" for a b
    by (simp add: key_is_def)
  have eqs: "\<not> eq_ignore_ascii_case ''id'' ''ip''" "\<not> eq_ignore_ascii_case ''id'' ''port''"
    "\<not> eq_ignore_ascii_case ''ip'' ''port''" "\<not> eq_ignore_ascii_case ''ip'' ''id''"
    "\<not> eq_ignore_ascii_case ''id'' ''endpoint''" "\<not> eq_ignore_ascii_case ''id'' ''hostname''"
    "\<not> eq_ignore_ascii_case ''port'' ''id''" "\<not> eq_ignore_ascii_case ''port'' ''ip''"
    "\<not> eq_ignore_ascii_case ''port'' ''endpoint''" "\<not> eq_ignore_ascii_case ''port'' ''hostname''"
    "\<not> eq_ignore_ascii_case ''ip'' ''endpoint''" "\<not> eq_ignore_ascii_case ''ip'' ''hostname''"
    by (simp_all add: ascii_defs of_char_Char)
  have "rewrite_shard_node m (Map [(SimpleString ''id'', SimpleString ''b''), (SimpleString ''ip'', SimpleString ''db2''),
             (SimpleString ''port'', Integer 6379)])
      = Some (Map [(SimpleString ''id'', SimpleString ''b''), (SimpleString ''ip'', BulkString (Some ''127.0.0.1'')),
             (SimpleString ''port'', Integer 7001)])"
    by (simp add: rewrite_shard_node_def entry_integer_def entry_string_def entry_value_def keys eqs
        local_endpoint_def u16_of_def assms first_some_def or_else_def addr loc set_address_def into_frame_def)
  then show ?thesis
    by (simp add: rewrite_cluster_shards_def rewrite_shard_def rewrite_entries_step node_list_def keys
        List.map_filter_def into_frame_def Let_def)
qed

theorem shards_name_only_listeners_witness:
  "\<exists>l. names_only l (Map [(SimpleString ''id'', SimpleString ''b''),
       (SimpleString ''ip'', BulkString (Some ''127.0.0.1'')), (SimpleString ''port'', Integer 7001)])
     \<and> (\<exists>x\<in>listen_texts sample_topology. parse_tcp_endpoint x = Inr l)"
  using shards_name_only_listeners [OF sample_mapped sample_shard_node [OF sample_rewrites]]
  by (simp add: node_lists_def key_is_def)

end
