(* ===== verification/Redirection.thy ===== *)
theory Redirection
  imports Cluster_Map
begin

text \<open>
  The wire side of \<open>topology_evil.rs\<close>: MOVED and ASK redirections as text, their rewriting to
  local listeners, and the hash slot of a key.
\<close>

section \<open>Redirections\<close>

datatype redirection_kind = Moved | Ask

record redirection =
  rd_kind :: redirection_kind
  rd_slot :: i32
  rd_server :: string

fun kind_str :: "redirection_kind \<Rightarrow> string" where
  "kind_str Moved = ''MOVED''"
| "kind_str Ask = ''ASK''"

definition redirection_text :: "redirection \<Rightarrow> string" where
  "redirection_text r = kind_str (rd_kind r) @ '' '' @ show_int (sint (rd_slot r)) @ '' '' @ rd_server r"

definition to_frame :: "redirection \<Rightarrow> frame" where
  "to_frame r = SimpleError (redirection_text r)"

definition to_matching_frame :: "redirection \<Rightarrow> frame \<Rightarrow> frame" where
  "to_matching_frame r original =
     (case original of
        BulkError b \<Rightarrow> BulkError (redirection_text r)
      | _ \<Rightarrow> to_frame r)"

definition redirection_code :: "string \<Rightarrow> redirection_kind option" where
  "redirection_code code =
     (if eq_ignore_ascii_case code ''MOVED'' then Some Moved
      else if eq_ignore_ascii_case code ''ASK'' \<or> eq_ignore_ascii_case code ''ASKING'' then Some Ask
      else None)"

definition parse_redirection_text :: "string \<Rightarrow> redirection option" where
  "parse_redirection_text value =
     (let parts = split_whitespace value in
      Option.bind (nth_opt parts 0) (\<lambda>code.
      Option.bind (redirection_code code) (\<lambda>kind.
      Option.bind (nth_opt parts 1) (\<lambda>slot.
      Option.bind (ok (parse_i32 slot)) (\<lambda>slot.
      Option.bind (nth_opt parts 2) (\<lambda>server.
        Some \<lparr>rd_kind = kind, rd_slot = slot, rd_server = server\<rparr>))))))"

definition parse_redirection :: "frame \<Rightarrow> redirection option" where
  "parse_redirection f =
     (case f of
        SimpleError value \<Rightarrow> parse_redirection_text value
      | BulkError b \<Rightarrow> Option.bind (ok (from_utf8 b)) parse_redirection_text
      | _ \<Rightarrow> None)"

definition no_listener_error :: frame where
  "no_listener_error = SimpleError ''ERR evilresp has no local listener for redirection target''"

definition normalize_redirection :: "frame \<Rightarrow> redirection_map \<Rightarrow> frame option" where
  "normalize_redirection f m =
     Option.bind (parse_redirection f) (\<lambda>r.
       case rewrite_server m (rd_server r) of
         None \<Rightarrow> Some no_listener_error
       | Some server \<Rightarrow> Some (to_matching_frame (r\<lparr>rd_server := server\<rparr>) f))"

section \<open>Hash slots\<close>

definition CLUSTER_SLOT_COUNT :: nat where "CLUSTER_SLOT_COUNT = 16384"

definition position :: "('a \<Rightarrow> bool) \<Rightarrow> 'a list \<Rightarrow> nat option" where
  "position p xs = (let n = length (takeWhile (\<lambda>x. \<not> p x) xs) in if n < length xs then Some n else None)"

definition key_tag :: "bytes \<Rightarrow> bytes" where
  "key_tag key =
     (case position (\<lambda>c. c = CHR ''{'') key of
        None \<Rightarrow> key
      | Some opening \<Rightarrow>
          let tag_start = opening + 1 in
          (case position (\<lambda>c. c = CHR ''}'') (drop tag_start key) of
             None \<Rightarrow> key
           | Some close_offset \<Rightarrow>
               if close_offset = 0 then key else take close_offset (drop tag_start key)))"

unbundle bit_operations_syntax

definition crc_bit :: "u16 \<Rightarrow> u16" where
  "crc_bit crc = (if crc AND 0x8000 \<noteq> 0 then push_bit 1 crc XOR 0x1021 else push_bit 1 crc)"

definition crc_byte :: "u16 \<Rightarrow> char \<Rightarrow> u16" where
  "crc_byte crc c = (crc_bit ^^ 8) (crc XOR push_bit 8 (of_nat (byte c)))"

definition crc16_xmodem :: "bytes \<Rightarrow> u16" where
  "crc16_xmodem b = foldl crc_byte 0 b"

definition redis_slot :: "bytes \<Rightarrow> i32" where
  "redis_slot key = of_nat (unat (crc16_xmodem (key_tag key)) mod CLUSTER_SLOT_COUNT)"

end
