(* ===== verification/Redirection_Props.thy ===== *)
theory Redirection_Props
  imports Redirection
begin

text \<open>
  The text of a redirection reads back as the redirection, the rewriting keeps everything but the
  server, and the hash slot is the CRC of the hash tag.
\<close>

section \<open>Texts\<close>

text \<open>Visible ASCII: what a printed address consists of.\<close>

definition visible :: "string \<Rightarrow> bool" where
  "visible s \<longleftrightarrow> s \<noteq> [] \<and> (\<forall>c\<in>set s. 33 \<le> byte c \<and> byte c < 128)"

lemma ws_len_visible: "33 \<le> byte c \<Longrightarrow> byte c < 128 \<Longrightarrow> ws_len (c # s) = 0"
  by (simp add: ws_len_def byte_at_def Let_def)

lemma ws_words_visible:
  "\<forall>c\<in>set w. 33 \<le> byte c \<and> byte c < 128 \<Longrightarrow> ws_words acc (w @ s) = ws_words (rev w @ acc) s"
  by (induction w arbitrary: acc) (auto simp: ws_len_visible)

lemma ws_words_space: "acc \<noteq> [] \<Longrightarrow> ws_words acc (CHR '' '' # s) = rev acc # ws_words [] s"
  by (simp add: ws_len_def byte_at_def byte_def Let_def)

lemma split_whitespace_words:
  assumes "visible a" and "visible b" and "visible c"
  shows "split_whitespace (a @ CHR '' '' # b @ CHR '' '' # c) = [a, b, c]"
  using assms ws_words_visible [of a "[]" "CHR '' '' # b @ CHR '' '' # c"]
    ws_words_visible [of b "[]" "CHR '' '' # c"] ws_words_visible [of c "[]" "[]"]
  by (simp add: split_whitespace_def visible_def ws_words_space del: ws_words.simps(2))

lemma visible_digits: "s \<noteq> [] \<Longrightarrow> \<forall>c\<in>set s. is_ascii_digit c \<Longrightarrow> visible s"
  by (fastforce simp: visible_def is_ascii_digit_def)

lemma visible_show_nat [simp]: "visible (show_nat n)"
  using show_nat_digits by (intro visible_digits) auto

lemma visible_Cons: "33 \<le> byte c \<Longrightarrow> byte c < 128 \<Longrightarrow> visible s \<Longrightarrow> visible (c # s)"
  by (auto simp: visible_def)

lemma visible_append: "visible s \<Longrightarrow> visible t \<Longrightarrow> visible (s @ t)"
  by (auto simp: visible_def)

lemma visible_show_int [simp]: "visible (show_int i)"
  by (auto simp: show_int_def byte_def intro: visible_Cons)

lemma visible_kind [simp]: "visible (kind_str k)"
  by (cases k) (simp_all add: visible_def byte_def)

lemma redirection_code_str [simp]: "redirection_code (kind_str k) = Some k"
  by (cases k) (simp_all add: redirection_code_def ascii_defs)

lemma parse_i32_show [simp]: "parse_i32 (show_int (sint (w :: i32))) = Inr w"
proof -
  have "- (2 ^ 31) \<le> sint w" "sint w \<le> 2 ^ 31 - 1"
    using sint_ge [of w] sint_lt [of w] by simp_all
  then show ?thesis unfolding parse_i32_def by (subst parse_int_show_int) simp_all
qed

lemma parse_redirection_text_print:
  "visible (rd_server r) \<Longrightarrow> parse_redirection_text (redirection_text r) = Some r"
  by (simp add: parse_redirection_text_def redirection_text_def split_whitespace_words nth_opt_def)

lemma redirection_text_utf8: "visible (rd_server r) \<Longrightarrow> is_utf8 (redirection_text r)"
  using visible_kind [of "rd_kind r"] visible_show_int [of "sint (rd_slot r)"]
  by (intro is_utf8_ascii) (auto simp: redirection_text_def visible_def byte_def)

lemma parse_redirection_matching:
  assumes "visible (rd_server r)"
  shows "parse_redirection (to_frame r) = Some r"
    and "parse_redirection (to_matching_frame r f) = Some r"
  using parse_redirection_text_print [OF assms] redirection_text_utf8 [OF assms]
  by (cases f; simp add: parse_redirection_def to_frame_def to_matching_frame_def)+

text \<open>A redirection with a printable server survives the wire: its frame, in either error
  form, reads back as the same kind, slot (any 32-bit value, in range or not) and server.\<close>

lemma redirection_roundtrip:
  assumes "visible (rd_server r)"
  shows "parse_redirection (to_matching_frame r f) = Some r"
  using assms by (rule parse_redirection_matching)

section \<open>Rewriting\<close>

lemma visible_connect_addr: "visible (host e) \<Longrightarrow> visible (connect_addr e)"
  by (auto simp: connect_addr_def intro!: visible_append visible_Cons) (simp_all add: byte_def)

lemma mapped_listens_visible:
  assumes "map_cluster_slots slots listen = Inr (Some t)" and "visible (sa_ip listen)" and "l \<in> listen_texts t"
  shows "visible l"
proof -
  from map_cluster_slots_run [OF assms(1)] obtain s out where s: "alloc_ok listen s"
      "Some t = Some (Cluster (allocated s) out)" by blast
  have "target_listen x \<in> set (map target_listen (allocated s))" if "x \<in> set (allocated s)" for x
    using that by simp
  then show ?thesis
    using assms(2,3) s(2) visible_connect_addr
    by (fastforce simp: listen_texts_def allocated_listens [OF s(1)] socket_addr_to_endpoint_def)
qed

text \<open>C20: whatever redirection the upstream sends, the client is never sent past the proxy. The
  rewritten reply is the local error, or it reads back as the same redirection with one of the
  proxy's listeners as its server; a discovered node's address becomes that node's listener. A
  reply that is no redirection passes through.\<close>

theorem redirections_are_localized:
  assumes "map_cluster_slots slots listen = Inr (Some (Cluster ts out))" and "visible (sa_ip listen)"
  shows "case parse_redirection f of
      None \<Rightarrow> normalize_redirection f (local_redirection_map (Cluster ts out)) = None
    | Some r \<Rightarrow> \<exists>g. normalize_redirection f (local_redirection_map (Cluster ts out)) = Some g \<and>
        (g = no_listener_error \<or>
         (\<exists>l\<in>listen_texts (Cluster ts out). parse_redirection g = Some (r\<lparr>rd_server := l\<rparr>))) \<and>
        (\<forall>n\<in>set (all_nodes out). rd_server r = connect_addr (upstream n) \<and> host_ok (host (upstream n))
             \<and> port (upstream n) < 65536 \<longrightarrow>
           parse_redirection g = Some (r\<lparr>rd_server := local_text n\<rparr>))"
proof (cases "parse_redirection f")
  case None
  then show ?thesis by (simp add: normalize_redirection_def)
next
  case (Some r)
  let ?m = "local_redirection_map (Cluster ts out)"
  obtain g where g: "normalize_redirection f ?m = Some g"
    using Some by (cases "rewrite_server ?m (rd_server r)") (simp_all add: normalize_redirection_def)
  have answer: "parse_redirection g = Some (r\<lparr>rd_server := l\<rparr>) \<and> l \<in> listen_texts (Cluster ts out)"
    if "rewrite_server ?m (rd_server r) = Some l" for l
  proof -
    have l: "l \<in> listen_texts (Cluster ts out)"
      using rewrite_server_answers [OF that] local_map_answers [OF mapped_consistent [OF assms(1)]] by blast
    have "g = to_matching_frame (r\<lparr>rd_server := l\<rparr>) f"
      using g Some that by (simp add: normalize_redirection_def)
    then show ?thesis
      using parse_redirection_matching(2) [of "r\<lparr>rd_server := l\<rparr>" f] mapped_listens_visible [OF assms l] l by simp
  qed
  have "g = no_listener_error \<or> (\<exists>l\<in>listen_texts (Cluster ts out). parse_redirection g = Some (r\<lparr>rd_server := l\<rparr>))"
    using answer g Some by (cases "rewrite_server ?m (rd_server r)") (auto simp: normalize_redirection_def)
  moreover have "parse_redirection g = Some (r\<lparr>rd_server := local_text n\<rparr>)"
    if "n \<in> set (all_nodes out)" "rd_server r = connect_addr (upstream n)" "host_ok (host (upstream n))"
      "port (upstream n) < 65536" for n
    using answer mapped_rewrites(1) [OF assms(1) that(1,3,4)] that(2) by simp
  ultimately show ?thesis unfolding Some option.case using g by blast
qed

theorem redirections_are_localized_witness:
  "\<exists>g. normalize_redirection (SimpleError ''MOVED 3999 db2:6379'') (local_redirection_map sample_topology) = Some g
     \<and> parse_redirection g = Some \<lparr>rd_kind = Moved, rd_slot = 3999, rd_server = ''127.0.0.1:7001''\<rparr>"
proof -
  have r: "parse_redirection (SimpleError ''MOVED 3999 db2:6379'')
      = Some \<lparr>rd_kind = Moved, rd_slot = 3999, rd_server = ''db2:6379''\<rparr>"
    using parse_redirection_matching(1) [of "\<lparr>rd_kind = Moved, rd_slot = 3999, rd_server = ''db2:6379''\<rparr>"]
    by (simp add: visible_def byte_def to_frame_def redirection_text_def show_int_def show_nat.simps digit_char_def)
  have "visible ''127.0.0.1''" by (simp add: visible_def byte_def)
  moreover have "host_ok ''db2''" "connect_addr \<lparr>host = ''db2'', port = 6379\<rparr> = ''db2:6379''"
    "local_text (sample_node ''db2'' 6379 (Some ''b'') 7001) = ''127.0.0.1:7001''"
    by (simp_all add: host_ok_def local_text_def socket_addr_to_endpoint_def connect_addr_def
        show_nat.simps digit_char_def)
  ultimately show ?thesis
    using redirections_are_localized [OF sample_mapped, of "SimpleError ''MOVED 3999 db2:6379''"]
      sample_db2 unfolding r by fastforce
qed

section \<open>The checksum\<close>

text \<open>
  The reference: CRC-16/XMODEM as the remainder of polynomial division over GF(2). The message's
  bits, most significant first and followed by sixteen zeros, are shifted through a register; a
  register of degree 16 is reduced by the generator \<open>x^16 + x^12 + x^5 + 1\<close>.
\<close>

definition divide_step :: "nat \<Rightarrow> bool \<Rightarrow> nat" where
  "divide_step r b = (let v = 2 * r + of_bool b in if v < 65536 then v else v XOR 0x11021)"

definition message_bits :: "bytes \<Rightarrow> bool list" where
  "message_bits s = concat (map (\<lambda>c. map (bit (byte c)) [7, 6, 5, 4, 3, 2, 1, 0]) s)"

definition crc_reference :: "bytes \<Rightarrow> nat" where
  "crc_reference s = foldl divide_step 0 (message_bits s @ replicate 16 False)"

text \<open>The shift is linear.\<close>

lemma crc_bit_alt: "crc_bit r = push_bit 1 r XOR (if bit r 15 then 0x1021 else 0)"
proof -
  have "r AND 0x8000 \<noteq> 0 \<longleftrightarrow> bit r 15"
    using and_exp_eq_0_iff_not_bit [of r 15] by simp
  then show ?thesis by (simp add: crc_bit_def)
qed

lemma crc_bit_xor: "crc_bit (a XOR b) = crc_bit a XOR crc_bit b"
  unfolding crc_bit_alt by (auto simp: bit_xor_iff ac_simps push_bit_xor)

lemma crc_bits_xor: "(crc_bit ^^ n) (a XOR b) = (crc_bit ^^ n) a XOR (crc_bit ^^ n) b"
  by (induction n) (simp_all add: crc_bit_xor)

lemma crc_bit_0 [simp]: "crc_bit 0 = 0"
  by (simp add: crc_bit_def)

text \<open>One step of the division, on the register as a word.\<close>

definition shift_in :: "u16 \<Rightarrow> bool \<Rightarrow> u16" where
  "shift_in r b = crc_bit r XOR of_bool b"

lemma divide_step_word:
  assumes "r < 65536"
  shows "divide_step r b < 65536" and "of_nat (divide_step r b) = shift_in (of_nat r) b"
proof -
  let ?v = "2 * r + of_bool b"
  have top: "bit r 15 \<longleftrightarrow> 32768 \<le> r"
  proof (cases "32768 \<le> r")
    case True
    then have "r div 32768 = 1" using assms by (simp add: div_nat_eqI)
    then show ?thesis using True by (simp add: bit_iff_odd)
  qed (simp add: bit_iff_odd)
  have ge: "32768 \<le> r \<longleftrightarrow> \<not> ?v < 65536" by (cases b) auto
  have xor: "(of_nat (m XOR n) :: u16) = of_nat m XOR of_nat n" for m n
    by (simp add: of_nat_xor_eq)
  have v: "(of_nat ?v :: u16) = push_bit 1 (of_nat r) XOR of_bool b"
    by (cases b) (simp_all add: xor_one_eq push_bit_eq_mult)
  have big: "(69665 :: u16) = 4129" by simp
  show "of_nat (divide_step r b) = shift_in (of_nat r) b"
  proof (cases "?v < 65536")
    case True
    then have "\<not> bit r 15" using ge top by simp
    then show ?thesis using True v by (simp add: divide_step_def shift_in_def crc_bit_alt bit_simps)
  next
    case False
    then have "bit r 15" using ge top by simp
    then have "crc_bit (of_nat r) = push_bit 1 (of_nat r) XOR 4129"
      by (simp add: crc_bit_alt bit_simps)
    then have "shift_in (of_nat r) b = push_bit 1 (of_nat r) XOR 4129 XOR of_bool b"
      by (simp only: shift_in_def xor.assoc)
    moreover have "of_nat (divide_step r b) = push_bit 1 (of_nat r) XOR of_bool b XOR (4129 :: u16)"
    proof -
      have "divide_step r b = ?v XOR 69665" using False by (simp add: divide_step_def)
      then have "(of_nat (divide_step r b) :: u16) = of_nat ?v XOR 69665" by (simp only: xor of_nat_numeral)
      then show ?thesis by (simp only: v big xor.assoc)
    qed
    ultimately show ?thesis by (simp only: ac_simps)
  qed
  show "divide_step r b < 65536"
  proof (cases "?v < 65536")
    case False
    then have "?v div 65536 = 1" using assms by (cases b) (auto intro!: div_nat_eqI)
    then have "drop_bit 16 ?v = 1" by (simp add: drop_bit_eq_div)
    then have "drop_bit 16 (?v XOR 0x11021) = 0" by (simp add: drop_bit_xor)
    then show ?thesis using False by (simp add: divide_step_def Let_def drop_bit_eq_div div_eq_0_iff)
  qed (simp add: divide_step_def)
qed

lemma fold_divide:
  assumes "r < 65536"
  shows "of_nat (foldl divide_step r bs) = foldl shift_in (of_nat r) bs" and "foldl divide_step r bs < 65536"
  using assms by (induction bs arbitrary: r) (simp_all add: divide_step_word)

text \<open>Flushing the register with zeros commutes with taking the message bits in at the top.\<close>

definition take_bit_in :: "u16 \<Rightarrow> bool \<Rightarrow> u16" where
  "take_bit_in r b = crc_bit (r XOR (if b then 0x8000 else 0))"

lemma flush: "foldl shift_in r (replicate n False) = (crc_bit ^^ n) r"
  by (induction n arbitrary: r) (simp_all add: shift_in_def funpow_swap1)

lemma funpow_numeral: "(f ^^ numeral k) x = (f ^^ pred_numeral k) (f x)"
  by (simp add: numeral_eq_Suc funpow_swap1)

lemma crc_numerals:
  "(crc_bit ^^ 16) 1 = 0x1021" "crc_bit 0x8000 = 0x1021"
  by (simp_all add: funpow_numeral crc_bit_def)

lemma flush_shift: "(crc_bit ^^ 16) (foldl shift_in r bs) = foldl take_bit_in ((crc_bit ^^ 16) r) bs"
proof (induction bs arbitrary: r)
  case (Cons b bs)
  have "(crc_bit ^^ 16) (shift_in r b) = take_bit_in ((crc_bit ^^ 16) r) b"
    using crc_numerals by (cases b) (simp_all add: shift_in_def take_bit_in_def crc_bits_xor crc_bit_xor funpow_swap1)
  then show ?case by (simp add: Cons.IH)
qed simp

lemma bit_if: "bit (if b then w else 0) j \<longleftrightarrow> b \<and> bit w j"
  by simp

lemma byte_word:
  "(push_bit 8 (of_nat n) :: u16) =
     (if bit n 7 then 0x8000 else 0) XOR (if bit n 6 then 0x4000 else 0)
     XOR (if bit n 5 then 0x2000 else 0) XOR (if bit n 4 then 0x1000 else 0)
     XOR (if bit n 3 then 0x800 else 0) XOR (if bit n 2 then 0x400 else 0)
     XOR (if bit n 1 then 0x200 else 0) XOR (if bit n 0 then 0x100 else 0)"
proof (rule bit_word_eqI)
  fix j :: nat assume "j < LENGTH(16)"
  then have "j < 16" by simp
  then have "j \<in> {0, 1, 2, 3, 4, 5, 6, 7, 8, 9, 10, 11, 12, 13, 14, 15}"
    unfolding insert_iff empty_iff by presburger
  then show "bit (push_bit 8 (of_nat n) :: u16) j \<longleftrightarrow> bit ((if bit n 7 then 0x8000 else 0)
     XOR (if bit n 6 then 0x4000 else 0)
     XOR (if bit n 5 then 0x2000 else 0) XOR (if bit n 4 then 0x1000 else 0)
     XOR (if bit n 3 then 0x800 else 0) XOR (if bit n 2 then 0x400 else 0)
     XOR (if bit n 1 then 0x200 else 0) XOR (if bit n 0 then 0x100 else 0) :: u16) j"
    unfolding bit_xor_iff bit_if by (elim insertE emptyE) (simp_all add: bit_simps)
qed

lemma crc_bit_numeral:
  "crc_bit (numeral k) = (if numeral k AND 0x8000 \<noteq> (0 :: u16) then push_bit 1 (numeral k) XOR 0x1021
     else push_bit 1 (numeral k))"
  by (simp add: crc_bit_def)

lemma crc_bit_if: "crc_bit (if b then x else 0) = (if b then crc_bit x else 0)"
  by simp

lemma crc_byte_bits: "crc_byte r c = foldl take_bit_in r (map (bit (byte c)) [7, 6, 5, 4, 3, 2, 1, 0])"
  unfolding crc_byte_def byte_word
  by (simp add: funpow_numeral take_bit_in_def crc_bit_xor crc_bit_if crc_bit_numeral xor.assoc
      cong del: if_weak_cong)

lemma crc_message: "foldl crc_byte r s = foldl take_bit_in r (message_bits s)"
  by (induction s arbitrary: r) (simp_all add: message_bits_def crc_byte_bits)

lemma crc_reference_word: "unat (crc16_xmodem s) = crc_reference s"
proof -
  let ?bits = "message_bits s @ replicate 16 False"
  have "of_nat (crc_reference s) = foldl shift_in 0 ?bits"
    using fold_divide(1) [of 0 ?bits] by (simp add: crc_reference_def)
  also have "\<dots> = (crc_bit ^^ 16) (foldl shift_in 0 (message_bits s))" by (simp add: flush)
  also have "\<dots> = foldl take_bit_in ((crc_bit ^^ 16) 0) (message_bits s)" by (rule flush_shift)
  also have "\<dots> = crc16_xmodem s" by (simp add: crc16_xmodem_def crc_message funpow_numeral)
  finally have "crc16_xmodem s = of_nat (crc_reference s)" ..
  then show ?thesis
    using fold_divide(2) [of 0 ?bits] by (simp add: crc_reference_def unsigned_of_nat take_bit_nat_eq_self_iff)
qed

section \<open>Hash tags\<close>

lemma position_append: "\<forall>x\<in>set a. \<not> p x \<Longrightarrow> p c \<Longrightarrow> position p (a @ c # b) = Some (length a)"
  by (simp add: position_def takeWhile_append2)

lemma position_none: "\<forall>x\<in>set a. \<not> p x \<Longrightarrow> position p a = None"
  by (simp add: position_def takeWhile_eq_all_conv [THEN iffD2])

lemma key_tag_tagged:
  assumes "CHR ''{'' \<notin> set a" and "CHR ''}'' \<notin> set t"
  shows "key_tag (a @ CHR ''{'' # t @ CHR ''}'' # b) = (if t = [] then a @ CHR ''{'' # t @ CHR ''}'' # b else t)"
proof -
  have "position (\<lambda>c. c = CHR ''{'') (a @ CHR ''{'' # t @ CHR ''}'' # b) = Some (length a)"
    using assms(1) by (intro position_append) auto
  moreover have "position (\<lambda>c. c = CHR ''}'') (t @ CHR ''}'' # b) = Some (length t)"
    using assms(2) by (intro position_append) auto
  ultimately show ?thesis by (simp add: key_tag_def)
qed

lemma key_tag_untagged: "CHR ''{'' \<notin> set key \<Longrightarrow> key_tag key = key"
proof -
  assume "CHR ''{'' \<notin> set key"
  then have "position (\<lambda>c. c = CHR ''{'') key = None" by (intro position_none) metis
  then show ?thesis by (simp add: key_tag_def)
qed

lemma key_tag_open:
  assumes "CHR ''{'' \<notin> set a" and "CHR ''}'' \<notin> set t" shows "key_tag (a @ CHR ''{'' # t) = a @ CHR ''{'' # t"
proof -
  have "position (\<lambda>c. c = CHR ''{'') (a @ CHR ''{'' # t) = Some (length a)"
    using assms(1) by (intro position_append) auto
  moreover have "position (\<lambda>c. c = CHR ''}'') t = None" using assms(2) by (intro position_none) metis
  ultimately show ?thesis by (simp add: key_tag_def)
qed

lemma redis_slot_value: "sint (redis_slot key) = int (crc_reference (key_tag key) mod 16384)"
proof -
  let ?n = "unat (crc16_xmodem (key_tag key)) mod 16384"
  have "?n < 16384" by simp
  also have "(16384 :: nat) < 2 ^ 31" by simp
  finally have "?n < 2 ^ 31" .
  then show ?thesis
    by (simp add: redis_slot_def CLUSTER_SLOT_COUNT_def crc_reference_word
        signed_take_bit_int_eq_self sint_uint unsigned_of_nat take_bit_nat_eq_self)
qed

lemma redis_slot_range: "0 \<le> sint (redis_slot key) \<and> sint (redis_slot key) < 16384"
  by (simp add: redis_slot_value)

text \<open>C30: the hash slot of a key is the CRC-16/XMODEM remainder, by polynomial division, of its hash
  tag, reduced to the 16384 slots: the tag is what stands between the first opening brace and
  the next closing one when that is not empty, and the whole key otherwise; a later pair of
  braces never counts, so the tag of \<open>foo{}{bar}\<close> is the whole key.\<close>

theorem slot_is_crc_of_hash_tag:
  "sint (redis_slot key) = int (crc_reference (key_tag key) mod 16384)
   \<and> (\<forall>a t b. key = a @ CHR ''{'' # t @ CHR ''}'' # b \<and> CHR ''{'' \<notin> set a \<and> CHR ''}'' \<notin> set t \<longrightarrow>
        key_tag key = (if t = [] then key else t))
   \<and> (\<forall>a t. key = a @ CHR ''{'' # t \<and> CHR ''{'' \<notin> set a \<and> CHR ''}'' \<notin> set t \<longrightarrow> key_tag key = key)
   \<and> (CHR ''{'' \<notin> set key \<longrightarrow> key_tag key = key)"
  using redis_slot_value key_tag_tagged key_tag_untagged key_tag_open by blast

theorem slot_is_crc_of_hash_tag_witness:
  "key_tag ''user:{42}:name'' = ''42'' \<and> key_tag ''plain'' = ''plain'' \<and> key_tag ''foo{}{bar}'' = ''foo{}{bar}''
   \<and> sint (redis_slot ''123456789'') = 12739"
proof -
  have tag: "key_tag (a @ CHR ''{'' # t @ CHR ''}'' # b) = t"
    if "CHR ''{'' \<notin> set a" "CHR ''}'' \<notin> set t" "t \<noteq> []" for a t b
    using slot_is_crc_of_hash_tag [of "a @ CHR ''{'' # t @ CHR ''}'' # b"] that by metis
  have "key_tag ''user:{42}:name'' = ''42''"
    using tag [of "''user:''" "''42''" "'':name''"] by simp
  moreover have "key_tag (a @ CHR ''{'' # CHR ''}'' # b) = a @ CHR ''{'' # CHR ''}'' # b" if "CHR ''{'' \<notin> set a" for a b
    using slot_is_crc_of_hash_tag [of "a @ CHR ''{'' # [] @ CHR ''}'' # b"] that
    by (metis append_Nil empty_iff list.set(1))
  from this [of "''foo''" "''{bar}''"] have "key_tag ''foo{}{bar}'' = ''foo{}{bar}''" by simp
  moreover have "key_tag ''plain'' = ''plain''" "key_tag ''123456789'' = ''123456789''"
    using slot_is_crc_of_hash_tag [of "''plain''"] slot_is_crc_of_hash_tag [of "''123456789''"] by simp_all
  moreover have "crc_reference ''123456789'' mod 16384 = 12739"
  proof -
    have zeros: "replicate 16 False = [False, False, False, False, False, False, False, False,
        False, False, False, False, False, False, False, False]" by (simp add: numeral_eq_Suc)
    show ?thesis
      by (simp add: crc_reference_def zeros message_bits_def byte_def of_char_Char bit_iff_odd divide_step_def)
  qed
  ultimately show ?thesis
    using slot_is_crc_of_hash_tag [of "''123456789''"] by simp
qed

end
