(* ===== verification/Topology_Evil.thy ===== *)
theory Topology_Evil
  imports Redirection_Props Evil_Config Framing
begin

text \<open>
  The injecting side of \<open>topology_evil.rs\<close>: the legacy mutation of redirections at the topology
  probability, and the focused redirection of DEBUG EVIL TOPOLOGY REDIRECT.
\<close>

section \<open>Nodes of the local CLUSTER SLOTS\<close>

fun frame_string :: "frame \<Rightarrow> string option" where
  "frame_string (BulkString (Some b)) = Some (from_utf8_lossy b)"
| "frame_string (VerbatimString b) = Some (from_utf8_lossy b)"
| "frame_string (SimpleString v) = Some v"
| "frame_string _ = None"

definition frame_port :: "frame \<Rightarrow> nat option" where
  "frame_port f = (case f of Integer p \<Rightarrow> u16_of p | _ \<Rightarrow> None)"

definition range_target :: "frame \<Rightarrow> string option" where
  "range_target entry =
     (case entry of
        Array (Some parts) \<Rightarrow>
          (case nth_opt parts 2 of
             Some (Array (Some node)) \<Rightarrow>
               Option.bind (Option.bind (nth_opt node 0) frame_string) (\<lambda>h.
               Option.bind (Option.bind (nth_opt node 1) frame_port) (\<lambda>p.
               Some (h @ '':'' @ show_nat p)))
           | _ \<Rightarrow> None)
      | _ \<Rightarrow> None)"

definition redirection_targets :: "frame \<Rightarrow> string list" where
  "redirection_targets slots =
     (case slots of Array (Some ranges) \<Rightarrow> List.map_filter range_target ranges | _ \<Rightarrow> [])"

definition node_endpoint :: "frame \<Rightarrow> string option" where
  "node_endpoint node =
     (case node of
        Array (Some parts) \<Rightarrow>
          Option.bind (Option.bind (nth_opt parts 0) frame_string) (\<lambda>h.
          Option.bind (Option.bind (nth_opt parts 1) frame_port) (\<lambda>p.
          Some (connect_addr \<lparr>host = h, port = p\<rparr>)))
      | _ \<Rightarrow> None)"

record redirect_nodes =
  rn_primaries :: "string list"
  rn_all :: "string list"
  rn_owner :: "string option"
  rn_replicas :: "string list"

definition redirect_nodes_default :: redirect_nodes where
  "redirect_nodes_default = \<lparr>rn_primaries = [], rn_all = [], rn_owner = None, rn_replicas = []\<rparr>"

definition push_new :: "'a \<Rightarrow> 'a list \<Rightarrow> 'a list" where
  "push_new x xs = (if x \<in> set xs then xs else xs @ [x])"

definition add_replica :: "bool \<Rightarrow> string \<Rightarrow> redirect_nodes \<Rightarrow> redirect_nodes" where
  "add_replica owns r s =
     s\<lparr>rn_replicas := (if owns then push_new r (rn_replicas s) else rn_replicas s),
       rn_all := push_new r (rn_all s)\<rparr>"

definition add_range :: "i32 \<Rightarrow> frame \<Rightarrow> redirect_nodes \<Rightarrow> redirect_nodes" where
  "add_range slot entry s =
     (case entry of
        Array (Some (Integer a # Integer b # p # rs)) \<Rightarrow>
          (case node_endpoint p of
             None \<Rightarrow> s
           | Some main \<Rightarrow>
               let owns = (sint a \<le> sint slot \<and> sint slot \<le> sint b);
                   s = s\<lparr>rn_primaries := push_new main (rn_primaries s)\<rparr>;
                   s = (if owns then s\<lparr>rn_owner := Some main\<rparr> else s);
                   s = s\<lparr>rn_all := push_new main (rn_all s)\<rparr>
               in fold (add_replica owns) (List.map_filter node_endpoint rs) s)
      | _ \<Rightarrow> s)"

definition from_slots :: "frame \<Rightarrow> i32 \<Rightarrow> redirect_nodes" where
  "from_slots slots slot =
     (case slots of
        Array (Some ranges) \<Rightarrow> fold (add_range slot) ranges redirect_nodes_default
      | _ \<Rightarrow> redirect_nodes_default)"

section \<open>Draws\<close>

definition topology_rng :: "'r externals \<Rightarrow> u64 \<Rightarrow> u64 \<Rightarrow> string \<Rightarrow> string \<Rightarrow> 'r" where
  "topology_rng E seed command_index command_hash upstream_hash =
     from_seed E (sha256 E (''evilresp-topology'' @ to_le_bytes seed @ to_le_bytes command_index
                            @ command_hash @ upstream_hash))"

definition choose_one :: "'r externals \<Rightarrow> string list \<Rightarrow> ('r, string option) state" where
  "choose_one E xs =
     (if xs = [] then State_Monad.return None
      else do { i \<leftarrow> gen_range E USize 0 (length xs); State_Monad.return (Some (xs ! i)) })"

definition wrong_valid_slot :: "'r externals \<Rightarrow> i32 \<Rightarrow> ('r, i32) state" where
  "wrong_valid_slot E current =
     do { n \<leftarrow> gen_range E I32 0 CLUSTER_SLOT_COUNT;
          State_Monad.return (of_nat (if of_nat n = current then (n + 1) mod CLUSTER_SLOT_COUNT else n)) }"

definition wrong_server :: "'r externals \<Rightarrow> string \<Rightarrow> string list \<Rightarrow> ('r, string option) state" where
  "wrong_server E current servers = choose_one E (filter (\<lambda>t. t \<noteq> current) servers)"

definition random_kind :: "'r externals \<Rightarrow> ('r, redirection_kind) state" where
  "random_kind E = do { b \<leftarrow> gen_flag E; State_Monad.return (if b then Moved else Ask) }"

definition gen_i32 :: "'r externals \<Rightarrow> ('r, i32) state" where
  "gen_i32 E = do { n \<leftarrow> gen_bits E I32; State_Monad.return (of_nat n) }"

section \<open>The legacy mutation\<close>

record topology_mutation =
  tm_frame :: frame
  tm_mutations :: "applied_mutation list"

definition fake_redirection :: "'r externals \<Rightarrow> frame \<Rightarrow> string list \<Rightarrow> ('r, redirection) state" where
  "fake_redirection E command servers =
     do { slot \<leftarrow> (case get_arg (argv_lossy command) 1 of
                  Some key \<Rightarrow> State_Monad.return (redis_slot key)
                | None \<Rightarrow> do { n \<leftarrow> gen_range E I32 0 CLUSTER_SLOT_COUNT; State_Monad.return (of_nat n) });
          i \<leftarrow> gen_range E USize 0 (length servers);
          kind \<leftarrow> random_kind E;
          State_Monad.return \<lparr>rd_kind = kind, rd_slot = slot, rd_server = servers ! i\<rparr> }"

fun other_kind :: "redirection_kind \<Rightarrow> redirection_kind" where
  "other_kind Moved = Ask"
| "other_kind Ask = Moved"

type_synonym reported = "redirection \<times> applied_mutation list"

definition mutate_kind :: "'r externals \<Rightarrow> f64 \<Rightarrow> reported \<Rightarrow> ('r, reported) state" where
  "mutate_kind E p s =
     do { hit \<leftarrow> should_apply E p;
          State_Monad.return (if hit
            then ((fst s)\<lparr>rd_kind := other_kind (rd_kind (fst s))\<rparr>,
                  snd s @ [applied ''topology.kind'' TopologyWrongRedirectionKind])
            else s) }"

definition mutate_slot :: "'r externals \<Rightarrow> f64 \<Rightarrow> reported \<Rightarrow> ('r, reported) state" where
  "mutate_slot E p s =
     do { hit \<leftarrow> should_apply E p;
          if hit then do { slot \<leftarrow> wrong_valid_slot E (rd_slot (fst s));
            State_Monad.return ((fst s)\<lparr>rd_slot := slot\<rparr>,
                  snd s @ [applied ''topology.slot'' TopologyWrongSlot]) }
          else State_Monad.return s }"

definition mutate_server ::
  "'r externals \<Rightarrow> string list \<Rightarrow> f64 \<Rightarrow> reported \<Rightarrow> ('r, reported) state" where
  "mutate_server E servers p s =
     do { hit \<leftarrow> should_apply E p;
          if hit then do { server \<leftarrow> wrong_server E (rd_server (fst s)) servers;
            State_Monad.return (case server of
                Some server \<Rightarrow> ((fst s)\<lparr>rd_server := server\<rparr>,
                  snd s @ [applied ''topology.server'' TopologyWrongServer])
              | None \<Rightarrow> s) }
          else State_Monad.return s }"

definition mutate_wild :: "'r externals \<Rightarrow> f64 \<Rightarrow> reported \<Rightarrow> ('r, reported) state" where
  "mutate_wild E p s =
     do { hit \<leftarrow> should_apply E p;
          if hit then do { slot \<leftarrow> gen_i32 E;
            State_Monad.return ((fst s)\<lparr>rd_slot := slot\<rparr>,
                  snd s @ [applied ''topology.slot'' TopologyWildSlot]) }
          else State_Monad.return s }"

definition apply_redirection_mutations ::
  "'r externals \<Rightarrow> string list \<Rightarrow> f64 \<Rightarrow> reported \<Rightarrow> ('r, reported) state" where
  "apply_redirection_mutations E servers p s =
     do { s \<leftarrow> mutate_kind E p s;
          s \<leftarrow> mutate_slot E p s;
          s \<leftarrow> mutate_server E servers p s;
          mutate_wild E p s }"

definition legacy_start ::
  "'r externals \<Rightarrow> f64 \<Rightarrow> frame \<Rightarrow> string list \<Rightarrow> redirection option \<Rightarrow> ('r, reported option) state" where
  "legacy_start E p command servers received =
     (case received of
        Some r \<Rightarrow> State_Monad.return (Some (r, []))
      | None \<Rightarrow>
          do { hit \<leftarrow> should_apply E p;
               if hit then do { r \<leftarrow> fake_redirection E command servers;
                 State_Monad.return (Some (r, [applied ''topology'' TopologyFakeRedirection])) }
               else State_Monad.return None })"

definition legacy_mutation ::
  "'r externals \<Rightarrow> f64 \<Rightarrow> frame \<Rightarrow> string list \<Rightarrow> redirection option \<Rightarrow> ('r, reported option) state" where
  "legacy_mutation E p command servers received =
     do { start \<leftarrow> legacy_start E p command servers received;
          case start of
            None \<Rightarrow> State_Monad.return None
          | Some s \<Rightarrow>
              do { s \<leftarrow> apply_redirection_mutations E servers p s;
                   State_Monad.return (if snd s = [] then None else Some s) } }"

definition upstream_hash_of :: "'r externals \<Rightarrow> bytes option \<Rightarrow> string" where
  "upstream_hash_of E b = (case b of Some b \<Rightarrow> deterministic_hash E b | None \<Rightarrow> [])"

definition maybe_mutate_topology ::
  "'r externals \<Rightarrow> evil_config \<Rightarrow> u64 \<Rightarrow> string \<Rightarrow> frame \<Rightarrow> bytes option \<Rightarrow> frame
   \<Rightarrow> app_error + topology_mutation option" where
  "maybe_mutate_topology E c command_index command_hash command upstream_bytes local_slots =
     (if f_le (topology_probability c) zero_percent \<or> topology_redirect c \<noteq> None then Inr None
      else
        let rng = topology_rng E (cfg_seed c) command_index command_hash (upstream_hash_of E upstream_bytes);
            servers = redirection_targets local_slots
        in if servers = [] then Inr None
           else and_then (case upstream_bytes of
                            Some b \<Rightarrow> map_ok parse_redirection (parse_frame b)
                          | None \<Rightarrow> Inr None) (\<lambda>received.
             Inr (map_option (\<lambda>(r, ms). \<lparr>tm_frame = to_frame r, tm_mutations = ms\<rparr>)
               (fst (run_state (legacy_mutation E (topology_probability c) command servers received) rng)))))"

section \<open>The focused redirection\<close>

record redirect_context =
  rx_command_index :: u64
  rx_command_hash :: string
  rx_command :: frame
  rx_upstream_bytes :: "bytes option"
  rx_local_slots :: frame
  rx_listener :: "tcp_endpoint option"

definition command_slot :: "frame \<Rightarrow> nat \<Rightarrow> i32 option" where
  "command_slot command key =
     (case command of
        Array (Some items) \<Rightarrow>
          (case nth_opt items key of
             Some (BulkString (Some b)) \<Rightarrow> Some (redis_slot b)
           | Some (VerbatimString b) \<Rightarrow> Some (redis_slot b)
           | Some (SimpleString v) \<Rightarrow> Some (redis_slot v)
           | _ \<Rightarrow> None)
      | Inline parts \<Rightarrow> map_option redis_slot (nth_opt parts key)
      | _ \<Rightarrow> None)"

definition next_primary :: "string \<Rightarrow> string list \<Rightarrow> string" where
  "next_primary listener primaries =
     primaries ! (case position (\<lambda>n. n = listener) primaries of
                    None \<Rightarrow> 0
                  | Some i \<Rightarrow> (i + 1) mod length primaries)"

definition redirect_server ::
  "'r externals \<Rightarrow> redirect_target \<Rightarrow> redirect_nodes \<Rightarrow> string option \<Rightarrow> ('r, string option) state" where
  "redirect_server E target nodes listener =
     (case target of
        EndpointTarget e \<Rightarrow> State_Monad.return (Some (connect_addr e))
      | SelfNode \<Rightarrow> State_Monad.return (Option.bind listener (\<lambda>l.
          if l \<in> set (rn_all nodes) then Some l else None))
      | WrongNode \<Rightarrow> (case rn_owner nodes of
          None \<Rightarrow> State_Monad.return None
        | Some w \<Rightarrow> wrong_server E w (rn_primaries nodes))
      | ReplicaNode \<Rightarrow> choose_one E (rn_replicas nodes)
      | RandomNode \<Rightarrow> choose_one E (rn_primaries nodes)
      | NextNode \<Rightarrow> State_Monad.return (Option.bind listener (\<lambda>l.
          if length (rn_primaries nodes) < 2 \<or> l \<notin> set (rn_all nodes) then None
          else Some (next_primary l (rn_primaries nodes)))))"

definition wild_slot :: "i32 \<Rightarrow> i32" where
  "wild_slot v = (if 0 \<le> sint v \<and> sint v < int CLUSTER_SLOT_COUNT then - 1 else v)"

definition redirect_slot_draw :: "'r externals \<Rightarrow> redirect_slot \<Rightarrow> i32 \<Rightarrow> ('r, i32) state" where
  "redirect_slot_draw E kind correct =
     (case kind of
        CorrectSlot \<Rightarrow> State_Monad.return correct
      | FixedSlot _ \<Rightarrow> State_Monad.return correct
      | WrongSlot \<Rightarrow> wrong_valid_slot E correct
      | WildSlot \<Rightarrow> do { v \<leftarrow> gen_i32 E; State_Monad.return (wild_slot v) })"

definition redirect_kind_draw :: "'r externals \<Rightarrow> redirect_kind \<Rightarrow> ('r, redirection_kind) state" where
  "redirect_kind_draw E kind =
     (case kind of
        RkMoved \<Rightarrow> State_Monad.return Moved
      | RkAsk \<Rightarrow> State_Monad.return Ask
      | RkRandom \<Rightarrow> random_kind E)"

definition redirect_mutation :: "redirect_phase \<Rightarrow> applied_mutation" where
  "redirect_mutation phase = applied ''topology'' (case phase of
     PhaseBefore \<Rightarrow> TopologyRedirectBefore | PhaseAfter \<Rightarrow> TopologyRedirectAfter)"

text \<open>After the guards: draw whether to act, then the server, the slot and the kind.\<close>

definition draw_redirection ::
  "'r externals \<Rightarrow> f64 \<Rightarrow> redirect_config \<Rightarrow> redirect_context \<Rightarrow> ('r, redirection option) state" where
  "draw_redirection E p rc x =
     do { hit \<leftarrow> should_apply E p;
          if \<not> hit then State_Monad.return None
          else case (case rc_slot rc of
                       FixedSlot slot \<Rightarrow> Some (of_nat slot)
                     | _ \<Rightarrow> command_slot (rx_command x) (rc_key rc)) of
            None \<Rightarrow> State_Monad.return None
          | Some correct \<Rightarrow>
              do { server \<leftarrow> redirect_server E (rc_target rc) (from_slots (rx_local_slots x) correct)
                     (map_option connect_addr (rx_listener x));
                   case server of
                     None \<Rightarrow> State_Monad.return None
                   | Some server \<Rightarrow>
                       do { slot \<leftarrow> redirect_slot_draw E (rc_slot rc) correct;
                            kind \<leftarrow> redirect_kind_draw E (rc_kind rc);
                            State_Monad.return (Some \<lparr>rd_kind = kind, rd_slot = slot, rd_server = server\<rparr>) } } }"

definition configured_redirection ::
  "'r externals \<Rightarrow> evil_config \<Rightarrow> redirect_context \<Rightarrow> topology_mutation option" where
  "configured_redirection E c x =
     (case topology_redirect c of
        None \<Rightarrow> None
      | Some rc \<Rightarrow>
          if f_le (topology_probability c) zero_percent
             \<or> (case rc_until rc of Some end_index \<Rightarrow> end_index \<le> rx_command_index x | None \<Rightarrow> False)
             \<or> (rc_phase rc = PhaseBefore) \<noteq> (rx_upstream_bytes x = None)
          then None
          else map_option (\<lambda>r. \<lparr>tm_frame = to_frame r, tm_mutations = [redirect_mutation (rc_phase rc)]\<rparr>)
            (fst (run_state (draw_redirection E (topology_probability c) rc x)
              (topology_rng E (cfg_seed c) (rx_command_index x) (rx_command_hash x)
                (upstream_hash_of E (rx_upstream_bytes x))))))"

end
