(* ===== verification/Topology_Evil_Props.thy ===== *)
theory Topology_Evil_Props
  imports Topology_Evil
begin

text \<open>
  What an injected redirection is: exactly what the configuration asks for, exactly what its
  report says, and never past the proxy unless an endpoint was configured.
\<close>

lemma pred_state_fst: "pred_state P m \<Longrightarrow> P (fst (run_state m r))"
  by (metis pred_state_run_state)

section \<open>Draws\<close>

definition valid_slot :: "i32 \<Rightarrow> bool" where
  "valid_slot s \<longleftrightarrow> 0 \<le> sint s \<and> sint s < 16384"

lemma redis_slot_valid [simp]: "valid_slot (redis_slot key)"
  using redis_slot_range by (simp add: valid_slot_def)

lemma sint_small:
  assumes "n < 16384"
  shows "sint (of_nat n :: i32) = int n"
proof -
  have "n < 2 ^ 31" using assms by simp
  then show ?thesis
    by (simp add: signed_take_bit_int_eq_self sint_uint unsigned_of_nat take_bit_nat_eq_self)
qed

lemma valid_slot_of_nat: "n < 16384 \<Longrightarrow> valid_slot (of_nat n)"
  by (simp add: valid_slot_def sint_small)

lemma of_nat_slot_inj:
  assumes "m < 16384" and "n < 16384" and "(of_nat m :: i32) = of_nat n"
  shows "m = n"
proof -
  have "int m = sint (of_nat m :: i32)" using sint_small [OF assms(1)] ..
  also have "\<dots> = int n" unfolding assms(3) by (rule sint_small [OF assms(2)])
  finally show ?thesis by simp
qed

lemma choose_in:
  assumes "rng_ok E"
  shows "pred_state (\<lambda>s. \<forall>x. s = Some x \<longrightarrow> x \<in> set xs) (choose_one E xs)"
proof (cases "xs = []")
  case False
  have "pred_state (\<lambda>s. \<forall>x. s = Some x \<longrightarrow> x \<in> set xs)
      (do { i \<leftarrow> gen_range E USize 0 (length xs); State_Monad.return (Some (xs ! i)) })"
    by (rule pred_state_bind [OF draw_below [OF assms]]) (use False in simp_all)
  then show ?thesis using False by (simp add: choose_one_def)
qed (simp add: choose_one_def)

lemma wrong_server_in:
  assumes "rng_ok E"
  shows "pred_state (\<lambda>s. \<forall>x. s = Some x \<longrightarrow> x \<in> set xs \<and> x \<noteq> w) (wrong_server E w xs)"
  unfolding wrong_server_def
  by (rule pred_state_weaken [OF choose_in [OF assms]]) simp

lemma wrong_valid_slot_in:
  assumes "rng_ok E"
  shows "pred_state (\<lambda>s. valid_slot s \<and> s \<noteq> w) (wrong_valid_slot E w)"
  unfolding wrong_valid_slot_def CLUSTER_SLOT_COUNT_def
proof (rule pred_state_bind [OF draw_below [OF assms]])
  fix n :: nat assume n: "0 \<le> n \<and> n < 16384"
  show "pred_state (\<lambda>s. valid_slot s \<and> s \<noteq> w)
      (State_Monad.return (of_nat (if (of_nat n :: i32) = w then (n + 1) mod 16384 else n)))"
  proof (cases "(of_nat n :: i32) = w")
    case True
    have "(n + 1) mod 16384 \<noteq> n" using n by (auto simp: mod_if)
    then have "(of_nat ((n + 1) mod 16384) :: i32) \<noteq> w"
      using of_nat_slot_inj [of "(n + 1) mod 16384" n] n True by auto
    then show ?thesis using True by (simp add: valid_slot_of_nat)
  qed (use n in \<open>simp add: valid_slot_of_nat\<close>)
qed simp

lemma wild_slot_out: "\<not> valid_slot (wild_slot v)"
  by (simp add: wild_slot_def valid_slot_def CLUSTER_SLOT_COUNT_def)

section \<open>The nodes\<close>

definition nodes_ok :: "redirect_nodes \<Rightarrow> bool" where
  "nodes_ok s \<longleftrightarrow> distinct (rn_primaries s) \<and> set (rn_primaries s) \<subseteq> set (rn_all s)
     \<and> set (rn_replicas s) \<subseteq> set (rn_all s)
     \<and> (\<forall>w. rn_owner s = Some w \<longrightarrow> w \<in> set (rn_primaries s))"

lemma push_new_simps [simp]:
  "set (push_new x xs) = insert x (set xs)" "distinct xs \<Longrightarrow> distinct (push_new x xs)"
  by (auto simp: push_new_def)

lemma add_replica_ok: "nodes_ok s \<Longrightarrow> nodes_ok (add_replica b r s)"
  by (auto simp: nodes_ok_def add_replica_def)

lemma fold_replicas_ok: "nodes_ok s \<Longrightarrow> nodes_ok (fold (add_replica b) rs s)"
  by (induction rs arbitrary: s) (simp_all add: add_replica_ok)


lemma add_range_ok:
  assumes "nodes_ok s"
  shows "nodes_ok (add_range slot f s)"
proof -
  have "nodes_ok (let s = s\<lparr>rn_primaries := push_new main (rn_primaries s)\<rparr>;
                   s = (if owns then s\<lparr>rn_owner := Some main\<rparr> else s)
               in s\<lparr>rn_all := push_new main (rn_all s)\<rparr>)" for main owns
    using assms by (auto simp: nodes_ok_def Let_def)
  then show ?thesis using assms
    by (auto simp: add_range_def Let_def fold_replicas_ok split: frame.splits option.splits list.splits)
qed

lemma from_slots_ok: "nodes_ok (from_slots slots slot)"
proof -
  have d: "nodes_ok redirect_nodes_default" by (simp add: nodes_ok_def redirect_nodes_default_def)
  have "nodes_ok s \<Longrightarrow> nodes_ok (fold (add_range slot) rs s)" for rs s
    by (induction rs arbitrary: s) (simp_all add: add_range_ok)
  then show ?thesis using d by (auto simp: from_slots_def split: frame.splits option.splits)
qed

lemma next_primary_in:
  assumes "distinct xs" and "2 \<le> length xs"
  shows "next_primary l xs \<in> set xs \<and> next_primary l xs \<noteq> l"
proof (cases "l \<in> set xs")
  case False
  then have "position (\<lambda>n. n = l) xs = None" by (intro position_none) metis
  then have "next_primary l xs = xs ! 0" by (simp add: next_primary_def)
  moreover have "xs ! 0 \<in> set xs" using assms(2) by (intro nth_mem) linarith
  ultimately show ?thesis using False by auto
next
  case True
  then obtain a b where ab: "xs = a @ l # b" by (meson split_list)
  then have "l \<notin> set a" using assms(1) by auto
  then have "position (\<lambda>n. n = l) xs = Some (length a)"
    unfolding ab by (intro position_append) auto
  then have n: "next_primary l xs = xs ! ((length a + 1) mod length xs)"
    by (simp add: next_primary_def)
  have i: "length a < length xs" "xs ! length a = l" using ab by auto
  have j: "(length a + 1) mod length xs < length xs" using assms(2) by (intro mod_less_divisor) linarith
  have "(length a + 1) mod length xs \<noteq> length a"
    using i(1) assms(2) by (auto simp: mod_if)
  then have "xs ! ((length a + 1) mod length xs) \<noteq> xs ! length a"
    using assms(1) i(1) j by (simp add: nth_eq_iff_index_eq)
  then show ?thesis using n i(2) j by simp
qed

text \<open>What each configured target may choose.\<close>

definition server_ok :: "redirect_target \<Rightarrow> redirect_nodes \<Rightarrow> string option \<Rightarrow> string \<Rightarrow> bool" where
  "server_ok target nodes listener server =
     (case target of
        EndpointTarget e \<Rightarrow> server = connect_addr e
      | SelfNode \<Rightarrow> listener = Some server \<and> server \<in> set (rn_all nodes)
      | WrongNode \<Rightarrow> (\<exists>w. rn_owner nodes = Some w \<and> server \<noteq> w) \<and> server \<in> set (rn_primaries nodes)
      | ReplicaNode \<Rightarrow> server \<in> set (rn_replicas nodes)
      | RandomNode \<Rightarrow> server \<in> set (rn_primaries nodes)
      | NextNode \<Rightarrow> 2 \<le> length (rn_primaries nodes)
          \<and> (\<exists>l. listener = Some l \<and> l \<in> set (rn_all nodes) \<and> server = next_primary l (rn_primaries nodes)))"

lemma redirect_server_ok:
  assumes "rng_ok E"
  shows "pred_state (\<lambda>s. \<forall>x. s = Some x \<longrightarrow> server_ok target nodes listener x)
           (redirect_server E target nodes listener)"
proof (cases target)
  case WrongNode
  then show ?thesis
    using wrong_server_in [OF assms] by (cases "rn_owner nodes") (simp_all add: redirect_server_def server_ok_def conj_commute)
next
  case NextNode
  then show ?thesis by (auto simp: redirect_server_def server_ok_def bind_eq_Some_conv split: if_splits)
qed (use choose_in [OF assms] in \<open>auto simp: redirect_server_def server_ok_def bind_eq_Some_conv split: if_splits\<close>)

lemma server_ok_local:
  assumes "nodes_ok nodes" and "server_ok target nodes listener x" and "\<And>e. target \<noteq> EndpointTarget e"
  shows "x \<in> set (rn_all nodes)"
  using assms next_primary_in [of "rn_primaries nodes"] by (cases target) (auto simp: server_ok_def nodes_ok_def)

definition slot_ok :: "redirect_slot \<Rightarrow> i32 \<Rightarrow> i32 \<Rightarrow> bool" where
  "slot_ok kind correct slot =
     (case kind of
        WrongSlot \<Rightarrow> valid_slot slot \<and> slot \<noteq> correct
      | WildSlot \<Rightarrow> \<not> valid_slot slot
      | _ \<Rightarrow> slot = correct)"

definition kind_ok :: "redirect_kind \<Rightarrow> redirection_kind \<Rightarrow> bool" where
  "kind_ok want got = (case want of RkMoved \<Rightarrow> got = Moved | RkAsk \<Rightarrow> got = Ask | RkRandom \<Rightarrow> True)"

lemma pred_state_true: "pred_state (\<lambda>_. True) m"
  by (rule pred_stateI) simp

lemma redirect_slot_ok:
  assumes "rng_ok E"
  shows "pred_state (slot_ok kind correct) (redirect_slot_draw E kind correct)"
proof (cases kind)
  case WildSlot
  then show ?thesis
    by (simp add: redirect_slot_draw_def)
      (rule pred_state_bind [OF pred_state_true], simp add: wild_slot_out slot_ok_def)
next
  case WrongSlot
  show ?thesis unfolding WrongSlot redirect_slot_draw_def slot_ok_def redirect_slot.case
    by (rule wrong_valid_slot_in [OF assms])
qed (simp_all add: redirect_slot_draw_def slot_ok_def)

lemma redirect_kind_ok: "pred_state (kind_ok want) (redirect_kind_draw E want)"
proof (cases want)
  case RkRandom
  then have "kind_ok want = (\<lambda>_. True)" by (simp add: kind_ok_def fun_eq_iff)
  then show ?thesis by (simp add: pred_state_true)
qed (simp_all add: redirect_kind_draw_def kind_ok_def)

definition correct_slot :: "redirect_config \<Rightarrow> frame \<Rightarrow> i32 option" where
  "correct_slot rc command = (case rc_slot rc of
     FixedSlot slot \<Rightarrow> Some (of_nat slot) | _ \<Rightarrow> command_slot command (rc_key rc))"

definition redirection_ok :: "redirect_config \<Rightarrow> redirect_context \<Rightarrow> redirection \<Rightarrow> bool" where
  "redirection_ok rc x r \<longleftrightarrow> (\<exists>correct. correct_slot rc (rx_command x) = Some correct \<and> valid_slot correct
     \<and> slot_ok (rc_slot rc) correct (rd_slot r)
     \<and> server_ok (rc_target rc) (from_slots (rx_local_slots x) correct) (map_option connect_addr (rx_listener x)) (rd_server r)
     \<and> kind_ok (rc_kind rc) (rd_kind r))"

lemma command_slot_valid: "command_slot command key = Some s \<Longrightarrow> valid_slot s"
  by (auto simp: command_slot_def split: frame.splits option.splits)

lemma correct_slot_valid: "redirect_ok rc \<Longrightarrow> correct_slot rc command = Some s \<Longrightarrow> valid_slot s"
  by (auto simp: correct_slot_def redirect_ok_def valid_slot_of_nat command_slot_valid split: redirect_slot.splits)

lemma draw_redirection_ok:
  assumes "rng_ok E" and "redirect_ok rc"
  shows "pred_state (\<lambda>s. \<forall>r. s = Some r \<longrightarrow> redirection_ok rc x r) (draw_redirection E p rc x)"
  unfolding draw_redirection_def correct_slot_def [symmetric]
proof (rule pred_state_bind [OF pred_state_true])
  fix hit
  show "pred_state (\<lambda>s. \<forall>r. s = Some r \<longrightarrow> redirection_ok rc x r)
     (if \<not> hit then State_Monad.return None
      else case correct_slot rc (rx_command x) of None \<Rightarrow> State_Monad.return None
        | Some correct \<Rightarrow>
              do { server \<leftarrow> redirect_server E (rc_target rc) (from_slots (rx_local_slots x) correct)
                     (map_option connect_addr (rx_listener x));
                   case server of
                     None \<Rightarrow> State_Monad.return None
                   | Some server \<Rightarrow>
                       do { slot \<leftarrow> redirect_slot_draw E (rc_slot rc) correct;
                            kind \<leftarrow> redirect_kind_draw E (rc_kind rc);
                            State_Monad.return (Some \<lparr>rd_kind = kind, rd_slot = slot, rd_server = server\<rparr>) } })"
  proof (cases "hit \<and> correct_slot rc (rx_command x) \<noteq> None")
    case True
    then obtain correct where c: "hit" "correct_slot rc (rx_command x) = Some correct" by auto
    let ?nodes = "from_slots (rx_local_slots x) correct" and ?l = "map_option connect_addr (rx_listener x)"
    have "pred_state (\<lambda>s. \<forall>r. s = Some r \<longrightarrow> redirection_ok rc x r)
        (do { server \<leftarrow> redirect_server E (rc_target rc) ?nodes ?l;
                   case server of
                     None \<Rightarrow> State_Monad.return None
                   | Some server \<Rightarrow>
                       do { slot \<leftarrow> redirect_slot_draw E (rc_slot rc) correct;
                            kind \<leftarrow> redirect_kind_draw E (rc_kind rc);
                            State_Monad.return (Some \<lparr>rd_kind = kind, rd_slot = slot, rd_server = server\<rparr>) } })"
    proof (rule pred_state_bind [OF redirect_server_ok [OF assms(1)]])
      fix server assume server: "\<forall>x. server = Some x \<longrightarrow> server_ok (rc_target rc) ?nodes ?l x"
      show "pred_state (\<lambda>s. \<forall>r. s = Some r \<longrightarrow> redirection_ok rc x r)
        (case server of None \<Rightarrow> State_Monad.return None
         | Some server \<Rightarrow> do { slot \<leftarrow> redirect_slot_draw E (rc_slot rc) correct;
              kind \<leftarrow> redirect_kind_draw E (rc_kind rc);
              State_Monad.return (Some \<lparr>rd_kind = kind, rd_slot = slot, rd_server = server\<rparr>) })"
      proof (cases server)
        case (Some sv)
        have "pred_state (\<lambda>s. \<forall>r. s = Some r \<longrightarrow> redirection_ok rc x r)
          (do { slot \<leftarrow> redirect_slot_draw E (rc_slot rc) correct;
              kind \<leftarrow> redirect_kind_draw E (rc_kind rc);
              State_Monad.return (Some \<lparr>rd_kind = kind, rd_slot = slot, rd_server = sv\<rparr>) })"
          by (rule pred_state_bind [OF redirect_slot_ok [OF assms(1)]],
              rule pred_state_bind [OF redirect_kind_ok])
            (use server Some c(2) correct_slot_valid [OF assms(2) c(2)] in \<open>simp add: redirection_ok_def\<close>)
        then show ?thesis using Some by simp
      qed simp
    qed
    then show ?thesis using c by simp
  qed (auto split: option.split)
qed

lemma redirections_follow_configuration_lemma:
  assumes "rng_ok E" and "topology_redirect c = Some rc" and "redirect_ok rc"
    and "configured_redirection E c x = Some tm"
  shows "\<exists>r. tm = \<lparr>tm_frame = to_frame r, tm_mutations = [redirect_mutation (rc_phase rc)]\<rparr>
     \<and> redirection_ok rc x r
     \<and> (rc_phase rc = PhaseBefore \<longleftrightarrow> rx_upstream_bytes x = None)
     \<and> (\<forall>e. rc_until rc = Some e \<longrightarrow> rx_command_index x < e)
     \<and> \<not> f_le (topology_probability c) zero_percent"
proof -
  from assms(2,4) obtain r rng where r: "fst (run_state (draw_redirection E (topology_probability c) rc x) rng) = Some r"
      and tm: "tm = \<lparr>tm_frame = to_frame r, tm_mutations = [redirect_mutation (rc_phase rc)]\<rparr>"
      and guards: "rc_phase rc = PhaseBefore \<longleftrightarrow> rx_upstream_bytes x = None"
        "\<not> f_le (topology_probability c) zero_percent"
        "\<not> (case rc_until rc of Some e \<Rightarrow> e \<le> rx_command_index x | None \<Rightarrow> False)"
    by (auto simp: configured_redirection_def split: if_splits)
  then have "\<forall>e. rc_until rc = Some e \<longrightarrow> rx_command_index x < e" by auto
  moreover have "redirection_ok rc x r"
    using pred_state_fst [OF draw_redirection_ok [OF assms(1,3), of x "topology_probability c"], of rng] r by blast
  ultimately show ?thesis using tm guards(1,2) by (intro exI [of _ r]) simp
qed

section \<open>What a configuration asks for\<close>

text \<open>The specification reads the topology, not the reply that was made of it: the ranges that
  cover a slot, and the primaries in the order of the ranges.\<close>

definition covering :: "local_slot_range list \<Rightarrow> i32 \<Rightarrow> local_slot_range list" where
  "covering out slot = filter (\<lambda>r. int (slot_start r) \<le> sint slot \<and> sint slot \<le> int (slot_end r)) out"

definition primary_text :: "local_slot_range \<Rightarrow> string" where
  "primary_text r = local_text (primary r)"

definition primary_order :: "local_slot_range list \<Rightarrow> string list" where
  "primary_order out = rev (remdups (rev (map primary_text out)))"

text \<open>The destinations of \<open>TARGET\<close>. A slot in several ranges belongs to the last of them.\<close>

definition destination_ok :: "redirect_target \<Rightarrow> local_slot_range list \<Rightarrow> i32 \<Rightarrow> string option \<Rightarrow> string \<Rightarrow> bool" where
  "destination_ok target out slot listener server =
     (let nodes = local_text ` set (all_nodes out); order = primary_order out in
      case target of
        WrongNode \<Rightarrow> covering out slot \<noteq> [] \<and> server \<in> set order \<and> server \<noteq> primary_text (last (covering out slot))
      | SelfNode \<Rightarrow> listener = Some server \<and> server \<in> nodes
      | ReplicaNode \<Rightarrow> (\<exists>r\<in>set (covering out slot). server \<in> local_text ` set (replicas r))
      | NextNode \<Rightarrow> 2 \<le> length order \<and> (\<exists>l\<in>nodes. listener = Some l
          \<and> ((\<exists>i<length order. order ! i = l \<and> server = order ! (if Suc i = length order then 0 else Suc i))
            \<or> l \<notin> set order \<and> server = order ! 0))
      | RandomNode \<Rightarrow> server \<in> set order
      | EndpointTarget e \<Rightarrow> server = connect_addr e)"

text \<open>The argument \<open>KEY\<close> of a command, the command name being number 0.\<close>

definition argument_is :: "frame \<Rightarrow> nat \<Rightarrow> bytes \<Rightarrow> bool" where
  "argument_is command n key \<longleftrightarrow>
     (\<exists>parts. command = Inline parts \<and> n < length parts \<and> parts ! n = key)
     \<or> (\<exists>items. command = Array (Some items) \<and> n < length items
          \<and> items ! n \<in> {BulkString (Some key), VerbatimString key, SimpleString key})"

definition asked_for :: "redirect_config \<Rightarrow> local_slot_range list \<Rightarrow> frame \<Rightarrow> string option \<Rightarrow> redirection \<Rightarrow> bool" where
  "asked_for rc out command listener r \<longleftrightarrow>
     (\<exists>slot. (case rc_slot rc of
                FixedSlot n \<Rightarrow> sint slot = int n
              | _ \<Rightarrow> \<exists>key. argument_is command (rc_key rc) key \<and> slot = redis_slot key)
        \<and> (case rc_slot rc of
             WrongSlot \<Rightarrow> 0 \<le> sint (rd_slot r) \<and> sint (rd_slot r) < 16384 \<and> rd_slot r \<noteq> slot
           | WildSlot \<Rightarrow> sint (rd_slot r) < 0 \<or> 16384 \<le> sint (rd_slot r)
           | _ \<Rightarrow> rd_slot r = slot)
        \<and> destination_ok (rc_target rc) out slot listener (rd_server r))
     \<and> (rc_kind rc = RkMoved \<longrightarrow> rd_kind r = Moved) \<and> (rc_kind rc = RkAsk \<longrightarrow> rd_kind r = Ask)"

lemma command_slot_argument:
  "command_slot command n = Some slot \<Longrightarrow> \<exists>key. argument_is command n key \<and> slot = redis_slot key"
  by (auto simp: command_slot_def argument_is_def nth_opt_def split: frame.splits option.splits if_splits)

section \<open>Inside the proxy\<close>

lemma u16_of_nat: "n < 65536 \<Longrightarrow> u16_of (of_nat n) = Some n"
proof -
  assume n: "n < 65536"
  then have "n < 2 ^ 63" by simp
  then have "sint (of_nat n :: i64) = int n"
    by (simp add: signed_take_bit_int_eq_self sint_uint unsigned_of_nat take_bit_nat_eq_self)
  then show ?thesis using n by (simp add: u16_of_def)
qed

definition node_printable :: "local_node \<Rightarrow> bool" where
  "node_printable n \<longleftrightarrow> is_utf8 (sa_ip (local_addr n)) \<and> sa_port (local_addr n) < 65536"

lemma node_endpoint_local: "node_printable n \<Longrightarrow> node_endpoint (node_to_resp_frame n) = Some (local_text n)"
  by (simp add: node_endpoint_def node_to_resp_frame_def Let_def nth_opt_def frame_port_def u16_of_nat
      node_printable_def local_text_def socket_addr_to_endpoint_def)

lemma fold_replicas_all: "set (rn_all (fold (add_replica b) rs s)) = set rs \<union> set (rn_all s)"
  by (induction rs arbitrary: s) (auto simp: add_replica_def)

lemma add_range_local:
  assumes "\<forall>n\<in>set (slot_nodes r). node_printable n"
  shows "set (rn_all (add_range slot (slot_to_resp_frame r) s)) = local_text ` set (slot_nodes r) \<union> set (rn_all s)"
proof -
  have "List.map_filter node_endpoint (map node_to_resp_frame ns) = map local_text ns"
    if "\<forall>n\<in>set ns. node_printable n" for ns
    using that by (induction ns) (simp_all add: List.map_filter_def node_endpoint_local)
  then show ?thesis using assms
    by (auto simp: add_range_def slot_to_resp_frame_def slot_nodes_def node_endpoint_local fold_replicas_all Let_def)
qed

lemma from_slots_local:
  assumes "\<forall>n\<in>set (all_nodes out). node_printable n"
  shows "set (rn_all (from_slots (Array (Some (map slot_to_resp_frame out))) slot)) = local_text ` set (all_nodes out)"
proof -
  have "set (rn_all (fold (add_range slot) (map slot_to_resp_frame out) s))
      = local_text ` set (all_nodes out) \<union> set (rn_all s)" for s
    using assms by (induction out arbitrary: s) (auto simp: add_range_local)
  then show ?thesis by (simp add: from_slots_def redirect_nodes_default_def)
qed

lemma mapped_printable:
  assumes "map_cluster_slots slots listen = Inr (Some (Cluster ts out))" and "is_utf8 (sa_ip listen)"
    and "n \<in> set (all_nodes out)"
  shows "node_printable n"
proof -
  from map_cluster_slots_run [OF assms(1)] obtain s where s: "alloc_ok listen s"
      "\<forall>n\<in>set (all_nodes out). placed s n" by (metis option.inject topology.inject(2))
  then have "placed s n" using assms(3) by blast
  from placed_target [OF s(1) this] obtain i where "i < length (allocated s)" "local_addr n = nth_local listen i"
    by blast
  then show ?thesis
    using s(1) assms(2) by (auto simp: node_printable_def alloc_ok_def allocated_ok_def target_ok_def)
qed

lemma mapped_texts:
  assumes "map_cluster_slots slots listen = Inr (Some (Cluster ts out))"
  shows "local_text ` set (all_nodes out) \<subseteq> listen_texts (Cluster ts out)"
  using mapped_consistent [OF assms] by (simp add: consistent_def)

text \<open>The nodes read back from the proxy's own reply are those of the topology.\<close>

lemma map_filter_local:
  "\<forall>n\<in>set ns. node_printable n \<Longrightarrow> List.map_filter node_endpoint (map node_to_resp_frame ns) = map local_text ns"
  by (induction ns) (simp_all add: List.map_filter_def node_endpoint_local)

lemma sint_u16: "n < 65536 \<Longrightarrow> sint (of_nat n :: i64) = int n"
proof -
  assume "n < 65536"
  then have "n < 2 ^ 63" by simp
  then show ?thesis
    by (simp add: signed_take_bit_int_eq_self sint_uint unsigned_of_nat take_bit_nat_eq_self)
qed

lemma fold_replicas_parts:
  "rn_owner (fold (add_replica b) rs t) = rn_owner t"
  "set (rn_replicas (fold (add_replica b) rs t)) = (if b then set rs else {}) \<union> set (rn_replicas t)"
  by (induction rs arbitrary: t) (simp_all add: add_replica_def)

lemma fold_replicas_primaries: "rn_primaries (fold (add_replica b) rs t) = rn_primaries t"
  by (induction rs arbitrary: t) (simp_all add: add_replica_def)

definition range_ok :: "local_slot_range \<Rightarrow> bool" where
  "range_ok r \<longleftrightarrow> (\<forall>n\<in>set (slot_nodes r). node_printable n) \<and> slot_start r < 65536 \<and> slot_end r < 65536"

lemma add_range_parts:
  assumes "range_ok r"
  shows "rn_primaries (add_range slot (slot_to_resp_frame r) s) = push_new (primary_text r) (rn_primaries s)"
    and "rn_owner (add_range slot (slot_to_resp_frame r) s)
      = (if covering [r] slot = [] then rn_owner s else Some (primary_text r))"
    and "set (rn_replicas (add_range slot (slot_to_resp_frame r) s))
      = (if covering [r] slot = [] then {} else local_text ` set (replicas r)) \<union> set (rn_replicas s)"
  using assms
  by (simp_all add: add_range_def slot_to_resp_frame_def slot_nodes_def node_endpoint_local map_filter_local range_ok_def
      fold_replicas_parts fold_replicas_primaries covering_def primary_text_def sint_u16 Let_def)

lemma fold_ranges_parts:
  assumes "\<forall>r\<in>set out. range_ok r"
  shows "rn_primaries (fold (add_range slot) (map slot_to_resp_frame out) s) = fold push_new (map primary_text out) (rn_primaries s)"
    and "rn_owner (fold (add_range slot) (map slot_to_resp_frame out) s)
      = (if covering out slot = [] then rn_owner s else Some (primary_text (last (covering out slot))))"
    and "set (rn_replicas (fold (add_range slot) (map slot_to_resp_frame out) s))
      = (\<Union>r\<in>set (covering out slot). local_text ` set (replicas r)) \<union> set (rn_replicas s)"
  using assms
  by (induction out arbitrary: s) (auto simp: add_range_parts covering_def)

lemma fold_push_new: "fold push_new xs [] = rev (remdups (rev xs))"
proof (induction xs rule: rev_induct)
  case (snoc x xs)
  then show ?case by (simp add: push_new_def)
qed simp

lemma from_slots_parts:
  assumes "\<forall>r\<in>set out. range_ok r"
  shows "rn_primaries (from_slots (Array (Some (map slot_to_resp_frame out))) slot) = primary_order out"
    and "rn_owner (from_slots (Array (Some (map slot_to_resp_frame out))) slot)
      = (if covering out slot = [] then None else Some (primary_text (last (covering out slot))))"
    and "set (rn_replicas (from_slots (Array (Some (map slot_to_resp_frame out))) slot))
      = (\<Union>r\<in>set (covering out slot). local_text ` set (replicas r))"
    and "set (rn_all (from_slots (Array (Some (map slot_to_resp_frame out))) slot)) = local_text ` set (all_nodes out)"
proof -
  have "\<forall>n\<in>set (all_nodes out). node_printable n"
    using assms by (auto simp: range_ok_def)
  then show "set (rn_all (from_slots (Array (Some (map slot_to_resp_frame out))) slot)) = local_text ` set (all_nodes out)"
    by (rule from_slots_local)
qed (simp_all add: from_slots_def fold_ranges_parts [OF assms] redirect_nodes_default_def primary_order_def fold_push_new)

lemma next_primary_follows:
  assumes "distinct xs" and "2 \<le> length xs"
  shows "(\<exists>i<length xs. xs ! i = l \<and> next_primary l xs = xs ! (if Suc i = length xs then 0 else Suc i))
    \<or> l \<notin> set xs \<and> next_primary l xs = xs ! 0"
proof (cases "l \<in> set xs")
  case False
  then have "position (\<lambda>n. n = l) xs = None" by (intro position_none) metis
  then show ?thesis using False by (simp add: next_primary_def)
next
  case True
  then obtain a b where ab: "xs = a @ l # b" by (meson split_list)
  then have "l \<notin> set a" using assms(1) by auto
  then have "position (\<lambda>n. n = l) xs = Some (length a)" unfolding ab by (intro position_append) auto
  then have n: "next_primary l xs = xs ! ((length a + 1) mod length xs)" by (simp add: next_primary_def)
  have i: "length a < length xs" "xs ! length a = l" using ab by auto
  then have "(length a + 1) mod length xs = (if Suc (length a) = length xs then 0 else Suc (length a))" by simp
  with n i show ?thesis by (intro disjI1 exI [of _ "length a"]) simp
qed

lemma server_destination:
  assumes "\<forall>r\<in>set out. range_ok r"
    and "server_ok target (from_slots (Array (Some (map slot_to_resp_frame out))) slot) listener server"
  shows "destination_ok target out slot listener server"
proof -
  let ?nodes = "from_slots (Array (Some (map slot_to_resp_frame out))) slot"
  note parts = from_slots_parts [OF assms(1), of slot]
  have d: "distinct (primary_order out)" by (simp add: primary_order_def)
  show ?thesis
  proof (cases target)
    case NextNode
    then obtain l where l: "listener = Some l" "l \<in> local_text ` set (all_nodes out)" "2 \<le> length (primary_order out)"
        "server = next_primary l (primary_order out)"
      using assms(2) by (auto simp: server_ok_def parts)
    have "(\<exists>i<length (primary_order out). primary_order out ! i = l
          \<and> server = primary_order out ! (if Suc i = length (primary_order out) then 0 else Suc i))
        \<or> l \<notin> set (primary_order out) \<and> server = primary_order out ! 0"
      unfolding l(4) by (rule next_primary_follows [OF d l(3)])
    then show ?thesis unfolding NextNode destination_ok_def Let_def redirect_target.case using l(1-3) by blast
  qed (use assms(2) in \<open>auto simp: server_ok_def destination_ok_def parts split: if_splits\<close>)
qed

lemma redirection_asked_for:
  assumes "redirection_ok rc x r" and "redirect_ok rc" and "\<forall>r\<in>set out. range_ok r"
    and "rx_local_slots x = Array (Some (map slot_to_resp_frame out))"
  shows "asked_for rc out (rx_command x) (map_option connect_addr (rx_listener x)) r"
proof -
  from assms(1) obtain slot where c: "correct_slot rc (rx_command x) = Some slot"
    and ok: "slot_ok (rc_slot rc) slot (rd_slot r)" "kind_ok (rc_kind rc) (rd_kind r)"
    and srv: "server_ok (rc_target rc) (from_slots (rx_local_slots x) slot) (map_option connect_addr (rx_listener x)) (rd_server r)"
    by (auto simp: redirection_ok_def)
  have "destination_ok (rc_target rc) out slot (map_option connect_addr (rx_listener x)) (rd_server r)"
    by (rule server_destination [OF assms(3)]) (use srv assms(4) in simp)
  moreover have "case rc_slot rc of FixedSlot n \<Rightarrow> sint slot = int n
      | _ \<Rightarrow> \<exists>key. argument_is (rx_command x) (rc_key rc) key \<and> slot = redis_slot key"
    using c assms(2) command_slot_argument
    by (cases "rc_slot rc") (auto simp: correct_slot_def redirect_ok_def sint_small)
  moreover have "case rc_slot rc of
        WrongSlot \<Rightarrow> 0 \<le> sint (rd_slot r) \<and> sint (rd_slot r) < 16384 \<and> rd_slot r \<noteq> slot
      | WildSlot \<Rightarrow> sint (rd_slot r) < 0 \<or> 16384 \<le> sint (rd_slot r)
      | _ \<Rightarrow> rd_slot r = slot"
    using ok(1) by (auto simp: slot_ok_def valid_slot_def split: redirect_slot.splits)
  ultimately show ?thesis
    using ok(2) unfolding asked_for_def by (auto simp: kind_ok_def)
qed

text \<open>C24: a focused redirection is what DEBUG EVIL TOPOLOGY REDIRECT asked for, in terms of the topology
  that the proxy's own CLUSTER SLOTS reply is made of.
  It is only sent in the configured phase, before the configured end and at a positive
  probability. Its kind is the configured one. The slot is that of the argument at the index
  \<open>KEY\<close> (the command name being 0), another slot of the cluster, one outside it, or the fixed one. Its server
  is chosen by the command's own slot: a primary that is not the owner of the range the slot is
  in, both ends included; a replica of such a range; the primary after this listener's in the
  order of the ranges, the first after the last and for a replica's listener; any primary; this
  listener itself; or the endpoint. The error's text is kind, slot and server, reported as
  one mutation of its phase.\<close>

theorem redirections_follow_configuration:
  assumes "rng_ok E" and "topology_redirect c = Some rc" and "redirect_ok rc"
    and "rx_local_slots x = Array (Some (map slot_to_resp_frame out))" and "\<forall>r\<in>set out. range_ok r"
    and "configured_redirection E c x = Some tm"
  shows "\<exists>r. tm_frame tm = SimpleError (kind_str (rd_kind r) @ '' '' @ show_int (sint (rd_slot r)) @ '' '' @ rd_server r)
     \<and> asked_for rc out (rx_command x) (map_option connect_addr (rx_listener x)) r
     \<and> tm_mutations tm = [\<lparr>am_path = ''topology'',
          am_kind = (if rc_phase rc = PhaseBefore then TopologyRedirectBefore else TopologyRedirectAfter),
          am_length = None, am_exec = None\<rparr>]
     \<and> (rc_phase rc = PhaseBefore \<longleftrightarrow> rx_upstream_bytes x = None)
     \<and> (\<forall>e. rc_until rc = Some e \<longrightarrow> rx_command_index x < e)
     \<and> \<not> f_le (topology_probability c) zero_percent"
proof -
  from redirections_follow_configuration_lemma [OF assms(1-3,6)] obtain r where
    r: "tm = \<lparr>tm_frame = to_frame r, tm_mutations = [redirect_mutation (rc_phase rc)]\<rparr>" "redirection_ok rc x r"
    and rest: "rc_phase rc = PhaseBefore \<longleftrightarrow> rx_upstream_bytes x = None"
      "\<forall>e. rc_until rc = Some e \<longrightarrow> rx_command_index x < e" "\<not> f_le (topology_probability c) zero_percent"
    by (elim exE conjE) (rule that)
  from redirection_asked_for [OF r(2) assms(3,5,4)] rest show ?thesis
    by (intro exI [of _ r])
      (auto simp: r(1) to_frame_def redirection_text_def redirect_mutation_def split: redirect_phase.split)
qed

text \<open>C35: unless an endpoint was configured as the target, an injected redirection sends the client to
  one of the proxy's own listeners, whatever was drawn.\<close>

theorem injected_redirections_stay_local:
  assumes "rng_ok E" and "topology_redirect c = Some rc" and "redirect_ok rc"
    and "\<And>e. rc_target rc \<noteq> EndpointTarget e"
    and "map_cluster_slots slots listen = Inr (Some (Cluster ts out))" and "visible (sa_ip listen)"
    and "local_slots_response (Cluster ts out) = Some (rx_local_slots x)"
    and "configured_redirection E c x = Some tm"
  shows "\<exists>r. parse_redirection (tm_frame tm) = Some r \<and> rd_server r \<in> listen_texts (Cluster ts out)"
proof -
  from redirections_follow_configuration_lemma [OF assms(1-3,8)] obtain r where
    r: "tm_frame tm = to_frame r" "redirection_ok rc x r" by auto
  then obtain correct where "server_ok (rc_target rc) (from_slots (rx_local_slots x) correct)
      (map_option connect_addr (rx_listener x)) (rd_server r)"
    by (auto simp: redirection_ok_def)
  from server_ok_local [OF from_slots_ok this assms(4)]
  have "rd_server r \<in> set (rn_all (from_slots (rx_local_slots x) correct))" .
  have "is_utf8 (sa_ip listen)" using assms(6) by (intro is_utf8_ascii) (auto simp: visible_def)
  then have printable: "\<forall>n\<in>set (all_nodes out). node_printable n"
    using mapped_printable [OF assms(5)] by blast
  have slots: "rx_local_slots x = Array (Some (map slot_to_resp_frame out))" using assms(7) by simp
  from \<open>rd_server r \<in> _\<close> have server: "rd_server r \<in> listen_texts (Cluster ts out)"
    unfolding slots from_slots_local [OF printable] using mapped_texts [OF assms(5)] by blast
  then have "visible (rd_server r)" by (rule mapped_listens_visible [OF assms(5,6)])
  from parse_redirection_matching(1) [OF this] show ?thesis using r server by auto
qed

abbreviation sample_redirect :: redirect_config where
  "sample_redirect \<equiv> redirect_default\<lparr>rc_target := RandomNode, rc_slot := FixedSlot 5\<rparr>"

abbreviation sample_redirect_config :: evil_config where
  "sample_redirect_config \<equiv> config_default\<lparr>topology_probability := hundred_percent,
     topology_redirect := Some sample_redirect\<rparr>"

abbreviation sample_context :: redirect_context where
  "sample_context \<equiv> \<lparr>rx_command_index = 7, rx_command_hash = ''h'', rx_command = Inline [''PING''],
     rx_upstream_bytes = None, rx_local_slots = Array (Some (map slot_to_resp_frame (sample_slots 7000 7001 7002))),
     rx_listener = None\<rparr>"

lemma choose_some: "xs \<noteq> [] \<Longrightarrow> pred_state (\<lambda>s. s \<noteq> None) (choose_one E xs)"
  by (simp add: choose_one_def) (rule pred_state_bind [OF pred_state_true], simp)

lemma add_range_primaries: "set (rn_primaries s) \<subseteq> set (rn_primaries (add_range slot f s))"
  by (auto simp: add_range_def Let_def fold_replicas_primaries split: frame.splits option.splits list.splits)

lemma from_slots_primaries:
  assumes "node_printable (primary r)"
  shows "local_text (primary r) \<in> set (rn_primaries (from_slots (Array (Some (map slot_to_resp_frame (r # rs)))) slot))"
proof -
  have "set (rn_primaries s) \<subseteq> set (rn_primaries (fold (add_range slot) fs s))" for fs s
    using add_range_primaries by (induction fs arbitrary: s) (simp, fastforce)
  moreover have "local_text (primary r) \<in> set (rn_primaries (add_range slot (slot_to_resp_frame r) s))" for s
    using assms by (simp add: add_range_def slot_to_resp_frame_def slot_nodes_def node_endpoint_local Let_def
        fold_replicas_primaries)
  ultimately show ?thesis by (auto simp: from_slots_def)
qed

lemma random_redirection_happens:
  assumes "rng_ok E" and "rc_target rc = RandomNode" and "correct_slot rc (rx_command x) = Some k"
    and "rn_primaries (from_slots (rx_local_slots x) k) \<noteq> []"
  shows "pred_state (\<lambda>s. s \<noteq> None) (draw_redirection E hundred_percent rc x)"
  unfolding draw_redirection_def correct_slot_def [symmetric] assms(3)
proof (rule pred_state_bind [OF should_apply_certain [OF assms(1)]], simp only: not_True_eq_False if_False option.case,
    rule pred_state_bind)
  show "pred_state (\<lambda>s. s \<noteq> None) (redirect_server E (rc_target rc) (from_slots (rx_local_slots x) k)
      (map_option connect_addr (rx_listener x)))"
    using choose_some [OF assms(4)] by (simp add: redirect_server_def assms(2))
next
  fix server :: "string option" assume "server \<noteq> None"
  then obtain y where y: "server = Some y" by auto
  show "pred_state (\<lambda>s. s \<noteq> None) (case server of None \<Rightarrow> State_Monad.return None
      | Some server \<Rightarrow> do { slot \<leftarrow> redirect_slot_draw E (rc_slot rc) k; kind \<leftarrow> redirect_kind_draw E (rc_kind rc);
          State_Monad.return (Some \<lparr>rd_kind = kind, rd_slot = slot, rd_server = server\<rparr>) })"
    unfolding y option.case
    by (rule pred_state_bind [OF pred_state_true], rule pred_state_bind [OF pred_state_true]) simp
qed

lemma sample_redirects:
  "\<exists>tm. configured_redirection sample_externals sample_redirect_config sample_context = Some tm"
proof -
  have k: "correct_slot sample_redirect (rx_command sample_context) = Some 5" by (simp add: correct_slot_def)
  have "is_utf8 ''127.0.0.1''" by (rule is_utf8_ascii) (simp add: byte_def)
  then have "rn_primaries (from_slots (rx_local_slots sample_context) 5) \<noteq> []"
    using from_slots_primaries [of "hd (sample_slots 7000 7001 7002)" "tl (sample_slots 7000 7001 7002)" 5]
    by (fastforce simp: sample_slots_def node_printable_def)
  with random_redirection_happens [OF sample_rng_ok _ k]
  have "pred_state (\<lambda>s. s \<noteq> None) (draw_redirection sample_externals hundred_percent sample_redirect sample_context)"
    by simp
  then have "fst (run_state (draw_redirection sample_externals hundred_percent sample_redirect sample_context) rng) \<noteq> None" for rng
    by (rule pred_state_fst)
  then show ?thesis
    by (simp add: configured_redirection_def redirect_default_def)
qed

theorem redirections_follow_configuration_witness:
  "\<exists>r. asked_for sample_redirect (sample_slots 7000 7001 7002) (Inline [''PING'']) None r"
proof -
  have "is_utf8 ''127.0.0.1''" by (rule is_utf8_ascii) (simp add: byte_def)
  then have "\<forall>r\<in>set (sample_slots 7000 7001 7002). range_ok r"
    by (simp add: sample_slots_def range_ok_def slot_nodes_def node_printable_def)
  from sample_redirects redirections_follow_configuration [OF sample_rng_ok _ _ _ this,
      of sample_redirect_config sample_redirect sample_context]
  show ?thesis by (auto simp: redirect_ok_def redirect_default_def)
qed

theorem injected_redirections_stay_local_witness:
  "\<exists>tm r. configured_redirection sample_externals sample_redirect_config sample_context = Some tm
     \<and> parse_redirection (tm_frame tm) = Some r \<and> rd_server r \<in> listen_texts sample_topology"
proof -
  from sample_redirects obtain tm where tm: "configured_redirection sample_externals sample_redirect_config sample_context = Some tm"
    by blast
  have "visible ''127.0.0.1''" by (simp add: visible_def byte_def)
  then show ?thesis
    using tm injected_redirections_stay_local [OF sample_rng_ok _ _ _ sample_mapped _ _ tm, of sample_redirect]
    by (auto simp: redirect_ok_def redirect_default_def)
qed

section \<open>The legacy mutation\<close>

text \<open>What the report says: one flag per mutation, in the order the code tries them.\<close>

definition reported_change :: "string list \<Rightarrow> redirection \<Rightarrow> redirection \<Rightarrow> applied_mutation list \<Rightarrow> bool" where
  "reported_change servers old new ms \<longleftrightarrow> (\<exists>kind slot server wild.
     ms = (if kind then [applied ''topology.kind'' TopologyWrongRedirectionKind] else [])
        @ (if slot then [applied ''topology.slot'' TopologyWrongSlot] else [])
        @ (if server then [applied ''topology.server'' TopologyWrongServer] else [])
        @ (if wild then [applied ''topology.slot'' TopologyWildSlot] else [])
     \<and> rd_kind new = (if kind then other_kind (rd_kind old) else rd_kind old)
     \<and> (if server then rd_server new \<in> set servers \<and> rd_server new \<noteq> rd_server old
        else rd_server new = rd_server old)
     \<and> (\<not> wild \<longrightarrow> (if slot then valid_slot (rd_slot new) \<and> rd_slot new \<noteq> rd_slot old
                     else rd_slot new = rd_slot old)))"

definition with_kind :: "bool \<Rightarrow> reported \<Rightarrow> reported" where
  "with_kind hit s = (if hit then ((fst s)\<lparr>rd_kind := other_kind (rd_kind (fst s))\<rparr>,
     snd s @ [applied ''topology.kind'' TopologyWrongRedirectionKind]) else s)"

definition with_slot :: "mutation_kind \<Rightarrow> i32 option \<Rightarrow> reported \<Rightarrow> reported" where
  "with_slot k slot s = (case slot of None \<Rightarrow> s
     | Some v \<Rightarrow> ((fst s)\<lparr>rd_slot := v\<rparr>, snd s @ [applied ''topology.slot'' k]))"

definition with_server :: "string option \<Rightarrow> reported \<Rightarrow> reported" where
  "with_server server s = (case server of None \<Rightarrow> s
     | Some v \<Rightarrow> ((fst s)\<lparr>rd_server := v\<rparr>, snd s @ [applied ''topology.server'' TopologyWrongServer]))"

lemma mutate_kind_step: "pred_state (\<lambda>s'. \<exists>hit. s' = with_kind hit s) (mutate_kind E p s)"
  unfolding mutate_kind_def with_kind_def by (rule pred_state_bind [OF pred_state_true]) auto

lemma mutate_slot_step:
  assumes "rng_ok E"
  shows "pred_state (\<lambda>s'. \<exists>slot. (\<forall>v. slot = Some v \<longrightarrow> valid_slot v \<and> v \<noteq> rd_slot (fst s))
      \<and> s' = with_slot TopologyWrongSlot slot s) (mutate_slot E p s)"
  unfolding mutate_slot_def
proof (rule pred_state_bind [OF pred_state_true], rule pred_state_if, rule pred_state_bind [OF wrong_valid_slot_in [OF assms]])
  fix v assume "valid_slot v \<and> v \<noteq> rd_slot (fst s)"
  then show "pred_state (\<lambda>s'. \<exists>slot. (\<forall>v. slot = Some v \<longrightarrow> valid_slot v \<and> v \<noteq> rd_slot (fst s))
      \<and> s' = with_slot TopologyWrongSlot slot s)
      (State_Monad.return ((fst s)\<lparr>rd_slot := v\<rparr>, snd s @ [applied ''topology.slot'' TopologyWrongSlot]))"
    by (simp add: with_slot_def exI [of _ "Some v"])
qed (simp add: with_slot_def exI [of _ None])

lemma mutate_server_step:
  assumes "rng_ok E"
  shows "pred_state (\<lambda>s'. \<exists>server. (\<forall>v. server = Some v \<longrightarrow> v \<in> set servers \<and> v \<noteq> rd_server (fst s))
      \<and> s' = with_server server s) (mutate_server E servers p s)"
  unfolding mutate_server_def with_server_def
  by (rule pred_state_bind [OF pred_state_true], rule pred_state_if,
      rule pred_state_bind [OF wrong_server_in [OF assms]]) (auto split: option.split intro: exI [of _ None])

lemma mutate_wild_step: "pred_state (\<lambda>s'. \<exists>slot. s' = with_slot TopologyWildSlot slot s) (mutate_wild E p s)"
  unfolding mutate_wild_def
proof (rule pred_state_bind [OF pred_state_true], rule pred_state_if, rule pred_state_bind [OF pred_state_true])
  fix v
  show "pred_state (\<lambda>s'. \<exists>slot. s' = with_slot TopologyWildSlot slot s)
      (State_Monad.return ((fst s)\<lparr>rd_slot := v\<rparr>, snd s @ [applied ''topology.slot'' TopologyWildSlot]))"
    by (simp add: with_slot_def exI [of _ "Some v"])
qed (simp add: with_slot_def exI [of _ None])

lemma reported_changeI:
  assumes "\<forall>v. slot = Some v \<longrightarrow> valid_slot v \<and> v \<noteq> rd_slot (fst s)"
    and "\<forall>v. server = Some v \<longrightarrow> v \<in> set servers \<and> v \<noteq> rd_server (fst s)"
    and "s' = with_slot TopologyWildSlot wild (with_server server (with_slot TopologyWrongSlot slot (with_kind kind s)))"
  shows "\<exists>ms. snd s' = snd s @ ms \<and> reported_change servers (fst s) (fst s') ms"
proof -
  let ?ms = "(if kind then [applied ''topology.kind'' TopologyWrongRedirectionKind] else [])
        @ (if slot \<noteq> None then [applied ''topology.slot'' TopologyWrongSlot] else [])
        @ (if server \<noteq> None then [applied ''topology.server'' TopologyWrongServer] else [])
        @ (if wild \<noteq> None then [applied ''topology.slot'' TopologyWildSlot] else [])"
  have "snd s' = snd s @ ?ms"
    using assms(3) by (simp add: with_slot_def with_server_def with_kind_def split: option.split)
  moreover have "rd_kind (fst s') = (if kind then other_kind (rd_kind (fst s)) else rd_kind (fst s))"
    "if server \<noteq> None then rd_server (fst s') \<in> set servers \<and> rd_server (fst s') \<noteq> rd_server (fst s)
     else rd_server (fst s') = rd_server (fst s)"
    "wild = None \<longrightarrow> (if slot \<noteq> None then valid_slot (rd_slot (fst s')) \<and> rd_slot (fst s') \<noteq> rd_slot (fst s)
     else rd_slot (fst s') = rd_slot (fst s))"
    using assms by (simp_all add: with_slot_def with_server_def with_kind_def split: option.split)
  ultimately have "reported_change servers (fst s) (fst s') ?ms"
    unfolding reported_change_def
    by (intro exI [of _ kind] exI [of _ "slot \<noteq> None"] exI [of _ "server \<noteq> None"] exI [of _ "wild \<noteq> None"] conjI)
      (rule refl, assumption, assumption, simp)
  with \<open>snd s' = snd s @ ?ms\<close> show ?thesis by blast
qed

lemma apply_mutations_report:
  assumes "rng_ok E"
  shows "pred_state (\<lambda>s'. \<exists>ms. snd s' = snd s @ ms \<and> reported_change servers (fst s) (fst s') ms)
     (apply_redirection_mutations E servers p s)"
  unfolding apply_redirection_mutations_def
proof (rule pred_state_bind [OF mutate_kind_step], elim exE)
  fix s1 kind assume s1: "s1 = with_kind kind s"
  show "pred_state (\<lambda>s'. \<exists>ms. snd s' = snd s @ ms \<and> reported_change servers (fst s) (fst s') ms)
     (do { s \<leftarrow> mutate_slot E p s1; s \<leftarrow> mutate_server E servers p s; mutate_wild E p s })"
  proof (rule pred_state_bind [OF mutate_slot_step [OF assms]], elim exE conjE)
    fix s2 slot assume s2: "\<forall>v. slot = Some v \<longrightarrow> valid_slot v \<and> v \<noteq> rd_slot (fst s1)" "s2 = with_slot TopologyWrongSlot slot s1"
    show "pred_state (\<lambda>s'. \<exists>ms. snd s' = snd s @ ms \<and> reported_change servers (fst s) (fst s') ms)
     (do { s \<leftarrow> mutate_server E servers p s2; mutate_wild E p s })"
    proof (rule pred_state_bind [OF mutate_server_step [OF assms]], elim exE conjE)
      fix s3 server assume s3: "\<forall>v. server = Some v \<longrightarrow> v \<in> set servers \<and> v \<noteq> rd_server (fst s2)" "s3 = with_server server s2"
      have same: "rd_slot (fst s1) = rd_slot (fst s)" "rd_server (fst s2) = rd_server (fst s)"
        unfolding s2(2) s1 by (simp_all add: with_kind_def with_slot_def split: option.split)
      show "pred_state (\<lambda>s'. \<exists>ms. snd s' = snd s @ ms \<and> reported_change servers (fst s) (fst s') ms) (mutate_wild E p s3)"
        by (rule pred_state_weaken [OF mutate_wild_step], elim exE,
            rule reported_changeI [OF s2(1) [unfolded same] s3(1) [unfolded same]])
          (simp add: s3(2) s2(2) s1)
    qed
  qed
qed

definition fake_ok :: "frame \<Rightarrow> string list \<Rightarrow> redirection \<Rightarrow> bool" where
  "fake_ok command servers r \<longleftrightarrow> rd_server r \<in> set servers \<and> valid_slot (rd_slot r)
     \<and> (\<forall>key. get_arg (argv_lossy command) 1 = Some key \<longrightarrow> rd_slot r = redis_slot key)"

lemma fake_redirection_ok:
  assumes "rng_ok E" and "servers \<noteq> []"
  shows "pred_state (fake_ok command servers) (fake_redirection E command servers)"
  unfolding fake_redirection_def
proof (rule pred_state_bind)
  show "pred_state (\<lambda>s. valid_slot s \<and> (\<forall>key. get_arg (argv_lossy command) 1 = Some key \<longrightarrow> s = redis_slot key))
     (case get_arg (argv_lossy command) 1 of Some key \<Rightarrow> State_Monad.return (redis_slot key)
      | None \<Rightarrow> do { n \<leftarrow> gen_range E I32 0 CLUSTER_SLOT_COUNT; State_Monad.return (of_nat n) })"
  proof (cases "get_arg (argv_lossy command) 1")
    case None
    have "pred_state valid_slot (do { n \<leftarrow> gen_range E I32 0 CLUSTER_SLOT_COUNT; State_Monad.return (of_nat n) })"
      by (rule pred_state_bind [OF draw_below [OF assms(1)]]) (simp_all add: CLUSTER_SLOT_COUNT_def valid_slot_of_nat)
    with None show ?thesis by simp
  qed simp
next
  fix slot assume slot: "valid_slot slot \<and> (\<forall>key. get_arg (argv_lossy command) 1 = Some key \<longrightarrow> slot = redis_slot key)"
  show "pred_state (fake_ok command servers) (do { i \<leftarrow> gen_range E USize 0 (length servers); kind \<leftarrow> random_kind E;
      State_Monad.return \<lparr>rd_kind = kind, rd_slot = slot, rd_server = servers ! i\<rparr> })"
    by (rule pred_state_bind [OF draw_below [OF assms(1)]], use assms(2) in simp,
        rule pred_state_bind [OF pred_state_true]) (use slot in \<open>simp add: fake_ok_def\<close>)
qed

definition legacy_ok :: "frame \<Rightarrow> string list \<Rightarrow> redirection option \<Rightarrow> reported \<Rightarrow> bool" where
  "legacy_ok command servers received s \<longleftrightarrow> (\<exists>old ms. reported_change servers old (fst s) ms \<and>
     (case received of
        Some r \<Rightarrow> old = r \<and> snd s = ms \<and> ms \<noteq> []
      | None \<Rightarrow> fake_ok command servers old \<and> snd s = applied ''topology'' TopologyFakeRedirection # ms))"

lemma legacy_mutation_ok:
  assumes "rng_ok E" and "servers \<noteq> []"
  shows "pred_state (\<lambda>x. \<forall>s. x = Some s \<longrightarrow> legacy_ok command servers received s)
     (legacy_mutation E p command servers received)"
  unfolding legacy_mutation_def
proof (rule pred_state_bind)
  show "pred_state (\<lambda>x. \<forall>s. x = Some s \<longrightarrow> (case received of Some r \<Rightarrow> s = (r, [])
      | None \<Rightarrow> fake_ok command servers (fst s) \<and> snd s = [applied ''topology'' TopologyFakeRedirection]))
     (legacy_start E p command servers received)"
  proof (cases received)
    case None
    have "pred_state (\<lambda>x. \<forall>s. x = Some s \<longrightarrow> fake_ok command servers (fst s) \<and> snd s = [applied ''topology'' TopologyFakeRedirection])
        (legacy_start E p command servers None)"
      unfolding legacy_start_def option.case
      by (rule pred_state_bind [OF pred_state_true], rule pred_state_if,
          rule pred_state_bind [OF fake_redirection_ok [OF assms]]) simp_all
    with None show ?thesis by simp
  qed (simp add: legacy_start_def)
next
  fix start assume start: "\<forall>s. start = Some s \<longrightarrow> (case received of Some r \<Rightarrow> s = (r, [])
      | None \<Rightarrow> fake_ok command servers (fst s) \<and> snd s = [applied ''topology'' TopologyFakeRedirection])"
  show "pred_state (\<lambda>x. \<forall>s. x = Some s \<longrightarrow> legacy_ok command servers received s)
     (case start of None \<Rightarrow> State_Monad.return None
      | Some s \<Rightarrow> do { s \<leftarrow> apply_redirection_mutations E servers p s;
          State_Monad.return (if snd s = [] then None else Some s) })"
  proof (cases start)
    case (Some s0)
    have "pred_state (\<lambda>x. \<forall>s. x = Some s \<longrightarrow> legacy_ok command servers received s)
       (do { s \<leftarrow> apply_redirection_mutations E servers p s0;
          State_Monad.return (if snd s = [] then None else Some s) })"
      by (rule pred_state_bind [OF apply_mutations_report [OF assms(1)]])
        (use start Some in \<open>auto simp: legacy_ok_def split: option.splits\<close>)
    with Some show ?thesis by simp
  qed simp
qed

text \<open>C26: the legacy topology mutation reports exactly what it did. A reply it produces is a
  redirection that differs from the upstream's own (or from a fabricated one, for the command's
  own slot and a known server) by the reported changes and nothing else: the kind is flipped
  exactly when reported, a reported wrong server is another known one, a reported wrong slot is
  another slot of the cluster, and what is not reported is unchanged.\<close>

theorem topology_report_is_exact:
  assumes "rng_ok E"
    and "maybe_mutate_topology E c command_index command_hash command upstream_bytes local_slots = Inr (Some tm)"
  shows "\<exists>r received. tm_frame tm = to_frame r
     \<and> (case upstream_bytes of None \<Rightarrow> received = None
          | Some b \<Rightarrow> \<exists>f. parse_frame b = Inr f \<and> received = parse_redirection f)
     \<and> legacy_ok command (redirection_targets local_slots) received (r, tm_mutations tm)
     \<and> topology_redirect c = None"
proof -
  let ?servers = "redirection_targets local_slots"
  from assms(2) obtain received r ms rng where
    received: "(case upstream_bytes of Some b \<Rightarrow> map_ok parse_redirection (parse_frame b) | None \<Rightarrow> Inr None) = Inr received"
    and run: "fst (run_state (legacy_mutation E (topology_probability c) command ?servers received) rng) = Some (r, ms)"
    and tm: "tm = \<lparr>tm_frame = to_frame r, tm_mutations = ms\<rparr>" and ne: "?servers \<noteq> []" "topology_redirect c = None"
    by (auto simp: maybe_mutate_topology_def Let_def result_simps split: if_splits)
  have "legacy_ok command ?servers received (r, ms)"
    using pred_state_fst [OF legacy_mutation_ok [OF assms(1) ne(1), of command received "topology_probability c"], of rng] run
    by blast
  moreover have "case upstream_bytes of None \<Rightarrow> received = None
      | Some b \<Rightarrow> \<exists>f. parse_frame b = Inr f \<and> received = parse_redirection f"
    using received by (cases upstream_bytes) (auto simp: result_simps)
  ultimately show ?thesis using tm ne(2) by auto
qed

lemma legacy_fake_happens:
  assumes "rng_ok E"
  shows "pred_state (\<lambda>x. x \<noteq> None) (legacy_mutation E hundred_percent command servers None)"
  unfolding legacy_mutation_def
proof (rule pred_state_bind)
  show "pred_state (\<lambda>x. \<exists>s. x = Some s \<and> snd s \<noteq> []) (legacy_start E hundred_percent command servers None)"
    unfolding legacy_start_def option.case
    by (rule pred_state_bind [OF should_apply_certain [OF assms]], simp, rule pred_state_bind [OF pred_state_true]) simp
next
  fix start :: "reported option" assume "\<exists>s. start = Some s \<and> snd s \<noteq> []"
  then obtain s where s: "start = Some s" "snd s \<noteq> []" by blast
  show "pred_state (\<lambda>x. x \<noteq> None) (case start of None \<Rightarrow> State_Monad.return None
      | Some s \<Rightarrow> do { s \<leftarrow> apply_redirection_mutations E servers hundred_percent s;
          State_Monad.return (if snd s = [] then None else Some s) })"
    unfolding s(1) option.case
    by (rule pred_state_bind [OF apply_mutations_report [OF assms]]) (use s(2) in auto)
qed

theorem topology_report_is_exact_witness:
  "\<exists>tm r. maybe_mutate_topology sample_externals (config_default\<lparr>topology_probability := hundred_percent\<rparr>) 1 ''h''
       (Inline [''GET'', ''k'']) None (rx_local_slots sample_context) = Inr (Some tm)
     \<and> tm_frame tm = to_frame r \<and> legacy_ok (Inline [''GET'', ''k'']) (redirection_targets (rx_local_slots sample_context)) None
         (r, tm_mutations tm)"
proof -
  let ?c = "config_default\<lparr>topology_probability := hundred_percent\<rparr>"
  let ?t = "redirection_targets (rx_local_slots sample_context)"
  have "is_utf8 ''127.0.0.1''" by (rule is_utf8_ascii) (simp add: byte_def)
  then have "?t \<noteq> []"
    by (simp add: redirection_targets_def sample_slots_def slot_to_resp_frame_def slot_nodes_def
        List.map_filter_def range_target_def nth_opt_def node_to_resp_frame_def Let_def frame_port_def u16_of_def)
  moreover have "fst (run_state (legacy_mutation sample_externals hundred_percent (Inline [''GET'', ''k'']) ?t None) rng) \<noteq> None" for rng
    by (rule pred_state_fst [OF legacy_fake_happens [OF sample_rng_ok]])
  ultimately have "\<exists>tm. maybe_mutate_topology sample_externals ?c 1 ''h'' (Inline [''GET'', ''k'']) None
      (rx_local_slots sample_context) = Inr (Some tm)"
    by (simp add: maybe_mutate_topology_def Let_def config_default_def)
  then obtain tm where tm: "maybe_mutate_topology sample_externals ?c 1 ''h'' (Inline [''GET'', ''k'']) None
      (rx_local_slots sample_context) = Inr (Some tm)" ..
  from topology_report_is_exact [OF sample_rng_ok tm] tm show ?thesis by auto
qed

section \<open>IPv6 listeners\<close>

text \<open>
  A deviation: the legacy targets of an IPv6 listener lack the brackets that the focused redirection
  and the rewritten redirections give it, so the legacy server mutation takes the listener itself
  for a different server.
\<close>

lemma ipv6_targets_lack_brackets:
  assumes "node = Array (Some [BulkString (Some ''::1''), Integer 7000, BulkString (Some ''id'')])"
  shows "redirection_targets (Array (Some [Array (Some [Integer 0, Integer 16383, node])])) = [''::1:7000'']
   \<and> node_endpoint node = Some ''[::1]:7000''"
  using assms
  by (simp add: redirection_targets_def range_target_def node_endpoint_def nth_opt_def u16_of_def connect_addr_def
      strip_prefix_def from_utf8_lossy_ascii byte_def show_nat.simps digit_char_def List.map_filter_def frame_port_def)

end
