(* ===== verification/Upstream.thy ===== *)
theory Upstream
  imports Resp Cli
begin

text \<open>
  \<open>upstream_identity.rs\<close> and \<open>upstream_connection.rs\<close>: the session with the upstream server,
  its best-effort identification, and its replacement after a failure.

  The sockets are explicit. An upstream socket has the bytes it will still deliver before it
  ends, a script of the results of the coming \<open>write_all\<close> and \<open>flush\<close> calls (an exhausted script
  means success; a failing write has sent some prefix), and the bytes written to it. The network
  is the list of results of the coming connection attempts (\<open>None\<close>, or an exhausted list: the
  attempt fails).
\<close>

section \<open>Sockets\<close>

record up_socket =
  incoming :: bytes
  write_results :: "(nat \<times> io_kind \<times> msg) option list"
  outgoing :: bytes

definition pop_result :: "up_socket \<Rightarrow> (nat \<times> io_kind \<times> msg) option \<times> up_socket" where
  "pop_result s = (case write_results s of [] \<Rightarrow> (None, s)
     | r # rs \<Rightarrow> (r, s\<lparr>write_results := rs\<rparr>))"

definition write_all :: "bytes \<Rightarrow> up_socket \<Rightarrow> (app_error + unit) \<times> up_socket" where
  "write_all b s =
     (case pop_result s of
        (None, s) \<Rightarrow> (Inr (), s\<lparr>outgoing := outgoing s @ b\<rparr>)
      | (Some (n, k, m), s) \<Rightarrow> (Inl (IoError k m), s\<lparr>outgoing := outgoing s @ take n b\<rparr>))"

definition flush_socket :: "up_socket \<Rightarrow> (app_error + unit) \<times> up_socket" where
  "flush_socket s =
     (case pop_result s of
        (None, s) \<Rightarrow> (Inr (), s)
      | (Some (n, k, m), s) \<Rightarrow> (Inl (IoError k m), s))"

text \<open>A failed read loses the input it consumed; the session is given up then.\<close>

definition read_reply :: "up_socket \<Rightarrow> (app_error + bytes) \<times> up_socket" where
  "read_reply s =
     (case read_raw_frame (incoming s) of
        Inl e \<Rightarrow> (Inl e, s\<lparr>incoming := []\<rparr>)
      | Inr (raw, rest) \<Rightarrow> (Inr raw, s\<lparr>incoming := rest\<rparr>))"

section \<open>Identification\<close>

text \<open>\<open>pending: [bool; 3]\<close>, a list of three.\<close>

type_synonym identity = "bool list"

definition identity_default :: identity where
  "identity_default = [True, True, True]"

definition package_version :: string where
  "package_version = ''0.1.0''"

definition identity_commands :: "frame list" where
  "identity_commands = map (\<lambda>argv. Array (Some (map (\<lambda>arg. BulkString (Some arg)) argv)))
     [[''CLIENT'', ''SETNAME'', ''evilresp''],
      [''CLIENT'', ''SETINFO'', ''LIB-NAME'', ''evilresp''],
      [''CLIENT'', ''SETINFO'', ''LIB-VER'', package_version]]"

fun send_pending :: "(bool \<times> frame) list \<Rightarrow> up_socket \<Rightarrow> (app_error + unit) \<times> up_socket" where
  "send_pending [] s = (Inr (), s)"
| "send_pending ((pending, command) # rest) s =
     (if pending
      then (case write_all (encode command) s of
              (Inl e, s) \<Rightarrow> (Inl e, s)
            | (Inr _, s) \<Rightarrow> send_pending rest s)
      else send_pending rest s)"

definition accepts :: "(frame \<Rightarrow> string) \<Rightarrow> frame \<Rightarrow> app_error + bool" where
  "accepts dbg reply =
     (case reply of
        SimpleString r \<Rightarrow> if r = ''OK'' then Inr True
          else Inl (proxy_error (''upstream identification returned unexpected frame '' @ dbg reply))
      | SimpleError e \<Rightarrow> Inr False
      | BulkError e \<Rightarrow> Inr False
      | _ \<Rightarrow> Inl (proxy_error (''upstream identification returned unexpected frame '' @ dbg reply)))"

text \<open>The reading loop: an accepted field is no longer pending, a rejected one still is.\<close>

fun read_pending ::
  "(frame \<Rightarrow> string) \<Rightarrow> identity \<Rightarrow> up_socket \<Rightarrow> (app_error + unit) \<times> identity \<times> up_socket" where
  "read_pending dbg [] s = (Inr (), [], s)"
| "read_pending dbg (False # ps) s =
     (let (r, ps', s') = read_pending dbg ps s in (r, False # ps', s'))"
| "read_pending dbg (True # ps) s =
     (case read_reply s of
        (Inl e, s) \<Rightarrow> (Inl e, True # ps, s)
      | (Inr raw, s) \<Rightarrow>
          (case and_then (parse_frame raw) (accepts dbg) of
             Inl e \<Rightarrow> (Inl e, True # ps, s)
           | Inr accepted \<Rightarrow>
               (let (r, ps', s') = read_pending dbg ps s in (r, (\<not> accepted) # ps', s'))))"

definition identity_apply ::
  "(frame \<Rightarrow> string) \<Rightarrow> identity \<Rightarrow> up_socket \<Rightarrow> (app_error + unit) \<times> identity \<times> up_socket" where
  "identity_apply dbg ps s =
     (case send_pending (zip ps identity_commands) s of
        (Inl e, s) \<Rightarrow> (Inl e, ps, s)
      | (Inr _, s) \<Rightarrow>
          (case flush_socket s of
             (Inl e, s) \<Rightarrow> (Inl e, ps, s)
           | (Inr _, s) \<Rightarrow> read_pending dbg ps s))"

definition arg_is :: "string list \<Rightarrow> nat \<Rightarrow> string \<Rightarrow> bool" where
  "arg_is argv i name \<longleftrightarrow> i < length argv \<and> eq_ignore_ascii_case (argv ! i) name"

definition hello_ok :: "string list \<Rightarrow> bytes \<Rightarrow> bool" where
  "hello_ok argv reply \<longleftrightarrow> arg_is argv 0 ''HELLO''
     \<and> (reply \<noteq> [] \<and> (hd reply = CHR ''*'' \<or> hd reply = CHR ''%''))"

definition retry_after :: "string list \<Rightarrow> bytes \<Rightarrow> identity \<Rightarrow> bool \<times> identity" where
  "retry_after argv reply ps =
     (if argv = [] then (False, ps)
      else
        let authenticated = (arg_is argv 0 ''AUTH'' \<and> reply = ''+OK'' @ crlf);
            hello = hello_ok argv reply;
            name_index = (if arg_is argv 2 ''AUTH'' then 5 else 2);
            ps = (if hello \<and> arg_is argv name_index ''SETNAME'' then ps[0 := False] else ps)
        in ((authenticated \<or> hello) \<and> True \<in> set ps, ps))"

section \<open>Sessions\<close>

record session =
  ses_socket :: up_socket
  ses_identity :: identity

definition session_connect ::
  "(frame \<Rightarrow> string) \<Rightarrow> up_socket option list \<Rightarrow> (app_error + session) \<times> up_socket option list" where
  "session_connect dbg net =
     (case net of
        Some s # net \<Rightarrow>
          (case identity_apply dbg identity_default s of
             (Inl e, ps, s) \<Rightarrow> (Inl e, net)
           | (Inr _, ps, s) \<Rightarrow> (Inr \<lparr>ses_socket = s, ses_identity = ps\<rparr>, net))
      | _ \<Rightarrow> (Inl (IoError (OtherKind ''ConnectionRefused'') (msg_of ''connection refused'')), tl net))"

definition session_exchange ::
  "(frame \<Rightarrow> string) \<Rightarrow> bytes \<Rightarrow> string list \<Rightarrow> session \<Rightarrow> (app_error + bytes) \<times> session" where
  "session_exchange dbg command argv s =
     (case write_all command (ses_socket s) of
        (Inl e, k) \<Rightarrow> (Inl e, s\<lparr>ses_socket := k\<rparr>)
      | (Inr _, k) \<Rightarrow>
     (case flush_socket k of
        (Inl e, k) \<Rightarrow> (Inl e, s\<lparr>ses_socket := k\<rparr>)
      | (Inr _, k) \<Rightarrow>
     (case read_reply k of
        (Inl e, k) \<Rightarrow> (Inl e, s\<lparr>ses_socket := k\<rparr>)
      | (Inr reply, k) \<Rightarrow>
          (let (again, ps) = retry_after argv reply (ses_identity s) in
           if again
           then (case identity_apply dbg ps k of
                   (Inl e, ps, k) \<Rightarrow> (Inl e, \<lparr>ses_socket = k, ses_identity = ps\<rparr>)
                 | (Inr _, ps, k) \<Rightarrow> (Inr reply, \<lparr>ses_socket = k, ses_identity = ps\<rparr>))
           else (Inr reply, \<lparr>ses_socket = k, ses_identity = ps\<rparr>)))))"

text \<open>\<open>UpstreamConnection\<close>, with the sockets it has given up.\<close>

record upstream_connection =
  up_session :: "session option"
  up_network :: "up_socket option list"
  up_dropped :: "up_socket list"

definition UNAVAILABLE_REPLY :: bytes where
  "UNAVAILABLE_REPLY = ''-ERR evilresp upstream unavailable; command outcome unknown; '' @
     ''upstream session reset; retry on next command'' @ crlf"

definition connection_new :: "(frame \<Rightarrow> string) \<Rightarrow> up_socket option list \<Rightarrow> upstream_connection" where
  "connection_new dbg net =
     (case session_connect dbg net of
        (Inl e, net) \<Rightarrow> \<lparr>up_session = None, up_network = net, up_dropped = []\<rparr>
      | (Inr s, net) \<Rightarrow> \<lparr>up_session = Some s, up_network = net, up_dropped = []\<rparr>)"

definition exchange_on ::
  "(frame \<Rightarrow> string) \<Rightarrow> bytes \<Rightarrow> string list \<Rightarrow> session \<Rightarrow> upstream_connection
   \<Rightarrow> (app_error + bytes) \<times> upstream_connection" where
  "exchange_on dbg command argv s c =
     (case session_exchange dbg command argv s of
        (Inl e, s) \<Rightarrow> (Inl e, c\<lparr>up_session := None, up_dropped := up_dropped c @ [ses_socket s]\<rparr>)
      | (Inr reply, s) \<Rightarrow> (Inr reply, c\<lparr>up_session := Some s\<rparr>))"

definition exchange ::
  "(frame \<Rightarrow> string) \<Rightarrow> bytes \<Rightarrow> string list \<Rightarrow> upstream_connection
   \<Rightarrow> (app_error + bytes) \<times> upstream_connection" where
  "exchange dbg command argv c =
     (case up_session c of
        Some s \<Rightarrow> exchange_on dbg command argv s c
      | None \<Rightarrow>
          (case session_connect dbg (up_network c) of
             (Inl e, net) \<Rightarrow> (Inl e, c\<lparr>up_network := net\<rparr>)
           | (Inr s, net) \<Rightarrow> exchange_on dbg command argv s (c\<lparr>up_network := net\<rparr>)))"

end
