(* ===== verification/Upstream_Props.thy ===== *)
theory Upstream_Props
  imports Upstream Resp_Roundtrip "HOL-Library.Sublist"
begin

text \<open>
  The promise of \<open>upstream_connection.rs\<close>: a command is written at most once, a failed session is
  never used again, and the replies are taken off the stream in order.
\<close>

section \<open>What is written\<close>

text \<open>The bytes of the pending identification commands.\<close>

definition identity_bytes :: "identity \<Rightarrow> bytes" where
  "identity_bytes ps = concat (map (\<lambda>(p, f). if p then encode f else []) (zip ps identity_commands))"

lemma pop_result_simps:
  "pop_result s = (r, s') \<Longrightarrow> outgoing s' = outgoing s \<and> incoming s' = incoming s"
  by (auto simp: pop_result_def split: list.splits)

lemma write_all_spec:
  assumes "write_all b s = (r, s')"
  shows "incoming s' = incoming s" and "r = Inr () \<Longrightarrow> outgoing s' = outgoing s @ b"
    and "\<exists>d. prefix d b \<and> outgoing s' = outgoing s @ d"
  using assms pop_result_simps [of s]
  by (auto simp: write_all_def take_is_prefix split: prod.splits option.splits)

lemma flush_socket_spec:
  "flush_socket s = (r, s') \<Longrightarrow> outgoing s' = outgoing s \<and> incoming s' = incoming s"
  using pop_result_simps [of s] by (auto simp: flush_socket_def split: prod.splits option.splits)

lemma read_reply_spec:
  assumes "read_reply s = (r, s')"
  shows "outgoing s' = outgoing s"
    and "r = Inr raw \<Longrightarrow> read_raw_frame (incoming s) = Inr (raw, incoming s')"
  using assms by (auto simp: read_reply_def split: sum.splits prod.splits)

text \<open>What is left of a stream after a number of its frames.\<close>

primrec frames_after :: "nat \<Rightarrow> bytes \<Rightarrow> bytes option" where
  "frames_after 0 input = Some input"
| "frames_after (Suc n) input =
     (case read_raw_frame input of Inl _ \<Rightarrow> None | Inr (_, rest) \<Rightarrow> frames_after n rest)"

lemma send_pending_spec:
  assumes "send_pending xs s = (r, s')"
  shows "incoming s' = incoming s
    \<and> (\<exists>d. prefix d (concat (map (\<lambda>(p, f). if p then encode f else []) xs)) \<and> outgoing s' = outgoing s @ d)
    \<and> (r = Inr () \<longrightarrow> outgoing s' = outgoing s @ concat (map (\<lambda>(p, f). if p then encode f else []) xs))"
  using assms
proof (induction xs s rule: send_pending.induct)
  case (2 pending command rest s)
  show ?case
  proof (cases pending)
    case True
    obtain q t where w: "write_all (encode command) s = (q, t)" by force
    note spec = write_all_spec [OF w]
    show ?thesis
    proof (cases q)
      case (Inl e)
      then have "r = Inl e" "s' = t" using 2 True w by simp_all
      then show ?thesis using spec True by (auto intro: prefix_prefix)
    next
      case (Inr u)
      then have "send_pending rest t = (r, s')" using 2 True w by simp
      with "2.IH"(1) [OF True w [symmetric]] Inr have
        ih: "incoming s' = incoming t"
        "\<exists>d. prefix d (concat (map (\<lambda>(p, f). if p then encode f else []) rest)) \<and> outgoing s' = outgoing t @ d"
        "r = Inr () \<longrightarrow> outgoing s' = outgoing t @ concat (map (\<lambda>(p, f). if p then encode f else []) rest)"
        by auto
      then show ?thesis using spec Inr True by (auto intro: same_prefix_prefix [THEN iffD2])
    qed
  next
    case False
    then show ?thesis using 2 by auto
  qed
qed auto

lemma read_pending_spec:
  assumes "read_pending dbg ps s = (r, ps', s')"
  shows "outgoing s' = outgoing s \<and> length ps' = length ps \<and> (r = Inr () \<longrightarrow> frames_after (count_list ps True) (incoming s) = Some (incoming s'))
     \<and> list_all2 (\<lambda>p p'. p' \<longrightarrow> p) ps ps'"
  using assms
proof (induction dbg ps s arbitrary: r ps' s' rule: read_pending.induct)
  case (2 dbg ps s)
  then show ?case by (auto simp: Let_def split: prod.splits)
next
  case (3 dbg ps s)
  obtain q t where rd: "read_reply s = (q, t)" by force
  note spec = read_reply_spec [OF rd]
  show ?case
  proof (cases q)
    case (Inl e)
    then show ?thesis using 3 rd spec by (auto simp: list_all2_refl)
  next
    case (Inr raw)
    show ?thesis
    proof (cases "and_then (parse_frame raw) (accepts dbg)")
      case (Inl e)
      then show ?thesis using 3 rd \<open>q = Inr raw\<close> spec by (auto simp: list_all2_refl)
    next
      case acc: (Inr accepted)
      obtain r2 p2 s2 where rec: "read_pending dbg ps t = (r2, p2, s2)" by (cases "read_pending dbg ps t") auto
      then have res: "r = r2" "ps' = (\<not> accepted) # p2" "s' = s2"
        using 3 rd \<open>q = Inr raw\<close> acc by (simp_all add: Let_def)
      have "outgoing s2 = outgoing t \<and> length p2 = length ps \<and> (r2 = Inr () \<longrightarrow> frames_after (count_list ps True) (incoming t) = Some (incoming s2))
          \<and> list_all2 (\<lambda>p p'. p' \<longrightarrow> p) ps p2"
        using "3.IH" [OF rd [symmetric] \<open>q = Inr raw\<close> acc rec] .
      then show ?thesis using res spec(1) spec(2) [OF \<open>q = Inr raw\<close>] by auto
    qed
  qed
qed simp

lemma identity_apply_spec:
  assumes "identity_apply dbg ps s = (r, ps', s')"
  shows "\<exists>d. prefix d (identity_bytes ps) \<and> outgoing s' = outgoing s @ d"
    and "r = Inr () \<Longrightarrow> outgoing s' = outgoing s @ identity_bytes ps
       \<and> frames_after (count_list ps True) (incoming s) = Some (incoming s')"
proof -
  obtain q t where w: "send_pending (zip ps identity_commands) s = (q, t)" by force
  note spec = send_pending_spec [OF w, folded identity_bytes_def]
  obtain f u where fl: "flush_socket t = (f, u)" by force
  note fspec = flush_socket_spec [OF fl]
  consider "\<exists>e. q = Inl e" "s' = t" "\<exists>e. r = Inl e" | "q = Inr ()" "\<exists>e. f = Inl e" "s' = u" "\<exists>e. r = Inl e"
    | "q = Inr ()" "f = Inr ()" "read_pending dbg ps u = (r, ps', s')"
    using assms w fl by (cases q; cases f) (auto simp: identity_apply_def)
  then have "(\<exists>d. prefix d (identity_bytes ps) \<and> outgoing s' = outgoing s @ d)
    \<and> (r = Inr () \<longrightarrow> outgoing s' = outgoing s @ identity_bytes ps
       \<and> frames_after (count_list ps True) (incoming s) = Some (incoming s'))"
  proof cases
    case 3
    then show ?thesis using spec fspec read_pending_spec [OF 3(3)] by auto
  qed (use spec fspec in auto)
  then show "\<exists>d. prefix d (identity_bytes ps) \<and> outgoing s' = outgoing s @ d"
    "r = Inr () \<Longrightarrow> outgoing s' = outgoing s @ identity_bytes ps
       \<and> frames_after (count_list ps True) (incoming s) = Some (incoming s')"
    by blast+
qed

section \<open>One exchange\<close>

text \<open>Only AUTH and HELLO have a retry, and only of fields that are still pending.\<close>

lemma retry_after_spec:
  assumes "retry_after argv reply ps = (again, ps')"
  shows "list_all2 (\<lambda>p' p. p' \<longrightarrow> p) ps' ps" and "again \<Longrightarrow> arg_is argv 0 ''AUTH'' \<or> arg_is argv 0 ''HELLO''"
proof -
  have "list_all2 (\<lambda>p' p. p' \<longrightarrow> p) (ps[0 := False]) ps" by (cases ps) (simp_all add: list_all2_refl)
  then show "list_all2 (\<lambda>p' p. p' \<longrightarrow> p) ps' ps"
    using assms by (auto simp: retry_after_def Let_def list_all2_refl split: if_splits)
  show "again \<Longrightarrow> arg_is argv 0 ''AUTH'' \<or> arg_is argv 0 ''HELLO''"
    using assms by (auto simp: retry_after_def Let_def hello_ok_def split: if_splits)
qed

text \<open>What an exchange over the session \<open>s\<close> that got its reply has done to the socket \<open>k\<close>: the
  reply is the next frame, and the command went out once; after AUTH or HELLO pending fields
  may have been sent again, and a frame read for each.\<close>

definition answered_once :: "bytes \<Rightarrow> string list \<Rightarrow> session \<Rightarrow> bytes \<Rightarrow> up_socket \<Rightarrow> bool" where
  "answered_once cmd argv s reply k \<longleftrightarrow>
     (\<exists>rest. read_raw_frame (incoming (ses_socket s)) = Inr (reply, rest)
       \<and> (outgoing k = outgoing (ses_socket s) @ cmd \<and> incoming k = rest
         \<or> (arg_is argv 0 ''AUTH'' \<or> arg_is argv 0 ''HELLO'')
           \<and> (\<exists>ps. list_all2 (\<lambda>p old. p \<longrightarrow> old) ps (ses_identity s)
               \<and> outgoing k = outgoing (ses_socket s) @ cmd @ identity_bytes ps
               \<and> frames_after (count_list ps True) rest = Some (incoming k))))"

lemma session_exchange_spec:
  assumes "session_exchange dbg cmd argv s = (r, s')"
  shows "case r of
      Inr reply \<Rightarrow> answered_once cmd argv s reply (ses_socket s')
    | Inl e \<Rightarrow> \<exists>d ps. list_all2 (\<lambda>p old. p \<longrightarrow> old) ps (ses_identity s)
        \<and> prefix d (cmd @ identity_bytes ps) \<and> outgoing (ses_socket s') = outgoing (ses_socket s) @ d"
proof -
  let ?k = "ses_socket s" and ?old = "ses_identity s"
  have refl: "list_all2 (\<lambda>p old. p \<longrightarrow> old) ?old ?old" by (simp add: list_all2_refl)
  obtain q1 k1 where w: "write_all cmd ?k = (q1, k1)" by force
  note w1 = write_all_spec [OF w]
  show ?thesis
  proof (cases q1)
    case (Inl e)
    with assms w have "r = Inl e" "ses_socket s' = k1" by (auto simp: session_exchange_def)
    with w1(3) refl show ?thesis by (auto intro: prefix_prefix)
  next
    case (Inr u)
    then have out1: "outgoing k1 = outgoing ?k @ cmd" using w1(2) by simp
    obtain q2 k2 where f: "flush_socket k1 = (q2, k2)" by force
    note f1 = flush_socket_spec [OF f]
    obtain q3 k3 where rd: "read_reply k2 = (q3, k3)" by force
    note r1 = read_reply_spec [OF rd]
    show ?thesis
    proof (cases "(\<exists>e. q2 = Inl e) \<or> (\<exists>e. q3 = Inl e)")
      case True
      then obtain e where "r = Inl e" "outgoing (ses_socket s') = outgoing ?k @ cmd"
        using assms w Inr f rd out1 f1 r1(1) by (cases q2; cases q3) (auto simp: session_exchange_def)
      then show ?thesis using refl by (auto intro!: exI [of _ cmd])
    next
      case False
      then obtain reply where q: "q2 = Inr ()" "q3 = Inr reply" by (cases q2; cases q3) auto
      obtain again ps where ra: "retry_after argv reply ?old = (again, ps)" by force
      note ra1 = retry_after_spec [OF ra]
      have inc: "read_raw_frame (incoming ?k) = Inr (reply, incoming k3)" and out3: "outgoing k3 = outgoing ?k @ cmd"
        using w1(1) f1 r1 q out1 by auto
      show ?thesis
      proof (cases again)
        case False
        then have "r = Inr reply" "ses_socket s' = k3"
          using assms w Inr f rd q ra by (auto simp: session_exchange_def)
        then show ?thesis using inc out3 by (auto simp: answered_once_def)
      next
        case True
        obtain q4 ps4 k4 where ap: "identity_apply dbg ps k3 = (q4, ps4, k4)" by (metis prod.exhaust)
        note a1 = identity_apply_spec [OF ap]
        have "ses_socket s' = k4" and r: "r = (case q4 of Inl e \<Rightarrow> Inl e | Inr _ \<Rightarrow> Inr reply)"
          using assms w Inr f rd q ra True ap by (auto simp: session_exchange_def split: sum.splits)
        moreover have "answered_once cmd argv s reply k4" if "q4 = Inr ()"
          using inc out3 a1(2) [OF that] ra1(1) ra1(2) [OF True] by (auto simp: answered_once_def)
        moreover obtain d where "prefix d (identity_bytes ps)" "outgoing k4 = outgoing k3 @ d" using a1(1) by blast
        then have "prefix (cmd @ d) (cmd @ identity_bytes ps)" "outgoing k4 = outgoing ?k @ cmd @ d"
          using out3 by simp_all
        ultimately show ?thesis using ra1(1) by (cases q4) auto
      qed
    qed
  qed
qed

text \<open>
  What one exchange may do with the session \<open>s\<close>, with \<open>c\<close> the connection before and \<open>c'\<close> the
  connection after.
\<close>

definition used_once ::
  "bytes \<Rightarrow> string list \<Rightarrow> session \<Rightarrow> app_error + bytes \<Rightarrow> upstream_connection \<Rightarrow> upstream_connection \<Rightarrow> bool" where
  "used_once cmd argv s r c c' \<longleftrightarrow>
     (case r of
        Inr reply \<Rightarrow> up_dropped c' = up_dropped c
          \<and> (\<exists>s'. up_session c' = Some s' \<and> answered_once cmd argv s reply (ses_socket s'))
      | Inl e \<Rightarrow> up_session c' = None
          \<and> (\<exists>k' d ps. up_dropped c' = up_dropped c @ [k'] \<and> list_all2 (\<lambda>p old. p \<longrightarrow> old) ps (ses_identity s)
               \<and> prefix d (cmd @ identity_bytes ps) \<and> outgoing k' = outgoing (ses_socket s) @ d))"

lemma exchange_on_spec:
  assumes "exchange_on dbg cmd argv s c = (r, c')"
  shows "used_once cmd argv s r c c'" and "up_network c' = up_network c"
proof -
  obtain q s' where e: "session_exchange dbg cmd argv s = (q, s')" by force
  then show "up_network c' = up_network c" using assms by (auto simp: exchange_on_def split: sum.splits)
  show "used_once cmd argv s r c c'"
    using session_exchange_spec [OF e] assms e
    by (cases q) (auto simp: exchange_on_def used_once_def)
qed

text \<open>A new session: the three identification commands are out and their replies read.\<close>

definition identified :: "up_socket \<Rightarrow> session \<Rightarrow> bool" where
  "identified k s \<longleftrightarrow> outgoing (ses_socket s) = outgoing k @ concat (map encode identity_commands)
     \<and> frames_after 3 (incoming k) = Some (incoming (ses_socket s))"

lemma identity_bytes_default: "identity_bytes identity_default = concat (map encode identity_commands)"
  by (simp add: identity_bytes_def identity_default_def identity_commands_def)

lemma session_connect_spec:
  assumes "session_connect dbg net = (r, net')"
  shows "net' = tl net"
    and "r = Inr s \<Longrightarrow> \<exists>k. net = Some k # net' \<and> identified k s"
proof -
  show "net' = tl net"
    using assms by (auto simp: session_connect_def split: list.splits option.splits sum.splits prod.splits)
  assume r: "r = Inr s"
  then obtain k rest where net: "net = Some k # rest"
    using assms by (auto simp: session_connect_def split: list.splits option.splits)
  obtain q ps k' where ap: "identity_apply dbg identity_default k = (q, ps, k')" by (metis prod.exhaust)
  then have q: "q = Inr ()" "net' = rest" "ses_socket s = k'"
    using assms net r by (auto simp: session_connect_def split: sum.splits)
  have "count_list identity_default True = 3" by (simp add: identity_default_def)
  then show "\<exists>k. net = Some k # net' \<and> identified k s"
    using identity_apply_spec(2) [OF ap q(1)] q net by (auto simp: identified_def identity_bytes_default)
qed

section \<open>The promise\<close>

text \<open>C38: A forwarded command is written at most once and never replayed. With a session, one
  exchange uses that session only: a reply means that the command went out once, in full, and that the
  reply is the next frame of the session's stream, the rest of which is left for later commands (but for one
  frame per field when AUTH or HELLO has pending identification fields sent again); a failure
  means at most a prefix of it went out and the session is dropped. Without a session, one
  connection is attempted: the command follows the identification, whose three replies are
  read first, and a failed attempt leaves the command unwritten.\<close>

theorem command_written_at_most_once:
  assumes "exchange dbg cmd argv c = (r, c')"
  shows "case up_session c of
      Some s \<Rightarrow> used_once cmd argv s r c c' \<and> up_network c' = up_network c
    | None \<Rightarrow> up_network c' = tl (up_network c)
        \<and> ((\<exists>e. r = Inl e) \<and> up_session c' = None \<and> up_dropped c' = up_dropped c
          \<or> (\<exists>k s. up_network c = Some k # up_network c' \<and> identified k s \<and> used_once cmd argv s r c c'))"
proof (cases "up_session c")
  case (Some s)
  then show ?thesis using assms exchange_on_spec [of dbg cmd argv s c r c'] by (simp add: exchange_def)
next
  case None
  obtain q net where con: "session_connect dbg (up_network c) = (q, net)" by force
  show ?thesis
  proof (cases q)
    case (Inl e)
    then show ?thesis using assms None con session_connect_spec(1) [OF con] by (auto simp: exchange_def)
  next
    case (Inr s)
    let ?c = "c\<lparr>up_network := net\<rparr>"
    have ex: "exchange_on dbg cmd argv s ?c = (r, c')" using assms None con Inr by (simp add: exchange_def)
    have "used_once cmd argv s r c c'"
      using exchange_on_spec(1) [OF ex] by (simp add: used_once_def split: sum.splits)
    moreover have "up_network c' = net" using exchange_on_spec(2) [OF ex] by simp
    moreover obtain k where "up_network c = Some k # net" "identified k s"
      using session_connect_spec(2) [OF con Inr] by blast
    ultimately show ?thesis unfolding None option.case by (intro conjI disjI2 exI [of _ k] exI [of _ s]) auto
  qed
qed

definition sample_connection :: upstream_connection where
  "sample_connection = \<lparr>up_session = Some \<lparr>ses_socket = \<lparr>incoming = encode (SimpleString ''PONG''), write_results = [],
     outgoing = []\<rparr>, ses_identity = [False, False, False]\<rparr>, up_network = [], up_dropped = []\<rparr>"

lemma sample_pong: "read_raw_frame (encode (SimpleString ''PONG'')) = Inr (encode (SimpleString ''PONG''), [])"
proof -
  have "line_ok ''PONG''" by (simp add: line_ok_def is_utf8_ascii byte_def)
  then have "wf_frame (SimpleString ''PONG'')" by (simp add: wf_frame.simps)
  moreover have "length (encode (SimpleString ''PONG'')) \<le> MAX_FRAME_BYTES"
    by (simp add: encode_simps push_line_def crlf_def MAX_FRAME_BYTES_def)
  ultimately show ?thesis
    using read_loop_frame [of "SimpleString ''PONG''" "[]" "[]" "[]" 0]
    unfolding read_raw_frame_def by (simp add: frame_depth.simps MAX_FRAME_DEPTH_def del: read_loop.simps(3)
        flip: One_nat_def)
qed

lemma sample_exchange:
  "exchange (\<lambda>_. []) ''PING'' [''PING''] sample_connection = (Inr (encode (SimpleString ''PONG'')),
     sample_connection\<lparr>up_session := Some \<lparr>ses_socket = \<lparr>incoming = [], write_results = [], outgoing = ''PING''\<rparr>,
     ses_identity = [False, False, False]\<rparr>\<rparr>)"
  by (simp add: exchange_def sample_connection_def exchange_on_def session_exchange_def write_all_def pop_result_def
      flush_socket_def read_reply_def sample_pong retry_after_def arg_is_def hello_ok_def Let_def)

theorem command_written_at_most_once_witness:
  "used_once ''PING'' [''PING''] (the (up_session sample_connection))
     (Inr (encode (SimpleString ''PONG''))) sample_connection
     (snd (exchange (\<lambda>_. []) ''PING'' [''PING''] sample_connection))"
  using command_written_at_most_once [OF sample_exchange] unfolding sample_exchange
  by (simp add: sample_connection_def)

end
