(* ===== verification/Connection.thy ===== *)
theory Connection
  imports Transport_Props
begin

text \<open>
  \<open>connection.rs\<close>: how a planned connection fault ends an established client connection, after
  the delivery in \<open>Transport\<close>: a bounded stall that drains input, then an orderly shutdown or a
  TCP reset, and the accounting of what happened.

  A client socket is a TCP socket, with the result its \<open>set_zero_linger\<close> will have, or a Unix one.
  Input during a stall is the list of the results of the coming \<open>read\<close> calls with the
  milliseconds after the start of the stall at which each is ready; an empty read is the peer's
  end of stream, and nothing happens after the list ends.
\<close>

section \<open>Client sockets\<close>

datatype proxy_stream = TcpSocket "(io_kind \<times> msg) option" | UnixSocket

fun supports_reset :: "proxy_stream \<Rightarrow> bool" where
  "supports_reset (TcpSocket linger) = True"
| "supports_reset UnixSocket = False"

fun prepare_reset :: "proxy_stream \<Rightarrow> app_error + unit" where
  "prepare_reset (TcpSocket linger) =
     (case linger of None \<Rightarrow> Inr () | Some (k, m) \<Rightarrow> Inl (IoError k m))"
| "prepare_reset UnixSocket =
     Inl (IoError Unsupported (msg_of ''TCP reset requires a TCP client socket''))"

section \<open>Stalls\<close>

datatype read_result = ReadBytes bytes | ReadError io_kind msg

type_synonym arrivals = "(nat \<times> read_result) list"

text \<open>The \<open>select!\<close> is biased: a read that is ready at the deadline loses to it.\<close>

fun stall :: "nat \<Rightarrow> arrivals \<Rightarrow> protocol_fingerprints \<Rightarrow> (app_error + string) \<times> protocol_fingerprints" where
  "stall deadline [] fps = (Inr ''duration_elapsed'', fps)"
| "stall deadline ((time, read) # later) fps =
     (if deadline \<le> time then (Inr ''duration_elapsed'', fps)
      else (case read of
        ReadBytes b \<Rightarrow> if b = [] then (Inr ''peer_closed'', fps)
          else stall deadline later (fp_update DirIn b fps)
      | ReadError k m \<Rightarrow> if k = Interrupted then stall deadline later fps
          else (Inl (IoError k m), fps)))"

section \<open>Finishing a fault\<close>

text \<open>The part that runs before the two halves are reunited: the stall and the shutdown.\<close>

definition fault_stall ::
  "fault_plan \<Rightarrow> arrivals \<Rightarrow> delivery_outcome \<times> protocol_fingerprints
   \<Rightarrow> (app_error + unit) \<times> delivery_outcome \<times> protocol_fingerprints" where
  "fault_stall plan reads d =
     (case d of (out, fps) \<Rightarrow>
        (case duration_ms plan of
           None \<Rightarrow> (Inr (), out, fps)
         | Some ms \<Rightarrow>
             (let out = out\<lparr>error_stage := Some ''stall''\<rparr> in
              case stall (unat ms) reads fps of
                (Inl e, fps) \<Rightarrow> (Inl e, out, fps)
              | (Inr reason, fps) \<Rightarrow> (Inr (), out\<lparr>stall_end := Some reason\<rparr>, fps))))"

definition fault_shutdown ::
  "fault_plan \<Rightarrow> delivery_outcome \<times> writer \<Rightarrow> (app_error + unit) \<times> delivery_outcome \<times> writer" where
  "fault_shutdown plan d =
     (case d of (out, w) \<Rightarrow>
        if plan_action plan = FaultReset then (Inr (), out, w)
        else (let out = out\<lparr>error_stage := Some ''shutdown''\<rparr> in
          case shutdown_result w of
            Some (k, m) \<Rightarrow> (Inl (IoError k m), out, w)
          | None \<Rightarrow> (Inr (), out\<lparr>shutdown_completed := True\<rparr>, w\<lparr>closed := True\<rparr>)))"

definition fault_reset ::
  "proxy_stream \<Rightarrow> fault_plan \<Rightarrow> delivery_outcome \<Rightarrow> (app_error + unit) \<times> delivery_outcome" where
  "fault_reset socket plan out =
     (if plan_action plan = FaultReset
      then (prepare_reset socket, out\<lparr>error_stage := Some ''reset''\<rparr>)
      else (Inr (), out))"

definition finish_fault ::
  "proxy_stream \<Rightarrow> arrivals \<Rightarrow> fault_plan \<Rightarrow> delivery \<Rightarrow> (app_error + unit) \<times> delivery" where
  "finish_fault socket reads plan d =
     (case d of (out, fps, w) \<Rightarrow>
        (let (r, out, fps) = fault_stall plan reads (out, fps);
             (r, out, w) = (case r of Inl e \<Rightarrow> (Inl e, out, w) | Inr _ \<Rightarrow> fault_shutdown plan (out, w));
             (r, out) = (case r of Inl e \<Rightarrow> (Inl e, out) | Inr _ \<Rightarrow> fault_reset socket plan out)
         in case r of
              Inr _ \<Rightarrow> (Inr (), out\<lparr>fault_completed := Some True, error_stage := None\<rparr>, fps, w)
            | Inl e \<Rightarrow> (Inl e, out\<lparr>fault_completed := Some False, error_kind := Some (io_kind_of e)\<rparr>, fps, w)))"

section \<open>A stall ends\<close>

text \<open>
  The arrivals before the deadline that a stall consumes: up to the peer's end of stream or a read
  error other than an interruption.
\<close>

definition ends_stall :: "read_result \<Rightarrow> bool" where
  "ends_stall r \<longleftrightarrow> (case r of ReadBytes b \<Rightarrow> b = [] | ReadError k m \<Rightarrow> k \<noteq> Interrupted)"

definition drained :: "nat \<Rightarrow> arrivals \<Rightarrow> arrivals" where
  "drained deadline reads = takeWhile (\<lambda>(t, r). t < deadline \<and> \<not> ends_stall r) reads"

definition drained_bytes :: "nat \<Rightarrow> arrivals \<Rightarrow> bytes list" where
  "drained_bytes deadline reads =
     concat (map (\<lambda>(t, r). case r of ReadBytes b \<Rightarrow> [b] | ReadError _ _ \<Rightarrow> []) (drained deadline reads))"

definition stall_result :: "nat \<Rightarrow> arrivals \<Rightarrow> app_error + string" where
  "stall_result deadline reads =
     (case drop (length (drained deadline reads)) reads of
        [] \<Rightarrow> Inr ''duration_elapsed''
      | (t, r) # _ \<Rightarrow>
          if deadline \<le> t then Inr ''duration_elapsed''
          else (case r of ReadBytes _ \<Rightarrow> Inr ''peer_closed'' | ReadError k m \<Rightarrow> Inl (IoError k m)))"

lemma update_all_Cons: "update_all d (b # bs) fs = update_all d bs (fp_update d b fs)"
  by (simp add: update_all_def)

lemma stall_spec:
  "stall deadline reads fps
     = (stall_result deadline reads, update_all DirIn (drained_bytes deadline reads) fps)"
proof (induction deadline reads fps rule: stall.induct)
  case (1 deadline fps)
  then show ?case by (simp add: stall_result_def drained_bytes_def drained_def update_all_def)
next
  case (2 deadline time read later fps)
  show ?case
  proof (cases "deadline \<le> time \<or> ends_stall read")
    case True
    then have "drained deadline ((time, read) # later) = []" by (auto simp: drained_def)
    then show ?thesis using True
      by (auto simp: stall_result_def drained_bytes_def update_all_def ends_stall_def
          split: read_result.splits)
  next
    case False
    then have d: "drained deadline ((time, read) # later) = (time, read) # drained deadline later"
      by (simp add: drained_def)
    then have r: "stall_result deadline ((time, read) # later) = stall_result deadline later"
      by (simp add: stall_result_def)
    show ?thesis
    proof (cases read)
      case (ReadBytes b)
      then have "drained_bytes deadline ((time, read) # later) = b # drained_bytes deadline later"
        using d by (simp add: drained_bytes_def)
      then show ?thesis using False 2(1) [OF _ ReadBytes] ReadBytes r
        by (simp add: ends_stall_def update_all_Cons)
    next
      case (ReadError k m)
      then have "drained_bytes deadline ((time, read) # later) = drained_bytes deadline later"
        using d by (simp add: drained_bytes_def)
      then show ?thesis using False 2(2) [OF _ ReadError] ReadError r
        by (simp add: ends_stall_def)
    qed
  qed
qed

section \<open>The account of a fault\<close>

text \<open>What the outcome must say of a fault with this plan that ended with the result \<open>r\<close>.\<close>

definition fault_account ::
  "fault_plan \<Rightarrow> app_error + unit \<Rightarrow> delivery_outcome \<Rightarrow> delivery_outcome \<Rightarrow> bool" where
  "fault_account plan r out out' \<longleftrightarrow>
     bytes_written out' = bytes_written out \<and> completed_chunks out' = completed_chunks out
     \<and> written_bytes_hash out' = written_bytes_hash out
     \<and> (case r of
          Inr _ \<Rightarrow> fault_completed out' = Some True \<and> error_stage out' = None
            \<and> (duration_ms plan \<noteq> None \<longleftrightarrow> stall_end out' \<noteq> None)
            \<and> shutdown_completed out' = (plan_action plan \<noteq> FaultReset)
        | Inl e \<Rightarrow> fault_completed out' = Some False \<and> error_kind out' = Some (io_kind_of e)
            \<and> \<not> shutdown_completed out'
            \<and> error_stage out' = Some (if duration_ms plan \<noteq> None \<and> stall_end out' = None then ''stall''
                else if plan_action plan = FaultReset then ''reset'' else ''shutdown''))"

lemma finish_fault_account:
  assumes "finish_fault socket reads plan (out, fps, w) = (r, out', fps', w')"
    and "stall_end out = None" and "\<not> shutdown_completed out"
  shows "fault_account plan r out out'"
  using assms
  by (auto simp: finish_fault_def fault_stall_def fault_shutdown_def fault_reset_def fault_account_def Let_def
      split: option.splits sum.splits prod.splits if_splits)

lemma finish_fault_sends_nothing:
  assumes "finish_fault socket reads plan (out, fps, w) = (r, out', fps', w')"
  shows "sent w' = sent w" and "closed w' \<Longrightarrow> closed w \<or> plan_action plan \<noteq> FaultReset"
    and "fps' = (case duration_ms plan of None \<Rightarrow> fps
       | Some ms \<Rightarrow> update_all DirIn (drained_bytes (unat ms) reads) fps)"
  using assms
  by (auto simp: finish_fault_def fault_stall_def fault_shutdown_def fault_reset_def stall_spec Let_def
      split: option.splits sum.splits prod.splits if_splits)

lemma deliver_chunks_start:
  "deliver_chunks b start ends (out, fps, w) = (r, out', fps', w')
     \<Longrightarrow> stall_end out' = stall_end out \<and> shutdown_completed out' = shutdown_completed out"
  by (induction ends arbitrary: start out fps w)
    (auto split: prod.splits sum.splits option.splits)

lemma deliver_leaves_fault:
  assumes "deliver E b plan fps w = (out, res, fps', w')" and "truncate_at plan = None"
  shows "stall_end out = None \<and> \<not> shutdown_completed out"
proof -
  let ?start = "\<lparr>bytes_written = 0, written_bytes_hash = [], completed_chunks = 0,
     shutdown_completed = False, error_stage = None, error_kind = None,
     fault_completed = map_option (\<lambda>_. False) (connection_fault plan), stall_end = None\<rparr>"
  obtain r0 out0 fps0 w0 where
    ch: "deliver_chunks b 0 (chunk_ends plan) (?start, fps, w) = (r0, out0, fps0, w0)" by (metis prod.exhaust)
  have "stall_end out = stall_end out0 \<and> shutdown_completed out = shutdown_completed out0"
    using assms by (cases r0) (auto simp: deliver_def Let_def ch deliver_shutdown_def)
  then show ?thesis using deliver_chunks_start [OF ch] by simp
qed

text \<open>C39: A connection fault ends, and its outcome says how. After a delivery that reached the fault's
  offset, whatever the peer then sends, the stall takes only what arrives before its deadline,
  nothing more is written, and the outcome names the stage that failed or reports completion,
  with a shutdown exactly when the fault is not a reset.\<close>

theorem fault_ends_as_planned:
  assumes "deliver E b plan fps w = (out, Inr (), fps1, w1)"
    and "partitions (chunk_ends plan) (length b)" and "truncate_at plan = None"
    and "finish_fault socket reads f (out, fps1, w1) = (r, out', fps', w')"
  shows "fault_account f r out out' \<and> sent w' = sent w @ b \<and> bytes_written out' = length b
    \<and> fp_bytes (fp_input fps') = fp_bytes (fp_input fps)
        @ (case duration_ms f of None \<Rightarrow> [] | Some ms \<Rightarrow> concat (drained_bytes (unat ms) reads))
    \<and> (\<forall>ms. \<forall>(t, a)\<in>set (drained ms reads). t < ms)"
proof -
  have acc: "fault_account f r out out'"
    using deliver_leaves_fault [OF assms(1,3)] by (intro finish_fault_account [OF assms(4)]) simp_all
  have "\<forall>ms. \<forall>(t, a)\<in>set (drained ms reads). t < ms"
    by (auto simp: drained_def dest: set_takeWhileD)
  moreover have "fp_bytes (fp_input fps') = fp_bytes (fp_input fps1)
      @ (case duration_ms f of None \<Rightarrow> [] | Some ms \<Rightarrow> concat (drained_bytes (unat ms) reads))"
    using finish_fault_sends_nothing(3) [OF assms(4)] update_all_bytes [of DirIn _ fps1]
    by (simp split: option.splits)
  ultimately show ?thesis
    using acc deliver_accounted [OF assms(1,2)] finish_fault_sends_nothing(1) [OF assms(4)]
    by (auto simp: fault_account_def)
qed

definition stalled_plan :: delivery_plan where
  "stalled_plan = set_fault \<lparr>plan_action = FaultStall, plan_point = AtReply, after_bytes = 3, duration_ms = Some 10\<rparr>
     (plain_plan sample_externals 3)"

theorem fault_ends_as_planned_witness:
  "\<exists>out fps w r out' fps' w'.
     deliver sample_externals ''+OK'' stalled_plan fingerprints_new short_writer = (out, Inr (), fps, w)
     \<and> finish_fault UnixSocket [(4, ReadBytes ''x''), (10, ReadBytes ''late'')] (the (connection_fault stalled_plan))
         (out, fps, w) = (r, out', fps', w')
     \<and> sent w' = ''>+OK'' \<and> fp_bytes (fp_input fps') = ''x''"
proof -
  obtain out fps w where d:
    "deliver sample_externals ''+OK'' stalled_plan fingerprints_new short_writer = (out, Inr (), fps, w)"
    by (simp add: deliver_def stalled_plan_def set_fault_def plain_plan_def short_writer_def Let_def
        write_counted.simps next_write_def next_flush_def deliver_shutdown_def)
  obtain r out' fps' w' where f: "finish_fault UnixSocket [(4, ReadBytes ''x''), (10, ReadBytes ''late'')]
      (the (connection_fault stalled_plan)) (out, fps, w) = (r, out', fps', w')"
    by (metis prod.exhaust)
  have "partitions (chunk_ends stalled_plan) (length ''+OK'')" "truncate_at stalled_plan = None"
    by (simp_all add: stalled_plan_def set_fault_def plain_plan_def partitions_def)
  from fault_ends_as_planned [OF d this f] have "sent w' = ''>+OK''" "fp_bytes (fp_input fps') = ''x''"
    by (simp_all add: short_writer_def stalled_plan_def set_fault_def drained_bytes_def drained_def ends_stall_def
        fingerprints_new_def)
  with d f show ?thesis by blast
qed

end
