(* ===== verification/Repro.thy ===== *)
theory Repro
  imports Connection
begin

text \<open>
  \<open>repro.rs\<close>: the record of one mutated or faulted reply. The file it is appended to is the list
  of the records written; their JSON text is crate \<open>serde_json\<close>'s.
\<close>

record repro_record =
  rr_global_seed :: u64
  rr_connection_id :: u64
  rr_command_index :: u64
  rr_command_hash :: string
  rr_command_bytes_hex :: string
  rr_upstream_response_hash :: "string option"
  rr_upstream_response_bytes_hex :: "string option"
  rr_mutated_response_hash :: string
  rr_mutated_response_bytes_hex :: string
  rr_selected_evil_mode :: evil_mode
  rr_mutations :: "applied_mutation list"
  rr_delivery_plan :: "delivery_plan option"
  rr_delivery_outcome :: "delivery_outcome option"
  rr_planned_wire_bytes_hex :: "string option"

type_synonym repro_file = "repro_record list"

definition append_record :: "repro_record \<Rightarrow> repro_file \<Rightarrow> repro_file" where
  "append_record r file = file @ [r]"

definition repro_record_new ::
  "'r externals \<Rightarrow> u64 \<Rightarrow> u64 \<Rightarrow> u64 \<Rightarrow> bytes \<Rightarrow> bytes option \<Rightarrow> bytes \<Rightarrow> evil_mode
   \<Rightarrow> applied_mutation list \<Rightarrow> repro_record" where
  "repro_record_new E seed connection_id command_index command upstream_response response mode ms =
     \<lparr>rr_global_seed = seed,
      rr_connection_id = connection_id,
      rr_command_index = command_index,
      rr_command_hash = deterministic_hash E command,
      rr_command_bytes_hex = hex_encode E command,
      rr_upstream_response_hash = map_option (deterministic_hash E) upstream_response,
      rr_upstream_response_bytes_hex = map_option (hex_encode E) upstream_response,
      rr_mutated_response_hash = deterministic_hash E response,
      rr_mutated_response_bytes_hex = hex_encode E response,
      rr_selected_evil_mode = mode,
      rr_mutations = ms,
      rr_delivery_plan = None,
      rr_delivery_outcome = None,
      rr_planned_wire_bytes_hex = None\<rparr>"

end
