(* ===== verification/Proxy.thy ===== *)
theory Proxy
  imports Repro Chaos Transaction Stats Cluster_Rewrite Topology_Evil Upstream Canonicalize
begin

text \<open>
  \<open>proxy.rs\<close>: one client connection, from an accepted socket to its end: reading commands,
  answering the proxy's own (\<open>DEBUG EVIL\<close>, \<open>DEBUG CHAOS\<close>, \<open>DEBUG PROTOCOL\<close>, MONITOR and the
  cluster queries), and for every other command admitting it, asking the upstream, mutating the
  reply, delivering it and recording what was done.

  \<open>shared_state\<close> is \<open>SharedState\<close>, \<open>client\<close> the local variables of \<open>proxy_connection\<close>. The
  handlers here are sequential; other connections run between any two of their accesses to shared data. \<open>Reset_Protocol\<close> treats the only
  shared values a connection decides on, the epoch and the command index, and \<open>Interleaving\<close> takes the
  handlers apart at those accesses.
\<close>

section \<open>State\<close>

record shared_state =
  sh_stats :: stats
  sh_repro :: "repro_file option"
  sh_receivers :: nat
  sh_monitor :: "string list"
  sh_reset_epoch :: u64
  sh_connection_ids :: u64
  sh_command_ids :: u64
  sh_local_slots :: "frame option"
  sh_redirection_map :: redirection_map

record client =
  cl_id :: u64
  cl_epoch :: u64
  cl_config :: evil_config
  cl_fps :: protocol_fingerprints
  cl_tx :: transaction_commands
  cl_upstream :: upstream_connection
  cl_writer :: writer
  cl_socket :: proxy_stream
  cl_arrivals :: arrivals
  cl_listen :: endpoint

text \<open>The third-party code, the \<open>Debug\<close> form of a frame, and the time of day of a command.\<close>

record 'r env =
  ext :: "'r externals"
  debug_frame :: "frame \<Rightarrow> string"
  clock :: "nat \<times> nat"

datatype step_end = Continue | Return | Monitoring | Fail app_error

type_synonym handled = "step_end \<times> client \<times> shared_state"

definition initial_state :: "topology \<Rightarrow> repro_file option \<Rightarrow> shared_state" where
  "initial_state t repro = \<lparr>sh_stats = stats_default, sh_repro = repro, sh_receivers = 0, sh_monitor = [],
     sh_reset_epoch = 0, sh_connection_ids = 0, sh_command_ids = 0,
     sh_local_slots = local_slots_response t, sh_redirection_map = local_redirection_map t\<rparr>"

section \<open>Recognising commands\<close>

definition is_debug :: "string \<Rightarrow> string list \<Rightarrow> bool" where
  "is_debug name argv \<longleftrightarrow> length argv \<ge> 2 \<and> eq_ignore_ascii_case (argv ! 0) ''DEBUG''
     \<and> eq_ignore_ascii_case (argv ! 1) name"

definition is_debug_evil :: "string list \<Rightarrow> bool" where
  "is_debug_evil = is_debug ''EVIL''"

definition is_debug_chaos :: "string list \<Rightarrow> bool" where
  "is_debug_chaos = is_debug ''CHAOS''"

definition is_debug_protocol :: "string list \<Rightarrow> bool" where
  "is_debug_protocol = is_debug ''PROTOCOL''"

definition is_monitor :: "string option \<Rightarrow> bool" where
  "is_monitor command = (case command of Some c \<Rightarrow> eq_ignore_ascii_case c ''MONITOR'' | None \<Rightarrow> False)"

definition is_cluster_slots :: "string list \<Rightarrow> bool" where
  "is_cluster_slots argv \<longleftrightarrow> length argv \<ge> 2 \<and> eq_ignore_ascii_case (argv ! 0) ''CLUSTER''
     \<and> eq_ignore_ascii_case (argv ! 1) ''SLOTS''"

section \<open>The monitor stream\<close>

fun monitor_arg :: "frame \<Rightarrow> bytes option" where
  "monitor_arg (BulkString (Some b)) = Some b"
| "monitor_arg (SimpleString v) = Some v"
| "monitor_arg (VerbatimString b) = Some b"
| "monitor_arg _ = None"

fun monitor_argv :: "frame \<Rightarrow> bytes list" where
  "monitor_argv (Array (Some items)) = List.map_filter monitor_arg items"
| "monitor_argv (Inline parts) = parts"
| "monitor_argv _ = []"

definition hex_digit :: "nat \<Rightarrow> char" where
  "hex_digit n = ''0123456789abcdef'' ! n"

definition escape_byte :: "char \<Rightarrow> string" where
  "escape_byte c =
     (if c = CHR 0x5C then [CHR 0x5C, CHR 0x5C]
      else if c = CHR 0x22 then [CHR 0x5C, CHR 0x22]
      else if c = CHR 0x0A then [CHR 0x5C, CHR ''n'']
      else if c = CHR 0x0D then [CHR 0x5C, CHR ''r'']
      else if c = CHR 0x09 then [CHR 0x5C, CHR ''t'']
      else if 0x20 \<le> byte c \<and> byte c \<le> 0x7E then [c]
      else [CHR 0x5C, CHR ''x'', hex_digit (byte c div 16), hex_digit (byte c mod 16)])"

definition push_monitor_arg :: "bytes \<Rightarrow> string" where
  "push_monitor_arg arg = CHR 0x22 # concat (map escape_byte arg) @ [CHR 0x22]"

definition pad6 :: "string \<Rightarrow> string" where
  "pad6 s = replicate (6 - length s) CHR ''0'' @ s"

definition format_monitor_line :: "nat \<times> nat \<Rightarrow> u64 \<Rightarrow> bytes list \<Rightarrow> string" where
  "format_monitor_line now connection_id argv =
     show_nat (fst now) @ ''.'' @ pad6 (show_nat (snd now)) @ '' [0 unix:evilresp:''
       @ show_nat (unat connection_id) @ '']'' @ concat (map (\<lambda>arg. '' '' @ push_monitor_arg arg) argv)"

definition publish_monitor_command :: "'r env \<Rightarrow> frame \<Rightarrow> client \<Rightarrow> shared_state \<Rightarrow> shared_state" where
  "publish_monitor_command V command c sh =
     (if sh_receivers sh = 0 then sh
      else (case monitor_argv command of
              [] \<Rightarrow> sh
            | argv \<Rightarrow> sh\<lparr>sh_monitor := sh_monitor sh @ [format_monitor_line (clock V) (cl_id c) argv]\<rparr>))"

section \<open>Writing to the client\<close>

definition write_client_bytes :: "bytes \<Rightarrow> client \<Rightarrow> (app_error + unit) \<times> client" where
  "write_client_bytes b c =
     (case write_counted b 0 (cl_fps c) (cl_writer c) of
        (r, n, fps, w) \<Rightarrow> (r, c\<lparr>cl_fps := fps, cl_writer := w\<rparr>))"

text \<open>\<open>AsyncWriteExt::write_all\<close>, which neither counts nor retries an interrupted write.\<close>

function write_all_client :: "bytes \<Rightarrow> writer \<Rightarrow> (app_error + unit) \<times> writer" where
  "write_all_client b w =
     (if b = [] then (Inr (), w)
      else (case next_write b w of
        (WriteError k m, w') \<Rightarrow> (Inl (IoError k m), w')
      | (Wrote n, w') \<Rightarrow>
          if n = 0 then (Inl (IoError WriteZero (msg_of ''write zero'')), w')
          else write_all_client (drop n b) w'))"
  by pat_completeness auto
termination
  by (relation "measure (\<lambda>(b, _). length b)") auto

declare write_all_client.simps [simp del]

definition after_write :: "shared_state \<Rightarrow> (app_error + unit) \<times> client \<Rightarrow> handled" where
  "after_write sh r = (case r of (Inl e, c) \<Rightarrow> (Fail e, c, sh) | (Inr _, c) \<Rightarrow> (Continue, c, sh))"

definition reply_bytes_to :: "bytes \<Rightarrow> client \<Rightarrow> shared_state \<Rightarrow> handled" where
  "reply_bytes_to b c sh = after_write sh (write_client_bytes b c)"

definition reply_frame_to :: "frame \<Rightarrow> client \<Rightarrow> shared_state \<Rightarrow> handled" where
  "reply_frame_to f = reply_bytes_to (encode f)"

text \<open>A reply outside the fingerprints.\<close>

definition reply_uncounted :: "bytes \<Rightarrow> client \<Rightarrow> shared_state \<Rightarrow> handled" where
  "reply_uncounted b c sh =
     (case write_all_client b (cl_writer c) of (r, w) \<Rightarrow> after_write sh (r, c\<lparr>cl_writer := w\<rparr>))"

section \<open>DEBUG commands\<close>

text \<open>A configuration that needs TCP is taken back on a client that has none.\<close>

definition checked_debug ::
  "'r externals \<Rightarrow> string list \<Rightarrow> bool \<Rightarrow> evil_config \<Rightarrow> evil_config \<times> (app_error + debug_result)" where
  "checked_debug E argv reset_supported config =
     (case apply_debug_command E argv config of
        (c, Inl e) \<Rightarrow> (c, Inl e)
      | (c, Inr result) \<Rightarrow>
          if requires_tcp (cfg_transport c) \<and> \<not> reset_supported
          then (c\<lparr>cfg_transport := cfg_transport config\<rparr>,
                Inl (evil_error ''FAULT RESET requires a TCP client connection''))
          else (c, Inr result))"

definition debug_evil_stats :: "string list \<Rightarrow> evil_config \<Rightarrow> debug_result \<Rightarrow> stats \<Rightarrow> stats" where
  "debug_evil_stats argv c result st =
     (if eq_ignore_ascii_case (argv ! 2) ''STATUS'' then status_read st
      else if eq_ignore_ascii_case (argv ! 2) ''HELP'' then st
      else (let st = configuration_updated st in
        if dr_action result = ResetIncrementingState then stats_reset st
        else if eq_ignore_ascii_case (argv ! 2) ''MODE'' then mode_selected (cfg_mode c) st
        else st))"

definition error_frame :: "'r externals \<Rightarrow> app_error \<Rightarrow> frame" where
  "error_frame E e = SimpleError (''ERR '' @ display_error (debug_fmt E) e)"

definition apply_debug_evil ::
  "'r externals \<Rightarrow> string list \<Rightarrow> bool \<Rightarrow> evil_config \<times> stats \<Rightarrow> (evil_config \<times> stats) \<times> debug_result" where
  "apply_debug_evil E argv reset_supported cs =
     (case cs of (config, st) \<Rightarrow>
        (case checked_debug E argv reset_supported config of
           (c, Inr result) \<Rightarrow> ((c, debug_evil_stats argv c result st), result)
         | (c, Inl e) \<Rightarrow> ((c, command_rejected st), \<lparr>dr_frame = error_frame E e, dr_action = NoAction\<rparr>)))"

definition apply_debug_chaos ::
  "'r externals \<Rightarrow> protocol_fingerprints \<Rightarrow> string list \<Rightarrow> evil_config \<times> stats
   \<Rightarrow> (evil_config \<times> stats) \<times> frame" where
  "apply_debug_chaos E fps argv cs =
     (case cs of (config, st) \<Rightarrow>
        (case chaos_apply argv config of
           (c, Inr hash) \<Rightarrow> ((c, configuration_updated st), BulkString (Some (fp_get E DirOut hash fps)))
         | (c, Inl e) \<Rightarrow> ((c, command_rejected st), error_frame E e)))"

definition apply_debug_protocol :: "'r externals \<Rightarrow> protocol_fingerprints \<Rightarrow> string list \<Rightarrow> frame" where
  "apply_debug_protocol E fps argv =
     (case parse_debug_protocol argv of
        Inr (direction, algorithm) \<Rightarrow> BulkString (Some (fp_get E direction algorithm fps))
      | Inl e \<Rightarrow> error_frame E e)"

text \<open>Under the write lock: the new epoch, and the command index from zero.\<close>

definition reset_incrementing_state :: "shared_state \<Rightarrow> u64 \<times> shared_state" where
  "reset_incrementing_state sh =
     (sh_reset_epoch sh + 1, sh\<lparr>sh_reset_epoch := sh_reset_epoch sh + 1, sh_command_ids := 0\<rparr>)"

definition handle_debug_chaos :: "'r env \<Rightarrow> string list \<Rightarrow> client \<Rightarrow> shared_state \<Rightarrow> handled" where
  "handle_debug_chaos V argv c sh =
     (case apply_debug_chaos (ext V) (cl_fps c) argv (cl_config c, sh_stats sh) of
        ((config, st), response) \<Rightarrow>
          reply_uncounted (encode response) (c\<lparr>cl_config := config\<rparr>) (sh\<lparr>sh_stats := st\<rparr>))"

text \<open>A reset forgets the fingerprints, its own reply included.\<close>

definition handle_debug_evil :: "'r env \<Rightarrow> string list \<Rightarrow> client \<Rightarrow> shared_state \<Rightarrow> handled" where
  "handle_debug_evil V argv c sh =
     (case apply_debug_evil (ext V) argv (supports_reset (cl_socket c)) (cl_config c, sh_stats sh) of
        ((config, st), result) \<Rightarrow>
          (let c = c\<lparr>cl_config := config\<rparr>; sh = sh\<lparr>sh_stats := st\<rparr>; response = encode (dr_frame result) in
           if dr_action result = ResetIncrementingState
           then (case reset_incrementing_state sh of (epoch, sh) \<Rightarrow>
             (case write_all_client response (cl_writer c) of
                (Inl e, w) \<Rightarrow> (Fail e, c\<lparr>cl_epoch := epoch, cl_writer := w\<rparr>, sh)
              | (Inr _, w) \<Rightarrow>
                  (Continue, c\<lparr>cl_epoch := epoch, cl_writer := w, cl_fps := fp_reset (cl_fps c)\<rparr>, sh)))
           else reply_bytes_to response c sh))"

section \<open>MONITOR\<close>

text \<open>A subscription counts as a receiver until the stream ends.\<close>

definition handle_monitor :: "string list \<Rightarrow> client \<Rightarrow> shared_state \<Rightarrow> handled" where
  "handle_monitor argv c sh =
     (if length argv \<noteq> 1
      then reply_frame_to (SimpleError ''ERR wrong number of arguments for 'monitor' command'') c sh
      else (case write_client_bytes (encode (SimpleString ''OK'')) c of
              (Inl e, c) \<Rightarrow> (Fail e, c, sh)
            | (Inr _, c) \<Rightarrow> (Monitoring, c, sh\<lparr>sh_receivers := sh_receivers sh + 1\<rparr>)))"

datatype monitor_event = MonitorLine string | Lagged nat | MonitorClosed

fun stream_monitor :: "monitor_event list \<Rightarrow> client \<Rightarrow> step_end \<times> client" where
  "stream_monitor [] c = (Monitoring, c)"
| "stream_monitor (MonitorLine line # events) c =
     (case write_client_bytes (encode (SimpleString line)) c of
        (Inl e, c) \<Rightarrow> (Fail e, c)
      | (Inr _, c) \<Rightarrow> stream_monitor events c)"
| "stream_monitor (Lagged skipped # events) c = stream_monitor events c"
| "stream_monitor (MonitorClosed # events) c = (Return, c)"

section \<open>Cluster queries\<close>

text \<open>The reply to a command whose upstream exchange failed, and the queue that is forgotten.\<close>

definition reply_unavailable :: "upstream_connection \<Rightarrow> client \<Rightarrow> shared_state \<Rightarrow> handled" where
  "reply_unavailable u c sh =
     reply_bytes_to UNAVAILABLE_REPLY (c\<lparr>cl_upstream := u, cl_tx := transaction_default\<rparr>) sh"

definition handle_cluster_query ::
  "'r env \<Rightarrow> bytes \<Rightarrow> string list \<Rightarrow> client \<Rightarrow> shared_state \<Rightarrow> handled" where
  "handle_cluster_query V command argv c sh =
     (case exchange (debug_frame V) command argv (cl_upstream c) of
        (Inl e, u) \<Rightarrow> reply_unavailable u c sh
      | (Inr raw, u) \<Rightarrow>
          (let c = c\<lparr>cl_upstream := u\<rparr> in
           case parse_frame raw of
             Inl e \<Rightarrow> (Fail e, c, sh)
           | Inr f \<Rightarrow> reply_frame_to
               (if is_cluster_shards argv then rewrite_cluster_shards f (sh_redirection_map sh)
                else rewrite_cluster_nodes f (sh_redirection_map sh)) c sh))"

section \<open>Admission\<close>

text \<open>Under the read lock: a stale connection is turned away, any other takes the next index.\<close>

definition admit :: "u64 \<Rightarrow> shared_state \<Rightarrow> (u64 \<times> shared_state) option" where
  "admit epoch sh =
     (if epoch \<noteq> sh_reset_epoch sh then None
      else Some (sh_command_ids sh, sh\<lparr>sh_command_ids := sh_command_ids sh + 1\<rparr>))"

record command_ctx =
  cx_bytes :: bytes
  cx_frame :: frame
  cx_argv :: "string list"
  cx_name :: "string option"
  cx_index :: u64
  cx_hash :: string
  cx_mutate :: bool

definition redirect_ctx :: "command_ctx \<Rightarrow> bytes option \<Rightarrow> frame \<Rightarrow> client \<Rightarrow> redirect_context" where
  "redirect_ctx x upstream_bytes local_slots c =
     \<lparr>rx_command_index = cx_index x, rx_command_hash = cx_hash x, rx_command = cx_frame x,
      rx_upstream_bytes = upstream_bytes, rx_local_slots = local_slots,
      rx_listener = as_tcp (cl_listen c)\<rparr>"

definition pre_topology ::
  "'r externals \<Rightarrow> command_ctx \<Rightarrow> client \<Rightarrow> shared_state \<Rightarrow> topology_mutation option" where
  "pre_topology E x c sh =
     (if cx_mutate x
      then Option.bind (sh_local_slots sh) (\<lambda>slots.
        configured_redirection E (cl_config c) (redirect_ctx x None slots c))
      else None)"

section \<open>Forwarding\<close>

definition normalize_cluster_redirection :: "bytes \<Rightarrow> shared_state \<Rightarrow> app_error + bytes" where
  "normalize_cluster_redirection raw sh =
     (if sh_local_slots sh = None \<or> \<not> (raw \<noteq> [] \<and> (hd raw = CHR ''-'' \<or> hd raw = CHR ''!''))
      then Inr raw
      else map_ok (\<lambda>f. case normalize_redirection f (sh_redirection_map sh) of
                         Some g \<Rightarrow> encode g | None \<Rightarrow> raw) (parse_frame raw))"

definition post_topology ::
  "'r externals \<Rightarrow> command_ctx \<Rightarrow> bytes \<Rightarrow> client \<Rightarrow> shared_state \<Rightarrow> app_error + topology_mutation option" where
  "post_topology E x relay c sh =
     (case sh_local_slots sh of
        None \<Rightarrow> Inr None
      | Some slots \<Rightarrow>
          if \<not> cx_mutate x then Inr None
          else if topology_redirect (cl_config c) \<noteq> None
          then Inr (configured_redirection E (cl_config c) (redirect_ctx x (Some relay) slots c))
          else maybe_mutate_topology E (cl_config c) (cx_index x) (cx_hash x) (cx_frame x) (Some relay) slots)"

record forwarded =
  fw_upstream :: "bytes option"
  fw_commands :: "string list option"
  fw_relay :: bytes
  fw_topology :: "topology_mutation option"

datatype forward_result = Unavailable upstream_connection | Broken app_error | Forwarded forwarded

definition forward ::
  "'r env \<Rightarrow> command_ctx \<Rightarrow> topology_mutation option \<Rightarrow> client \<Rightarrow> shared_state \<Rightarrow> forward_result \<times> client" where
  "forward V x pre c sh =
     (case pre of
        Some t \<Rightarrow> (Forwarded \<lparr>fw_upstream = None, fw_commands = None, fw_relay = [], fw_topology = Some t\<rparr>, c)
      | None \<Rightarrow>
     (case exchange (debug_frame V) (cx_bytes x) (cx_argv x) (cl_upstream c) of
        (Inl e, u) \<Rightarrow> (Unavailable u, c)
      | (Inr raw, u) \<Rightarrow>
     (case observe (cl_tx c) (cx_argv x) raw of
        (commands, tx) \<Rightarrow>
     (let c = c\<lparr>cl_upstream := u, cl_tx := tx\<rparr> in
      case and_then (normalize_cluster_redirection raw sh) (\<lambda>relay.
             map_ok (Pair relay) (post_topology (ext V) x relay c sh)) of
        Inl e \<Rightarrow> (Broken e, c)
      | Inr (relay, topology) \<Rightarrow>
          (Forwarded \<lparr>fw_upstream = Some raw, fw_commands = commands, fw_relay = relay,
             fw_topology = topology\<rparr>, c)))))"

section \<open>The reply\<close>

text \<open>The canonical reply that decides the seeds: by the queued commands for an EXEC.\<close>

definition canonical_reply :: "evil_config \<Rightarrow> command_ctx \<Rightarrow> string list option \<Rightarrow> frame \<Rightarrow> frame" where
  "canonical_reply cfg x commands f =
     (case commands of
        Some cs \<Rightarrow> canonicalize_transaction_reply (canonicalization cfg) cs f
      | None \<Rightarrow> canonicalize_reply (canonicalization cfg) (cx_name x) f)"

definition mutates_values :: "evil_config \<Rightarrow> command_ctx \<Rightarrow> bool" where
  "mutates_values cfg x \<longleftrightarrow> cx_mutate x \<and> (cfg_mode cfg = ModeMutate \<or> cfg_mode cfg = ModeOverflow)"

definition faults_delivery :: "evil_config \<Rightarrow> command_ctx \<Rightarrow> bool" where
  "faults_delivery cfg x \<longleftrightarrow> cx_mutate x \<and> transport_enabled (cfg_transport cfg)"

definition build_reply ::
  "'r externals \<Rightarrow> evil_config \<Rightarrow> command_ctx \<Rightarrow> forwarded \<Rightarrow> app_error + mutated_reply \<times> string" where
  "build_reply E cfg x fw =
     (let (base, ms) = (case fw_topology fw of
            Some t \<Rightarrow> (encode (tm_frame t), tm_mutations t)
          | None \<Rightarrow> (fw_relay fw, []))
      in if mutates_values cfg x \<or> faults_delivery cfg x
         then and_then (parse_frame base) (\<lambda>f.
           let canonical = canonical_reply cfg x (fw_commands fw) f;
               seed_hash = deterministic_hash E (encode canonical)
           in if mutates_values cfg x
              then (let m = mutate_command_reply E cfg (cx_index x) (cx_name x) (cx_hash x) seed_hash canonical
                    in Inr (\<lparr>reply_bytes = reply_bytes m, reply_mutations = ms @ reply_mutations m\<rparr>, seed_hash))
              else Inr (\<lparr>reply_bytes = base, reply_mutations = ms\<rparr>, seed_hash))
         else Inr (\<lparr>reply_bytes = base, reply_mutations = ms\<rparr>, []))"

definition random_response ::
  "'r externals \<Rightarrow> command_ctx \<Rightarrow> topology_mutation option \<Rightarrow> client \<Rightarrow> shared_state
   \<Rightarrow> app_error + mutated_reply" where
  "random_response E x pre c sh =
     map_ok (\<lambda>topology. case topology of
         Some t \<Rightarrow> \<lparr>reply_bytes = encode (tm_frame t), reply_mutations = tm_mutations t\<rparr>
       | None \<Rightarrow> random_reply E (cl_config c) (cx_index x) (cx_hash x))
     (if pre \<noteq> None then Inr pre
      else (case sh_local_slots sh of
        Some slots \<Rightarrow> maybe_mutate_topology E (cl_config c) (cx_index x) (cx_hash x) (cx_frame x) None slots
      | None \<Rightarrow> Inr None))"

datatype produced = NoUpstream upstream_connection | Aborted app_error
  | Produced "bytes option" mutated_reply string

definition produce ::
  "'r env \<Rightarrow> command_ctx \<Rightarrow> delivery_plan option \<Rightarrow> client \<Rightarrow> shared_state \<Rightarrow> produced \<times> client" where
  "produce V x before c sh =
     (let E = ext V; cfg = cl_config c; pre = pre_topology E x c sh in
      if before \<noteq> None
      then (Produced None \<lparr>reply_bytes = [], reply_mutations = []\<rparr> [], c)
      else if cfg_mode cfg = ModeRandom \<and> cx_mutate x
      then (case random_response E x pre c sh of
              Inl e \<Rightarrow> (Aborted e, c)
            | Inr response \<Rightarrow> (Produced None response [], c))
      else (case forward V x pre c sh of
              (Unavailable u, c) \<Rightarrow> (NoUpstream u, c)
            | (Broken e, c) \<Rightarrow> (Aborted e, c)
            | (Forwarded fw, c) \<Rightarrow>
                (case build_reply E cfg x fw of
                   Inl e \<Rightarrow> (Aborted e, c)
                 | Inr (response, seed_hash) \<Rightarrow> (Produced (fw_upstream fw) response seed_hash, c))))"

section \<open>Delivery and its record\<close>

definition early_plan :: "'r externals \<Rightarrow> evil_config \<Rightarrow> command_ctx \<Rightarrow> delivery_plan option" where
  "early_plan E cfg x =
     (if faults_delivery cfg x
      then before_plan E (cfg_transport cfg) (cfg_seed cfg) (cx_index x) (cx_hash x) else None)"

definition choose_plan ::
  "'r externals \<Rightarrow> evil_config \<Rightarrow> command_ctx \<Rightarrow> delivery_plan option \<Rightarrow> string \<Rightarrow> nat \<Rightarrow> delivery_plan" where
  "choose_plan E cfg x before seed_hash len =
     (case before of
        Some plan \<Rightarrow> plan
      | None \<Rightarrow>
          if faults_delivery cfg x
          then transport_plan E (cfg_transport cfg) (cfg_seed cfg) (cx_index x) (cx_hash x) seed_hash len
          else plain_plan E len)"

definition record_delivery ::
  "'r externals \<Rightarrow> repro_record option \<Rightarrow> delivery_plan \<Rightarrow> bytes \<Rightarrow> delivery_outcome
   \<Rightarrow> shared_state \<Rightarrow> shared_state" where
  "record_delivery E record plan wire outcome sh =
     (case record of
        None \<Rightarrow> sh
      | Some r \<Rightarrow> sh\<lparr>sh_repro := map_option (append_record
          (r\<lparr>rr_planned_wire_bytes_hex := Some (hex_encode E wire), rr_delivery_plan := Some plan,
             rr_delivery_outcome := Some outcome\<rparr>)) (sh_repro sh)\<rparr>)"

definition deliver_reply ::
  "'r env \<Rightarrow> command_ctx \<Rightarrow> bytes option \<Rightarrow> mutated_reply \<Rightarrow> delivery_plan \<Rightarrow> client \<Rightarrow> shared_state
   \<Rightarrow> handled" where
  "deliver_reply V x upstream_bytes response plan c sh =
     (let E = ext V;
          record = map_option (\<lambda>_. repro_record_new E (cfg_seed (cl_config c)) (cl_id c) (cx_index x)
            (cx_bytes x) upstream_bytes (reply_bytes response) (cfg_mode (cl_config c))
            (reply_mutations response)) (sh_repro sh);
          wire = wire_bytes plan (reply_bytes response);
          (outcome, result, fps, w) = deliver E wire plan (cl_fps c) (cl_writer c)
      in case connection_fault plan of
           Some fault \<Rightarrow>
             (let (result, outcome, fps, w) =
                (case result of
                   Inl e \<Rightarrow> (result, outcome, fps, w)
                 | Inr _ \<Rightarrow> finish_fault (cl_socket c) (cl_arrivals c) fault (outcome, fps, w))
              in (case result of Inl e \<Rightarrow> Fail e | Inr _ \<Rightarrow> Return,
                  c\<lparr>cl_fps := fps, cl_writer := w\<rparr>, record_delivery E record plan wire outcome sh))
         | None \<Rightarrow>
             (let needed = (reply_mutations response \<noteq> [] \<or> is_fault plan \<or> result \<noteq> Inr ())
              in (case result of Inl e \<Rightarrow> Fail e
                  | Inr _ \<Rightarrow> if truncate_at plan \<noteq> None then Return else Continue,
                  c\<lparr>cl_fps := fps, cl_writer := w\<rparr>,
                  if needed then record_delivery E record plan wire outcome sh else sh)))"

definition respond :: "'r env \<Rightarrow> command_ctx \<Rightarrow> client \<Rightarrow> shared_state \<Rightarrow> handled" where
  "respond V x c sh =
     (let cfg = cl_config c; before = early_plan (ext V) cfg x
      in case produce V x before c sh of
           (NoUpstream u, c) \<Rightarrow> reply_unavailable u c sh
         | (Aborted e, c) \<Rightarrow> (Fail e, c, sh)
         | (Produced upstream_bytes response seed_hash, c) \<Rightarrow>
             deliver_reply V x upstream_bytes response
               (choose_plan (ext V) cfg x before seed_hash (length (reply_bytes response))) c sh)"

section \<open>One command\<close>

definition admit_command ::
  "'r env \<Rightarrow> bytes \<Rightarrow> frame \<Rightarrow> client \<Rightarrow> shared_state \<Rightarrow> (command_ctx \<times> shared_state) option" where
  "admit_command V raw f c sh =
     map_option (\<lambda>(index, sh). (\<lparr>cx_bytes = raw, cx_frame = f, cx_argv = argv_lossy f, cx_name = command_name f,
              cx_index = index, cx_hash = deterministic_hash (ext V) raw,
              cx_mutate = should_mutate_command (ext V) (cl_config c) (command_name f)\<rparr>,
         publish_monitor_command V f c sh))
       (admit (cl_epoch c) sh)"

definition handle_admitted ::
  "'r env \<Rightarrow> bytes \<Rightarrow> frame \<Rightarrow> client \<Rightarrow> shared_state \<Rightarrow> handled" where
  "handle_admitted V raw f c sh =
     (case admit_command V raw f c sh of
        None \<Rightarrow> (Return, c, sh)
      | Some (x, sh) \<Rightarrow> respond V x c sh)"

definition is_cluster_query :: "string list \<Rightarrow> bool" where
  "is_cluster_query argv \<longleftrightarrow> is_cluster_shards argv \<or> is_cluster_nodes argv"

text \<open>The commands the proxy answers itself.\<close>

definition own_reply ::
  "'r env \<Rightarrow> bytes \<Rightarrow> frame \<Rightarrow> client \<Rightarrow> shared_state \<Rightarrow> handled option" where
  "own_reply V raw f c sh =
     (let argv = argv_lossy f; publish = publish_monitor_command V f c in
      if is_debug_protocol argv
      then Some (reply_uncounted (encode (apply_debug_protocol (ext V) (cl_fps c) argv)) c sh)
      else if is_debug_chaos argv then Some (handle_debug_chaos V argv c (publish sh))
      else
        (let c = c\<lparr>cl_fps := fp_update DirIn raw (cl_fps c)\<rparr> in
         if is_monitor (command_name f) then Some (handle_monitor argv c sh)
         else if is_debug_evil argv then Some (handle_debug_evil V argv c (publish sh))
         else Option.bind (sh_local_slots sh) (\<lambda>slots.
           if is_cluster_slots argv then Some (reply_frame_to slots c (publish sh))
           else if is_cluster_query argv then Some (handle_cluster_query V raw argv c (publish sh))
           else None)))"

definition dispatch :: "'r env \<Rightarrow> bytes \<Rightarrow> frame \<Rightarrow> client \<Rightarrow> shared_state \<Rightarrow> handled" where
  "dispatch V raw f c sh =
     (if cl_epoch c \<noteq> sh_reset_epoch sh then (Return, c, sh)
      else (case own_reply V raw f c sh of
              Some handled \<Rightarrow> handled
            | None \<Rightarrow> handle_admitted V raw f (c\<lparr>cl_fps := fp_update DirIn raw (cl_fps c)\<rparr>) sh))"

lemmas handle_admitted_eq = handle_admitted_def admit_command_def

text \<open>The handler as one case distinction.\<close>

lemma dispatch_eq:
  "dispatch V raw f c sh =
     (let argv = argv_lossy f; publish = publish_monitor_command V f c in
      if cl_epoch c \<noteq> sh_reset_epoch sh then (Return, c, sh)
      else if is_debug_protocol argv
      then reply_uncounted (encode (apply_debug_protocol (ext V) (cl_fps c) argv)) c sh
      else if is_debug_chaos argv then handle_debug_chaos V argv c (publish sh)
      else
        (let c = c\<lparr>cl_fps := fp_update DirIn raw (cl_fps c)\<rparr> in
         if is_monitor (command_name f) then handle_monitor argv c sh
         else if is_debug_evil argv then handle_debug_evil V argv c (publish sh)
         else (case sh_local_slots sh of
                 Some slots \<Rightarrow>
                   if is_cluster_slots argv then reply_frame_to slots c (publish sh)
                   else if is_cluster_query argv then handle_cluster_query V raw argv c (publish sh)
                   else handle_admitted V raw f c sh
               | None \<Rightarrow> handle_admitted V raw f c sh)))"
  by (cases "sh_local_slots sh") (simp_all add: dispatch_def own_reply_def Let_def)

definition handle_command :: "'r env \<Rightarrow> bytes \<Rightarrow> client \<Rightarrow> shared_state \<Rightarrow> handled" where
  "handle_command V raw c sh =
     (case parse_frame raw of
        Inl e \<Rightarrow> (Fail e, c, sh)
      | Inr f \<Rightarrow> dispatch V raw f c sh)"

section \<open>A connection\<close>

definition accept_client ::
  "'r env \<Rightarrow> proxy_target \<Rightarrow> up_socket option list \<Rightarrow> proxy_stream \<Rightarrow> writer \<Rightarrow> arrivals \<Rightarrow> shared_state
   \<Rightarrow> client \<times> shared_state" where
  "accept_client V target net socket w reads sh =
     (\<lparr>cl_id = sh_connection_ids sh, cl_epoch = sh_reset_epoch sh, cl_config = config_default,
       cl_fps = fingerprints_new, cl_tx = transaction_default,
       cl_upstream = connection_new (debug_frame V) net, cl_writer = w, cl_socket = socket,
       cl_arrivals = reads, cl_listen = target_listen target\<rparr>,
      sh\<lparr>sh_connection_ids := sh_connection_ids sh + 1, sh_stats := client_connected (sh_stats sh)\<rparr>)"

text \<open>The loop: every command takes at least a byte off the stream.\<close>

lemma read_loop_shorter: "read_loop input raw pending = Inr (raw', input') \<Longrightarrow> length input' \<le> length input"
proof (induction input raw pending rule: read_loop.induct)
  case (3 input raw r pending)
  from "3.prems" obtain n inp1 raw1 where
    dep: "\<not> length (r # pending) > MAX_FRAME_DEPTH" and h: "read_header input raw = Inr (n, inp1, raw1)"
    and rec: "read_loop inp1 raw1 (if n > 0 then n # r # pending else r # pending) = Inr (raw', input')"
    by (auto simp: result_simps split: if_splits)
  have "length input' \<le> length inp1" using "3.IH" [OF dep h] rec by (cases "0 < n") simp_all
  then show ?case using read_header_shorter [OF h] by simp
qed simp_all

lemma read_raw_frame_shorter:
  assumes "read_raw_frame input = Inr (raw, rest)" shows "length rest < length input"
proof -
  have "read_loop input [] (Suc 0 # []) = Inr (raw, rest)" using assms by (simp add: read_raw_frame_def)
  then obtain n inp1 raw1 where h: "read_header input [] = Inr (n, inp1, raw1)"
    and r: "read_loop inp1 raw1 (if n > 0 then [n, 0] else [0]) = Inr (raw, rest)"
    unfolding read_loop.simps(3) by (auto simp: result_simps simp del: read_loop.simps split: if_splits(2))
  show ?thesis using read_header_shorter [OF h] read_loop_shorter [OF r] by simp
qed

function serve :: "(nat \<Rightarrow> 'r env) \<Rightarrow> nat \<Rightarrow> bytes \<Rightarrow> client \<Rightarrow> shared_state \<Rightarrow> handled" where
  "serve V n input c sh =
     (case read_raw_frame input of
        Inl e \<Rightarrow> (if io_kind_of e = UnexpectedEof then Return else Fail e, c, sh)
      | Inr (raw, rest) \<Rightarrow>
          (case handle_command (V n) raw c sh of
             (Continue, c, sh) \<Rightarrow> serve V (n + 1) rest c sh
           | done \<Rightarrow> done))"
  by pat_completeness auto
termination
  by (relation "measure (\<lambda>(V, n, input, c, sh). length input)") (auto dest!: read_raw_frame_shorter)

declare serve.simps [simp del]

end
