(* ===== verification/Proxy_Props.thy ===== *)
theory Proxy_Props
  imports Proxy Upstream_Props
begin

text \<open>
  What the handlers of a connection keep: its identity and settings, the shared counters, and the
  validity of the configuration.
\<close>

section \<open>Frames of the handlers\<close>

definition same_counters :: "shared_state \<Rightarrow> shared_state \<Rightarrow> bool" where
  "same_counters sh sh' \<longleftrightarrow> sh_reset_epoch sh' = sh_reset_epoch sh \<and> sh_command_ids sh' = sh_command_ids sh"

definition same_settings :: "client \<Rightarrow> client \<Rightarrow> bool" where
  "same_settings c c' \<longleftrightarrow> cl_id c' = cl_id c \<and> cl_epoch c' = cl_epoch c \<and> cl_config c' = cl_config c
     \<and> cl_socket c' = cl_socket c \<and> cl_listen c' = cl_listen c"

definition same_session :: "client \<Rightarrow> client \<Rightarrow> bool" where
  "same_session c c' \<longleftrightarrow> cl_upstream c' = cl_upstream c \<and> cl_tx c' = cl_tx c"

text \<open>A handler that touches neither the settings nor the counters, and one that does not touch
  the upstream session either.\<close>

definition keeps :: "client \<Rightarrow> shared_state \<Rightarrow> handled \<Rightarrow> bool" where
  "keeps c sh h \<longleftrightarrow> (case h of (r, c', sh') \<Rightarrow> same_settings c c' \<and> same_counters sh sh')"

definition keeps_session :: "client \<Rightarrow> shared_state \<Rightarrow> handled \<Rightarrow> bool" where
  "keeps_session c sh h \<longleftrightarrow> keeps c sh h \<and> (case h of (r, c', sh') \<Rightarrow> same_session c c')"

lemma same_refl [simp]: "same_settings c c" "same_session c c" "same_counters sh sh"
  by (simp_all add: same_settings_def same_session_def same_counters_def)

lemmas keeps_defs = keeps_session_def keeps_def same_settings_def same_session_def same_counters_def

lemma write_client_keeps:
  "write_client_bytes b c = (r, c') \<Longrightarrow> same_settings c c' \<and> same_session c c'"
  by (auto simp: write_client_bytes_def same_settings_def same_session_def split: prod.splits)

lemma reply_bytes_keeps: "keeps_session c sh (reply_bytes_to b c sh)"
  using write_client_keeps [of b c]
  by (cases "write_client_bytes b c")
    (auto simp: reply_bytes_to_def after_write_def keeps_session_def keeps_def same_counters_def split: sum.splits)

lemma reply_frame_keeps: "keeps_session c sh (reply_frame_to f c sh)"
  by (simp add: reply_frame_to_def reply_bytes_keeps)

lemma reply_uncounted_keeps: "keeps_session c sh (reply_uncounted b c sh)"
  by (auto simp: reply_uncounted_def after_write_def keeps_defs split: sum.splits prod.splits)

lemma publish_keeps [simp]:
  "sh_reset_epoch (publish_monitor_command V f c sh) = sh_reset_epoch sh"
  "sh_command_ids (publish_monitor_command V f c sh) = sh_command_ids sh"
  "sh_local_slots (publish_monitor_command V f c sh) = sh_local_slots sh"
  "sh_redirection_map (publish_monitor_command V f c sh) = sh_redirection_map sh"
  "sh_repro (publish_monitor_command V f c sh) = sh_repro sh"
  "sh_stats (publish_monitor_command V f c sh) = sh_stats sh"
  by (simp_all add: publish_monitor_command_def split: list.splits)

lemma handle_monitor_keeps: "keeps_session c sh (handle_monitor argv c sh)"
  using reply_frame_keeps [of c sh] write_client_keeps [of "encode (SimpleString ''OK'')" c]
  by (cases "write_client_bytes (encode (SimpleString ''OK'')) c")
    (auto simp: handle_monitor_def keeps_session_def keeps_def same_counters_def split: sum.splits)

lemma keeps_cong:
  assumes "keeps c2 sh2 h" and "same_settings c c2" and "same_counters sh sh2" shows "keeps c sh h"
  using assms by (auto simp: keeps_defs)

lemma keeps_session_cong:
  assumes "keeps_session c2 sh2 h" and "same_settings c c2" and "same_session c c2" and "same_counters sh sh2"
  shows "keeps_session c sh h"
  using assms by (auto simp: keeps_defs)

lemma keeps_sessionD: "keeps_session c sh h \<Longrightarrow> keeps c sh h"
  by (simp add: keeps_session_def)

lemma reply_unavailable_keeps: "keeps c sh (reply_unavailable u c sh)"
  unfolding reply_unavailable_def
  by (rule keeps_cong [OF keeps_sessionD [OF reply_bytes_keeps]]) (simp_all add: same_settings_def same_counters_def)

lemma cluster_query_keeps: "keeps c sh (handle_cluster_query V raw argv c sh)"
proof -
  obtain q u where ex: "exchange (debug_frame V) raw argv (cl_upstream c) = (q, u)" by force
  show ?thesis
  proof (cases q)
    case (Inl e)
    then show ?thesis using ex reply_unavailable_keeps by (simp add: handle_cluster_query_def)
  next
    case (Inr reply)
    have set: "same_settings c (c\<lparr>cl_upstream := u\<rparr>)" "same_counters sh sh"
      by (simp_all add: same_settings_def same_counters_def)
    show ?thesis
    proof (cases "parse_frame reply")
      case (Inl e)
      then show ?thesis using ex Inr set by (simp add: handle_cluster_query_def Let_def keeps_def)
    next
      case (Inr f)
      then show ?thesis using ex \<open>q = Inr reply\<close> keeps_cong [OF keeps_sessionD [OF reply_frame_keeps] set]
        by (simp add: handle_cluster_query_def Let_def)
    qed
  qed
qed

section \<open>The pipeline\<close>

lemma record_delivery_keeps [simp]:
  "sh_reset_epoch (record_delivery E r p w d sh) = sh_reset_epoch sh"
  "sh_command_ids (record_delivery E r p w d sh) = sh_command_ids sh"
  by (simp_all add: record_delivery_def split: option.splits)

lemma deliver_reply_keeps: "keeps_session c sh (deliver_reply V x up response plan c sh)"
  unfolding keeps_defs deliver_reply_def Let_def by (simp split: option.splits prod.splits sum.splits)

lemma forward_keeps: "forward V x pre c sh = (r, c') \<Longrightarrow> same_settings c c'"
  by (auto simp: forward_def same_settings_def Let_def split: option.splits prod.splits sum.splits)

lemma produce_keeps: "produce V x before c sh = (r, c') \<Longrightarrow> same_settings c c'"
  using forward_keeps [of V x "pre_topology (ext V) x c sh" c sh]
  by (auto simp: produce_def Let_def
      split: if_splits prod.splits sum.splits forward_result.splits)

lemma respond_keeps: "keeps c sh (respond V x c sh)"
proof -
  let ?before = "early_plan (ext V) (cl_config c) x"
  obtain r c1 where p: "produce V x ?before c sh = (r, c1)" by force
  have set: "same_settings c c1" "same_counters sh sh"
    using produce_keeps [OF p] by (simp_all add: same_counters_def)
  show ?thesis
  proof (cases r)
    case (NoUpstream u)
    then show ?thesis using p keeps_cong [OF reply_unavailable_keeps set] by (simp add: respond_def Let_def)
  next
    case (Aborted e)
    then show ?thesis using p set by (simp add: respond_def Let_def keeps_def)
  next
    case (Produced up response h)
    then show ?thesis using p keeps_cong [OF keeps_sessionD [OF deliver_reply_keeps] set]
      by (simp add: respond_def Let_def)
  qed
qed

section \<open>The configuration of a client\<close>

lemma chaos_transport_fault:
  "transport_updated [''TRUNCATE'', ''RANDOM'', ''CHUNKS'', ''RANDOM'', ''PROBABILITY'', v] n = Inr n'
     \<Longrightarrow> tr_fault n' = tr_fault n"
  by (auto simp: transport_updated_def set_transport_def ascii_defs result_simps split: if_splits)

lemma chaos_preset_no_fault: "chaos_preset seed t c = Inr c' \<Longrightarrow> \<not> requires_tcp (cfg_transport c')"
  by (elim chaos_preset_cases)
    (auto simp: chaos_generator_eq chaos_exec_def chaos_framing_def chaos_transport_def chaos_base_def
      result_simps requires_tcp_def transport_default_def fault_default_def
      dest!: chaos_transport_fault split: if_splits)

text \<open>Valid, and a TCP reset only on a client that has a TCP socket.\<close>

definition client_ok :: "client \<Rightarrow> bool" where
  "client_ok c \<longleftrightarrow> config_ok (cl_config c)
     \<and> (requires_tcp (cfg_transport (cl_config c)) \<longrightarrow> supports_reset (cl_socket c))"

lemma checked_debug_ok:
  assumes "checked_debug E argv tcp c = (c', r)" and "config_ok c"
    and "requires_tcp (cfg_transport c) \<longrightarrow> tcp"
  shows "config_ok c' \<and> (requires_tcp (cfg_transport c') \<longrightarrow> tcp)"
proof -
  obtain c1 q where d: "apply_debug_command E argv c = (c1, q)" by force
  have ok: "config_ok c1" using apply_debug_ok [OF d assms(2)] .
  show ?thesis
  proof (cases q)
    case (Inl e)
    then have "c1 = c" using d apply_debug_error by blast
    then show ?thesis using assms d Inl by (simp add: checked_debug_def)
  next
    case (Inr result)
    then show ?thesis using assms d ok
      by (auto simp: checked_debug_def config_ok_def split: if_splits)
  qed
qed

lemma same_settings_ok: "client_ok c \<Longrightarrow> same_settings c c' \<Longrightarrow> client_ok c'"
  by (simp add: client_ok_def same_settings_def)

lemma keeps_ok: "keeps c sh h \<Longrightarrow> client_ok c \<Longrightarrow> client_ok (fst (snd h))"
  by (auto simp: keeps_def split: prod.splits intro: same_settings_ok)

lemma debug_evil_ok:
  assumes "client_ok c" shows "client_ok (fst (snd (handle_debug_evil V argv c sh)))"
proof -
  obtain config st result where a: "apply_debug_evil (ext V) argv (supports_reset (cl_socket c))
      (cl_config c, sh_stats sh) = ((config, st), result)" by (metis prod.exhaust)
  obtain q where d: "checked_debug (ext V) argv (supports_reset (cl_socket c)) (cl_config c) = (config, q)"
    using a by (auto simp: apply_debug_evil_def split: prod.splits sum.splits)
  have ok: "client_ok (c\<lparr>cl_config := config\<rparr>)"
    using checked_debug_ok [OF d] assms by (simp add: client_ok_def)
  show ?thesis
  proof (cases "dr_action result")
    case NoAction
    then show ?thesis using a keeps_ok [OF keeps_sessionD [OF reply_bytes_keeps] ok]
      by (simp add: handle_debug_evil_def Let_def)
  next
    case ResetIncrementingState
    then show ?thesis using a ok
      by (auto simp: handle_debug_evil_def Let_def client_ok_def split: prod.splits sum.splits)
  qed
qed

lemma debug_chaos_ok:
  assumes "client_ok c" shows "client_ok (fst (snd (handle_debug_chaos V argv c sh)))"
proof -
  obtain config st f where a: "apply_debug_chaos (ext V) (cl_fps c) argv (cl_config c, sh_stats sh)
      = ((config, st), f)" by (metis prod.exhaust)
  then obtain q where ch: "chaos_apply argv (cl_config c) = (config, q)"
    by (auto simp: apply_debug_chaos_def split: prod.splits sum.splits)
  have "requires_tcp (cfg_transport config) \<longrightarrow> supports_reset (cl_socket c)"
    using chaos_apply_cases [OF ch] assms chaos_preset_no_fault unfolding client_ok_def by metis
  then have "client_ok (c\<lparr>cl_config := config\<rparr>)"
    using chaos_apply_ok [OF ch] assms by (simp add: client_ok_def)
  from keeps_ok [OF keeps_sessionD [OF reply_uncounted_keeps] this] show ?thesis
    by (simp add: handle_debug_chaos_def a)
qed

section \<open>One command\<close>

lemma handle_admitted_cases:
  obtains (stale) "handle_admitted V raw f c sh = (Return, c, sh)"
  | (taken) k sh1 where "admit (cl_epoch c) sh = Some (k, sh1)" "keeps c sh1 (handle_admitted V raw f c sh)"
proof (cases "admit (cl_epoch c) sh")
  case None
  then show thesis by (intro stale) (simp add: handle_admitted_eq)
next
  case (Some a)
  obtain k sh1 where a: "a = (k, sh1)" by force
  have "same_counters sh1 (publish_monitor_command V f c sh1)" by (simp add: same_counters_def)
  from keeps_cong [OF respond_keeps same_refl(1) this] show thesis
    by (intro taken [of k sh1]) (simp_all add: Some a handle_admitted_eq)
qed

text \<open>What the proxy's own commands leave alone.\<close>

lemma debug_evil_effect:
  "case handle_debug_evil V argv c sh of (r, c', sh') \<Rightarrow> same_session c c'
     \<and> (same_counters sh sh' \<or> (\<exists>sh1. reset_incrementing_state sh = (cl_epoch c', sh1) \<and> same_counters sh1 sh'))"
proof -
  obtain config st result where a: "apply_debug_evil (ext V) argv (supports_reset (cl_socket c))
      (cl_config c, sh_stats sh) = ((config, st), result)" by (metis prod.exhaust)
  show ?thesis
  proof (cases "dr_action result")
    case NoAction
    then show ?thesis
      using a reply_bytes_keeps [of "c\<lparr>cl_config := config\<rparr>" "sh\<lparr>sh_stats := st\<rparr>" "encode (dr_frame result)"]
      by (auto simp: handle_debug_evil_def Let_def keeps_defs split: prod.splits)
  next
    case ResetIncrementingState
    then show ?thesis using a
      by (auto simp: handle_debug_evil_def Let_def reset_incrementing_state_def
          same_counters_def same_session_def split: prod.splits sum.splits)
  qed
qed

lemma debug_chaos_effect:
  "case handle_debug_chaos V argv c sh of (r, c', sh') \<Rightarrow>
     same_session c c' \<and> same_counters sh sh' \<and> cl_fps c' = cl_fps c"
  by (auto simp: handle_debug_chaos_def reply_uncounted_def after_write_def same_session_def
      same_counters_def split: prod.splits sum.splits)

text \<open>The branches of the dispatcher; the proxy's own commands.\<close>

definition own_command :: "frame \<Rightarrow> bool" where
  "own_command f \<longleftrightarrow> is_debug_protocol (argv_lossy f) \<or> is_debug_chaos (argv_lossy f)
     \<or> is_debug_evil (argv_lossy f) \<or> is_monitor (command_name f)"

lemma dispatch_cases:
  obtains (stale) "cl_epoch c \<noteq> sh_reset_epoch sh" "dispatch V raw f c sh = (Return, c, sh)"
  | (protocol) b where "is_debug_protocol (argv_lossy f)" "dispatch V raw f c sh = reply_uncounted b c sh"
  | (chaos) sh1 where "is_debug_chaos (argv_lossy f)" "same_counters sh sh1"
      "dispatch V raw f c sh = handle_debug_chaos V (argv_lossy f) c sh1"
  | (monitor) c1 where "same_settings c c1" "same_session c c1" "is_monitor (command_name f)"
      "\<not> is_debug_protocol (argv_lossy f)" "\<not> is_debug_chaos (argv_lossy f)"
      "dispatch V raw f c sh = handle_monitor (argv_lossy f) c1 sh"
  | (evil) c1 sh1 where "same_settings c c1" "same_session c c1" "same_counters sh sh1"
      "\<not> is_debug_protocol (argv_lossy f)" "\<not> is_debug_chaos (argv_lossy f)"
      "is_debug_evil (argv_lossy f)" "dispatch V raw f c sh = handle_debug_evil V (argv_lossy f) c1 sh1"
  | (slots) c1 sh1 g where "same_settings c c1" "same_session c c1" "same_counters sh sh1"
      "\<not> is_debug_protocol (argv_lossy f)" "\<not> is_debug_chaos (argv_lossy f)"
      "is_cluster_slots (argv_lossy f)" "dispatch V raw f c sh = reply_frame_to g c1 sh1"
  | (query) c1 sh1 where "same_settings c c1" "same_counters sh sh1" "\<not> own_command f"
      "is_cluster_query (argv_lossy f)" "dispatch V raw f c sh = handle_cluster_query V raw (argv_lossy f) c1 sh1"
  | (other) "\<not> own_command f"
      "sh_local_slots sh \<noteq> None \<longrightarrow> \<not> is_cluster_slots (argv_lossy f)"
      "dispatch V raw f c sh
         = handle_admitted V raw f (c\<lparr>cl_fps := fp_update DirIn raw (cl_fps c)\<rparr>) sh"
proof -
  let ?c = "c\<lparr>cl_fps := fp_update DirIn raw (cl_fps c)\<rparr>"
  have set: "same_settings c ?c" "same_session c ?c" "same_counters sh (publish_monitor_command V f d sh)" for d
    by (simp_all add: same_settings_def same_session_def same_counters_def)
  note d = dispatch_eq [of V raw f c sh, unfolded Let_def]
  consider "cl_epoch c \<noteq> sh_reset_epoch sh"
    | "cl_epoch c = sh_reset_epoch sh" "is_debug_protocol (argv_lossy f)"
    | "cl_epoch c = sh_reset_epoch sh" "\<not> is_debug_protocol (argv_lossy f)" "is_debug_chaos (argv_lossy f)"
    | "cl_epoch c = sh_reset_epoch sh" "\<not> is_debug_protocol (argv_lossy f)" "\<not> is_debug_chaos (argv_lossy f)"
    by blast
  then show thesis
  proof cases
    case 4
    show thesis
    proof (cases "is_monitor (command_name f) \<or> is_debug_evil (argv_lossy f)")
      case True
      then show thesis using 4 d set by (cases "is_monitor (command_name f)") (auto intro: monitor evil)
    next
      case False
      then have "\<not> own_command f" using 4 by (simp add: own_command_def)
      then show thesis using False 4 d set
        by (cases "sh_local_slots sh"; cases "is_cluster_slots (argv_lossy f)"; cases "is_cluster_query (argv_lossy f)")
          (auto intro: slots query other)
    qed
  qed (use d set in \<open>auto intro: stale protocol chaos\<close>)
qed

lemma dispatch_ok: assumes "client_ok c" shows "client_ok (fst (snd (dispatch V raw f c sh)))"
proof (cases rule: dispatch_cases [of c sh V raw f])
  case stale
  then show ?thesis using assms by simp
next
  case (protocol b)
  then show ?thesis using keeps_ok [OF keeps_sessionD [OF reply_uncounted_keeps] assms] by simp
next
  case (chaos sh1)
  then show ?thesis using debug_chaos_ok [OF assms] by simp
next
  case (monitor c1)
  then show ?thesis
    using keeps_ok [OF keeps_sessionD [OF handle_monitor_keeps] same_settings_ok [OF assms monitor(1)]] by simp
next
  case (evil c1 sh1)
  then show ?thesis using debug_evil_ok [OF same_settings_ok [OF assms evil(1)]] by simp
next
  case (slots c1 sh1 g)
  then show ?thesis
    using keeps_ok [OF keeps_sessionD [OF reply_frame_keeps] same_settings_ok [OF assms slots(1)]] by simp
next
  case (query c1 sh1)
  then show ?thesis using keeps_ok [OF cluster_query_keeps same_settings_ok [OF assms query(1)]] by simp
next
  case other
  let ?c = "c\<lparr>cl_fps := fp_update DirIn raw (cl_fps c)\<rparr>"
  have "client_ok ?c" using assms by (simp add: client_ok_def)
  then have "client_ok (fst (snd (handle_admitted V raw f ?c sh)))"
    by (cases rule: handle_admitted_cases [of V raw f ?c sh]) (simp, blast intro: keeps_ok)
  then show ?thesis using other by simp
qed

lemma handle_command_ok: "client_ok c \<Longrightarrow> client_ok (fst (snd (handle_command V raw c sh)))"
  by (simp add: handle_command_def dispatch_ok split: sum.splits)

lemma serve_ok: "client_ok c \<Longrightarrow> client_ok (fst (snd (serve V n input c sh)))"
proof (induction V n input c sh rule: serve.induct)
  case (1 V n input c sh)
  show ?case
  proof (cases "read_raw_frame input")
    case (Inl e)
    then show ?thesis using 1(2) by (simp add: serve.simps [of V n input])
  next
    case (Inr x)
    obtain raw rest where x: "x = (raw, rest)" by force
    obtain r c1 sh1 where h: "handle_command (V n) raw c sh = (r, c1, sh1)" by (metis prod.exhaust)
    have ok: "client_ok c1" using handle_command_ok [OF 1(2), of "V n" raw sh] h by simp
    show ?thesis
    proof (cases "r = Continue")
      case True
      then show ?thesis using 1(1) [OF Inr x [symmetric] h [symmetric] True refl ok] Inr x h
        by (simp add: serve.simps [of V n input])
    next
      case False
      then show ?thesis using Inr x h ok by (cases r) (simp_all add: serve.simps [of V n input])
    qed
  qed
qed

text \<open>Whatever a client sends over its whole connection, its configuration stays valid, and a
  TCP reset is only ever configured on a client that has a TCP socket to reset.\<close>

lemma clients_stay_valid:
  "client_ok (fst (snd (serve V n input (fst (accept_client V0 target net socket w reads sh0)) sh)))"
proof (rule serve_ok)
  have "\<not> requires_tcp (cfg_transport config_default)"
    by (simp add: config_default_def requires_tcp_def transport_default_def fault_default_def)
  then show "client_ok (fst (accept_client V0 target net socket w reads sh0))"
    by (simp add: accept_client_def client_ok_def)
qed

text \<open>The proxy's own commands (DEBUG EVIL, CHAOS and PROTOCOL, and MONITOR) never reach the
  upstream: they leave the session, its transaction queue and the command index alone, an
  accepted reset apart, and reading or setting fingerprints with PROTOCOL and CHAOS does not change
  them.\<close>

lemma own_commands_stay_local:
  assumes "handle_command V raw c sh = (r, c', sh')" and "parse_frame raw = Inr f" and "own_command f"
  shows "cl_upstream c' = cl_upstream c \<and> cl_tx c' = cl_tx c
    \<and> (sh_reset_epoch sh' = sh_reset_epoch sh \<and> sh_command_ids sh' = sh_command_ids sh
       \<or> is_debug_evil (argv_lossy f) \<and> sh_reset_epoch sh' = sh_reset_epoch sh + 1 \<and> sh_command_ids sh' = 0
         \<and> cl_epoch c' = sh_reset_epoch sh')
    \<and> (is_debug_protocol (argv_lossy f) \<or> is_debug_chaos (argv_lossy f) \<longrightarrow> cl_fps c' = cl_fps c)"
proof -
  have h: "dispatch V raw f c sh = (r, c', sh')" using assms(1,2) by (simp add: handle_command_def)
  show ?thesis
  proof (cases rule: dispatch_cases [of c sh V raw f])
    case (protocol b)
    then show ?thesis using h reply_uncounted_keeps [of c sh b] 
      by (auto simp: keeps_defs reply_uncounted_def after_write_def split: prod.splits sum.splits)
  next
    case (chaos sh1)
    then show ?thesis using h debug_chaos_effect [where V = V and argv = "argv_lossy f" and c = c and sh = sh1]
      by (auto simp: same_session_def same_counters_def)
  next
    case (monitor c1)
    then show ?thesis using h handle_monitor_keeps [of c1 sh "argv_lossy f"] 
      by (auto simp: keeps_defs)
  next
    case (evil c1 sh1)
    then show ?thesis using h debug_evil_effect [where V = V and argv = "argv_lossy f" and c = c1 and sh = sh1]
      by (auto simp: same_session_def same_counters_def reset_incrementing_state_def)
  next
    case (slots c1 sh1 g)
    then show ?thesis using h reply_frame_keeps [of c1 sh1 g] by (auto simp: keeps_defs)
  qed (use assms(3) h in auto)
qed

section \<open>Samples\<close>

definition command_frame :: "bytes list \<Rightarrow> frame" where
  "command_frame args = Array (Some (map (\<lambda>a. BulkString (Some a)) args))"

lemma blob_depths: "foldr max (map (frame_depth \<circ> (\<lambda>a. BulkString (Some a))) args) 0 \<le> 1"
  by (induction args) (auto simp: frame_depth.simps)

lemma parse_command:
  assumes "length (encode (command_frame args)) \<le> MAX_FRAME_BYTES"
  shows "parse_frame (encode (command_frame args)) = Inr (command_frame args)"
  by (rule parse_encoded)
    (use assms order.trans [OF blob_depths, of 127 args] in \<open>auto simp: command_frame_def wf_frame.simps [of "Array _"] wf_frame.simps [of "BulkString _"]
      frame_depth.simps MAX_FRAME_DEPTH_def list_all_iff\<close>)

definition sample_env :: "nat env" where
  "sample_env = \<lparr>ext = sample_externals, debug_frame = (\<lambda>_. ''?''), clock = (1700000000, 42)\<rparr>"

definition sample_state :: shared_state where
  "sample_state = (initial_state (Standalone \<lparr>target_upstream = Unix ''up'', target_listen = Unix ''down''\<rparr>) (Some []))
     \<lparr>sh_receivers := 1\<rparr>"

definition plain_writer :: writer where
  "plain_writer = \<lparr>write_script = [], flush_script = [], shutdown_result = None, sent = [], closed = False\<rparr>"

definition sample_client :: client where
  "sample_client = \<lparr>cl_id = 3, cl_epoch = 0, cl_config = config_default, cl_fps = fingerprints_new,
     cl_tx = transaction_default, cl_upstream = sample_connection, cl_writer = plain_writer,
     cl_socket = UnixSocket, cl_arrivals = [], cl_listen = Unix ''down''\<rparr>"

end
