(* ===== verification/Proxy_Relay.thy ===== *)
theory Proxy_Relay
  imports Proxy_Props
begin

text \<open>
  What the client of an ordinary command gets: the upstream's reply untouched when no fault
  applies, and otherwise a reply whose every change is recorded.
\<close>

section \<open>Writing\<close>

text \<open>The bytes \<open>b\<close> went to the client, in part if the handler failed, and the output fingerprint
  has read exactly what was sent. A client that takes everything gets it all.\<close>

definition client_got :: "bytes \<Rightarrow> step_end \<Rightarrow> client \<Rightarrow> client \<Rightarrow> bool" where
  "client_got b r c c' \<longleftrightarrow> (\<exists>n\<le>length b.
     sent (cl_writer c') = sent (cl_writer c) @ take n b
     \<and> fp_bytes (fp_output (cl_fps c')) = fp_bytes (fp_output (cl_fps c)) @ take n b
     \<and> fp_input (cl_fps c') = fp_input (cl_fps c)
     \<and> (r = Continue \<and> n = length b \<or> (\<exists>e. r = Fail e)))
     \<and> (willing (cl_writer c) \<longrightarrow> r = Continue \<and> willing (cl_writer c'))"

lemma reply_bytes_got:
  assumes "reply_bytes_to b c sh = (r, c', sh')"
  shows "client_got b r c c'" and "sh' = sh" and "same_settings c c'" and "same_session c c'"
proof -
  obtain q n fps w where wc: "write_counted b 0 (cl_fps c) (cl_writer c) = (q, n, fps, w)"
    by (metis prod.exhaust)
  have acc: "accounted b (cl_writer c) (cl_fps c) n fps w \<and> (q = Inr () \<longrightarrow> n = length b)"
    using write_counted_accounted [OF wc accounted_start [of b], of "length b"] by simp
  have res: "c' = c\<lparr>cl_fps := fps, cl_writer := w\<rparr>" "sh' = sh" "r = (case q of Inl e \<Rightarrow> Fail e | Inr _ \<Rightarrow> Continue)"
    using assms wc by (auto simp: reply_bytes_to_def after_write_def write_client_bytes_def split: sum.splits)
  then show "sh' = sh" "same_settings c c'" "same_session c c'"
    by (simp_all add: same_settings_def same_session_def)
  have "willing (cl_writer c) \<Longrightarrow> q = Inr () \<and> willing w"
    using write_counted_willing [of "cl_writer c" b 0 "cl_fps c"] wc by (auto simp: willing_def)
  then show "client_got b r c c'"
    using acc res by (cases q) (auto simp: client_got_def accounted_def)
qed

section \<open>Commands without faults\<close>

text \<open>Filtered out, or with every fault off.\<close>

definition quiet :: "'r externals \<Rightarrow> evil_config \<Rightarrow> string option \<Rightarrow> bool" where
  "quiet E cfg name \<longleftrightarrow> \<not> should_mutate_command E cfg name
     \<or> cfg_mode cfg = ModeOff \<and> \<not> transport_enabled (cfg_transport cfg)
       \<and> f_le (topology_probability cfg) zero_percent"

lemma quiet_pre_topology:
  assumes "quiet E (cl_config c) (cx_name x)" and "cx_mutate x = should_mutate_command E (cl_config c) (cx_name x)"
  shows "pre_topology E x c sh = None"
  using assms
  by (cases "sh_local_slots sh"; cases "topology_redirect (cl_config c)")
    (auto simp: quiet_def pre_topology_def configured_redirection_def)

lemma quiet_post_topology:
  assumes "quiet E (cl_config c) (cx_name x)" and "cx_mutate x = should_mutate_command E (cl_config c) (cx_name x)"
  shows "post_topology E x relay c sh = Inr None"
  using assms
  by (auto simp: quiet_def post_topology_def configured_redirection_def maybe_mutate_topology_def
      split: option.splits)

lemma quiet_plain:
  assumes "quiet E cfg (cx_name x)" and "cx_mutate x = should_mutate_command E cfg (cx_name x)"
  shows "\<not> faults_delivery cfg x" "\<not> mutates_values cfg x" "\<not> (cfg_mode cfg = ModeRandom \<and> cx_mutate x)"
  using assms by (auto simp: quiet_def faults_delivery_def mutates_values_def)

text \<open>A plain plan delivers the reply as it is; it needs a record only if its delivery failed.\<close>

definition failure_recorded :: "step_end \<Rightarrow> shared_state \<Rightarrow> shared_state \<Rightarrow> bool" where
  "failure_recorded r sh sh' \<longleftrightarrow>
     (if r = Continue then sh_repro sh' = sh_repro sh
      else (\<exists>rec. sh_repro sh' = map_option (\<lambda>log. log @ [rec]) (sh_repro sh)))"

lemma plain_plan_simps [simp]:
  "connection_fault (plain_plan E n) = None" "truncate_at (plain_plan E n) = None" "\<not> is_fault (plain_plan E n)"
  "wire_bytes (plain_plan E n) b = b" "length b = n \<Longrightarrow> partitions (chunk_ends (plain_plan E n)) n"
  by (simp_all add: plain_plan_def is_fault_def wire_bytes_def truncate_to_def partitions_def)

lemma deliver_plain_willing:
  assumes "deliver E b (plain_plan E n) fps w = (out, q, fps', w')" and "willing w"
  shows "q = Inr () \<and> willing w'"
proof -
  let ?start = "\<lparr>bytes_written = 0, written_bytes_hash = [], completed_chunks = 0, shutdown_completed = False,
    error_stage = None, error_kind = None, fault_completed = None, stall_end = None\<rparr>"
  obtain o1 f1 v1 where "deliver_chunks b 0 (chunk_ends (plain_plan E n)) (?start, fps, w) = (Inr (), o1, f1, v1)"
    "willing v1"
    using deliver_chunks_willing [of w b 0 "chunk_ends (plain_plan E n)" ?start fps] assms(2)
    by (auto simp: willing_def)
  then show ?thesis using assms(1) by (auto simp: deliver_def deliver_shutdown_def Let_def)
qed

lemma deliver_plain:
  assumes "deliver_reply V x up \<lparr>reply_bytes = b, reply_mutations = []\<rparr> (plain_plan (ext V) (length b)) c sh
      = (r, c', sh')"
  shows "client_got b r c c'" and "same_session c c'" and "failure_recorded r sh sh'"
proof -
  obtain out q fps w where d: "deliver (ext V) b (plain_plan (ext V) (length b)) (cl_fps c) (cl_writer c)
      = (out, q, fps, w)" by (metis prod.exhaust)
  have acc: "sent w = sent (cl_writer c) @ take (bytes_written out) b" "bytes_written out \<le> length b"
    "fp_bytes (fp_output fps) = fp_bytes (fp_output (cl_fps c)) @ take (bytes_written out) b"
    "fp_input fps = fp_input (cl_fps c)" "q = Inr () \<longrightarrow> bytes_written out = length b"
    using deliver_accounted [OF d] by simp_all
  have res: "c' = c\<lparr>cl_fps := fps, cl_writer := w\<rparr>" "r = (case q of Inl e \<Rightarrow> Fail e | Inr _ \<Rightarrow> Continue)"
    "q = Inr () \<Longrightarrow> sh' = sh"
    using assms d by (auto simp: deliver_reply_def Let_def split: sum.splits)
  have "willing (cl_writer c) \<Longrightarrow> q = Inr () \<and> willing w"
    using deliver_plain_willing [OF d] by simp
  then show "client_got b r c c'" using acc res by (cases q) (auto simp: client_got_def)
  show "same_session c c'" using res by (simp add: same_session_def)
  have "\<exists>rec. sh_repro sh' = map_option (\<lambda>log. log @ [rec]) (sh_repro sh)" if "q \<noteq> Inr ()"
    using assms d that
    by (cases "sh_repro sh") (auto simp: deliver_reply_def Let_def record_delivery_def append_record_def split: sum.splits)
  then show "failure_recorded r sh sh'" using res by (cases q) (auto simp: failure_recorded_def)
qed

text \<open>
  What the client is to get for an upstream reply. A redirection is an error, simple or bulk, whose
  text has a code, a 32-bit slot and a server as its first words; in cluster mode it is sent on as
  the same kind of error with the same code and slot and the listener that stands for the server,
  or as a fixed error when there is none. Every other reply is sent on as it is.
\<close>

definition error_text :: "frame \<Rightarrow> string option" where
  "error_text f = (case f of
     SimpleError t \<Rightarrow> Some t | BulkError b \<Rightarrow> (if is_utf8 b then Some b else None) | _ \<Rightarrow> None)"

definition redirects :: "frame \<Rightarrow> redirection \<Rightarrow> bool" where
  "redirects f r \<longleftrightarrow> (\<exists>t code slot more. error_text f = Some t
     \<and> split_whitespace t = code # slot # rd_server r # more
     \<and> (\<exists>name\<in>set (case rd_kind r of Moved \<Rightarrow> [''MOVED''] | Ask \<Rightarrow> [''ASK'', ''ASKING'']). eq_ignore_ascii_case code name)
     \<and> parse_i32 slot = Inr (rd_slot r))"

definition redirected :: "redirection_map \<Rightarrow> frame \<Rightarrow> redirection \<Rightarrow> frame" where
  "redirected m f r = (case rewrite_server m (rd_server r) of
       None \<Rightarrow> SimpleError ''ERR evilresp has no local listener for redirection target''
     | Some l \<Rightarrow> (let t = (case rd_kind r of Moved \<Rightarrow> ''MOVED'' | Ask \<Rightarrow> ''ASK'') @ '' '' @ show_int (sint (rd_slot r))
           @ '' '' @ l in case f of BulkError _ \<Rightarrow> BulkError t | _ \<Rightarrow> SimpleError t))"

definition localized :: "shared_state \<Rightarrow> bytes \<Rightarrow> app_error + bytes \<Rightarrow> bool" where
  "localized sh reply relay \<longleftrightarrow>
     (if sh_local_slots sh = None \<or> reply = [] \<or> hd reply \<notin> set ''-!'' then relay = Inr reply
      else (case parse_frame reply of
         Inl e \<Rightarrow> relay = Inl e
       | Inr f \<Rightarrow> (\<forall>r. redirects f r \<longrightarrow> relay = Inr (encode (redirected (sh_redirection_map sh) f r)))
           \<and> ((\<nexists>r. redirects f r) \<longrightarrow> relay = Inr reply)))"

lemma redirection_words:
  "parse_redirection_text t = Some r \<longleftrightarrow> (\<exists>code slot more. split_whitespace t = code # slot # rd_server r # more
     \<and> redirection_code code = Some (rd_kind r) \<and> parse_i32 slot = Inr (rd_slot r))"
proof -
  consider "length (split_whitespace t) < 3" | a b d m where "split_whitespace t = a # b # d # m"
    by (cases "split_whitespace t" rule: remdups_adj.cases) (auto simp: neq_Nil_conv less_Suc_eq_le, metis list.exhaust)
  then show ?thesis
  proof cases
    case 1
    then show ?thesis
      by (auto simp: parse_redirection_text_def nth_opt_def bind_eq_Some_conv Let_def split: if_splits)
  next
    case 2
    then show ?thesis by (cases r) (auto simp: parse_redirection_text_def nth_opt_def bind_eq_Some_conv result_simps)
  qed
qed

lemma code_kind: "redirection_code code = Some k \<longleftrightarrow>
    (\<exists>name\<in>set (case k of Moved \<Rightarrow> [''MOVED''] | Ask \<Rightarrow> [''ASK'', ''ASKING'']). eq_ignore_ascii_case code name)"
proof -
  have "\<not> (eq_ignore_ascii_case code ''MOVED'' \<and> eq_ignore_ascii_case code ''ASK'')"
    "\<not> (eq_ignore_ascii_case code ''MOVED'' \<and> eq_ignore_ascii_case code ''ASKING'')"
    by (auto simp: ascii_defs)
  then show ?thesis by (cases k) (auto simp: redirection_code_def)
qed

lemma redirects_iff: "redirects f r \<longleftrightarrow> parse_redirection f = Some r"
proof (cases f)
  case (BulkError b)
  show ?thesis
  proof (cases "is_utf8 b")
    case True
    then have "ok (from_utf8 b) = Some b" by (simp add: result_simps from_utf8_Inr)
    then show ?thesis using BulkError True
      by (simp add: redirects_def error_text_def parse_redirection_def redirection_words code_kind)
  next
    case False
    then have "ok (from_utf8 b) = None" by (cases "from_utf8 b") (auto simp: from_utf8_Inr)
    then show ?thesis using BulkError False by (simp add: redirects_def error_text_def parse_redirection_def)
  qed
qed (auto simp: redirects_def error_text_def parse_redirection_def redirection_words code_kind)

lemma localized_iff: "localized sh reply relay \<longleftrightarrow> normalize_cluster_redirection reply sh = relay"
proof -
  have kind: "kind_str k = (case k of Moved \<Rightarrow> ''MOVED'' | Ask \<Rightarrow> ''ASK'')" for k by (cases k) simp_all
  have one: "normalize_redirection f m = map_option (redirected m f) (parse_redirection f)" for f m
    by (cases "parse_redirection f")
      (simp_all add: normalize_redirection_def redirected_def to_matching_frame_def to_frame_def kind
        redirection_text_def no_listener_error_def Let_def split: option.split frame.split)
  show ?thesis
    by (auto simp: localized_def normalize_cluster_redirection_def one redirects_iff
        split: option.splits sum.splits)
qed

text \<open>The result of a quiet command whose upstream exchange gave \<open>ex\<close>.\<close>

definition relayed ::
  "shared_state \<Rightarrow> app_error + bytes \<Rightarrow> step_end \<Rightarrow> client \<Rightarrow> client \<Rightarrow> shared_state \<Rightarrow> bool" where
  "relayed sh ex r c c' sh' \<longleftrightarrow>
     (case ex of
        Inl e \<Rightarrow> client_got UNAVAILABLE_REPLY r c c' \<and> cl_tx c' = transaction_default \<and> sh_repro sh' = sh_repro sh
      | Inr reply \<Rightarrow>
          (\<exists>relay. localized sh reply relay \<and>
            (case relay of
               Inl e \<Rightarrow> r = Fail e \<and> cl_writer c' = cl_writer c
             | Inr b \<Rightarrow> client_got b r c c' \<and> failure_recorded r sh sh')))"

lemma relayed_eq:
  "relayed sh ex r c c' sh' \<longleftrightarrow>
     (case ex of
        Inl e \<Rightarrow> client_got UNAVAILABLE_REPLY r c c' \<and> cl_tx c' = transaction_default \<and> sh_repro sh' = sh_repro sh
      | Inr reply \<Rightarrow>
          (case normalize_cluster_redirection reply sh of
             Inl e \<Rightarrow> r = Fail e \<and> cl_writer c' = cl_writer c
           | Inr b \<Rightarrow> client_got b r c c' \<and> failure_recorded r sh sh'))"
  by (cases ex) (simp_all add: relayed_def localized_iff)

lemma respond_quiet:
  assumes "respond V x c sh = (r, c', sh')"
    and "quiet (ext V) (cl_config c) (cx_name x)"
    and "cx_mutate x = should_mutate_command (ext V) (cl_config c) (cx_name x)"
    and ex: "exchange (debug_frame V) (cx_bytes x) (cx_argv x) (cl_upstream c) = (q, u)"
  shows "relayed sh q r c c' sh' \<and> cl_upstream c' = u"
proof -
  note off = quiet_plain [OF assms(2,3)] and pre = quiet_pre_topology [OF assms(2,3)]
  have early: "early_plan (ext V) (cl_config c) x = None" using off by (simp add: early_plan_def)
  show ?thesis
  proof (cases q)
    case (Inl e)
    then have f: "forward V x None c sh = (Unavailable u, c)" using ex by (simp add: forward_def)
    have "reply_unavailable u c sh = (r, c', sh')"
      using assms(1) off pre early f by (simp add: respond_def Let_def produce_def)
    then show ?thesis using reply_bytes_got [of UNAVAILABLE_REPLY _ sh r c' sh'] Inl
      unfolding reply_unavailable_def
      by (fastforce simp: relayed_eq client_got_def same_session_def)
  next
    case (Inr reply)
    obtain cs tx where o: "observe (cl_tx c) (cx_argv x) reply = (cs, tx)" by force
    let ?c = "c\<lparr>cl_upstream := u, cl_tx := tx\<rparr>"
    have q: "quiet (ext V) (cl_config ?c) (cx_name x)"
      "cx_mutate x = should_mutate_command (ext V) (cl_config ?c) (cx_name x)" using assms(2,3) by simp_all
    show ?thesis
    proof (cases "normalize_cluster_redirection reply sh")
      case (Inl e)
      then have "forward V x None c sh = (Broken e, ?c)"
        using ex Inr o by (simp add: forward_def Let_def and_then_def)
      then have "r = Fail e" "c' = ?c"
        using assms(1) off pre early by (simp_all add: respond_def Let_def produce_def)
      then show ?thesis using Inl Inr by (simp add: relayed_eq)
    next
      case n: (Inr relay)
      let ?fw = "\<lparr>fw_upstream = Some reply, fw_commands = cs, fw_relay = relay, fw_topology = None\<rparr>"
      have f: "forward V x None c sh = (Forwarded ?fw, ?c)"
        using ex Inr o n quiet_post_topology [OF q, of relay sh]
        by (simp add: forward_def Let_def and_then_def map_ok_def)
      have b: "build_reply (ext V) (cl_config c) x ?fw = Inr (\<lparr>reply_bytes = relay, reply_mutations = []\<rparr>, [])"
        using off by (simp add: build_reply_def)
      have "deliver_reply V x (Some reply) \<lparr>reply_bytes = relay, reply_mutations = []\<rparr>
          (plain_plan (ext V) (length relay)) ?c sh = (r, c', sh')"
        using assms(1) off pre early f b by (simp add: respond_def Let_def produce_def choose_plan_def)
      from deliver_plain [OF this] show ?thesis using Inr n
        by (auto simp: relayed_eq client_got_def same_session_def)
    qed
  qed
qed

text \<open>A command that goes to the upstream: not the proxy's own, and no cluster query it answers.\<close>

definition forwarded_command :: "shared_state \<Rightarrow> frame \<Rightarrow> bool" where
  "forwarded_command sh f \<longleftrightarrow> \<not> own_command f
     \<and> (sh_local_slots sh \<noteq> None \<longrightarrow> \<not> is_cluster_slots (argv_lossy f) \<and> \<not> is_cluster_query (argv_lossy f))"

lemma dispatch_forwarded:
  assumes "forwarded_command sh f" and "cl_epoch c = sh_reset_epoch sh"
  shows "dispatch V raw f c sh = handle_admitted V raw f (c\<lparr>cl_fps := fp_update DirIn raw (cl_fps c)\<rparr>) sh"
  using assms by (auto simp: dispatch_eq forwarded_command_def own_command_def Let_def split: option.splits)

lemma normalize_cong:
  "sh_local_slots sh = sh_local_slots sh2 \<Longrightarrow> sh_redirection_map sh = sh_redirection_map sh2
     \<Longrightarrow> normalize_cluster_redirection raw sh = normalize_cluster_redirection raw sh2"
  by (simp add: normalize_cluster_redirection_def)

lemma relayed_cong:
  assumes "sh_local_slots sh2 = sh_local_slots sh" and "sh_redirection_map sh2 = sh_redirection_map sh"
    and "sh_repro sh2 = sh_repro sh"
  shows "relayed sh2 q r c c' sh' = relayed sh q r c c' sh'"
proof (cases q)
  case (Inr b)
  have "normalize_cluster_redirection b sh2 = normalize_cluster_redirection b sh"
    by (rule normalize_cong) (simp_all add: assms)
  then show ?thesis using assms(3) Inr
    by (cases "normalize_cluster_redirection b sh") (simp_all add: relayed_eq failure_recorded_def)
qed (simp add: relayed_eq assms)

lemma handle_quiet:
  assumes "handle_command V raw c sh = (r, c', sh')" and "parse_frame raw = Inr f"
    and "forwarded_command sh f" and "cl_epoch c = sh_reset_epoch sh"
    and "quiet (ext V) (cl_config c) (command_name f)"
    and "exchange (debug_frame V) raw (argv_lossy f) (cl_upstream c) = (q, u)"
  shows "relayed sh q r (c\<lparr>cl_fps := fp_update DirIn raw (cl_fps c)\<rparr>) c' sh' \<and> cl_upstream c' = u"
proof -
  let ?c = "c\<lparr>cl_fps := fp_update DirIn raw (cl_fps c)\<rparr>"
  let ?sh = "sh\<lparr>sh_command_ids := sh_command_ids sh + 1\<rparr>"
  let ?sh2 = "publish_monitor_command V f ?c ?sh"
  let ?x = "\<lparr>cx_bytes = raw, cx_frame = f, cx_argv = argv_lossy f, cx_name = command_name f,
     cx_index = sh_command_ids sh, cx_hash = deterministic_hash (ext V) raw,
     cx_mutate = should_mutate_command (ext V) (cl_config ?c) (command_name f)\<rparr>"
  have "respond V ?x ?c ?sh2 = (r, c', sh')"
    using assms(1,2,4) dispatch_forwarded [OF assms(3,4), of V raw]
    by (simp add: handle_command_def handle_admitted_eq admit_def)
  from respond_quiet [OF this, of q u] assms(5,6)
  have "relayed ?sh2 q r ?c c' sh' \<and> cl_upstream c' = u" by simp
  moreover have "relayed ?sh2 q r ?c c' sh' = relayed sh q r ?c c' sh'" by (rule relayed_cong) simp_all
  ultimately show ?thesis by simp
qed

text \<open>C10: With every fault off, or for a command the filters leave out, the proxy is transparent. The
  command goes to the upstream once, and the client gets the reply byte for byte; only in cluster
  mode is a MOVED or ASK error answered as the same error naming the listener that stands for its
  server, or as a fixed error when none does. A reply that was delivered leaves no record, and one whose delivery
  failed leaves one. If the
  upstream fails, the client gets the fixed unavailability error and the tracked transaction is
  forgotten. The command enters the input fingerprint and exactly what was sent the output one.\<close>

theorem quiet_commands_pass_through:
  assumes "handle_command V raw c sh = (r, c', sh')" and "parse_frame raw = Inr f"
    and "forwarded_command sh f" and "cl_epoch c = sh_reset_epoch sh"
    and "quiet (ext V) (cl_config c) (command_name f)"
    and "exchange (debug_frame V) raw (argv_lossy f) (cl_upstream c) = (q, u)"
  shows "cl_upstream c' = u \<and> relayed sh q r (c\<lparr>cl_fps := fp_update DirIn raw (cl_fps c)\<rparr>) c' sh'"
  using handle_quiet [OF assms] by simp

lemma sample_ping: "parse_frame (encode (command_frame [''PING''])) = Inr (command_frame [''PING''])"
  by (rule parse_command) (simp add: command_frame_def encode_simps push_blob_def push_line_def crlf_def
      show_nat.simps digit_char_def MAX_FRAME_BYTES_def)

definition sample_get :: frame where
  "sample_get = command_frame [''GET'', ''k'']"

definition sample_moved :: frame where
  "sample_moved = SimpleError ''MOVED 3999 db2:6379''"

definition cluster_state :: shared_state where
  "cluster_state = initial_state sample_topology (Some [])"

definition moved_client :: client where
  "moved_client = sample_client\<lparr>cl_upstream := \<lparr>up_session = Some \<lparr>ses_socket = \<lparr>incoming = encode sample_moved,
     write_results = [], outgoing = []\<rparr>, ses_identity = [False, False, False]\<rparr>, up_network = [], up_dropped = []\<rparr>\<rparr>"

lemma sample_get_parses: "parse_frame (encode sample_get) = Inr sample_get"
  unfolding sample_get_def
  by (rule parse_command) (simp add: command_frame_def encode_simps push_blob_def push_line_def crlf_def
      show_nat.simps digit_char_def MAX_FRAME_BYTES_def)

lemma sample_get_argv: "argv_lossy sample_get = [''GET'', ''k'']"
  by (simp add: sample_get_def command_frame_def from_utf8_lossy_ascii byte_def)

lemma sample_moved_ok: "wf_frame sample_moved" "length (encode sample_moved) \<le> MAX_FRAME_BYTES"
  by (simp_all add: sample_moved_def wf_frame.simps line_ok_def is_utf8_ascii byte_def encode_simps
      push_line_def crlf_def MAX_FRAME_BYTES_def)

lemma sample_moved_read:
  "parse_frame (encode sample_moved) = Inr sample_moved"
  "read_raw_frame (encode sample_moved) = Inr (encode sample_moved, [])"
proof -
  show "parse_frame (encode sample_moved) = Inr sample_moved"
    using sample_moved_ok by (intro parse_encoded) (simp_all add: sample_moved_def frame_depth.simps MAX_FRAME_DEPTH_def)
  show "read_raw_frame (encode sample_moved) = Inr (encode sample_moved, [])"
    using sample_moved_ok read_loop_frame [of sample_moved "[]" "[]" "[]" 0]
    unfolding read_raw_frame_def sample_moved_def
    by (simp add: frame_depth.simps MAX_FRAME_DEPTH_def del: read_loop.simps(3) flip: One_nat_def)
qed

lemma sample_moved_exchange:
  "fst (exchange dbg b [''GET'', ''k''] (cl_upstream moved_client)) = Inr (encode sample_moved)"
  by (simp add: exchange_def moved_client_def exchange_on_def session_exchange_def write_all_def pop_result_def
      flush_socket_def read_reply_def sample_moved_read retry_after_def arg_is_def hello_ok_def Let_def)

lemma sample_moved_localized:
  assumes "localized cluster_state (encode sample_moved) relay"
  shows "relay = Inr (encode (SimpleError ''MOVED 3999 127.0.0.1:7001''))"
proof -
  have r: "redirects sample_moved \<lparr>rd_kind = Moved, rd_slot = 3999, rd_server = ''db2:6379''\<rparr>"
    using parse_redirection_matching(1) [of "\<lparr>rd_kind = Moved, rd_slot = 3999, rd_server = ''db2:6379''\<rparr>"]
    by (simp add: redirects_iff sample_moved_def visible_def byte_def to_frame_def redirection_text_def
        show_int_def show_nat.simps digit_char_def)
  have "host_ok ''db2''" "connect_addr \<lparr>host = ''db2'', port = 6379\<rparr> = ''db2:6379''"
    "local_text (sample_node ''db2'' 6379 (Some ''b'') 7001) = ''127.0.0.1:7001''"
    by (simp_all add: host_ok_def local_text_def socket_addr_to_endpoint_def connect_addr_def
        show_nat.simps digit_char_def)
  then have "rewrite_server (sh_redirection_map cluster_state) ''db2:6379'' = Some ''127.0.0.1:7001''"
    using mapped_rewrites(1) [OF sample_mapped sample_db2] by (simp add: cluster_state_def initial_state_def)
  then have "encode (redirected (sh_redirection_map cluster_state) sample_moved
      \<lparr>rd_kind = Moved, rd_slot = 3999, rd_server = ''db2:6379''\<rparr>)
      = encode (SimpleError ''MOVED 3999 127.0.0.1:7001'')"
    by (simp add: redirected_def sample_moved_def show_int_def show_nat.simps digit_char_def)
  moreover have "sh_local_slots cluster_state \<noteq> None" "encode sample_moved \<noteq> []"
    "hd (encode sample_moved) \<in> set ''-!''"
    by (simp_all add: cluster_state_def initial_state_def sample_moved_def encode_simps push_line_def)
  ultimately show ?thesis using assms r by (auto simp: localized_def sample_moved_read)
qed

theorem quiet_commands_pass_through_witness:
  "\<exists>r c' sh'. handle_command sample_env (encode sample_get) moved_client cluster_state = (r, c', sh')
     \<and> client_got (encode (SimpleError ''MOVED 3999 127.0.0.1:7001'')) r
         (moved_client\<lparr>cl_fps := fp_update DirIn (encode sample_get) (cl_fps moved_client)\<rparr>) c'"
proof -
  obtain r c' sh' where h: "handle_command sample_env (encode sample_get) moved_client cluster_state = (r, c', sh')"
    by (metis prod.exhaust)
  have f: "forwarded_command cluster_state sample_get"
    by (simp add: forwarded_command_def own_command_def is_debug_evil_def is_debug_chaos_def is_debug_protocol_def
        is_debug_def is_monitor_def is_cluster_slots_def is_cluster_query_def is_cluster_shards_def is_cluster_nodes_def is_cluster_subcommand_def
        command_name_def sample_get_argv ascii_defs)
  have ep: "cl_epoch moved_client = sh_reset_epoch cluster_state"
    by (simp add: sample_client_def moved_client_def cluster_state_def initial_state_def)
  have qu: "quiet (ext sample_env) (cl_config moved_client) (command_name sample_get)"
    by (simp add: quiet_def moved_client_def sample_client_def config_default_def transport_default_def
        transport_enabled_def fault_default_def)
  obtain q u where ex: "exchange (debug_frame sample_env) (encode sample_get) (argv_lossy sample_get)
      (cl_upstream moved_client) = (q, u)" by force
  have q: "q = Inr (encode sample_moved)"
    using sample_moved_exchange [of "debug_frame sample_env" "encode sample_get"] ex by (simp add: sample_get_argv)
  obtain relay where l: "localized cluster_state (encode sample_moved) relay"
    and got: "case relay of Inl e \<Rightarrow> r = Fail e \<and> cl_writer c' = cl_writer
          (moved_client\<lparr>cl_fps := fp_update DirIn (encode sample_get) (cl_fps moved_client)\<rparr>)
      | Inr b \<Rightarrow> client_got b r (moved_client\<lparr>cl_fps := fp_update DirIn (encode sample_get) (cl_fps moved_client)\<rparr>) c'
          \<and> failure_recorded r cluster_state sh'"
    using quiet_commands_pass_through [OF h sample_get_parses f ep qu ex] unfolding q relayed_def sum.case by blast
  show ?thesis using h got unfolding sample_moved_localized [OF l] sum.case by blast
qed

end
