(* ===== verification/Session.thy ===== *)
theory Session
  imports Proxy_Props
begin

text \<open>
  A connection's loop as a fold: the byte stream is cut into the commands the reader finds in it,
  and the session runs the handler over them. What holds of a whole session is then proved once,
  in a locale, from what holds of one command.
\<close>

section \<open>The commands of a stream\<close>

function frames_of :: "bytes \<Rightarrow> bytes list \<times> app_error" where
  "frames_of input =
     (case read_raw_frame input of
        Inl e \<Rightarrow> ([], e)
      | Inr (raw, rest) \<Rightarrow> (case frames_of rest of (raws, e) \<Rightarrow> (raw # raws, e)))"
  by pat_completeness auto
termination
  by (relation "measure length") (auto dest!: read_raw_frame_shorter)

declare frames_of.simps [simp del]

fun run_commands ::
  "(nat \<Rightarrow> 'r env) \<Rightarrow> nat \<Rightarrow> bytes list \<Rightarrow> client \<Rightarrow> shared_state \<Rightarrow> handled" where
  "run_commands V n [] c sh = (Continue, c, sh)"
| "run_commands V n (raw # raws) c sh =
     (case handle_command (V n) raw c sh of
        (Continue, c, sh) \<Rightarrow> run_commands V (n + 1) raws c sh
      | over \<Rightarrow> over)"

definition stream_end :: "app_error \<Rightarrow> step_end" where
  "stream_end e = (if io_kind_of e = UnexpectedEof then Return else Fail e)"

definition at_end :: "app_error \<Rightarrow> handled \<Rightarrow> handled" where
  "at_end e h = (case h of (Continue, c, sh) \<Rightarrow> (stream_end e, c, sh) | over \<Rightarrow> over)"

text \<open>The loop handles the commands of the stream in order, and ends with the reader's error when
  no command ended it earlier.\<close>

lemma serve_runs:
  "serve V n input c sh
     = (case frames_of input of (raws, e) \<Rightarrow> at_end e (run_commands V n raws c sh))"
proof (induction V n input c sh rule: serve.induct)
  case (1 V n input c sh)
  show ?case
  proof (cases "read_raw_frame input")
    case (Inl e)
    then show ?thesis
      by (simp add: serve.simps [of V n input] frames_of.simps [of input] at_end_def stream_end_def)
  next
    case (Inr x)
    obtain raw rest where x: "x = (raw, rest)" by force
    obtain r c1 sh1 where h: "handle_command (V n) raw c sh = (r, c1, sh1)" by (metis prod.exhaust)
    obtain raws e where f: "frames_of rest = (raws, e)" by force
    note now = serve.simps [of V n input] frames_of.simps [of input]
    show ?thesis
    proof (cases "r = Continue")
      case True
      then show ?thesis using 1 [OF Inr x [symmetric] h [symmetric] True refl] Inr x h f by (simp add: now)
    next
      case False
      then show ?thesis using Inr x h f by (cases r) (simp_all add: now at_end_def)
    qed
  qed
qed

text \<open>A client that sends commands as arrays of bulk strings.\<close>

lemma read_command:
  assumes "length (encode (command_frame args)) \<le> MAX_FRAME_BYTES"
  shows "read_raw_frame (encode (command_frame args) @ rest) = Inr (encode (command_frame args), rest)"
proof -
  have "wf_frame (command_frame args)" "frame_depth (command_frame args) \<le> MAX_FRAME_DEPTH"
    using order.trans [OF blob_depths, of 127 args]
    by (auto simp: command_frame_def wf_frame.simps [of "Array _"] wf_frame.simps [of "BulkString _"]
        frame_depth.simps MAX_FRAME_DEPTH_def list_all_iff)
  then show ?thesis
    using assms read_loop_frame [of "command_frame args" "[]" "[]" rest 0] by (simp add: read_raw_frame_def)
qed

lemma frames_of_command:
  assumes "length (encode (command_frame args)) \<le> MAX_FRAME_BYTES"
  shows "frames_of (encode (command_frame args) @ rest)
    = (case frames_of rest of (raws, e) \<Rightarrow> (encode (command_frame args) # raws, e))"
  by (simp add: frames_of.simps [of "encode _ @ rest"] read_command [OF assms])

lemma frames_of_nothing: "\<exists>m. frames_of [] = ([], IoError UnexpectedEof m)"
  by (simp add: frames_of.simps [of "[]"] read_raw_frame_def read_header_def read_line_raw_def Let_def
      MAX_FRAME_BYTES_def MAX_FRAME_DEPTH_def)

section \<open>Laws of sessions\<close>

text \<open>
  A law \<open>R raws s h\<close> relates the state before the commands \<open>raws\<close> to what handling them gave.
  It composes, and it holds of every single command that \<open>fits\<close>; then it holds of whatever
  commands a session handled.
\<close>

locale session_law =
  fixes R :: "bytes list \<Rightarrow> client \<times> shared_state \<Rightarrow> handled \<Rightarrow> bool"
    and fits :: "bytes \<Rightarrow> bool"
    and V :: "nat \<Rightarrow> 'r env"
  assumes at_start: "R [] (c, sh) (Continue, c, sh)"
    and compose: "R [raw] s (Continue, t) \<Longrightarrow> R raws t h \<Longrightarrow> R (raw # raws) s h"
    and command: "fits raw \<Longrightarrow> R [raw] (c, sh) (handle_command (V n) raw c sh)"
begin

lemma run:
  assumes "list_all fits raws"
  shows "\<exists>k\<le>length raws. R (take k raws) (c, sh) (run_commands V n raws c sh)
    \<and> (fst (run_commands V n raws c sh) = Continue \<longrightarrow> k = length raws)"
  using assms
proof (induction raws arbitrary: n c sh)
  case Nil
  have "R [] (c, sh) (Continue, c, sh)" by (rule at_start)
  then show ?case by simp
next
  case (Cons raw raws)
  obtain q c1 sh1 where h: "handle_command (V n) raw c sh = (q, c1, sh1)" by (metis prod.exhaust)
  have one: "R [raw] (c, sh) (q, c1, sh1)" using command [of raw c sh n] Cons.prems h by simp
  show ?case
  proof (cases "q = Continue")
    case True
    obtain k where "k \<le> length raws" "R (take k raws) (c1, sh1) (run_commands V (n + 1) raws c1 sh1)"
      "fst (run_commands V (n + 1) raws c1 sh1) = Continue \<longrightarrow> k = length raws"
      using Cons.IH [of c1 sh1 "n + 1"] Cons.prems by auto
    then show ?thesis using compose one True h by (intro exI [of _ "Suc k"]) simp
  next
    case False
    then have "run_commands V n (raw # raws) c sh = (q, c1, sh1)" using h by (cases q) simp_all
    then show ?thesis using one False by (intro exI [of _ 1]) simp
  qed
qed

text \<open>A session ends with the handler's verdict, or with the stream when every command was handled.\<close>

lemma session:
  assumes "frames_of input = (raws, e)" and "list_all fits raws" and "serve V n input c sh = (r, c', sh')"
  shows "\<exists>k\<le>length raws. \<exists>q. R (take k raws) (c, sh) (q, c', sh')
    \<and> (q = r \<or> q = Continue \<and> r = stream_end e \<and> k = length raws)"
proof -
  obtain q c1 sh1 where r: "run_commands V n raws c sh = (q, c1, sh1)" by (metis prod.exhaust)
  then have "c1 = c'" "sh1 = sh'" "q = r \<or> q = Continue \<and> r = stream_end e"
    using assms(1,3) by (cases q; simp add: serve_runs at_end_def)+
  then show ?thesis using run [OF assms(2), of c sh n] r by auto
qed

end

text \<open>A property of client and shared state that every command keeps is one such law.\<close>

locale session_invariant =
  fixes I :: "client \<Rightarrow> shared_state \<Rightarrow> bool" and V :: "nat \<Rightarrow> 'r env"
  assumes kept: "I c sh \<Longrightarrow> handle_command (V n) raw c sh = (r, c', sh') \<Longrightarrow> I c' sh'"

sublocale session_invariant \<subseteq> law: session_law "\<lambda>_ (c, sh) (_, c', sh'). I c sh \<longrightarrow> I c' sh'" "\<lambda>_. True" V
  by unfold_locales (auto dest: kept)

context session_invariant
begin

lemma session_keeps: "I c sh \<Longrightarrow> serve V n input c sh = (r, c', sh') \<Longrightarrow> I c' sh'"
  using law.session [of input _ _ n c sh r c' sh'] by (cases "frames_of input") (auto simp: list_all_iff)

end

interpretation valid: session_invariant "\<lambda>c sh. client_ok c" V for V
  by unfold_locales (metis fst_conv handle_command_ok snd_conv)

end
