(* ===== verification/Traffic.thy ===== *)
theory Traffic
  imports Session
begin

text \<open>
  The fingerprints of a whole session: whatever commands come, however replies are mutated, cut or
  faulted and however the sockets behave, the input fingerprint has read the commands handled and
  the output fingerprint what the client was sent.
\<close>

section \<open>Writing in step\<close>

definition synced :: "protocol_fingerprints \<Rightarrow> bool" where
  "synced fps \<longleftrightarrow> fp_synced (fp_input fps) \<and> fp_synced (fp_output fps)"

text \<open>Beyond an earlier state the fingerprints read \<open>inb\<close> and \<open>out\<close>, and \<open>out\<close> was sent.\<close>

definition in_step ::
  "bytes \<Rightarrow> bytes \<Rightarrow> protocol_fingerprints \<times> writer \<Rightarrow> protocol_fingerprints \<times> writer \<Rightarrow> bool" where
  "in_step inb out s t \<longleftrightarrow> (case (s, t) of ((fps, w), (fps', w')) \<Rightarrow>
     sent w' = sent w @ out \<and> fp_bytes (fp_output fps') = fp_bytes (fp_output fps) @ out
     \<and> fp_bytes (fp_input fps') = fp_bytes (fp_input fps) @ inb \<and> (synced fps \<longrightarrow> synced fps'))"

lemma in_step_same: "sent w' = sent w \<Longrightarrow> in_step [] [] (fps, w) (fps, w')"
  by (simp add: in_step_def)

lemma in_step_trans: "in_step i o1 s t \<Longrightarrow> in_step j o2 t u \<Longrightarrow> in_step (i @ j) (o1 @ o2) s u"
  by (auto simp: in_step_def split: prod.splits)

lemma in_step_read: "in_step b [] (fps, w) (fp_update DirIn b fps, w)"
  by (simp add: in_step_def synced_def)

lemma in_step_write:
  "next_write b w = (Wrote n, w') \<Longrightarrow> in_step [] (take n b) (fps, w) (fp_update DirOut (take n b) fps, w')"
  by (auto simp: in_step_def synced_def dest: next_write_progress)

abbreviation writes_in_step ::
  "protocol_fingerprints \<times> writer \<Rightarrow> protocol_fingerprints \<times> writer \<Rightarrow> bool" where
  "writes_in_step s t \<equiv> \<exists>out. in_step [] out s t"

lemma writes_trans: "writes_in_step s t \<Longrightarrow> writes_in_step t u \<Longrightarrow> writes_in_step s u"
  by (metis in_step_trans append_Nil)

lemma write_counted_in_step:
  "write_counted b n fps w = (r, m, fps', w') \<Longrightarrow> writes_in_step (fps, w) (fps', w')"
proof (induction b n fps w arbitrary: r m fps' w' rule: write_counted.induct)
  case (1 b n fps w)
  show ?case
  proof (cases "b = []")
    case True
    then show ?thesis using "1.prems" in_step_same [of w w fps] by (auto simp: write_counted_step(1))
  next
    case b: False
    obtain q w1 where q: "next_write b w = (q, w1)" by force
    show ?thesis
    proof (cases q)
      case (WriteError k msg)
      have same: "writes_in_step (fps, w) (fps, w1)"
        using next_write_error [of b w k msg w1] q WriteError in_step_same by blast
      show ?thesis
      proof (cases "k = Interrupted")
        case True
        have "write_counted b n fps w1 = (r, m, fps', w')"
          using "1.prems" write_counted_step(2) [OF b] q WriteError True by simp
        from "1.IH"(2) [OF b q [symmetric] WriteError True this] show ?thesis using same writes_trans by blast
      next
        case False
        then show ?thesis
          using "1.prems" write_counted_step(3) [OF b q [unfolded WriteError] False] same by simp
      qed
    next
      case (Wrote k)
      note step = in_step_write [OF q [unfolded Wrote], of fps]
      show ?thesis
      proof (cases "k = 0")
        case True
        then have "fps' = fps" "w' = w1"
          using "1.prems" write_counted_step(4) [OF b] q Wrote by simp_all
        moreover have "sent w1 = sent w" using next_write_progress [OF q [unfolded Wrote]] True by simp
        ultimately show ?thesis using in_step_same by blast
      next
        case False
        have "write_counted (drop k b) (n + k) (fp_update DirOut (take k b) fps) w1 = (r, m, fps', w')"
          using "1.prems" write_counted_step(5) [OF b q [unfolded Wrote] False] by simp
        from "1.IH"(1) [OF b q [symmetric] Wrote False this] show ?thesis using step writes_trans by blast
      qed
    qed
  qed
qed

lemma deliver_chunks_in_step:
  "deliver_chunks b start ends (out, fps, w) = (r, out', fps', w') \<Longrightarrow> writes_in_step (fps, w) (fps', w')"
proof (induction ends arbitrary: start out fps w)
  case Nil
  then show ?case using in_step_same [of w w fps] by auto
next
  case (Cons stop ends)
  obtain q n fps1 w1 where wc: "write_counted (drop start (take stop b)) (bytes_written out) fps w = (q, n, fps1, w1)"
    by (metis prod.exhaust)
  note first = write_counted_in_step [OF wc]
  show ?case
  proof (cases q)
    case (Inl e)
    then show ?thesis using Cons.prems wc first by simp
  next
    case (Inr u)
    obtain e w2 where fl: "next_flush w1 = (e, w2)" by force
    have two: "writes_in_step (fps, w) (fps1, w2)"
      using writes_trans [OF first] in_step_same next_flush_same [OF fl] by blast
    show ?thesis
    proof (cases e)
      case None
      then show ?thesis using Cons.prems Cons.IH wc Inr fl writes_trans [OF two] by simp
    next
      case (Some km)
      then show ?thesis using Cons.prems wc Inr fl two by (cases km) simp
    qed
  qed
qed

lemma deliver_in_step:
  assumes "deliver E b plan fps w = (out, res, fps', w')" shows "writes_in_step (fps, w) (fps', w')"
  using assms
proof (rule deliver_split)
  fix r0 out0 fps0 w0 out1
  assume chunks: "deliver_chunks b 0 (chunk_ends plan) (\<lparr>bytes_written = 0, written_bytes_hash = [],
        completed_chunks = 0, shutdown_completed = False, error_stage = None, error_kind = None,
        fault_completed = map_option (\<lambda>_. False) (connection_fault plan), stall_end = None\<rparr>, fps, w)
       = (r0, out0, fps0, w0)"
    and shut: "(case r0 of Inl e \<Rightarrow> (Inl e, out0, fps0, w0)
         | Inr _ \<Rightarrow> deliver_shutdown plan (out0, fps0, w0)) = (res, out1, fps', w')"
  have "fps' = fps0" "sent w' = sent w0"
    using shut deliver_shutdown_same [of plan out0 fps0 w0 res out1 fps' w'] by (auto split: sum.splits)
  then show ?thesis
    using writes_trans [OF deliver_chunks_in_step [OF chunks]] in_step_same [of w' w0 fps0] by blast
qed

lemma update_all_in_step:
  "in_step (concat chunks) [] (fps, w) (update_all DirIn chunks fps, w)"
proof (induction chunks arbitrary: fps)
  case Nil
  then show ?case by (simp add: update_all_def in_step_same)
next
  case (Cons b chunks)
  from in_step_trans [OF in_step_read [of b fps w] Cons.IH] show ?case by (simp add: update_all_def)
qed

lemma finish_fault_in_step:
  assumes "finish_fault socket reads f (out, fps, w) = (r, out', fps', w')"
  shows "\<exists>b. in_step b [] (fps, w) (fps', w')"
proof -
  have w: "sent w' = sent w" using finish_fault_sends_nothing(1) [OF assms] .
  show ?thesis
  proof (cases "duration_ms f")
    case None
    then show ?thesis using finish_fault_sends_nothing(3) [OF assms] in_step_same [OF w] by auto
  next
    case (Some ms)
    then have "fps' = update_all DirIn (drained_bytes (unat ms) reads) fps"
      using finish_fault_sends_nothing(3) [OF assms] by simp
    with in_step_trans [OF update_all_in_step in_step_same [OF w]] show ?thesis by auto
  qed
qed

section \<open>Handlers\<close>

definition in_step_client :: "bytes \<Rightarrow> bytes \<Rightarrow> client \<Rightarrow> client \<Rightarrow> bool" where
  "in_step_client inb out c c' \<longleftrightarrow> in_step inb out (cl_fps c, cl_writer c) (cl_fps c', cl_writer c')"

text \<open>What a handler sent is what the output fingerprint read; only a stall of a connection fault,
  which ends the connection, reads input.\<close>

definition emits :: "client \<Rightarrow> handled \<Rightarrow> bool" where
  "emits c h \<longleftrightarrow> (case h of (r, c', sh) \<Rightarrow>
     \<exists>inb out. in_step_client inb out c c' \<and> (r = Continue \<longrightarrow> inb = []))"

lemma emits_cong: "emits c1 h \<Longrightarrow> cl_fps c1 = cl_fps c \<Longrightarrow> cl_writer c1 = cl_writer c \<Longrightarrow> emits c h"
  by (simp add: emits_def in_step_client_def split: prod.splits)

lemma emits_same: "cl_fps c' = cl_fps c \<Longrightarrow> cl_writer c' = cl_writer c \<Longrightarrow> emits c (r, c', sh)"
  using in_step_same [of "cl_writer c" "cl_writer c" "cl_fps c"] by (auto simp: emits_def in_step_client_def)

lemma write_client_emits: "write_client_bytes b c = (q, c') \<Longrightarrow> \<exists>out. in_step_client [] out c c'"
  using write_counted_in_step [of b 0 "cl_fps c" "cl_writer c"]
  by (auto simp: write_client_bytes_def in_step_client_def split: prod.splits)

lemma reply_bytes_emits: "emits c (reply_bytes_to b c sh)"
  using write_client_emits [of b c]
  by (cases "write_client_bytes b c") (auto simp: reply_bytes_to_def after_write_def emits_def split: sum.splits)

lemma reply_frame_emits: "emits c (reply_frame_to f c sh)"
  by (simp add: reply_frame_to_def reply_bytes_emits)

lemma handle_monitor_emits: "emits c (handle_monitor argv c sh)"
  using reply_frame_emits write_client_emits [of "encode (SimpleString ''OK'')" c]
  by (cases "write_client_bytes (encode (SimpleString ''OK'')) c")
    (auto simp: handle_monitor_def emits_def split: sum.splits)

lemma reply_unavailable_emits: "emits c (reply_unavailable u c sh)"
  unfolding reply_unavailable_def by (rule emits_cong [OF reply_bytes_emits]) simp_all

lemma cluster_query_emits: "emits c (handle_cluster_query V raw argv c sh)"
proof -
  have "emits c (reply_frame_to f (c\<lparr>cl_upstream := u\<rparr>) sh)" for f u
    by (rule emits_cong [OF reply_frame_emits]) simp_all
  then show ?thesis
    by (simp add: handle_cluster_query_def Let_def reply_unavailable_emits emits_same split: prod.splits sum.splits)
qed

lemma deliver_reply_emits: "emits c (deliver_reply V x up response plan c sh)"
proof -
  obtain out q fps w where d: "deliver (ext V) (wire_bytes plan (reply_bytes response)) plan (cl_fps c) (cl_writer c)
      = (out, q, fps, w)" by (metis prod.exhaust)
  obtain sent_out where first: "in_step [] sent_out (cl_fps c, cl_writer c) (fps, w)"
    using deliver_in_step [OF d] by blast
  show ?thesis
  proof (cases "connection_fault plan")
    case None
    then show ?thesis
      using d first by (auto simp: deliver_reply_def Let_def emits_def in_step_client_def split: sum.splits)
  next
    case (Some f)
    obtain q2 out2 fps2 w2 where f2: "(case q of Inl e \<Rightarrow> (q, out, fps, w)
        | Inr _ \<Rightarrow> finish_fault (cl_socket c) (cl_arrivals c) f (out, fps, w)) = (q2, out2, fps2, w2)"
      by (metis prod.exhaust)
    have "\<exists>b. in_step b [] (fps, w) (fps2, w2)"
      using f2 finish_fault_in_step in_step_same [of w w fps] by (cases q) auto
    then obtain b where b: "in_step b sent_out (cl_fps c, cl_writer c) (fps2, w2)"
      using in_step_trans [OF first, of _ "[]" "(fps2, w2)"] by force
    obtain r sh' where r: "deliver_reply V x up response plan c sh = (r, c\<lparr>cl_fps := fps2, cl_writer := w2\<rparr>, sh')"
      "r \<noteq> Continue"
      using d Some f2 by (cases q2) (simp_all add: deliver_reply_def Let_def)
    show ?thesis unfolding r(1) emits_def in_step_client_def using b r(2) by auto
  qed
qed

lemma produce_same:
  "produce V x before c sh = (r, c') \<Longrightarrow> cl_fps c' = cl_fps c \<and> cl_writer c' = cl_writer c"
  by (auto simp: produce_def forward_def Let_def
      split: if_splits prod.splits sum.splits forward_result.splits option.splits)

lemma respond_emits: "emits c (respond V x c sh)"
proof -
  obtain r c1 where p: "produce V x (early_plan (ext V) (cl_config c) x) c sh = (r, c1)" by force
  note same = produce_same [OF p]
  have "emits c (reply_unavailable u c1 sh)" "emits c (deliver_reply V x up response plan c1 sh)" for u up response plan
    using same by (auto intro: emits_cong [OF reply_unavailable_emits] emits_cong [OF deliver_reply_emits])
  then show ?thesis
    using p same by (cases r) (simp_all add: respond_def Let_def emits_same)
qed

lemma handle_admitted_emits: "emits c (handle_admitted V raw f c sh)"
  by (simp add: handle_admitted_eq respond_emits emits_same split: option.splits prod.splits)

text \<open>The one command that resets the fingerprints.\<close>

definition is_mode_reset :: "string list \<Rightarrow> bool" where
  "is_mode_reset argv \<longleftrightarrow> is_debug_evil argv \<and> length argv = 4 \<and> keyword (argv ! 2) ''MODE''
     \<and> eq_ignore_ascii_case (argv ! 3) ''RESET''"

lemma no_reset_action:
  assumes "is_debug_evil argv" and "\<not> is_mode_reset argv"
    and a: "apply_debug_evil E argv tcp (config, st) = ((config', st'), result)"
  shows "dr_action result = NoAction"
proof (rule ccontr)
  assume "dr_action result \<noteq> NoAction"
  then have reset: "dr_action result = ResetIncrementingState" by (cases "dr_action result") simp_all
  obtain c1 q where d: "apply_debug_command E argv config = (c1, q)" by force
  have "q = Inr result"
    using a d reset by (auto simp: apply_debug_evil_def checked_debug_def split: sum.splits if_splits)
  then show False using reset_only_by_mode_reset [OF _ reset] d assms by (auto simp: is_mode_reset_def)
qed

lemma debug_evil_emits:
  assumes "is_debug_evil argv" and "\<not> is_mode_reset argv"
  shows "emits c (handle_debug_evil V argv c sh)"
proof -
  obtain cfg st result where a: "apply_debug_evil (ext V) argv (supports_reset (cl_socket c))
      (cl_config c, sh_stats sh) = ((cfg, st), result)" by (metis prod.exhaust)
  have "dr_action result = NoAction" by (rule no_reset_action [OF assms a])
  moreover have "emits c (reply_bytes_to b (c\<lparr>cl_config := cfg\<rparr>) sh)" for b sh
    by (rule emits_cong [OF reply_bytes_emits]) simp_all
  ultimately show ?thesis using a by (simp add: handle_debug_evil_def Let_def)
qed

section \<open>Sessions\<close>

text \<open>A command that the fingerprints count: not a DEBUG PROTOCOL or DEBUG CHAOS, whose request and
  reply are left out, and not the reset.\<close>

definition counted_command :: "bytes \<Rightarrow> bool" where
  "counted_command raw \<longleftrightarrow>
     (case parse_frame raw of
        Inl e \<Rightarrow> True
      | Inr f \<Rightarrow> \<not> is_debug_protocol (argv_lossy f) \<and> \<not> is_debug_chaos (argv_lossy f)
          \<and> \<not> is_mode_reset (argv_lossy f))"

text \<open>The last command of a session may be turned away unread.\<close>

definition traffic :: "bytes list \<Rightarrow> client \<times> shared_state \<Rightarrow> handled \<Rightarrow> bool" where
  "traffic raws s h \<longleftrightarrow> (case (s, h) of ((c, sh), (r, c', sh')) \<Rightarrow>
     \<exists>k\<le>length raws. \<exists>drained out. in_step_client (concat (take k raws) @ drained) out c c'
       \<and> (r = Continue \<longrightarrow> k = length raws \<and> drained = []))"

lemma dispatch_emits:
  assumes "\<not> is_debug_protocol (argv_lossy f)" and "\<not> is_debug_chaos (argv_lossy f)"
    and "\<not> is_mode_reset (argv_lossy f)" and "cl_epoch c = sh_reset_epoch sh"
  shows "emits (c\<lparr>cl_fps := fp_update DirIn raw (cl_fps c)\<rparr>) (dispatch V raw f c sh)"
  unfolding dispatch_eq Let_def using assms
  by (simp add: handle_monitor_emits debug_evil_emits reply_frame_emits cluster_query_emits
      handle_admitted_emits del: fp_update.simps split: option.splits)

lemma handle_command_traffic:
  assumes "counted_command raw" shows "traffic [raw] (c, sh) (handle_command V raw c sh)"
proof (cases "\<exists>f. parse_frame raw = Inr f \<and> cl_epoch c = sh_reset_epoch sh")
  case True
  then obtain f where f: "parse_frame raw = Inr f" and "cl_epoch c = sh_reset_epoch sh" by blast
  then have e: "emits (c\<lparr>cl_fps := fp_update DirIn raw (cl_fps c)\<rparr>) (handle_command V raw c sh)"
    using dispatch_emits [of f c sh raw V] assms by (simp add: counted_command_def handle_command_def)
  obtain r c' sh' where h: "handle_command V raw c sh = (r, c', sh')" by (metis prod.exhaust)
  obtain inb out where "in_step_client inb out (c\<lparr>cl_fps := fp_update DirIn raw (cl_fps c)\<rparr>) c'"
    "r = Continue \<longrightarrow> inb = []" using e h by (auto simp: emits_def)
  then have "in_step_client (raw @ inb) out c c'" "r = Continue \<longrightarrow> inb = []"
    using in_step_trans [OF in_step_read [of raw "cl_fps c" "cl_writer c"]] by (auto simp: in_step_client_def)
  then show ?thesis
    unfolding h traffic_def prod.case
    by (intro exI [of _ 1] conjI exI [of _ inb] exI [of _ out]) simp_all
next
  case False
  then obtain r where h: "handle_command V raw c sh = (r, c, sh)" "r \<noteq> Continue"
    by (cases "parse_frame raw") (auto simp: handle_command_def dispatch_eq)
  have "in_step_client [] [] c c" by (simp add: in_step_client_def in_step_same)
  then show ?thesis
    unfolding h traffic_def prod.case
    by (intro exI [of _ 0] conjI exI [of _ "[]"]) (simp_all add: h)
qed

lemma traffic_compose:
  assumes "traffic [raw] s (Continue, t)" and "traffic raws t h" shows "traffic (raw # raws) s h"
proof -
  obtain c sh c1 sh1 r c2 sh2 where s: "s = (c, sh)" "t = (c1, sh1)" "h = (r, c2, sh2)" by (metis prod.exhaust)
  obtain out where one: "in_step_client raw out c c1" using assms(1) by (auto simp: traffic_def s)
  obtain k drained out2 where k: "k \<le> length raws" "in_step_client (concat (take k raws) @ drained) out2 c1 c2"
    "r = Continue \<longrightarrow> k = length raws \<and> drained = []" using assms(2) by (auto simp: traffic_def s)
  have "in_step_client (concat (take (Suc k) (raw # raws)) @ drained) (out @ out2) c c2"
    using in_step_trans one k(2) unfolding in_step_client_def by fastforce
  then show ?thesis
    unfolding s traffic_def prod.case using k(1,3)
    by (intro exI [of _ "Suc k"] conjI exI [of _ drained] exI [of _ "out @ out2"]) simp_all
qed

interpretation traffic: session_law traffic counted_command V for V
proof unfold_locales
  show "traffic [] (c, sh) (Continue, c, sh)" for c sh
    unfolding traffic_def prod.case
    by (intro exI [of _ 0] conjI exI [of _ "[]"]) (simp_all add: in_step_client_def in_step_same)
qed (blast intro: traffic_compose handle_command_traffic)+

text \<open>C14: The fingerprints are those of the traffic. Over a whole new connection whose commands are
  ordinary (no DEBUG PROTOCOL or CHAOS, whose exchanges are left out, and no reset), however replies
  are mutated, cut, faulted or refused by the socket, DEBUG PROTOCOL OUT reports the hash of exactly
  the bytes the client was sent, and DEBUG PROTOCOL IN that of the commands it sent, in order: all of
  them if none ended the connection, otherwise those up to the end and what a stall read then.\<close>

theorem fingerprints_are_of_the_traffic:
  assumes "accept_client V0 target net socket w reads sh0 = (c, sh)" and "sent w = []"
    and "frames_of input = (raws, e)" and "\<forall>raw\<in>set raws. counted_command raw"
    and "serve V n input c sh1 = (r, c', sh')" and "streaming_ok E"
  shows "\<exists>k\<le>length raws. \<exists>drained.
      (\<forall>a. fp_get E DirOut a (cl_fps c') = fp_get E DirOut a (fp_update DirOut (sent (cl_writer c')) fingerprints_new)
         \<and> fp_get E DirIn a (cl_fps c')
             = fp_get E DirIn a (fp_update DirIn (concat (take k raws) @ drained) fingerprints_new))
      \<and> (fst (run_commands V n raws c sh1) = Continue \<longrightarrow> k = length raws \<and> drained = [])"
proof -
  have c: "cl_fps c = fingerprints_new" "sent (cl_writer c) = []"
    using assms(1,2) by (auto simp: accept_client_def)
  obtain q c2 sh2 where h: "run_commands V n raws c sh1 = (q, c2, sh2)" by (metis prod.exhaust)
  then have c2: "c2 = c'" using assms(3,5) by (cases q) (simp_all add: serve_runs at_end_def)
  have "list_all counted_command raws" using assms(4) by (simp add: list_all_iff)
  from traffic.run [OF this, where V = V and n = n and c = c and sh = sh1] obtain j where
    "j \<le> length raws" "traffic (take j raws) (c, sh1) (q, c', sh2)" "q = Continue \<longrightarrow> j = length raws"
    by (auto simp: h c2)
  then obtain k drained out where k: "k \<le> length raws" "q = Continue \<longrightarrow> k = length raws \<and> drained = []"
    and s: "in_step_client (concat (take k raws) @ drained) out c c'"
    by (fastforce simp: traffic_def min_def split: if_splits)
  have new: "synced fingerprints_new" "fp_bytes (fp_input fingerprints_new) = []"
    "fp_bytes (fp_output fingerprints_new) = []"
    by (simp_all add: synced_def fingerprints_new_def)
  have "fp_get E DirOut a (cl_fps c') = fp_get E DirOut a (fp_update DirOut (sent (cl_writer c')) fingerprints_new)
      \<and> fp_get E DirIn a (cl_fps c')
        = fp_get E DirIn a (fp_update DirIn (concat (take k raws) @ drained) fingerprints_new)" for a
    using s new c unfolding fp_get_def in_step_client_def in_step_def synced_def prod.case
    by (auto intro!: fingerprint_get_bytes [OF assms(6)])
  then show ?thesis using k h by auto
qed


definition ping_bytes :: bytes where
  "ping_bytes = encode (command_frame [''PING''])"

lemma ping_short: "length (encode (command_frame [''PING''])) \<le> MAX_FRAME_BYTES"
  by (simp add: command_frame_def encode_simps push_blob_def push_line_def crlf_def show_nat.simps digit_char_def
      MAX_FRAME_BYTES_def)

lemma frames_of_ping: "\<exists>m. frames_of ping_bytes = ([ping_bytes], IoError UnexpectedEof m)"
proof -
  obtain m where "frames_of [] = ([], IoError UnexpectedEof m)" using frames_of_nothing by blast
  with frames_of_command [OF ping_short, of "[]"] show ?thesis by (simp add: ping_bytes_def)
qed

lemma ping_counted: "counted_command ping_bytes"
  unfolding counted_command_def ping_bytes_def parse_command [OF ping_short] sum.case
  by (simp add: command_frame_def is_debug_protocol_def is_debug_chaos_def is_mode_reset_def is_debug_evil_def is_debug_def)

theorem fingerprints_are_of_the_traffic_witness:
  "\<exists>c sh r c' sh'. accept_client sample_env \<lparr>target_upstream = Unix ''up'', target_listen = Unix ''down''\<rparr> []
       UnixSocket plain_writer [] sample_state = (c, sh)
     \<and> serve (\<lambda>_. sample_env) 0 ping_bytes c sh = (r, c', sh')
     \<and> fp_get sample_externals DirOut Blake3 (cl_fps c')
         = fp_get sample_externals DirOut Blake3 (fp_update DirOut (sent (cl_writer c')) fingerprints_new)"
proof -
  let ?t = "\<lparr>target_upstream = Unix ''up'', target_listen = Unix ''down''\<rparr> :: proxy_target"
  obtain c sh where a: "accept_client sample_env ?t [] UnixSocket plain_writer [] sample_state = (c, sh)" by force
  obtain r c' sh' where h: "serve (\<lambda>_. sample_env) 0 ping_bytes c sh = (r, c', sh')" by (metis prod.exhaust)
  obtain m where f: "frames_of ping_bytes = ([ping_bytes], IoError UnexpectedEof m)" using frames_of_ping by blast
  have w: "sent plain_writer = []" by (simp add: plain_writer_def)
  have counted: "\<forall>raw\<in>set [ping_bytes]. counted_command raw" using ping_counted by simp
  from fingerprints_are_of_the_traffic [OF a w f counted h sample_streaming_ok] a h show ?thesis by blast
qed

end
