(* ===== verification/Machines.thy ===== *)
theory Machines
  imports Main
begin

text \<open>
  State machines: the states reached in a number of steps from a start state, and the induction
  that invariants of a machine share. The count of steps indexes the invariant, since counters of
  fixed width are exact only in runs short enough for them.
\<close>

inductive reached_in :: "('s \<Rightarrow> bool) \<Rightarrow> ('s \<Rightarrow> 's \<Rightarrow> bool) \<Rightarrow> nat \<Rightarrow> 's \<Rightarrow> bool"
  for begins :: "'s \<Rightarrow> bool" and steps :: "'s \<Rightarrow> 's \<Rightarrow> bool" where
  reach_start: "begins s \<Longrightarrow> reached_in begins steps 0 s"
| reach_step: "reached_in begins steps n s \<Longrightarrow> steps s s' \<Longrightarrow> reached_in begins steps (Suc n) s'"

inductive_simps reached_suc: "reached_in begins steps (Suc n) s"

locale bounded_invariant =
  fixes begins :: "'s \<Rightarrow> bool" and steps :: "'s \<Rightarrow> 's \<Rightarrow> bool"
    and inv :: "nat \<Rightarrow> 's \<Rightarrow> bool" and bound :: nat
  assumes initially: "begins s \<Longrightarrow> inv 0 s"
    and preserved: "inv n s \<Longrightarrow> steps s s' \<Longrightarrow> Suc n < bound \<Longrightarrow> inv (Suc n) s'"
begin

lemma invariant: "reached_in begins steps n s \<Longrightarrow> n < bound \<Longrightarrow> inv n s"
  by (induction rule: reached_in.induct) (auto intro: initially preserved)

end

text \<open>An invariant without a count holds after any number of steps.\<close>

locale state_invariant =
  fixes begins :: "'s \<Rightarrow> bool" and steps :: "'s \<Rightarrow> 's \<Rightarrow> bool" and inv :: "'s \<Rightarrow> bool"
  assumes initial: "begins s \<Longrightarrow> inv s" and kept: "inv s \<Longrightarrow> steps s s' \<Longrightarrow> inv s'"

sublocale state_invariant \<subseteq> counted: bounded_invariant begins steps "\<lambda>_. inv" "Suc n" for n
  by unfold_locales (auto intro: initial kept)

context state_invariant
begin

lemma always: "reached_in begins steps n s \<Longrightarrow> inv s"
  using counted.invariant [of n s n] by simp

end

text \<open>One machine carries out another: each of its steps is some number of the other's.\<close>

locale simulation =
  fixes rel :: "'s \<Rightarrow> 't \<Rightarrow> bool" and steps :: "'s \<Rightarrow> 's \<Rightarrow> bool" and steps' :: "'t \<Rightarrow> 't \<Rightarrow> bool"
  assumes simulated: "rel s t \<Longrightarrow> steps s s' \<Longrightarrow> \<exists>t'. steps'\<^sup>*\<^sup>* t t' \<and> rel s' t'"
begin

lemma run_simulated:
  assumes "steps\<^sup>*\<^sup>* s s'" and "rel s t"
  obtains t' where "steps'\<^sup>*\<^sup>* t t'" and "rel s' t'"
proof -
  have "\<exists>t'. steps'\<^sup>*\<^sup>* t t' \<and> rel s' t'"
    using assms
  proof (induction rule: rtranclp_induct)
    case (step s1 s2)
    then obtain t1 where "steps'\<^sup>*\<^sup>* t t1" "rel s1 t1" by blast
    moreover from simulated [OF this(2) step.hyps(2)]
    obtain t2 where "steps'\<^sup>*\<^sup>* t1 t2" "rel s2 t2" by blast
    ultimately show ?case by (meson rtranclp_trans)
  qed auto
  then show thesis using that by blast
qed

end

end
