(* ===== verification/Reset_Protocol.thy ===== *)
theory Reset_Protocol
  imports Proxy_Relay Traffic Machines
begin

text \<open>
  The reset protocol of \<open>proxy.rs\<close> under interleaving: the epoch and the command index are read
  and written only in \<open>serve_listener\<close> (a new connection takes the epoch), under the read lock
  (\<open>admit\<close>) and under the write lock (\<open>reset_incrementing_state\<close>), each a single step here.
  Connections take steps in any order; each one knows only the epoch it last saw. The second half says for
  every command which of these actions its handler is.
\<close>

section \<open>Steps\<close>

record system =
  sys_shared :: shared_state
  sys_conns :: "nat \<rightharpoonup> u64"
  sys_log :: "(u64 \<times> u64) list"

inductive system_step :: "system \<Rightarrow> system \<Rightarrow> bool" where
  opened: "sys_conns s i = None \<Longrightarrow>
    system_step s (s\<lparr>sys_conns := (sys_conns s)(i \<mapsto> sh_reset_epoch (sys_shared s))\<rparr>)"
| admitted: "sys_conns s i = Some e \<Longrightarrow> admit e (sys_shared s) = Some (k, sh) \<Longrightarrow>
    system_step s (s\<lparr>sys_shared := sh, sys_log := sys_log s @ [(e, k)]\<rparr>)"
| resets: "sys_conns s i = Some e \<Longrightarrow> reset_incrementing_state (sys_shared s) = (e', sh) \<Longrightarrow>
    system_step s (s\<lparr>sys_shared := sh, sys_conns := (sys_conns s)(i \<mapsto> e')\<rparr>)"
| ended: "system_step s (s\<lparr>sys_conns := (sys_conns s)(i := None)\<rparr>)"
| other: "same_counters (sys_shared s) sh \<Longrightarrow> system_step s (s\<lparr>sys_shared := sh\<rparr>)"

text \<open>The runs of \<open>n\<close> steps from a start with no connection and both counters at zero.\<close>

definition protocol_start :: "system \<Rightarrow> bool" where
  "protocol_start s \<longleftrightarrow> sh_reset_epoch (sys_shared s) = 0 \<and> sh_command_ids (sys_shared s) = 0
     \<and> sys_conns s = Map.empty \<and> sys_log s = []"

abbreviation reached :: "nat \<Rightarrow> system \<Rightarrow> bool" where
  "reached \<equiv> reached_in protocol_start system_step"

section \<open>The invariant\<close>

definition indices :: "u64 \<Rightarrow> (u64 \<times> u64) list \<Rightarrow> u64 list" where
  "indices e seen = map snd (filter (\<lambda>(e', _). e' = e) seen)"

lemma indices_simps [simp]:
  "indices e [] = []" "indices e (seen @ [(e', k)]) = indices e seen @ (if e' = e then [k] else [])"
  by (simp_all add: indices_def)

definition protocol_inv :: "nat \<Rightarrow> system \<Rightarrow> bool" where
  "protocol_inv n s \<longleftrightarrow>
     unat (sh_reset_epoch (sys_shared s)) \<le> n \<and> unat (sh_command_ids (sys_shared s)) \<le> n
     \<and> (\<forall>i e. sys_conns s i = Some e \<longrightarrow> e \<le> sh_reset_epoch (sys_shared s))
     \<and> (\<forall>x\<in>set (sys_log s). fst x \<le> sh_reset_epoch (sys_shared s))
     \<and> sorted (map fst (sys_log s))
     \<and> indices (sh_reset_epoch (sys_shared s)) (sys_log s)
         = map of_nat [0..<unat (sh_command_ids (sys_shared s))]
     \<and> (\<forall>e. \<exists>m\<le>n. indices e (sys_log s) = map of_nat [0..<m])"

lemma unat_plus_one: "unat (w :: u64) \<le> n \<Longrightarrow> Suc n < 2 ^ 64 \<Longrightarrow> unat (w + 1) = Suc (unat w)"
  by (simp add: unat_word_ariths(1))

lemma admit_inv:
  assumes inv: "protocol_inv n s" and i: "sys_conns s i = Some e"
    and adm: "admit e (sys_shared s) = Some (k, sh)" and bound: "Suc n < 2 ^ 64"
  shows "protocol_inv (Suc n) (s\<lparr>sys_shared := sh, sys_log := sys_log s @ [(e, k)]\<rparr>)"
proof -
  let ?epoch = "sh_reset_epoch (sys_shared s)" and ?ids = "sh_command_ids (sys_shared s)"
  have e: "e = ?epoch" and k: "k = ?ids" and sh: "sh = (sys_shared s)\<lparr>sh_command_ids := ?ids + 1\<rparr>"
    using adm by (auto simp: admit_def split: if_splits)
  have small: "unat (?ids + 1) = Suc (unat ?ids)"
    using inv bound by (auto simp: protocol_inv_def intro!: unat_plus_one)
  have now: "indices ?epoch (sys_log s @ [(e, k)]) = map of_nat [0..<unat (?ids + 1)]"
    using inv by (simp add: small e k protocol_inv_def)
  have "\<exists>m\<le>Suc n. indices e' (sys_log s @ [(e, k)]) = map of_nat [0..<m]" for e'
  proof (cases "e' = e")
    case True
    have "unat (?ids + 1) \<le> Suc n" using inv small by (simp add: protocol_inv_def)
    then show ?thesis using now True e by blast
  next
    case False
    then have "indices e' (sys_log s @ [(e, k)]) = indices e' (sys_log s)" by simp
    moreover obtain m where "m \<le> n" "indices e' (sys_log s) = map of_nat [0..<m]"
      using inv unfolding protocol_inv_def by blast
    ultimately show ?thesis by (metis le_SucI)
  qed
  then show ?thesis
    using inv now small by (auto simp: protocol_inv_def sh e sorted_append) (meson le_SucI)
qed

lemma fresh_epoch:
  assumes "\<forall>x\<in>set seen. fst x \<le> e" and "e < e'" shows "indices e' seen = []"
  using assms by (fastforce simp: indices_def filter_empty_conv)

lemma reset_inv:
  assumes inv: "protocol_inv n s" and res: "reset_incrementing_state (sys_shared s) = (e', sh)"
    and bound: "Suc n < 2 ^ 64"
  shows "protocol_inv (Suc n) (s\<lparr>sys_shared := sh, sys_conns := (sys_conns s)(i \<mapsto> e')\<rparr>)"
proof -
  let ?epoch = "sh_reset_epoch (sys_shared s)"
  have e': "e' = ?epoch + 1" and sh: "sh = (sys_shared s)\<lparr>sh_reset_epoch := ?epoch + 1, sh_command_ids := 0\<rparr>"
    using res by (auto simp: reset_incrementing_state_def)
  have small: "unat (?epoch + 1) = Suc (unat ?epoch)"
    using inv bound by (auto simp: protocol_inv_def intro!: unat_plus_one)
  then have less: "?epoch < ?epoch + 1" by (simp add: word_less_nat_alt)
  have "indices (?epoch + 1) (sys_log s) = []"
    by (rule fresh_epoch [OF _ less]) (use inv in \<open>simp add: protocol_inv_def\<close>)
  moreover have "\<exists>m\<le>Suc n. indices e (sys_log s) = map of_nat [0..<m]" for e
    using inv unfolding protocol_inv_def by (meson le_SucI)
  ultimately show ?thesis
    using inv small less unfolding protocol_inv_def
    by (auto simp: sh e' intro: order.trans [OF _ less_imp_le])
qed

lemma protocol_step:
  assumes "system_step s s'" and inv: "protocol_inv n s" and bound: "Suc n < 2 ^ 64"
  shows "protocol_inv (Suc n) s'"
  using assms(1)
proof cases
  case (admitted i e k sh)
  then show ?thesis using admit_inv [OF inv _ _ bound] by blast
next
  case (resets i e e' sh)
  then show ?thesis using reset_inv [OF inv _ bound] by blast
qed (use inv in \<open>auto simp: protocol_inv_def same_counters_def le_Suc_eq split: if_splits\<close>)

interpretation protocol: bounded_invariant protocol_start system_step protocol_inv "2 ^ 64"
proof unfold_locales
  show "protocol_inv 0 s" if "protocol_start s" for s
    using that by (simp add: protocol_start_def protocol_inv_def)
qed (rule protocol_step)

lemma indices_distinct:
  assumes "\<And>e. distinct (indices e seen)" shows "distinct seen"
  using assms
proof (induction seen rule: rev_induct)
  case (snoc x seen)
  obtain e k where x: "x = (e, k)" by force
  have "distinct (indices e' seen)" for e' using snoc.prems [of e'] x by (cases "e = e'") auto
  then have "distinct seen" by (rule snoc.IH)
  moreover have "k \<notin> set (indices e seen)" using snoc.prems [of e] x by simp
  then have "x \<notin> set seen" by (force simp: x indices_def)
  ultimately show ?case by simp
qed simp

lemma distinct_of_nat_upt: "m < 2 ^ 64 \<Longrightarrow> distinct (map (of_nat :: nat \<Rightarrow> u64) [0..<m])"
  by (auto simp: distinct_map inj_on_def word_of_nat_eq_iff take_bit_nat_eq_self)

section \<open>The protocol\<close>

text \<open>C17: Under every interleaving of connections, the commands admitted in an epoch take the
  indices 0, 1, 2, ... without a gap or a repetition, epochs never go back (after a reset no
  command of a connection that has not seen it is admitted), and no connection is ahead of the
  shared epoch; for runs shorter than 2^64 steps.\<close>

theorem indices_are_replayable:
  assumes "reached n s" and "n < 2 ^ 64"
  shows "(\<forall>e. \<exists>m. indices e (sys_log s) = map of_nat [0..<m]) \<and> distinct (sys_log s)
    \<and> sorted (map fst (sys_log s))
    \<and> (\<forall>i e. sys_conns s i = Some e \<longrightarrow> e \<le> sh_reset_epoch (sys_shared s))"
proof -
  note inv = protocol.invariant [OF assms]
  have all: "\<exists>m\<le>n. indices e (sys_log s) = map of_nat [0..<m]" for e
    using inv unfolding protocol_inv_def by blast
  have "distinct (indices e (sys_log s))" for e
  proof -
    from all [of e] obtain m where "m \<le> n" "indices e (sys_log s) = map of_nat [0..<m]" by blast
    then show ?thesis using distinct_of_nat_upt [of m] assms(2) by simp
  qed
  then have "distinct (sys_log s)" by (rule indices_distinct)
  then show ?thesis using all inv unfolding protocol_inv_def by blast
qed

theorem indices_are_replayable_witness:
  "\<exists>s. reached 2 s \<and> sys_log s = [(0, 0)] \<and> distinct (sys_log s)"
proof -
  let ?s0 = "\<lparr>sys_shared = sample_state, sys_conns = Map.empty, sys_log = []\<rparr>"
  let ?s1 = "?s0\<lparr>sys_conns := (sys_conns ?s0)(0 \<mapsto> sh_reset_epoch (sys_shared ?s0))\<rparr>"
  let ?s2 = "?s1\<lparr>sys_shared := sample_state\<lparr>sh_command_ids := 1\<rparr>, sys_log := sys_log ?s1 @ [(0, 0)]\<rparr>"
  have "reached 0 ?s0"
    by (rule reach_start) (simp add: protocol_start_def sample_state_def initial_state_def)
  then have "reached 1 ?s1" using reach_step opened [of ?s0 0] by fastforce
  moreover have "system_step ?s1 ?s2"
    by (rule admitted [of ?s1 0]) (simp_all add: sample_state_def initial_state_def admit_def)
  ultimately have "reached 2 ?s2" using reach_step [of protocol_start system_step 1 ?s1 ?s2] by (simp add: numeral_2_eq_2)
  then have "\<exists>s. reached 2 s \<and> sys_log s = [(0, 0)]" by - (rule exI [of _ ?s2], simp)
  then obtain s where s: "reached 2 s" "sys_log s = [(0, 0)]" by blast
  have "distinct (sys_log s)" using indices_are_replayable [OF s(1)] by simp
  with s show ?thesis by blast
qed

section \<open>Handlers take protocol steps\<close>

text \<open>The connection after a handler: closed unless it goes on.\<close>

definition goes_on :: "step_end \<Rightarrow> bool" where
  "goes_on r \<longleftrightarrow> (case r of Continue \<Rightarrow> True | Monitoring \<Rightarrow> True | _ \<Rightarrow> False)"

definition protocol_run :: "system \<Rightarrow> system \<Rightarrow> bool" where
  "protocol_run = system_step\<^sup>*\<^sup>*"

text \<open>
  What a connection can do to the protocol, as functions. An action is refused (\<open>None\<close>) where the
  protocol does not allow it: a command is admitted and a reset is done only by a connection whose
  epoch is the current one.
\<close>

datatype action = Admit | Reset | Close

fun perform :: "nat \<Rightarrow> action \<Rightarrow> system \<Rightarrow> system option" where
  "perform i Admit s = (let sh = sys_shared s; e = sh_reset_epoch sh; k = sh_command_ids sh in
     if sys_conns s i = Some e
     then Some (s\<lparr>sys_shared := sh\<lparr>sh_command_ids := k + 1\<rparr>, sys_log := sys_log s @ [(e, k)]\<rparr>) else None)"
| "perform i Reset s = (let sh = sys_shared s; e = sh_reset_epoch sh in
     if sys_conns s i = Some e
     then Some (s\<lparr>sys_shared := sh\<lparr>sh_reset_epoch := e + 1, sh_command_ids := 0\<rparr>,
       sys_conns := (sys_conns s)(i \<mapsto> e + 1)\<rparr>) else None)"
| "perform i Close s = Some (s\<lparr>sys_conns := (sys_conns s)(i := None)\<rparr>)"

fun performs :: "nat \<Rightarrow> action list \<Rightarrow> system \<Rightarrow> system option" where
  "performs i [] s = Some s"
| "performs i (a # as) s = Option.bind (perform i a s) (performs i as)"

lemma perform_step: "perform i a s = Some s' \<Longrightarrow> system_step s s'"
proof (cases a)
  case Admit
  assume "perform i a s = Some s'"
  with Admit show ?thesis
    using admitted [of s i "sh_reset_epoch (sys_shared s)"] by (auto simp: Let_def admit_def split: if_splits)
next
  case Reset
  assume "perform i a s = Some s'"
  with Reset show ?thesis
    using resets [of s i "sh_reset_epoch (sys_shared s)"]
    by (auto simp: Let_def reset_incrementing_state_def split: if_splits)
next
  case Close
  assume "perform i a s = Some s'"
  with Close show ?thesis using ended [of s i] by auto
qed

lemma performs_run: "performs i as s = Some s' \<Longrightarrow> protocol_run s s'"
  unfolding protocol_run_def
proof (induction as arbitrary: s)
  case (Cons a as)
  then obtain s1 where "perform i a s = Some s1" "performs i as s1 = Some s'" by (auto simp: bind_eq_Some_conv)
  then show ?case using Cons.IH perform_step by (meson converse_rtranclp_into_rtranclp)
qed simp

text \<open>
  What a command does to the protocol: nothing from a connection that has missed a reset, one
  admission for a command that goes to the upstream, one reset for \<open>DEBUG EVIL MODE RESET\<close>, and
  nothing for any other.
\<close>

definition command_actions :: "bytes \<Rightarrow> client \<Rightarrow> shared_state \<Rightarrow> action list" where
  "command_actions raw c sh =
     (case parse_frame raw of
        Inl _ \<Rightarrow> []
      | Inr f \<Rightarrow>
          if cl_epoch c \<noteq> sh_reset_epoch sh then []
          else if forwarded_command sh f then [Admit]
          else if is_mode_reset (argv_lossy f) then [Reset] else [])"

section \<open>What the handlers do\<close>

abbreviation counters :: "handled \<Rightarrow> u64 \<times> u64 \<times> u64" where
  "counters h \<equiv> (case h of (r, c, sh) \<Rightarrow> (cl_epoch c, sh_reset_epoch sh, sh_command_ids sh))"

lemma keeps_counters: "keeps c sh h \<Longrightarrow> counters h = (cl_epoch c, sh_reset_epoch sh, sh_command_ids sh)"
  by (auto simp: keeps_defs split: prod.splits)

lemma mode_reset_kinds:
  assumes "is_mode_reset argv"
  shows "is_debug_evil argv" "\<not> is_debug_protocol argv" "\<not> is_debug_chaos argv"
  using assms by (auto simp: is_mode_reset_def is_debug_evil_def is_debug_protocol_def is_debug_chaos_def
      is_debug_def ascii_defs)

lemma mode_reset_not_monitor:
  assumes "is_mode_reset (argv_lossy f)" shows "\<not> is_monitor (command_name f)"
  using assms by (auto simp: is_mode_reset_def is_debug_evil_def is_debug_def is_monitor_def command_name_def
      ascii_defs split: list.splits option.splits)

lemma mode_reset_result:
  assumes "is_mode_reset argv" and "client_ok c"
  obtains config st result where "apply_debug_evil (ext V) argv (supports_reset (cl_socket c))
      (cl_config c, sh_stats sh) = ((config, st), result)" and "dr_action result = ResetIncrementingState"
proof -
  let ?config = "(cl_config c)\<lparr>cfg_mode := ModeOff, cfg_probability := zero_percent\<rparr>"
  let ?result = "\<lparr>dr_frame = SimpleString ''OK'', dr_action = ResetIncrementingState\<rparr>"
  have "length argv = 4" "keyword (argv ! 2) ''MODE''" "eq_ignore_ascii_case (argv ! 3) ''RESET''"
    "eq_ignore_ascii_case (argv ! 0) ''DEBUG''" "eq_ignore_ascii_case (argv ! 1) ''EVIL''"
    using assms(1) by (simp_all add: is_mode_reset_def is_debug_evil_def is_debug_def)
  moreover from this have "drop 3 argv = [argv ! 3]" by (simp add: Cons_nth_drop_Suc [symmetric])
  ultimately have "apply_debug_command (ext V) argv (cl_config c) = (?config, Inr ?result)"
    by (simp add: apply_debug_command_def debug_mode_def)
  then have "checked_debug (ext V) argv (supports_reset (cl_socket c)) (cl_config c) = (?config, Inr ?result)"
    using assms(2) by (auto simp: checked_debug_def client_ok_def)
  then show ?thesis by (intro that [of ?config _ ?result]) (simp_all add: apply_debug_evil_def)
qed

lemma debug_evil_counters:
  assumes "client_ok c" and "is_debug_evil argv"
  shows "counters (handle_debug_evil V argv c sh) =
    (if is_mode_reset argv then (sh_reset_epoch sh + 1, sh_reset_epoch sh + 1, 0)
     else (cl_epoch c, sh_reset_epoch sh, sh_command_ids sh))"
proof (cases "is_mode_reset argv")
  case True
  from mode_reset_result [OF True assms(1)] obtain config st result where
    "apply_debug_evil (ext V) argv (supports_reset (cl_socket c)) (cl_config c, sh_stats sh) = ((config, st), result)"
    "dr_action result = ResetIncrementingState" .
  then show ?thesis using True
    by (simp add: handle_debug_evil_def Let_def reset_incrementing_state_def split: prod.split sum.split)
next
  case False
  obtain config st result where a: "apply_debug_evil (ext V) argv (supports_reset (cl_socket c))
      (cl_config c, sh_stats sh) = ((config, st), result)" by (metis prod.exhaust)
  have "dr_action result = NoAction" by (rule no_reset_action [OF assms(2) False a])
  then show ?thesis using a False
      keeps_counters [OF keeps_sessionD [OF reply_bytes_keeps]]
    by (simp add: handle_debug_evil_def Let_def)
qed

lemma debug_chaos_counters:
  "counters (handle_debug_chaos V argv c sh) = (cl_epoch c, sh_reset_epoch sh, sh_command_ids sh)"
  by (simp add: handle_debug_chaos_def reply_uncounted_def after_write_def split: prod.splits sum.splits)

lemma dispatch_counters:
  assumes "client_ok c" and ep: "cl_epoch c = sh_reset_epoch sh" and "\<not> forwarded_command sh f"
  shows "counters (dispatch V raw f c sh) =
    (if is_mode_reset (argv_lossy f) then (sh_reset_epoch sh + 1, sh_reset_epoch sh + 1, 0)
     else (cl_epoch c, sh_reset_epoch sh, sh_command_ids sh))"
proof -
  let ?argv = "argv_lossy f" and ?c = "c\<lparr>cl_fps := fp_update DirIn raw (cl_fps c)\<rparr>"
  let ?sh = "publish_monitor_command V f c sh"
  note k = keeps_counters [OF keeps_sessionD [OF reply_uncounted_keeps]]
    keeps_counters [OF keeps_sessionD [OF handle_monitor_keeps]]
    keeps_counters [OF keeps_sessionD [OF reply_frame_keeps]] keeps_counters [OF cluster_query_keeps]
  note d = dispatch_eq [of V raw f c sh, unfolded Let_def]
  show ?thesis
  proof (cases "is_mode_reset ?argv")
    case True
    have "client_ok ?c" using assms(1) by (simp add: client_ok_def)
    from debug_evil_counters [OF this mode_reset_kinds(1) [OF True], of V ?sh] show ?thesis
      using True mode_reset_kinds [OF True] mode_reset_not_monitor [OF True] ep by (simp add: d)
  next
    case False
    have ok: "client_ok ?c" using assms(1) by (simp add: client_ok_def)
    consider "is_debug_protocol ?argv" | "\<not> is_debug_protocol ?argv" "is_debug_chaos ?argv"
      | "\<not> is_debug_protocol ?argv" "\<not> is_debug_chaos ?argv" "is_monitor (command_name f)"
      | "\<not> is_debug_protocol ?argv" "\<not> is_debug_chaos ?argv" "\<not> is_monitor (command_name f)" "is_debug_evil ?argv"
      | "\<not> own_command f" "sh_local_slots sh \<noteq> None" "is_cluster_slots ?argv \<or> is_cluster_query ?argv"
      using assms(3) by (auto simp: forwarded_command_def own_command_def)
    then show ?thesis
    proof cases
      case 2
      then show ?thesis using False ep debug_chaos_counters [of V ?argv c "publish_monitor_command V f c sh"]
        by (simp add: d)
    next
      case 4
      then show ?thesis using False ep debug_evil_counters [OF ok, of ?argv V ?sh] by (simp add: d)
    qed (use False ep in \<open>auto simp: d k own_command_def\<close>)
  qed
qed

lemma handle_command_counters:
  assumes "client_ok c"
  shows "counters (handle_command V raw c sh) =
    (if command_actions raw c sh = [Admit] then (cl_epoch c, sh_reset_epoch sh, sh_command_ids sh + 1)
     else if command_actions raw c sh = [Reset] then (sh_reset_epoch sh + 1, sh_reset_epoch sh + 1, 0)
     else (cl_epoch c, sh_reset_epoch sh, sh_command_ids sh))"
proof (cases "parse_frame raw")
  case (Inr f)
  show ?thesis
  proof (cases "cl_epoch c = sh_reset_epoch sh \<and> forwarded_command sh f")
    case True
    let ?c = "c\<lparr>cl_fps := fp_update DirIn raw (cl_fps c)\<rparr>"
    let ?sh = "publish_monitor_command V f ?c (sh\<lparr>sh_command_ids := sh_command_ids sh + 1\<rparr>)"
    have "counters (respond V x ?c ?sh) = (cl_epoch c, sh_reset_epoch sh, sh_command_ids sh + 1)" for x
      using keeps_counters [OF respond_keeps, of V x ?c ?sh] by simp
    then show ?thesis using True Inr dispatch_forwarded [of sh f c V raw]
      by (simp add: handle_command_def handle_admitted_eq admit_def command_actions_def)
  next
    case False
    then show ?thesis using Inr dispatch_counters [OF assms, of sh f V raw] dispatch_eq [of V raw f c sh]
      by (auto simp: handle_command_def command_actions_def)
  qed
qed (simp add: handle_command_def command_actions_def)

text \<open>C21: Handling one command is exactly what its kind allows in the reset protocol. A command from a
  connection that has missed a reset, a malformed one and one the proxy answers itself do nothing;
  one that goes to the upstream is admitted once, with the current epoch and the next index; DEBUG
  EVIL MODE RESET starts one new epoch, which its connection adopts; and the connection is closed
  unless it goes on. These actions are allowed, they leave the shared counters, every connection's epoch and the
  log of admissions as the handler does, and nothing else happens to them; for a client with valid
  settings, which every session keeps.\<close>

theorem handlers_refine_the_protocol:
  assumes "sys_shared s = sh" and "sys_conns s i = Some (cl_epoch c)" and "client_ok c"
    and "handle_command V raw c sh = (r, c', sh')"
  shows "\<exists>s'. performs i (command_actions raw c sh @ (if goes_on r then [] else [Close])) s = Some s'
    \<and> protocol_run s s' \<and> same_counters (sys_shared s') sh'
    \<and> sys_conns s' = (sys_conns s)(i := if goes_on r then Some (cl_epoch c') else None)
    \<and> sys_log s' = sys_log s @ (if command_actions raw c sh = [Admit] then [(cl_epoch c, sh_command_ids sh)] else [])"
proof -
  have n: "(if command_actions raw c sh = [Admit] then (cl_epoch c, sh_reset_epoch sh, sh_command_ids sh + 1)
     else if command_actions raw c sh = [Reset] then (sh_reset_epoch sh + 1, sh_reset_epoch sh + 1, 0)
     else (cl_epoch c, sh_reset_epoch sh, sh_command_ids sh)) = (cl_epoch c', sh_reset_epoch sh', sh_command_ids sh')"
    using handle_command_counters [OF assms(3), of V raw sh] assms(4) by simp
  have kinds: "command_actions raw c sh = [] \<or> (command_actions raw c sh = [Admit] \<or> command_actions raw c sh = [Reset])
      \<and> cl_epoch c = sh_reset_epoch sh"
    by (auto simp: command_actions_def split: sum.splits)
  have "\<exists>s'. performs i (command_actions raw c sh @ (if goes_on r then [] else [Close])) s = Some s'
    \<and> same_counters (sys_shared s') sh'
    \<and> sys_conns s' = (sys_conns s)(i := if goes_on r then Some (cl_epoch c') else None)
    \<and> sys_log s' = sys_log s @ (if command_actions raw c sh = [Admit] then [(cl_epoch c, sh_command_ids sh)] else [])"
    using kinds n assms(1,2) by (auto simp: Let_def same_counters_def intro!: fun_upd_idem [symmetric])
  then show ?thesis using performs_run by blast
qed

theorem handlers_refine_the_protocol_witness:
  "\<exists>s' r c' sh'. handle_command sample_env (encode (command_frame [''PING''])) sample_client sample_state = (r, c', sh')
     \<and> performs 7 (if goes_on r then [Admit] else [Admit, Close])
         \<lparr>sys_shared = sample_state, sys_conns = [7 \<mapsto> 0], sys_log = []\<rparr> = Some s'
     \<and> sys_log s' = [(0, 0)] \<and> sh_command_ids sh' = 1"
proof -
  obtain r c' sh' where h: "handle_command sample_env (encode (command_frame [''PING''])) sample_client sample_state
      = (r, c', sh')" by (metis prod.exhaust)
  let ?s = "\<lparr>sys_shared = sample_state, sys_conns = [7 \<mapsto> 0], sys_log = []\<rparr>"
  have s: "sys_shared ?s = sample_state" "sys_conns ?s 7 = Some (cl_epoch sample_client)"
    by (simp_all add: sample_client_def)
  have ok: "client_ok sample_client" by (simp add: client_ok_def sample_client_def requires_tcp_def)
      (simp add: config_default_def transport_default_def fault_default_def)
  have "argv_lossy (command_frame [''PING'']) = [''PING'']"
    by (simp add: command_frame_def from_utf8_lossy_ascii byte_def)
  then have a: "command_actions (encode (command_frame [''PING''])) sample_client sample_state = [Admit]"
    by (simp add: command_actions_def sample_ping forwarded_command_def own_command_def is_debug_evil_def
        is_debug_chaos_def is_debug_protocol_def is_debug_def is_monitor_def command_name_def ascii_defs
        sample_state_def initial_state_def sample_client_def)
  from handlers_refine_the_protocol [OF s ok h] obtain s' where
    "performs 7 ([Admit] @ (if goes_on r then [] else [Close])) ?s = Some s'" "same_counters (sys_shared s') sh'"
    "sys_log s' = [(cl_epoch sample_client, sh_command_ids sample_state)]"
    unfolding a by auto
  moreover have "sh_command_ids sample_state = 0" "cl_epoch sample_client = 0"
    by (simp_all add: sample_state_def initial_state_def sample_client_def)
  ultimately show ?thesis using h
    by (intro exI [of _ s'] exI [of _ r] exI [of _ c'] exI [of _ sh'])
      (auto simp: same_counters_def Let_def split: if_splits)
qed

end
