(* ===== verification/Monitor.thy ===== *)
theory Monitor
  imports Proxy_Props
begin

text \<open>
  The lines of the monitor stream: whatever bytes a command carries, its line is one line of
  printable ASCII, and the line determines the arguments.
\<close>

section \<open>Reading a line back\<close>

definition hex_digit_value :: "char \<Rightarrow> nat" where
  "hex_digit_value c = (if byte c \<le> 0x39 then byte c - 0x30 else byte c - 0x57)"

text \<open>The text of one quoted argument, from after its opening quote.\<close>

fun unquote :: "string \<Rightarrow> (bytes \<times> string) option" where
  "unquote [] = None"
| "unquote (c # s) =
     (if c = CHR 0x22 then Some ([], s)
      else if c \<noteq> CHR 0x5C then map_option (apfst (Cons c)) (unquote s)
      else (case s of
        CHR ''x'' # h # l # s \<Rightarrow>
          map_option (apfst (Cons (char_of (16 * hex_digit_value h + hex_digit_value l)))) (unquote s)
      | CHR ''n'' # s \<Rightarrow> map_option (apfst (Cons (CHR 0x0A))) (unquote s)
      | CHR ''r'' # s \<Rightarrow> map_option (apfst (Cons (CHR 0x0D))) (unquote s)
      | CHR ''t'' # s \<Rightarrow> map_option (apfst (Cons (CHR 0x09))) (unquote s)
      | d # s \<Rightarrow> map_option (apfst (Cons d)) (unquote s)
      | [] \<Rightarrow> None))"

lemma char_byte [simp]: "char_of (byte c) = c"
  by (simp add: byte_def)

lemma hex_digits: "n < 16 \<Longrightarrow> hex_digit_value (hex_digit n) = n \<and> 0x20 \<le> byte (hex_digit n) \<and> byte (hex_digit n) < 0x7F"
proof -
  assume "n < 16"
  then have "n = 0 \<or> n = 1 \<or> n = 2 \<or> n = 3 \<or> n = 4 \<or> n = 5 \<or> n = 6 \<or> n = 7 \<or> n = 8 \<or> n = 9
    \<or> n = 10 \<or> n = 11 \<or> n = 12 \<or> n = 13 \<or> n = 14 \<or> n = 15" by arith
  then show ?thesis by (elim disjE) (simp_all add: hex_digit_value_def hex_digit_def byte_def)
qed

lemma hex_byte: "char_of (16 * hex_digit_value (hex_digit (byte c div 16)) + hex_digit_value (hex_digit (byte c mod 16))) = c"
proof -
  have "byte c div 16 < 16" using byte_less [of c] by (simp add: less_mult_imp_div_less)
  then have "16 * hex_digit_value (hex_digit (byte c div 16)) + hex_digit_value (hex_digit (byte c mod 16)) = byte c"
    by (simp add: hex_digits)
  then show ?thesis by simp
qed

lemma unquote_escape: "unquote (escape_byte c @ s) = map_option (apfst (Cons c)) (unquote s)"
  by (simp add: escape_byte_def hex_byte)

lemma unquote_arg: "unquote (concat (map escape_byte arg) @ CHR 0x22 # s) = Some (arg, s)"
  by (induction arg) (simp_all add: unquote_escape)

text \<open>The arguments of a line, from after its prefix.\<close>

function read_args :: "string \<Rightarrow> bytes list option" where
  "read_args s =
     (if s = [] then Some []
      else if take 2 s \<noteq> [CHR 0x20, CHR 0x22] then None
      else (case unquote (drop 2 s) of
        None \<Rightarrow> None
      | Some (arg, rest) \<Rightarrow> if length rest < length s then map_option (Cons arg) (read_args rest) else None))"
  by pat_completeness auto
termination by (relation "measure length") auto

declare read_args.simps [simp del]

lemma read_args_line: "read_args (concat (map (\<lambda>arg. '' '' @ push_monitor_arg arg) argv)) = Some argv"
proof (induction argv)
  case (Cons arg argv)
  let ?rest = "concat (map (\<lambda>arg. '' '' @ push_monitor_arg arg) argv)"
  have "concat (map (\<lambda>arg. '' '' @ push_monitor_arg arg) (arg # argv))
      = CHR 0x20 # CHR 0x22 # concat (map escape_byte arg) @ CHR 0x22 # ?rest"
    by (simp add: push_monitor_arg_def)
  then show ?case using Cons by (simp add: read_args.simps [of "CHR 0x20 # _"] unquote_arg)
qed (simp add: read_args.simps)

section \<open>Printable lines\<close>

lemma printable_pieces [simp]:
  "printable (concat xs) \<longleftrightarrow> (\<forall>x\<in>set xs. printable x)" "printable (replicate n CHR ''0'')"
  by (auto simp: printable_def byte_def)

lemma byte_escapes:
  "byte (CHR 0x5C) = 0x5C" "byte (CHR 0x22) = 0x22" "byte (CHR ''n'') = 0x6E" "byte (CHR ''r'') = 0x72"
  "byte (CHR ''t'') = 0x74" "byte (CHR ''x'') = 0x78"
  by (simp_all add: byte_def)

lemma escape_printable: "printable (escape_byte c)"
proof -
  have "byte c div 16 < 16" using byte_less [of c] by (simp add: less_mult_imp_div_less)
  note h = hex_digits [OF this] hex_digits [of "byte c mod 16"]
  then show ?thesis by (simp add: escape_byte_def byte_escapes)
qed

lemma push_arg_printable: "printable (push_monitor_arg arg)"
  using escape_printable by (auto simp: push_monitor_arg_def byte_escapes)

text \<open>The fixed part of a line; its digits contain no space.\<close>

definition line_head :: "nat \<times> nat \<Rightarrow> u64 \<Rightarrow> string" where
  "line_head now i = show_nat (fst now) @ ''.'' @ pad6 (show_nat (snd now)) @ '' [0 unix:evilresp:''
     @ show_nat (unat i) @ '']''"

lemma monitor_line_eq:
  "format_monitor_line now i argv = line_head now i @ concat (map (\<lambda>arg. '' '' @ push_monitor_arg arg) argv)"
  by (simp add: format_monitor_line_def line_head_def)

text \<open>C40: A monitor line is a single line of printable ASCII for every command, so no argument can
  break the stream's framing, and for the same time and connection two lines are equal only if their
  arguments are: the escaping loses nothing.\<close>

theorem monitor_lines_are_faithful:
  "(\<forall>c\<in>set (format_monitor_line now i argv). 0x20 \<le> byte c \<and> byte c < 0x7F)
   \<and> (format_monitor_line now i argv = format_monitor_line now i argv' \<longleftrightarrow> argv = argv')"
proof
  have "printable (format_monitor_line now i argv)"
    using push_arg_printable printable_show_nat
    by (auto simp: format_monitor_line_def pad6_def) (simp_all add: byte_def)
  then show "\<forall>c\<in>set (format_monitor_line now i argv). 0x20 \<le> byte c \<and> byte c < 0x7F"
    by (simp add: printable_def)
  have "argv = argv'" if "format_monitor_line now i argv = format_monitor_line now i argv'"
  proof -
    from that have "concat (map (\<lambda>arg. '' '' @ push_monitor_arg arg) argv)
        = concat (map (\<lambda>arg. '' '' @ push_monitor_arg arg) argv')" by (simp add: monitor_line_eq)
    then have "read_args (concat (map (\<lambda>arg. '' '' @ push_monitor_arg arg) argv))
        = read_args (concat (map (\<lambda>arg. '' '' @ push_monitor_arg arg) argv'))" by (rule arg_cong)
    then show ?thesis by (simp only: read_args_line option.inject)
  qed
  then show "format_monitor_line now i argv = format_monitor_line now i argv' \<longleftrightarrow> argv = argv'" by blast
qed

theorem monitor_lines_are_faithful_witness:
  "format_monitor_line (1, 2) 3 [[CHR 0x0A, CHR 0x22], ''a''] \<noteq> format_monitor_line (1, 2) 3 [[CHR 0x0A], [CHR 0x22], ''a'']"
  using monitor_lines_are_faithful [of "(1, 2)" 3 "[[CHR 0x0A, CHR 0x22], ''a'']" "[[CHR 0x0A], [CHR 0x22], ''a'']"]
  by simp

end
