(* ===== verification/Proxy_Record.thy ===== *)
theory Proxy_Record
  imports Proxy_Relay
begin

text \<open>
  The promise of the repro file: every reply that was changed, faulted or not delivered has a record
  with its mutations, its plan and what really reached the client; and the reply to a command is
  a function of what the record holds.
\<close>

section \<open>Records\<close>

lemma early_plan_partitions:
  assumes "rng_ok E" and "config_ok cfg" and "early_plan E cfg x = Some plan"
  shows "partitions (chunk_ends plan) (wire_length plan 0)"
proof -
  obtain f where f: "fault_plan_of E (tr_fault (cfg_transport cfg)) (tr_probability (cfg_transport cfg))
      (cfg_seed cfg) (cx_index x) (cx_hash x) 0 = Some f" "plan = set_fault f (plain_plan E 0)"
    using assms(3) by (auto simp: early_plan_def before_plan_def split: if_splits)
  have ex: "exclusive_faults (cfg_transport cfg)"
    using assms(2) by (simp add: config_ok_def transport_ok_def)
  have zero: "0 = 0 + extra_reply_count (plain_plan E 0) * length EXTRA_REPLY"
    by (simp add: plain_plan_def)
  show ?thesis
    unfolding f(2) by (rule set_fault_ok [OF plain_plan_ok ex fault_plan_ok [OF assms(1) f(1)] zero])
qed

lemma chosen_plan_partitions:
  assumes "rng_ok E" and "config_ok cfg" and "before = early_plan E cfg x"
    and "before \<noteq> None \<Longrightarrow> b = []"
  shows "partitions (chunk_ends (choose_plan E cfg x before h (length b)))
     (length (wire_bytes (choose_plan E cfg x before h (length b)) b))"
proof (cases before)
  case (Some plan)
  then show ?thesis
    using assms early_plan_partitions [of E cfg x plan] by (simp add: choose_plan_def length_wire_bytes)
next
  case None
  then show ?thesis
    using assms(1,2) transport_plan_partitions [OF assms(1), of "cfg_transport cfg"]
    by (simp add: choose_plan_def length_wire_bytes config_ok_def) (simp flip: length_wire_bytes)
qed

lemma produced_before:
  assumes "produce V x before c sh = (Produced up response h, c1)" and "before \<noteq> None"
  shows "reply_bytes response = []"
  using assms by (simp add: produce_def Let_def) auto

lemma produce_writer:
  "produce V x before c sh = (r, c') \<Longrightarrow> cl_writer c' = cl_writer c"
  by (auto simp: produce_def forward_def Let_def
      split: if_splits prod.splits sum.splits forward_result.splits option.splits)

lemma finish_fault_bytes:
  assumes "finish_fault socket reads f (out, fps, w) = (r, out', fps', w')"
  shows "bytes_written out' = bytes_written out \<and> written_bytes_hash out' = written_bytes_hash out"
  using assms
  by (auto simp: finish_fault_def fault_stall_def fault_shutdown_def fault_reset_def Let_def
      split: option.splits sum.splits prod.splits if_splits)

text \<open>What the repro file gains from one delivery.\<close>

definition recorded ::
  "'r env \<Rightarrow> command_ctx \<Rightarrow> bytes option \<Rightarrow> mutated_reply \<Rightarrow> delivery_plan \<Rightarrow> client \<Rightarrow> step_end
   \<Rightarrow> delivery_outcome \<Rightarrow> repro_file \<Rightarrow> repro_file" where
  "recorded V x up response plan c r out file =
     (if reply_mutations response \<noteq> [] \<or> is_fault plan \<or> (\<exists>e. r = Fail e)
      then file @ [(repro_record_new (ext V) (cfg_seed (cl_config c)) (cl_id c) (cx_index x) (cx_bytes x) up
             (reply_bytes response) (cfg_mode (cl_config c)) (reply_mutations response))
           \<lparr>rr_planned_wire_bytes_hex := Some (hex_encode (ext V) (wire_bytes plan (reply_bytes response))),
            rr_delivery_plan := Some plan, rr_delivery_outcome := Some out\<rparr>]
      else file)"

lemma deliver_reply_recorded:
  assumes "deliver_reply V x up response plan c sh = (r, c', sh')" and "sh_repro sh = Some file"
    and "partitions (chunk_ends plan) (length (wire_bytes plan (reply_bytes response)))"
  shows "\<exists>out. bytes_written out \<le> length (wire_bytes plan (reply_bytes response))
    \<and> sent (cl_writer c') = sent (cl_writer c) @ take (bytes_written out) (wire_bytes plan (reply_bytes response))
    \<and> written_bytes_hash out
        = deterministic_hash (ext V) (take (bytes_written out) (wire_bytes plan (reply_bytes response)))
    \<and> sh_repro sh' = Some (recorded V x up response plan c r out file)"
proof -
  let ?wire = "wire_bytes plan (reply_bytes response)"
  obtain out q fps w where d: "deliver (ext V) ?wire plan (cl_fps c) (cl_writer c) = (out, q, fps, w)"
    by (metis prod.exhaust)
  note acc = deliver_accounted [OF d assms(3)]
  show ?thesis
  proof (cases "connection_fault plan")
    case None
    then have r: "r = (case q of Inl e \<Rightarrow> Fail e | Inr _ \<Rightarrow> if truncate_at plan \<noteq> None then Return else Continue)"
      and c': "cl_writer c' = w"
      and sh': "sh' = (if reply_mutations response \<noteq> [] \<or> is_fault plan \<or> q \<noteq> Inr ()
        then record_delivery (ext V) (map_option (\<lambda>_. repro_record_new (ext V) (cfg_seed (cl_config c)) (cl_id c)
            (cx_index x) (cx_bytes x) up (reply_bytes response) (cfg_mode (cl_config c))
            (reply_mutations response)) (sh_repro sh)) plan ?wire out sh else sh)"
      using assms(1) by (auto simp: deliver_reply_def Let_def d)
    have "(\<exists>e. r = Fail e) \<longleftrightarrow> q \<noteq> Inr ()" using r by (cases q) auto
    then have "sh_repro sh' = Some (recorded V x up response plan c r out file)"
      using assms(2) by (simp add: sh' recorded_def record_delivery_def append_record_def)
    then show ?thesis using acc c' by blast
  next
    case (Some f)
    then have fault: "is_fault plan" by (simp add: is_fault_def)
    obtain q2 out2 fps2 w2 where f2: "(case q of Inl e \<Rightarrow> (q, out, fps, w)
        | Inr _ \<Rightarrow> finish_fault (cl_socket c) (cl_arrivals c) f (out, fps, w)) = (q2, out2, fps2, w2)"
      by (metis prod.exhaust)
    then have same: "bytes_written out2 = bytes_written out" "written_bytes_hash out2 = written_bytes_hash out"
      "sent w2 = sent w"
      using finish_fault_bytes finish_fault_sends_nothing(1) by (cases q; fastforce)+
    have "cl_writer c' = w2" "sh_repro sh' = Some (recorded V x up response plan c r out2 file)"
      using assms(1,2) d Some f2 fault
      by (simp_all add: deliver_reply_def Let_def recorded_def record_delivery_def append_record_def) auto
    then show ?thesis using acc same by (intro exI [of _ out2]) auto
  qed
qed

text \<open>C12: The repro file is complete and truthful. For a valid client, a reply that was mutated, put on
  the wire with a fault, or not fully delivered appends exactly one record, and any other reply
  none; the record holds the command, the upstream's bytes, the mutations, the plan and its wire
  bytes, and an outcome whose byte count and hash are those of what the client really received.\<close>

theorem every_change_is_recorded:
  assumes "rng_ok (ext V)" and "client_ok c" and "sh_repro sh = Some file"
    and "produce V x (early_plan (ext V) (cl_config c) x) c sh = (Produced up response h, c1)"
    and "respond V x c sh = (r, c', sh')"
  shows "let plan = choose_plan (ext V) (cl_config c) x (early_plan (ext V) (cl_config c) x) h
             (length (reply_bytes response));
           wire = wire_bytes plan (reply_bytes response)
    in \<exists>out. bytes_written out \<le> length wire
         \<and> sent (cl_writer c') = sent (cl_writer c) @ take (bytes_written out) wire
         \<and> written_bytes_hash out = deterministic_hash (ext V) (take (bytes_written out) wire)
         \<and> sh_repro sh' = Some (recorded V x up response plan c r out file)"
proof -
  let ?plan = "choose_plan (ext V) (cl_config c) x (early_plan (ext V) (cl_config c) x) h
             (length (reply_bytes response))"
  have set: "same_settings c c1" using produce_keeps [OF assms(4)] .
  have w: "cl_writer c1 = cl_writer c" using produce_writer [OF assms(4)] .
  have "partitions (chunk_ends ?plan) (length (wire_bytes ?plan (reply_bytes response)))"
    using chosen_plan_partitions [OF assms(1) _ refl, of "cl_config c" x "reply_bytes response" h]
      produced_before [OF assms(4)] assms(2) by (simp add: client_ok_def)
  moreover have "deliver_reply V x up response ?plan c1 sh = (r, c', sh')"
    using assms(4,5) by (simp add: respond_def Let_def)
  moreover have "recorded V x up response ?plan c1 r = recorded V x up response ?plan c r"
    using set by (intro ext) (simp add: recorded_def same_settings_def)
  ultimately show ?thesis
    using deliver_reply_recorded [OF _ assms(3), of V x up response ?plan c1 r c' sh'] w by (simp add: Let_def)
qed

definition sample_ctx :: command_ctx where
  "sample_ctx = \<lparr>cx_bytes = encode (command_frame [''PING'']), cx_frame = command_frame [''PING''], cx_argv = [''PING''],
     cx_name = Some ''PING'', cx_index = 0, cx_hash = ''h'', cx_mutate = True\<rparr>"

definition random_client :: client where
  "random_client = sample_client\<lparr>cl_config := config_default\<lparr>cfg_mode := ModeRandom\<rparr>\<rparr>"

theorem every_change_is_recorded_witness:
  "\<exists>r. sh_repro (snd (snd (respond sample_env sample_ctx random_client sample_state))) = Some [r]
     \<and> rr_mutations r = [applied ''root'' RandomFrame]"
proof -
  let ?response = "random_reply (ext sample_env) (cl_config random_client) 0 ''h''"
  have early: "early_plan (ext sample_env) (cl_config random_client) sample_ctx = None"
    by (simp add: early_plan_def faults_delivery_def random_client_def config_default_def transport_default_def
        transport_enabled_def fault_default_def)
  have pre: "pre_topology E x c sample_state = None" for E :: "nat externals" and x c
    by (simp add: pre_topology_def sample_state_def initial_state_def)
  have p: "produce sample_env sample_ctx (early_plan (ext sample_env) (cl_config random_client) sample_ctx)
      random_client sample_state = (Produced None ?response [], random_client)"
  proof -
    have "sh_local_slots sample_state = None" "cfg_mode (cl_config random_client) = ModeRandom"
      "cx_mutate sample_ctx" "cx_index sample_ctx = 0" "cx_hash sample_ctx = ''h''"
      by (simp_all add: sample_state_def initial_state_def random_client_def sample_ctx_def)
    then show ?thesis by (simp add: produce_def Let_def early pre random_response_def map_ok_def)
  qed
  obtain r c' sh' where h: "respond sample_env sample_ctx random_client sample_state = (r, c', sh')"
    by (metis prod.exhaust)
  have "config_ok (config_default\<lparr>cfg_mode := ModeRandom\<rparr>)"
    using config_default_ok unfolding config_ok_def by simp
  then have ok: "client_ok random_client"
    by (simp add: client_ok_def random_client_def requires_tcp_def)
      (simp add: config_default_def transport_default_def fault_default_def)
  have repro: "sh_repro sample_state = Some []" by (simp add: sample_state_def initial_state_def)
  have rng: "rng_ok (ext sample_env)" by (simp add: sample_env_def)
  have "reply_mutations ?response = [applied ''root'' RandomFrame]" by (simp add: random_reply_def Let_def)
  with every_change_is_recorded [OF rng ok repro p h] show ?thesis
    by (auto simp: h recorded_def repro_record_new_def Let_def)
qed

section \<open>Replay\<close>

text \<open>A reply is replayable. What is sent for a command (the mutated bytes, the mutations and, with
  them, the delivery plan) depends only on the configuration and seed, the command and its index,
  the upstream's reply, the tracked transaction and the cluster's topology: not on the
  connection, the time, the counters, earlier output or other clients.\<close>

lemma replies_are_replayable:
  assumes "ext V' = ext V" and "cl_config c' = cl_config c" and "cl_tx c' = cl_tx c"
    and "cl_listen c' = cl_listen c" and "sh_local_slots sh' = sh_local_slots sh"
    and "sh_redirection_map sh' = sh_redirection_map sh"
    and "exchange (debug_frame V) (cx_bytes x) (cx_argv x) (cl_upstream c) = (Inr reply, u)"
    and "exchange (debug_frame V') (cx_bytes x) (cx_argv x) (cl_upstream c') = (Inr reply, u')"
  shows "fst (produce V' x before c' sh') = fst (produce V x before c sh)
    \<and> early_plan (ext V') (cl_config c') x = early_plan (ext V) (cl_config c) x"
proof -
  have pre: "pre_topology (ext V') x c' sh' = pre_topology (ext V) x c sh"
    using assms by (simp add: pre_topology_def redirect_ctx_def)
  have norm: "normalize_cluster_redirection b sh' = normalize_cluster_redirection b sh" for b
    by (rule normalize_cong) (simp_all add: assms)
  have post: "post_topology (ext V') x b d' sh' = post_topology (ext V) x b d sh"
    if "cl_config d' = cl_config d" "cl_listen d' = cl_listen d" for b d d'
    using assms that by (cases "sh_local_slots sh") (simp_all add: post_topology_def redirect_ctx_def)
  obtain cs tx where o: "observe (cl_tx c) (cx_argv x) reply = (cs, tx)" by force
  let ?p = "pre_topology (ext V) x c sh"
  have fwd: "fst (forward V' x ?p c' sh') = fst (forward V x ?p c sh)"
    using assms o norm post [of "c'\<lparr>cl_upstream := u', cl_tx := tx\<rparr>" "c\<lparr>cl_upstream := u, cl_tx := tx\<rparr>"]
    by (cases ?p) (simp_all add: forward_def Let_def split: sum.splits prod.splits)
  have rnd: "random_response (ext V') x ?p c' sh' = random_response (ext V) x ?p c sh"
    by (simp add: random_response_def assms(1,2,5) cong: option.case_cong)
  obtain f c1 where f: "forward V x ?p c sh = (f, c1)" by force
  then obtain c2 where f': "forward V' x ?p c' sh' = (f, c2)" using fwd by (metis fst_conv prod.collapse)
  show ?thesis
    using assms pre rnd f f' unfolding produce_def Let_def
    by (cases f) (simp_all split: sum.splits prod.splits)
qed

end
