(* ===== verification/Session_Frame.thy ===== *)
theory Session_Frame
  imports Session
begin

text \<open>
  What no command changes: the identity of the client, and of the shared state everything but the
  command counters, the monitor stream, the statistics of the evil commands and the repro file.
\<close>

definition framed :: "client \<Rightarrow> shared_state \<Rightarrow> handled \<Rightarrow> bool" where
  "framed c sh h \<longleftrightarrow> (case h of (r, c', sh') \<Rightarrow>
     cl_id c' = cl_id c \<and> cl_socket c' = cl_socket c \<and> cl_listen c' = cl_listen c
     \<and> sh_connection_ids sh' = sh_connection_ids sh \<and> sh_local_slots sh' = sh_local_slots sh
     \<and> sh_redirection_map sh' = sh_redirection_map sh
     \<and> clients_total (sh_stats sh') = clients_total (sh_stats sh)
     \<and> clients_active (sh_stats sh') = clients_active (sh_stats sh)
     \<and> sh_receivers sh' = sh_receivers sh + (if r = Monitoring then 1 else 0))"

lemma framed_cong:
  assumes "framed c2 sh2 h" and "same_settings c c2" and "\<And>r. framed c2 sh (Return, c2, sh2)"
  shows "framed c sh h"
  using assms by (auto simp: framed_def same_settings_def)

lemma framed_publish: "framed c sh (Return, c, publish_monitor_command V f d sh)"
  by (simp add: framed_def publish_monitor_command_def split: list.splits)

lemma framed_same: "r \<noteq> Monitoring \<Longrightarrow> same_settings c c' \<Longrightarrow> framed c sh (r, c', sh)"
  by (simp add: framed_def same_settings_def)

lemma write_client_framed: "write_client_bytes b c = (q, c') \<Longrightarrow> same_settings c c'"
  using write_client_keeps by blast

lemma reply_bytes_framed: "framed c sh (reply_bytes_to b c sh)"
  by (cases "write_client_bytes b c")
    (auto simp: reply_bytes_to_def after_write_def dest!: write_client_framed intro!: framed_same split: sum.splits)

lemma reply_frame_framed: "framed c sh (reply_frame_to f c sh)"
  by (simp add: reply_frame_to_def reply_bytes_framed)

lemma reply_uncounted_framed: "framed c sh (reply_uncounted b c sh)"
  by (auto simp: reply_uncounted_def after_write_def framed_def split: sum.splits prod.splits)

lemma handle_monitor_framed: "framed c sh (handle_monitor argv c sh)"
  using reply_frame_framed [of c sh] write_client_framed [of "encode (SimpleString ''OK'')" c]
  by (cases "write_client_bytes (encode (SimpleString ''OK'')) c")
    (auto simp: handle_monitor_def framed_def same_settings_def split: sum.splits)

lemma same_settings_upstream [simp]:
  "same_settings c (c\<lparr>cl_upstream := u\<rparr>)" "same_settings c (c\<lparr>cl_upstream := u, cl_tx := tx\<rparr>)"
  "same_settings c (c\<lparr>cl_fps := fps\<rparr>)" "same_settings c (c\<lparr>cl_writer := w\<rparr>)"
  by (simp_all add: same_settings_def)

lemma reply_unavailable_framed: "framed c sh (reply_unavailable u c sh)"
  unfolding reply_unavailable_def
  by (rule framed_cong [OF reply_bytes_framed]) (simp_all add: framed_same)

lemma cluster_query_framed: "framed c sh (handle_cluster_query V raw argv c sh)"
proof -
  obtain q u where ex: "exchange (debug_frame V) raw argv (cl_upstream c) = (q, u)" by force
  have inner: "framed c sh (reply_frame_to f (c\<lparr>cl_upstream := u\<rparr>) sh)" for f
    by (rule framed_cong [OF reply_frame_framed]) (simp_all add: framed_same)
  show ?thesis
    using ex reply_unavailable_framed inner framed_same
    by (auto simp: handle_cluster_query_def Let_def split: sum.splits)
qed

lemma framed_evil_stats:
  "clients_total (debug_evil_stats argv cfg result st) = clients_total st"
  "clients_active (debug_evil_stats argv cfg result st) = clients_active st"
  by (simp_all add: debug_evil_stats_def stats_defs Let_def split: evil_mode.splits)

lemma apply_debug_evil_stats:
  assumes "apply_debug_evil E argv tcp (cfg, st) = ((cfg', st'), result)"
  shows "clients_total st' = clients_total st \<and> clients_active st' = clients_active st"
  using assms
  by (auto simp: apply_debug_evil_def framed_evil_stats command_rejected_def split: prod.splits sum.splits)

lemma debug_evil_framed: "framed c sh (handle_debug_evil V argv c sh)"
proof -
  obtain cfg st result where a: "apply_debug_evil (ext V) argv (supports_reset (cl_socket c))
      (cl_config c, sh_stats sh) = ((cfg, st), result)" by (metis prod.exhaust)
  note stats = apply_debug_evil_stats [OF a]
  show ?thesis
  proof (cases "dr_action result")
    case NoAction
    then show ?thesis
      using a stats reply_bytes_framed [of "c\<lparr>cl_config := cfg\<rparr>" "sh\<lparr>sh_stats := st\<rparr>" "encode (dr_frame result)"]
      by (simp add: handle_debug_evil_def Let_def framed_def split: prod.splits)
  next
    case ResetIncrementingState
    then show ?thesis using a stats
      by (auto simp: handle_debug_evil_def Let_def framed_def reset_incrementing_state_def
          split: prod.splits sum.splits)
  qed
qed

lemma debug_chaos_framed: "framed c sh (handle_debug_chaos V argv c sh)"
  by (auto simp: handle_debug_chaos_def apply_debug_chaos_def reply_uncounted_def after_write_def framed_def
      configuration_updated_def command_rejected_def split: prod.splits sum.splits)

lemma deliver_reply_framed: "framed c sh (deliver_reply V x up response plan c sh)"
  unfolding framed_def deliver_reply_def Let_def record_delivery_def
  by (simp split: option.splits prod.splits sum.splits)

lemma respond_framed: "framed c sh (respond V x c sh)"
proof -
  obtain r c1 where p: "produce V x (early_plan (ext V) (cl_config c) x) c sh = (r, c1)" by force
  have set: "same_settings c c1" using produce_keeps [OF p] .
  have same: "framed c1 sh (Return, c1, sh)" by (simp add: framed_same)
  show ?thesis
    using p framed_cong [OF reply_unavailable_framed set same] framed_cong [OF deliver_reply_framed set same]
      framed_same [OF _ set]
    by (cases r) (simp_all add: respond_def Let_def)
qed

lemma handle_admitted_framed: "framed c sh (handle_admitted V raw f c sh)"
proof (cases "admit (cl_epoch c) sh")
  case None
  then show ?thesis by (simp add: handle_admitted_eq framed_same)
next
  case (Some a)
  obtain k sh1 where a: "a = (k, sh1)" by force
  have "framed c sh (Return, c, publish_monitor_command V f c sh1)"
    using Some a framed_publish [of c sh1 V f c] by (auto simp: admit_def framed_def split: if_splits)
  from framed_cong [OF respond_framed same_refl(1) this] show ?thesis
    by (simp add: handle_admitted_eq Some a)
qed

lemma own_reply_framed:
  assumes "own_reply V raw f c sh = Some h" shows "framed c sh h"
proof -
  let ?c = "c\<lparr>cl_fps := fp_update DirIn raw (cl_fps c)\<rparr>" and ?p = "publish_monitor_command V f"
  have pub: "framed d sh h" if "framed d (?p d' sh) h" for d d' h
    by (rule framed_cong [OF that same_refl(1) framed_publish])
  have upd: "framed c sh h" if "framed ?c sh h" for h
    by (rule framed_cong [OF that]) (simp_all add: framed_same)
  note own = pub [OF debug_chaos_framed]
    upd [OF handle_monitor_framed] upd [OF pub [OF debug_evil_framed]] upd [OF pub [OF reply_frame_framed]]
    upd [OF pub [OF cluster_query_framed]]
  from assms show ?thesis
    unfolding own_reply_def Let_def
    by (auto simp: reply_uncounted_framed own bind_eq_Some_conv simp del: fp_update.simps split: if_splits)
qed

lemma dispatch_framed: "framed c sh (dispatch V raw f c sh)"
proof (cases "own_reply V raw f c sh")
  case None
  let ?c = "c\<lparr>cl_fps := fp_update DirIn raw (cl_fps c)\<rparr>"
  have "framed c sh (handle_admitted V raw f ?c sh)"
    by (rule framed_cong [OF handle_admitted_framed]) (simp_all add: framed_same)
  with None show ?thesis by (simp add: dispatch_def framed_same del: fp_update.simps)
qed (simp add: dispatch_def framed_same own_reply_framed)

lemma handle_command_framed: "framed c sh (handle_command V raw c sh)"
  by (simp add: handle_command_def dispatch_framed framed_same split: sum.splits)

text \<open>A session subscribes to the monitor stream at most once, when it ends in it.\<close>

lemma framed_compose:
  "framed c sh (Continue, c1, sh1) \<Longrightarrow> framed c1 sh1 h \<Longrightarrow> framed c sh h"
  by (auto simp: framed_def split: prod.splits)

interpretation frame: session_law "\<lambda>_ (c, sh). framed c sh" "\<lambda>_. True" V for V
  by unfold_locales (auto simp: framed_same handle_command_framed intro: framed_compose)

end
