(* ===== verification/Server.thy ===== *)
theory Server
  imports Session_Frame Machines
begin

text \<open>
  \<open>proxy.rs\<close>, the server around the connections: listeners bound for the targets of the
  topology, tasks that accept clients, connection tasks, and the \<open>select!\<close> that ends it all.

  The tasks are one state machine. An event is one task's turn: a bind, an accepted client, a
  command handled from reading it to its reply, a line of the monitor stream, a signal. What the
  operating system answers is part of the event, or of the \<open>network\<close> for the calls that come
  from the program.
\<close>

section \<open>Listeners\<close>

record network =
  net_bind :: "string \<Rightarrow> (io_kind \<times> msg) option"
  net_local :: "string \<Rightarrow> (io_kind \<times> msg) + string"
  net_unlink :: "string \<Rightarrow> (io_kind \<times> msg) option"

datatype proxy_listener = TcpListener "(io_kind \<times> msg) + string" | UnixListener string

definition io_error :: "io_kind \<times> msg \<Rightarrow> app_error" where
  "io_error e = (case e of (k, m) \<Rightarrow> IoError k m)"

text \<open>\<open>paths\<close> are the socket files there are; binding one that exists fails, binding another
  creates it.\<close>

fun bind_listener ::
  "network \<Rightarrow> endpoint \<Rightarrow> string set \<Rightarrow> (app_error + proxy_listener) \<times> string set" where
  "bind_listener N (Tcp e) paths =
     (case net_bind N (connect_addr e) of
        Some err \<Rightarrow> (Inl (io_error err), paths)
      | None \<Rightarrow> (Inr (TcpListener (net_local N (connect_addr e))), paths))"
| "bind_listener N (Unix path) paths =
     (if path \<in> paths
      then (Inl (IoError (OtherKind ''AddrInUse'') (msg_of ''address in use'')), paths)
      else (case net_bind N path of
        Some err \<Rightarrow> (Inl (io_error err), paths)
      | None \<Rightarrow> (Inr (UnixListener path), insert path paths)))"

fun local_endpoint :: "proxy_listener \<Rightarrow> app_error + string" where
  "local_endpoint (TcpListener addr) = map_err io_error addr"
| "local_endpoint (UnixListener path) = Inr (''unix:'' @ path)"

text \<open>\<open>Drop\<close>: a socket file that cannot be removed is only logged.\<close>

fun drop_listener :: "network \<Rightarrow> proxy_listener \<Rightarrow> string set \<Rightarrow> string set" where
  "drop_listener N (TcpListener addr) paths = paths"
| "drop_listener N (UnixListener path) paths =
     (case net_unlink N path of None \<Rightarrow> paths - {path} | Some err \<Rightarrow> paths)"

section \<open>The state of the server\<close>

record connection =
  cn_client :: client
  cn_streaming :: bool

record server =
  sv_shared :: shared_state
  sv_pending :: "proxy_target list"
  sv_listeners :: "(proxy_listener \<times> proxy_target) list"
  sv_failed :: "app_error list"
  sv_conns :: "connection list"
  sv_paths :: "string set"
  sv_over :: "(app_error + unit) option"

datatype server_event =
    BindNext
  | Accepted nat "up_socket option list" proxy_stream writer arrivals
  | AcceptFailed nat "io_kind \<times> msg"
  | Received nat "nat \<times> nat" "app_error + bytes"
  | Streamed nat monitor_event
  | Signal "(io_kind \<times> msg) option"
  | ListenerJoined

definition remove_at :: "nat \<Rightarrow> 'a list \<Rightarrow> 'a list" where
  "remove_at i xs = take i xs @ drop (Suc i) xs"

definition server_start :: "topology \<Rightarrow> repro_file option \<Rightarrow> string set \<Rightarrow> server" where
  "server_start t repro paths =
     \<lparr>sv_shared = initial_state t repro, sv_pending = targets t, sv_listeners = [], sv_failed = [],
      sv_conns = [], sv_paths = paths, sv_over = None\<rparr>"

section \<open>Connections\<close>

text \<open>The task of a connection is over: its receiver and its \<open>ClientConnection\<close> guard are dropped.\<close>

definition release :: "connection \<Rightarrow> shared_state \<Rightarrow> shared_state" where
  "release cn sh = sh\<lparr>sh_stats := client_dropped (sh_stats sh),
     sh_receivers := sh_receivers sh - (if cn_streaming cn then 1 else 0)\<rparr>"

definition close_connection :: "nat \<Rightarrow> connection \<Rightarrow> shared_state \<Rightarrow> server \<Rightarrow> server" where
  "close_connection j cn sh s = s\<lparr>sv_conns := remove_at j (sv_conns s), sv_shared := release cn sh\<rparr>"

definition received :: "'r env \<Rightarrow> nat \<Rightarrow> app_error + bytes \<Rightarrow> server \<Rightarrow> server" where
  "received V j q s =
     (let cn = sv_conns s ! j in
      case q of
        Inl e \<Rightarrow> close_connection j cn (sv_shared s) s
      | Inr raw \<Rightarrow>
          (case handle_command V raw (cn_client cn) (sv_shared s) of
             (Continue, c, sh) \<Rightarrow> s\<lparr>sv_conns := (sv_conns s)[j := cn\<lparr>cn_client := c\<rparr>], sv_shared := sh\<rparr>
           | (Monitoring, c, sh) \<Rightarrow>
               s\<lparr>sv_conns := (sv_conns s)[j := \<lparr>cn_client = c, cn_streaming = True\<rparr>], sv_shared := sh\<rparr>
           | (over, c, sh) \<Rightarrow> close_connection j (cn\<lparr>cn_client := c\<rparr>) sh s))"

definition streamed :: "nat \<Rightarrow> monitor_event \<Rightarrow> server \<Rightarrow> server" where
  "streamed j ev s =
     (let cn = sv_conns s ! j in
      case stream_monitor [ev] (cn_client cn) of
        (Monitoring, c) \<Rightarrow> s\<lparr>sv_conns := (sv_conns s)[j := cn\<lparr>cn_client := c\<rparr>]\<rparr>
      | (over, c) \<Rightarrow> close_connection j (cn\<lparr>cn_client := c\<rparr>) (sv_shared s) s)"

definition accepted ::
  "'r env \<Rightarrow> nat \<Rightarrow> up_socket option list \<Rightarrow> proxy_stream \<Rightarrow> writer \<Rightarrow> arrivals \<Rightarrow> server \<Rightarrow> server" where
  "accepted V i net socket w reads s =
     (case accept_client V (snd (sv_listeners s ! i)) net socket w reads (sv_shared s) of
        (c, sh) \<Rightarrow> s\<lparr>sv_conns := sv_conns s @ [\<lparr>cn_client = c, cn_streaming = False\<rparr>], sv_shared := sh\<rparr>)"

section \<open>Listener tasks and the end\<close>

text \<open>\<open>serve_topology\<close> returns: the set of listener tasks is dropped, and with the runtime every
  connection task.\<close>

definition finish_server :: "network \<Rightarrow> app_error + unit \<Rightarrow> server \<Rightarrow> server" where
  "finish_server N r s =
     s\<lparr>sv_over := Some r,
       sv_paths := fold (\<lambda>(l, t). drop_listener N l) (sv_listeners s) (sv_paths s),
       sv_listeners := [], sv_pending := [],
       sv_shared := fold release (sv_conns s) (sv_shared s), sv_conns := []\<rparr>"

definition bind_next :: "network \<Rightarrow> server \<Rightarrow> server" where
  "bind_next N s =
     (case sv_pending s of
        [] \<Rightarrow> s
      | t # ts \<Rightarrow>
          (case bind_listener N (target_listen t) (sv_paths s) of
             (Inl e, paths) \<Rightarrow> finish_server N (Inl e) (s\<lparr>sv_paths := paths\<rparr>)
           | (Inr l, paths) \<Rightarrow>
               (case local_endpoint l of
                  Inl e \<Rightarrow> finish_server N (Inl e) (s\<lparr>sv_paths := drop_listener N l paths\<rparr>)
                | Inr addr \<Rightarrow>
                    s\<lparr>sv_pending := ts, sv_listeners := sv_listeners s @ [(l, t)], sv_paths := paths\<rparr>)))"

text \<open>The task of a listener ends with the first error of \<open>accept\<close>, and drops the listener.\<close>

definition accept_failed :: "network \<Rightarrow> nat \<Rightarrow> io_kind \<times> msg \<Rightarrow> server \<Rightarrow> server" where
  "accept_failed N i err s =
     s\<lparr>sv_listeners := remove_at i (sv_listeners s),
       sv_failed := sv_failed s @ [io_error err],
       sv_paths := drop_listener N (fst (sv_listeners s ! i)) (sv_paths s)\<rparr>"

text \<open>The branches of the \<open>select!\<close>, entered when every target is bound: a signal, or the first
  listener task that ended. \<open>stats.report()\<close> never returns.\<close>

definition signalled :: "network \<Rightarrow> (io_kind \<times> msg) option \<Rightarrow> server \<Rightarrow> server" where
  "signalled N err s = finish_server N (case err of Some e \<Rightarrow> Inl (io_error e) | None \<Rightarrow> Inr ()) s"

definition listener_joined :: "network \<Rightarrow> server \<Rightarrow> server" where
  "listener_joined N s =
     (case sv_failed s of
        e # es \<Rightarrow> finish_server N (Inl e) s
      | [] \<Rightarrow> if sv_listeners s = [] then finish_server N (Inr ()) s else s)"

section \<open>The machine\<close>

definition can_read :: "nat \<Rightarrow> bool \<Rightarrow> server \<Rightarrow> bool" where
  "can_read j streaming s \<longleftrightarrow> j < length (sv_conns s) \<and> cn_streaming (sv_conns s ! j) = streaming"

text \<open>An event that is not possible in a state changes nothing.\<close>

fun server_event_apply :: "network \<Rightarrow> 'r env \<Rightarrow> server_event \<Rightarrow> server \<Rightarrow> server" where
  "server_event_apply N V BindNext s = bind_next N s"
| "server_event_apply N V (Accepted i net socket w reads) s =
     (if i < length (sv_listeners s) then accepted V i net socket w reads s else s)"
| "server_event_apply N V (AcceptFailed i err) s =
     (if i < length (sv_listeners s) then accept_failed N i err s else s)"
| "server_event_apply N V (Received j now q) s =
     (if can_read j False s then received (V\<lparr>clock := now\<rparr>) j q s else s)"
| "server_event_apply N V (Streamed j ev) s = (if can_read j True s then streamed j ev s else s)"
| "server_event_apply N V (Signal err) s = (if sv_pending s = [] then signalled N err s else s)"
| "server_event_apply N V ListenerJoined s = (if sv_pending s = [] then listener_joined N s else s)"

definition server_apply :: "network \<Rightarrow> 'r env \<Rightarrow> server_event \<Rightarrow> server \<Rightarrow> server" where
  "server_apply N V ev s = (if sv_over s \<noteq> None then s else server_event_apply N V ev s)"

definition run_server :: "network \<Rightarrow> 'r env \<Rightarrow> server_event list \<Rightarrow> server \<Rightarrow> server" where
  "run_server N V events s = fold (server_apply N V) events s"

definition machine_step :: "network \<Rightarrow> 'r env \<Rightarrow> server \<Rightarrow> server \<Rightarrow> bool" where
  "machine_step N V s s' \<longleftrightarrow> (\<exists>ev. s' = server_apply N V ev s)"

abbreviation server_reached ::
  "network \<Rightarrow> 'r env \<Rightarrow> topology \<Rightarrow> repro_file option \<Rightarrow> string set \<Rightarrow> nat \<Rightarrow> server \<Rightarrow> bool" where
  "server_reached N V t repro paths \<equiv> reached_in (\<lambda>s. s = server_start t repro paths) (machine_step N V)"

lemma run_server_reached:
  "server_reached N V t repro paths (length events) (run_server N V events (server_start t repro paths))"
  by (induction events rule: rev_induct)
    (auto simp: run_server_def machine_step_def reached_suc intro: reach_start)

section \<open>Starting\<close>

text \<open>The probe of the upstream: a connection of its own, identified like any other session.\<close>

definition fetch_cluster_slots :: "(frame \<Rightarrow> string) \<Rightarrow> up_socket option \<Rightarrow> app_error + frame" where
  "fetch_cluster_slots dbg net =
     (case net of
        None \<Rightarrow> Inl (IoError (OtherKind ''ConnectionRefused'') (msg_of ''connection refused''))
      | Some k \<Rightarrow>
     (case identity_apply dbg identity_default k of
        (Inl e, ps, k) \<Rightarrow> Inl e
      | (Inr _, ps, k) \<Rightarrow>
     (case write_all (encode cluster_slots_command) k of
        (Inl e, k) \<Rightarrow> Inl e
      | (Inr _, k) \<Rightarrow>
     (case flush_socket k of
        (Inl e, k) \<Rightarrow> Inl e
      | (Inr _, k) \<Rightarrow>
     (case read_reply k of
        (Inl e, k) \<Rightarrow> Inl e
      | (Inr raw, k) \<Rightarrow> parse_frame raw)))))"

text \<open>\<open>run\<close> up to \<open>serve_topology\<close>: the repro file is opened first, then the upstream is probed.\<close>

definition open_repro :: "((io_kind \<times> msg) + repro_file) option \<Rightarrow> app_error + repro_file option" where
  "open_repro file =
     (case file of
        None \<Rightarrow> Inr None
      | Some (Inl e) \<Rightarrow> Inl (io_error e)
      | Some (Inr r) \<Rightarrow> Inr (Some r))"

definition run_start ::
  "(string \<Rightarrow> app_error + socket_addr) \<Rightarrow> (frame \<Rightarrow> string) \<Rightarrow> (tcp_endpoint \<Rightarrow> up_socket option)
   \<Rightarrow> ((io_kind \<times> msg) + repro_file) option \<Rightarrow> endpoint \<Rightarrow> endpoint \<Rightarrow> string set
   \<Rightarrow> app_error + server option" where
  "run_start parse_addr dbg connect file proxy listen paths =
     and_then (open_repro file) (\<lambda>repro.
       map_ok (map_option (\<lambda>t. server_start t repro paths))
         (discover (\<lambda>p. fetch_cluster_slots dbg (connect p)) parse_addr dbg proxy listen))"

end
