(* ===== verification/Server_Props.thy ===== *)
theory Server_Props
  imports Server
begin

text \<open>
  What the server keeps whatever its tasks do in whatever order: the accounts of its connections,
  and the socket files of its Unix listeners.
\<close>

section \<open>Lists updated at an index\<close>

lemma split_at:
  assumes "j < length xs"
  obtains us vs where "xs = us @ xs ! j # vs" "remove_at j xs = us @ vs" "\<And>y. xs[j := y] = us @ y # vs"
proof
  show "xs = take j xs @ xs ! j # drop (Suc j) xs" using assms by (rule id_take_nth_drop)
  show "remove_at j xs = take j xs @ drop (Suc j) xs" by (simp add: remove_at_def)
  show "xs[j := y] = take j xs @ y # drop (Suc j) xs" for y using assms by (rule upd_conv_take_nth_drop)
qed

section \<open>The accounts of the connections\<close>

abbreviation cn_id :: "connection \<Rightarrow> u64" where
  "cn_id cn \<equiv> cl_id (cn_client cn)"

text \<open>After \<open>n\<close> steps: the counters are those of the connections there are, each has an id of its
  own, a valid configuration and the topology the server started with.\<close>

definition accounts :: "topology \<Rightarrow> nat \<Rightarrow> shared_state \<Rightarrow> connection list \<Rightarrow> bool" where
  "accounts t n sh conns \<longleftrightarrow>
     clients_active (sh_stats sh) = of_nat (length conns)
     \<and> clients_total (sh_stats sh) = sh_connection_ids sh
     \<and> unat (sh_connection_ids sh) \<le> n \<and> length conns \<le> unat (sh_connection_ids sh)
     \<and> sh_receivers sh = length (filter cn_streaming conns)
     \<and> distinct (map cn_id conns)
     \<and> (\<forall>cn\<in>set conns. client_ok (cn_client cn) \<and> cn_id cn < sh_connection_ids sh)
     \<and> sh_local_slots sh = local_slots_response t \<and> sh_redirection_map sh = local_redirection_map t"

lemma accounts_later: "accounts t n sh conns \<Longrightarrow> n \<le> m \<Longrightarrow> accounts t m sh conns"
  by (auto simp: accounts_def)

lemma accounts_release:
  assumes "accounts t n sh (xs @ cn # ys)" shows "accounts t n (release cn sh) (xs @ ys)"
  using assms by (auto simp: accounts_def release_def client_dropped_def)

lemma accounts_release_all: "accounts t n sh conns \<Longrightarrow> accounts t n (fold release conns sh) []"
proof (induction conns arbitrary: sh)
  case (Cons cn conns)
  then show ?case using accounts_release [of t n sh "[]" cn conns] by simp
qed simp

lemma accounts_framed:
  assumes "accounts t n sh (xs @ cn # ys)" and "framed (cn_client cn) sh (r, c, sh')" and "client_ok c"
    and "streaming = (cn_streaming cn \<or> r = Monitoring)" and "cn_streaming cn \<longrightarrow> r \<noteq> Monitoring"
  shows "accounts t n sh' (xs @ \<lparr>cn_client = c, cn_streaming = streaming\<rparr> # ys)"
  using assms by (auto simp: accounts_def framed_def)

lemma accepted_client_ok:
  assumes "accept_client V target net socket w reads sh = (c, sh')" shows "client_ok c"
proof -
  have "\<not> requires_tcp (cfg_transport config_default)"
    by (simp add: config_default_def requires_tcp_def transport_default_def fault_default_def)
  moreover have "cl_config c = config_default" using assms by (auto simp: accept_client_def)
  ultimately show ?thesis by (simp add: client_ok_def)
qed

lemma accounts_accept:
  assumes "accounts t n sh conns" and "accept_client V target net socket w reads sh = (c, sh')"
    and "Suc n < 2 ^ 64"
  shows "accounts t (Suc n) sh' (conns @ [\<lparr>cn_client = c, cn_streaming = False\<rparr>])"
proof -
  have more: "unat (sh_connection_ids sh + 1) = Suc (unat (sh_connection_ids sh))"
    using assms(1,3) by (simp add: accounts_def unat_word_ariths(1))
  then have "sh_connection_ids sh < sh_connection_ids sh + 1" by (simp add: word_less_nat_alt)
  moreover have "client_ok c" using accepted_client_ok [OF assms(2)] .
  ultimately show ?thesis
    using assms(1,2) more
    by (auto simp: accounts_def accept_client_def client_connected_def less_trans)
qed

section \<open>Steps\<close>

definition server_inv :: "topology \<Rightarrow> nat \<Rightarrow> server \<Rightarrow> bool" where
  "server_inv t n s \<longleftrightarrow> accounts t n (sv_shared s) (sv_conns s)"

lemma close_connection_inv:
  assumes "accounts t n sh' (xs @ cn # ys)" and "remove_at j (sv_conns s) = xs @ ys"
  shows "server_inv t n (close_connection j cn sh' s)"
  using accounts_release [OF assms(1)] assms(2) by (simp add: server_inv_def close_connection_def)

lemma received_inv:
  assumes inv: "server_inv t n s" and j: "can_read j False s"
  shows "server_inv t n (received V j q s)"
proof -
  let ?cn = "sv_conns s ! j"
  have "j < length (sv_conns s)" and quiet: "\<not> cn_streaming ?cn" using j by (simp_all add: can_read_def)
  then obtain xs ys where conns: "sv_conns s = xs @ ?cn # ys" "remove_at j (sv_conns s) = xs @ ys"
    "\<And>y. (sv_conns s)[j := y] = xs @ y # ys" by (metis split_at)
  have acc: "accounts t n (sv_shared s) (xs @ ?cn # ys)" using inv conns(1) by (simp add: server_inv_def)
  show ?thesis
  proof (cases q)
    case (Inl e)
    then show ?thesis using close_connection_inv [OF acc conns(2)] by (simp add: received_def)
  next
    case (Inr raw)
    obtain r c sh where h: "handle_command V raw (cn_client ?cn) (sv_shared s) = (r, c, sh)"
      by (metis prod.exhaust)
    have "client_ok c"
      using acc handle_command_ok [of "cn_client ?cn" V raw "sv_shared s"] h by (simp add: accounts_def)
    then have next_acc: "accounts t n sh (xs @ \<lparr>cn_client = c, cn_streaming = (r = Monitoring)\<rparr> # ys)"
      using accounts_framed [OF acc, of r c sh "r = Monitoring"] handle_command_framed h quiet by metis
    have same: "?cn\<lparr>cn_client := c\<rparr> = \<lparr>cn_client = c, cn_streaming = False\<rparr>" using quiet by simp
    show ?thesis
      using next_acc close_connection_inv [OF _ conns(2), of t n sh "\<lparr>cn_client = c, cn_streaming = False\<rparr>"] same
      by (cases r) (simp_all add: received_def Let_def Inr h conns(3) server_inv_def)
  qed
qed

lemma stream_monitor_one:
  "stream_monitor [ev] c = (r, c') \<Longrightarrow> same_settings c c'"
  by (cases ev) (auto split: prod.splits sum.splits dest!: write_client_framed)

lemma streamed_inv:
  assumes inv: "server_inv t n s" and j: "can_read j True s"
  shows "server_inv t n (streamed j ev s)"
proof -
  let ?cn = "sv_conns s ! j"
  have "j < length (sv_conns s)" and on: "cn_streaming ?cn" using j by (simp_all add: can_read_def)
  then obtain xs ys where conns: "sv_conns s = xs @ ?cn # ys" "remove_at j (sv_conns s) = xs @ ys"
    "\<And>y. (sv_conns s)[j := y] = xs @ y # ys" by (metis split_at)
  have acc: "accounts t n (sv_shared s) (xs @ ?cn # ys)" using inv conns(1) by (simp add: server_inv_def)
  obtain r c where m: "stream_monitor [ev] (cn_client ?cn) = (r, c)" by (metis prod.exhaust)
  have set: "same_settings (cn_client ?cn) c" using stream_monitor_one [OF m] .
  have "client_ok c" using acc same_settings_ok [OF _ set] by (simp add: accounts_def)
  then have next_acc: "accounts t n (sv_shared s) (xs @ \<lparr>cn_client = c, cn_streaming = True\<rparr> # ys)"
    using accounts_framed [OF acc framed_same [OF _ set, of Return "sv_shared s"], of True] on by simp
  have same: "?cn\<lparr>cn_client := c\<rparr> = \<lparr>cn_client = c, cn_streaming = True\<rparr>" using on by simp
  show ?thesis
    using next_acc close_connection_inv [OF _ conns(2), of t n "sv_shared s"] same
    by (cases r) (simp_all add: streamed_def Let_def m conns(3) server_inv_def)
qed

lemma finish_server_inv: "server_inv t n s \<Longrightarrow> server_inv t n (finish_server N r s)"
  by (simp add: server_inv_def finish_server_def accounts_release_all)

lemma server_inv_cong:
  "server_inv t n s \<Longrightarrow> sv_shared s' = sv_shared s \<Longrightarrow> sv_conns s' = sv_conns s \<Longrightarrow> server_inv t n s'"
  by (simp add: server_inv_def)

lemma bind_next_inv: "server_inv t n s \<Longrightarrow> server_inv t n (bind_next N s)"
  by (auto simp: bind_next_def server_inv_cong intro!: finish_server_inv split: list.splits prod.splits sum.splits)

lemma server_step_inv:
  assumes "server_inv t n s" and "machine_step N V s s'" and "Suc n < 2 ^ 64"
  shows "server_inv t (Suc n) s'"
proof -
  obtain ev where s': "s' = server_apply N V ev s" using assms(2) by (auto simp: machine_step_def)
  have later: "server_inv t (Suc n) u" if "server_inv t n u" for u
    using that by (simp add: server_inv_def accounts_later)
  have "server_inv t (Suc n) (server_event_apply N V ev s)"
  proof (cases ev)
    case (Accepted i net socket w reads)
    obtain c sh where a: "accept_client V (snd (sv_listeners s ! i)) net socket w reads (sv_shared s) = (c, sh)"
      by force
    then show ?thesis
      using Accepted accounts_accept [OF _ a assms(3), of t "sv_conns s"] assms(1) later [OF assms(1)]
      by (simp add: accepted_def server_inv_def)
  qed (use assms(1) in \<open>auto intro!: later bind_next_inv received_inv streamed_inv finish_server_inv
      simp: accept_failed_def signalled_def listener_joined_def server_inv_cong split: list.splits\<close>)
  then show ?thesis using s' later [OF assms(1)] by (simp add: server_apply_def)
qed

interpretation accounting: bounded_invariant "\<lambda>s. s = server_start t repro paths" "machine_step N V"
  "server_inv t" "2 ^ 64" for t repro paths N V
proof unfold_locales
  show "server_inv t 0 s" if "s = server_start t repro paths" for s
    using that by (simp add: server_inv_def server_start_def accounts_def initial_state_def stats_default_def)
qed (use server_step_inv in blast)

text \<open>C23: The server's accounts are right. However accepted clients, commands of different
  connections, monitor lines, failures and the end of the server interleave, the active count is
  the number of open connections, the total the number ever accepted and the monitor's receiver
  count the number of connections that stream; every connection has an id of its own and a valid
  configuration, and the topology is the one the server was started with; for runs shorter than
  2^64 steps.\<close>

theorem server_accounts:
  assumes "server_reached N V t repro paths n s" and "n < 2 ^ 64"
  shows "let sh = sv_shared s; conns = sv_conns s in
    unat (clients_active (sh_stats sh)) = length conns
    \<and> clients_total (sh_stats sh) = sh_connection_ids sh \<and> length conns \<le> unat (sh_connection_ids sh)
    \<and> sh_receivers sh = length (filter cn_streaming conns)
    \<and> distinct (map cn_id conns) \<and> (\<forall>cn\<in>set conns. client_ok (cn_client cn))
    \<and> sh_local_slots sh = local_slots_response t \<and> sh_redirection_map sh = local_redirection_map t"
proof -
  have acc: "accounts t n (sv_shared s) (sv_conns s)"
    using accounting.invariant [OF assms] by (simp add: server_inv_def)
  then have "length (sv_conns s) < 2 ^ 64" using assms(2) by (auto simp: accounts_def)
  then have "unat (of_nat (length (sv_conns s)) :: u64) = length (sv_conns s)"
    by (simp add: unsigned_of_nat take_bit_nat_eq_self)
  then show ?thesis using acc by (auto simp: accounts_def Let_def)
qed

definition sample_network :: network where
  "sample_network = \<lparr>net_bind = (\<lambda>_. None), net_local = (\<lambda>a. Inr a), net_unlink = (\<lambda>_. None)\<rparr>"

definition lone_target :: proxy_target where
  "lone_target = \<lparr>target_upstream = Unix ''up'', target_listen = Unix ''down''\<rparr>"

theorem server_accounts_witness:
  "\<exists>s. server_reached sample_network sample_env (Standalone lone_target) None {''up''} 3 s
     \<and> length (sv_conns s) = 2 \<and> unat (clients_active (sh_stats (sv_shared s))) = 2"
proof -
  let ?evs = "[BindNext, Accepted 0 [] UnixSocket plain_writer [], Accepted 0 [] UnixSocket plain_writer []]"
  let ?s = "run_server sample_network sample_env ?evs (server_start (Standalone lone_target) None {''up''})"
  have r: "server_reached sample_network sample_env (Standalone lone_target) None {''up''} 3 ?s"
    using run_server_reached [where events = ?evs and V = sample_env and N = sample_network
        and t = "Standalone lone_target" and repro = None and paths = "{''up''}"] by (simp add: eval_nat_numeral)
  have "length (sv_conns ?s) = 2"
    by (simp add: run_server_def server_apply_def server_start_def bind_next_def lone_target_def sample_network_def
        accepted_def accept_client_def)
  with server_accounts [OF r] r show ?thesis by (intro exI [of _ ?s]) (simp add: Let_def)
qed

section \<open>Socket files\<close>

fun unix_path :: "proxy_listener \<Rightarrow> string list" where
  "unix_path (TcpListener addr) = []"
| "unix_path (UnixListener path) = [path]"

definition unix_paths :: "(proxy_listener \<times> proxy_target) list \<Rightarrow> string list" where
  "unix_paths ls = concat (map (unix_path \<circ> fst) ls)"

lemma unix_paths_simps [simp]:
  "unix_paths [] = []" "unix_paths ((l, t) # ls) = unix_path l @ unix_paths ls"
  "unix_paths (ls @ ls') = unix_paths ls @ unix_paths ls'"
  by (simp_all add: unix_paths_def)

definition unlinks :: "network \<Rightarrow> bool" where
  "unlinks N \<longleftrightarrow> (\<forall>path. net_unlink N path = None)"

lemma drop_listener_paths: "unlinks N \<Longrightarrow> drop_listener N l paths = paths - set (unix_path l)"
  by (cases l) (simp_all add: unlinks_def)

lemma drop_listeners_paths:
  "unlinks N \<Longrightarrow> fold (\<lambda>(l, t). drop_listener N l) ls paths = paths - set (unix_paths ls)"
  by (induction ls arbitrary: paths) (auto simp: drop_listener_paths)

lemma bind_listener_paths:
  assumes "bind_listener N e paths = (r, paths')"
  shows "case r of Inl err \<Rightarrow> paths' = paths
    | Inr l \<Rightarrow> paths' = paths \<union> set (unix_path l) \<and> set (unix_path l) \<inter> paths = {} \<and> distinct (unix_path l)"
  using assms by (cases e) (auto split: if_splits option.splits)

text \<open>The files of other processes and one file for every Unix listener.\<close>

definition paths_inv :: "string set \<Rightarrow> server \<Rightarrow> bool" where
  "paths_inv others s \<longleftrightarrow> sv_paths s = others \<union> set (unix_paths (sv_listeners s))
     \<and> others \<inter> set (unix_paths (sv_listeners s)) = {} \<and> distinct (unix_paths (sv_listeners s))
     \<and> (sv_over s \<noteq> None \<longrightarrow> sv_listeners s = [])"

lemma finish_server_paths:
  "unlinks N \<Longrightarrow> paths_inv others s \<Longrightarrow> paths_inv others (finish_server N r s)"
  by (auto simp: paths_inv_def finish_server_def drop_listeners_paths)

lemma paths_inv_cong:
  "paths_inv others s \<Longrightarrow> sv_paths s' = sv_paths s \<Longrightarrow> sv_listeners s' = sv_listeners s
     \<Longrightarrow> sv_over s' = sv_over s \<Longrightarrow> paths_inv others s'"
  by (simp add: paths_inv_def)

lemma connection_steps_paths:
  "sv_paths (received V j q s) = sv_paths s" "sv_listeners (received V j q s) = sv_listeners s"
  "sv_over (received V j q s) = sv_over s"
  "sv_paths (streamed j ev s) = sv_paths s" "sv_listeners (streamed j ev s) = sv_listeners s"
  "sv_over (streamed j ev s) = sv_over s"
  "sv_paths (accepted V i net socket w reads s) = sv_paths s"
  "sv_listeners (accepted V i net socket w reads s) = sv_listeners s"
  "sv_over (accepted V i net socket w reads s) = sv_over s"
  by (simp_all add: received_def streamed_def accepted_def close_connection_def Let_def
      split: sum.splits prod.splits step_end.splits)

lemma bind_next_paths:
  assumes N: "unlinks N" and inv: "paths_inv others s" and on: "sv_over s = None"
  shows "paths_inv others (bind_next N s)"
proof (cases "sv_pending s")
  case Nil
  then show ?thesis using inv by (simp add: bind_next_def)
next
  case (Cons t ts)
  obtain r paths where b: "bind_listener N (target_listen t) (sv_paths s) = (r, paths)" by force
  note paths = bind_listener_paths [OF b]
  show ?thesis
  proof (cases r)
    case (Inl e)
    then have "paths_inv others (s\<lparr>sv_paths := paths\<rparr>)" using inv paths by (simp add: paths_inv_def)
    then show ?thesis using Cons b Inl finish_server_paths [OF N] by (simp add: bind_next_def)
  next
    case (Inr l)
    show ?thesis
    proof (cases "local_endpoint l")
      case l: (Inl e)
      have "drop_listener N l paths = sv_paths s"
        using paths Inr by (auto simp: drop_listener_paths [OF N])
      then have "paths_inv others (s\<lparr>sv_paths := drop_listener N l paths\<rparr>)"
        using inv by (simp add: paths_inv_def)
      then show ?thesis using Cons b Inr l finish_server_paths [OF N] by (simp add: bind_next_def)
    next
      case l: (Inr addr)
      have fresh: "set (unix_path l) \<inter> others = {}" "set (unix_path l) \<inter> set (unix_paths (sv_listeners s)) = {}"
        using inv paths Inr by (auto simp: paths_inv_def)
      then show ?thesis
        using Cons b Inr l inv paths on by (auto simp: bind_next_def paths_inv_def)
    qed
  qed
qed

lemma accept_failed_paths:
  assumes N: "unlinks N" and inv: "paths_inv others s" and i: "i < length (sv_listeners s)"
    and on: "sv_over s = None"
  shows "paths_inv others (accept_failed N i err s)"
proof -
  obtain xs ys where ls: "sv_listeners s = xs @ sv_listeners s ! i # ys" "remove_at i (sv_listeners s) = xs @ ys"
    using split_at [OF i] by metis
  obtain l t where l: "sv_listeners s ! i = (l, t)" by force
  have "distinct (unix_paths xs @ unix_path l @ unix_paths ys)"
    and "sv_paths s = others \<union> set (unix_paths xs @ unix_path l @ unix_paths ys)"
    and "others \<inter> set (unix_paths xs @ unix_path l @ unix_paths ys) = {}"
    using inv ls(1) l unfolding paths_inv_def by (metis unix_paths_simps(2,3))+
  then show ?thesis
    using on ls(2) l by (auto simp: accept_failed_def paths_inv_def drop_listener_paths [OF N])
qed

lemma server_step_paths:
  assumes N: "unlinks N" and "paths_inv others s" and "machine_step N V s s'"
  shows "paths_inv others s'"
proof -
  obtain ev where s': "s' = server_apply N V ev s" using assms(3) by (auto simp: machine_step_def)
  show ?thesis
  proof (cases "sv_over s = None")
    case True
    have "paths_inv others (server_event_apply N V ev s)"
      using assms(2) True
      by (cases ev) (auto intro!: bind_next_paths accept_failed_paths finish_server_paths N
          simp: signalled_def listener_joined_def connection_steps_paths paths_inv_cong split: list.splits)
    then show ?thesis using s' True by (simp add: server_apply_def)
  qed (use s' assms(2) in \<open>simp add: server_apply_def\<close>)
qed

interpretation cleanup: state_invariant "\<lambda>s. s = server_start t repro others" "machine_step N V"
  "\<lambda>s. unlinks N \<longrightarrow> paths_inv others s" for t repro others N V
proof unfold_locales
  show "unlinks N \<longrightarrow> paths_inv others s" if "s = server_start t repro others" for s
    using that by (simp add: paths_inv_def server_start_def)
qed (blast intro: server_step_paths)

text \<open>C31: The server cleans up after itself. At any moment the socket files are those there were
  before it started and one for each of its Unix listeners; so it never removes a file it did not
  create, and when it is over, whether by a signal, a failed bind half way through the targets or a
  failed listener, every file it created is gone. The hypothesis is that socket files can be removed.\<close>

theorem server_cleans_up:
  assumes "\<forall>path. net_unlink N path = None" and "server_reached N V t repro others n s"
  shows "sv_paths s = others \<union> set (unix_paths (sv_listeners s))
    \<and> others \<inter> set (unix_paths (sv_listeners s)) = {} \<and> distinct (unix_paths (sv_listeners s))
    \<and> (sv_over s \<noteq> None \<longrightarrow> sv_paths s = others)"
  using cleanup.always [OF assms(2)] assms(1) by (auto simp: unlinks_def paths_inv_def)

definition two_targets :: topology where
  "two_targets = Cluster [lone_target, lone_target] []"

theorem server_cleans_up_witness:
  "\<exists>s. server_reached sample_network sample_env two_targets None {''up''} 2 s
     \<and> sv_over s = Some (Inl (IoError (OtherKind ''AddrInUse'') (msg_of ''address in use''))) \<and> sv_paths s = {''up''}"
proof -
  let ?s = "run_server sample_network sample_env [BindNext, BindNext] (server_start two_targets None {''up''})"
  have r: "server_reached sample_network sample_env two_targets None {''up''} 2 ?s"
    using run_server_reached [where events = "[BindNext, BindNext]" and V = sample_env] by (simp add: numeral_2_eq_2)
  have over: "sv_over ?s = Some (Inl (IoError (OtherKind ''AddrInUse'') (msg_of ''address in use'')))"
    by (simp add: run_server_def server_apply_def server_start_def bind_next_def lone_target_def sample_network_def
        two_targets_def finish_server_def)
  have "\<forall>path. net_unlink sample_network path = None" by (simp add: sample_network_def)
  note clean = server_cleans_up [OF this r]
  have "sv_paths ?s = {''up''}" by (rule mp [OF clean [THEN conjunct2, THEN conjunct2, THEN conjunct2]]) (simp add: over)
  with r over show ?thesis by (intro exI conjI)
qed

end
