(* ===== verification/Startup.thy ===== *)
theory Startup
  imports Server
begin

text \<open>
  What happens before the server runs: the options of \<open>cli.rs\<close> with the defaults it declares,
  the log filter of \<open>logging.rs\<close>, and the revision that \<open>build.rs\<close> puts in the version text.
  Reading the command line is crate \<open>clap\<close>'s, the log itself \<open>tracing\<close>'s.
\<close>

section \<open>Options\<close>

datatype log_mode = Human | Json

record cli =
  cli_proxy :: endpoint
  cli_listen :: endpoint
  cli_repro_file :: "string option"
  cli_log_mode :: log_mode
  cli_verbose :: nat

definition default_listen :: string where
  "default_listen = ''127.0.0.1:6380''"

text \<open>The options of a command line that only names the upstream.\<close>

definition cli_default :: "string \<Rightarrow> app_error + cli" where
  "cli_default proxy =
     and_then (parse_endpoint proxy) (\<lambda>p. and_then (parse_endpoint default_listen) (\<lambda>l.
       Inr \<lparr>cli_proxy = p, cli_listen = l, cli_repro_file = None, cli_log_mode = Human, cli_verbose = 0\<rparr>))"

section \<open>The log filter\<close>

definition default_level :: "nat \<Rightarrow> string" where
  "default_level verbosity =
     (if verbosity = 0 then ''evilresp=info''
      else if verbosity = 1 then ''evilresp=debug''
      else ''evilresp=trace'')"

text \<open>A filter in the environment is preferred to the verbosity.\<close>

definition log_filter :: "string option \<Rightarrow> nat \<Rightarrow> string" where
  "log_filter from_env verbosity = (case from_env of Some f \<Rightarrow> f | None \<Rightarrow> default_level verbosity)"

section \<open>The version text\<close>

text \<open>The first \<open>n\<close> characters of a text in UTF-8.\<close>

fun take_chars :: "nat \<Rightarrow> string \<Rightarrow> string" where
  "take_chars 0 s = []"
| "take_chars (Suc n) [] = []"
| "take_chars (Suc n) (c # s) =
     (let k = max 1 (utf8_width (byte c)) in take k (c # s) @ take_chars n (drop k (c # s)))"

definition revision :: "string option \<Rightarrow> string option \<Rightarrow> string" where
  "revision sha changes =
     (case (sha, changes) of
        (Some sha, Some changes) \<Rightarrow> take_chars 8 sha @ (if changes = [] then [] else ''-dirty'')
      | _ \<Rightarrow> ''unknown'')"

definition version_text :: "string \<Rightarrow> string option \<Rightarrow> string option \<Rightarrow> string option \<Rightarrow> string" where
  "version_text version sha changes date =
     version @ '' ('' @ revision sha changes @ '' '' @
       (case date of Some d \<Rightarrow> d | None \<Rightarrow> ''unknown'') @ '')''"

lemma take_chars_ascii:
  "\<forall>c\<in>set s. byte c < 128 \<Longrightarrow> take_chars n s = take n s"
  by (induction n s rule: take_chars.induct) (auto simp: utf8_width_def Let_def)

section \<open>Starting the program\<close>

text \<open>\<open>main\<close>: the options decide the targets and the record file; a fresh server takes them over.\<close>

definition main_start ::
  "(string \<Rightarrow> app_error + socket_addr) \<Rightarrow> (frame \<Rightarrow> string) \<Rightarrow> (tcp_endpoint \<Rightarrow> up_socket option)
   \<Rightarrow> (string \<Rightarrow> (io_kind \<times> msg) + repro_file) \<Rightarrow> cli \<Rightarrow> string set \<Rightarrow> app_error + server option" where
  "main_start parse_addr dbg connect opened options paths =
     run_start parse_addr dbg connect (map_option opened (cli_repro_file options))
       (cli_proxy options) (cli_listen options) paths"

text \<open>A server that starts has at least one target to listen on, no client, and both counters of
  the replay protocol at zero; a Unix endpoint on either side means exactly the one target given.\<close>

lemma started_server:
  assumes "run_start parse_addr dbg connect file proxy listen paths = Inr (Some s)"
  shows "sv_conns s = [] \<and> sv_listeners s = [] \<and> sv_paths s = paths \<and> sv_over s = None
    \<and> sh_reset_epoch (sv_shared s) = 0 \<and> sh_command_ids (sv_shared s) = 0
    \<and> (as_tcp proxy = None \<or> as_tcp listen = None \<longrightarrow>
         sv_pending s = [\<lparr>target_upstream = proxy, target_listen = listen\<rparr>] \<and> sh_local_slots (sv_shared s) = None)"
proof -
  obtain t repro where s: "s = server_start t repro paths"
    and t: "discover (\<lambda>p. fetch_cluster_slots dbg (connect p)) parse_addr dbg proxy listen = Inr (Some t)"
    using assms by (auto simp: run_start_def result_simps map_option_case split: option.splits)
  have "t = Standalone \<lparr>target_upstream = proxy, target_listen = listen\<rparr>"
    if "as_tcp proxy = None \<or> as_tcp listen = None"
    using t that by (auto simp: discover_def standalone_def split: option.splits)
  then show ?thesis by (auto simp: s server_start_def initial_state_def)
qed

end
