(* ===== verification/Session_Replay.thy ===== *)
theory Session_Replay
  imports Session
begin

text \<open>
  Replay: two runs of a session that agree on everything an outcome may depend on (the seed and
  settings, the command index, the upstream, the topology, the bytes of the client) give the same
  outcome, whatever else differs: the connection, its epoch, the time of day, statistics, monitors
  and earlier records. The argument relates the two runs handler by handler.
\<close>

section \<open>Two runs\<close>

definition anonymous :: "repro_record \<Rightarrow> repro_record" where
  "anonymous r = r\<lparr>rr_connection_id := 0\<rparr>"

text \<open>Where both runs keep records, they are the same up to the number of the connection.\<close>

definition same_records :: "repro_file option \<Rightarrow> repro_file option \<Rightarrow> bool" where
  "same_records f f' \<longleftrightarrow>
     (case (f, f') of (Some rs, Some rs') \<Rightarrow> map anonymous rs = map anonymous rs' | _ \<Rightarrow> True)"

definition shared_twin :: "shared_state \<Rightarrow> shared_state \<Rightarrow> bool" where
  "shared_twin sh sh' \<longleftrightarrow> sh_command_ids sh' = sh_command_ids sh \<and> sh_local_slots sh' = sh_local_slots sh
     \<and> sh_redirection_map sh' = sh_redirection_map sh \<and> same_records (sh_repro sh) (sh_repro sh')"

definition client_twin :: "client \<Rightarrow> client \<Rightarrow> bool" where
  "client_twin c c' \<longleftrightarrow> cl_config c' = cl_config c \<and> cl_fps c' = cl_fps c \<and> cl_tx c' = cl_tx c
     \<and> cl_upstream c' = cl_upstream c \<and> cl_writer c' = cl_writer c \<and> cl_socket c' = cl_socket c
     \<and> cl_arrivals c' = cl_arrivals c \<and> cl_listen c' = cl_listen c"

definition current :: "client \<Rightarrow> shared_state \<Rightarrow> bool" where
  "current c sh \<longleftrightarrow> cl_epoch c = sh_reset_epoch sh"

definition twin :: "client \<times> shared_state \<Rightarrow> client \<times> shared_state \<Rightarrow> bool" where
  "twin s s' \<longleftrightarrow> (case (s, s') of ((c, sh), (c', sh')) \<Rightarrow>
     client_twin c c' \<and> shared_twin sh sh' \<and> (current c sh \<longleftrightarrow> current c' sh'))"

definition same_code :: "'r env \<Rightarrow> 'r env \<Rightarrow> bool" where
  "same_code V V' \<longleftrightarrow> ext V' = ext V \<and> debug_frame V' = debug_frame V"

locale session_simulation =
  fixes T :: "client \<times> shared_state \<Rightarrow> client \<times> shared_state \<Rightarrow> bool" and V V' :: "nat \<Rightarrow> 'r env"
  assumes both: "T (c, sh) (c', sh') \<Longrightarrow> handle_command (V n) raw c sh = (r, d, st)
    \<Longrightarrow> handle_command (V' m) raw c' sh' = (r', d', st') \<Longrightarrow> r' = r \<and> T (d, st) (d', st')"
begin

lemma runs:
  assumes "T (c, sh) (c', sh')" and "run_commands V n raws c sh = (r, d, st)"
    and "run_commands V' m raws c' sh' = (r', d', st')"
  shows "r' = r \<and> T (d, st) (d', st')"
  using assms
proof (induction raws arbitrary: n m c sh c' sh')
  case (Cons raw raws)
  obtain q c1 sh1 where h: "handle_command (V n) raw c sh = (q, c1, sh1)" by (metis prod.exhaust)
  obtain q' c1' sh1' where h': "handle_command (V' m) raw c' sh' = (q', c1', sh1')" by (metis prod.exhaust)
  have q: "q' = q" and t: "T (c1, sh1) (c1', sh1')" using both [OF Cons.prems(1) h h'] by simp_all
  show ?case
  proof (cases "q = Continue")
    case True
    then show ?thesis using Cons.IH [OF t] Cons.prems(2,3) h h' q by simp
  next
    case False
    then show ?thesis using Cons.prems(2,3) h h' q t by (cases q) auto
  qed
qed auto

lemma sessions:
  assumes "T (c, sh) (c', sh')" and "serve V n input c sh = (r, d, st)"
    and "serve V' m input c' sh' = (r', d', st')"
  shows "r' = r \<and> T (d, st) (d', st')"
proof -
  obtain raws e where f: "frames_of input = (raws, e)" by force
  obtain q c1 sh1 where run: "run_commands V n raws c sh = (q, c1, sh1)" by (metis prod.exhaust)
  obtain q' c1' sh1' where run': "run_commands V' m raws c' sh' = (q', c1', sh1')" by (metis prod.exhaust)
  from runs [OF assms(1) run run'] show ?thesis
    using assms(2,3) f run run' by (cases q) (auto simp: serve_runs at_end_def)
qed

end

section \<open>Handlers\<close>

definition twin_handled :: "handled \<Rightarrow> handled \<Rightarrow> bool" where
  "twin_handled h h' \<longleftrightarrow> fst h' = fst h \<and> twin (snd h) (snd h')"

lemmas twin_defs = twin_handled_def twin_def client_twin_def current_def

lemma same_records_snoc:
  "same_records (Some rs) (Some rs') \<Longrightarrow> anonymous r = anonymous r'
     \<Longrightarrow> same_records (Some (rs @ [r])) (Some (rs' @ [r']))"
  by (simp add: same_records_def)

lemma reply_bytes_twin:
  "twin (c, sh) (c', sh') \<Longrightarrow> twin_handled (reply_bytes_to b c sh) (reply_bytes_to b c' sh')"
  by (auto simp: twin_defs reply_bytes_to_def after_write_def write_client_bytes_def
      split: prod.splits sum.splits)

lemma reply_frame_twin:
  "twin (c, sh) (c', sh') \<Longrightarrow> twin_handled (reply_frame_to f c sh) (reply_frame_to f c' sh')"
  by (simp add: reply_frame_to_def reply_bytes_twin)

lemma reply_uncounted_twin:
  "twin (c, sh) (c', sh') \<Longrightarrow> twin_handled (reply_uncounted b c sh) (reply_uncounted b c' sh')"
  by (auto simp: twin_defs reply_uncounted_def after_write_def split: prod.splits sum.splits)

lemma publish_twin:
  "twin (c, sh) (c', sh')
     \<Longrightarrow> twin (c, publish_monitor_command V f d sh) (c', publish_monitor_command V' f d' sh')"
  by (auto simp: twin_defs shared_twin_def publish_monitor_command_def split: list.splits)

lemma handle_monitor_twin:
  "twin (c, sh) (c', sh') \<Longrightarrow> twin_handled (handle_monitor argv c sh) (handle_monitor argv c' sh')"
proof (cases "length argv = 1")
  case True
  assume "twin (c, sh) (c', sh')"
  then show ?thesis using True
    by (auto simp: handle_monitor_def twin_defs shared_twin_def write_client_bytes_def split: prod.splits sum.splits)
qed (simp add: handle_monitor_def reply_frame_twin)

lemma twin_upstream:
  "twin (c, sh) (c', sh') \<Longrightarrow> twin (c\<lparr>cl_upstream := u\<rparr>, sh) (c'\<lparr>cl_upstream := u\<rparr>, sh')"
  "twin (c, sh) (c', sh') \<Longrightarrow>
     twin (c\<lparr>cl_upstream := u, cl_tx := tx\<rparr>, sh) (c'\<lparr>cl_upstream := u, cl_tx := tx\<rparr>, sh')"
  "twin (c, sh) (c', sh') \<Longrightarrow> twin (c\<lparr>cl_config := cfg\<rparr>, sh) (c'\<lparr>cl_config := cfg\<rparr>, sh')"
  "twin (c, sh) (c', sh') \<Longrightarrow> twin (c, sh\<lparr>sh_stats := st\<rparr>) (c', sh'\<lparr>sh_stats := st'\<rparr>)"
  by (simp_all add: twin_defs shared_twin_def)

lemma reply_unavailable_twin:
  "twin (c, sh) (c', sh') \<Longrightarrow> twin_handled (reply_unavailable u c sh) (reply_unavailable u c' sh')"
  by (simp add: reply_unavailable_def reply_bytes_twin twin_upstream)

lemma cluster_query_twin:
  assumes "twin (c, sh) (c', sh')" and "same_code V V'"
  shows "twin_handled (handle_cluster_query V raw argv c sh) (handle_cluster_query V' raw argv c' sh')"
proof -
  obtain q u where ex: "exchange (debug_frame V) raw argv (cl_upstream c) = (q, u)" by force
  have ex': "exchange (debug_frame V') raw argv (cl_upstream c') = (q, u)"
    and map: "sh_redirection_map sh' = sh_redirection_map sh"
    using assms ex by (simp_all add: twin_defs same_code_def shared_twin_def)
  show ?thesis
  proof (cases q)
    case (Inl e)
    then show ?thesis using ex ex' assms(1) by (simp add: handle_cluster_query_def reply_unavailable_twin)
  next
    case (Inr reply)
    note t = twin_upstream(1) [OF assms(1), of u]
    show ?thesis
      using ex ex' Inr t map
      by (cases "parse_frame reply")
        (auto simp: handle_cluster_query_def Let_def intro!: reply_frame_twin, simp add: twin_handled_def)
  qed
qed

lemma checked_debug_same: "fst (apply_debug_evil E argv tcp (cfg, st)) = (fst (checked_debug E argv tcp cfg),
    snd (fst (apply_debug_evil E argv tcp (cfg, st))))
  \<and> snd (apply_debug_evil E argv tcp (cfg, st)) = snd (apply_debug_evil E argv tcp (cfg, st'))"
  by (simp add: apply_debug_evil_def split: prod.splits sum.splits)

lemma debug_evil_twin:
  assumes "twin (c, sh) (c', sh')" and "same_code V V'"
  shows "twin_handled (handle_debug_evil V argv c sh) (handle_debug_evil V' argv c' sh')"
proof -
  let ?tcp = "supports_reset (cl_socket c)"
  obtain cfg st result where a: "apply_debug_evil (ext V) argv ?tcp (cl_config c, sh_stats sh)
      = ((cfg, st), result)" by (metis prod.exhaust)
  obtain st' where a': "apply_debug_evil (ext V) argv ?tcp (cl_config c, sh_stats sh') = ((cfg, st'), result)"
    using checked_debug_same [of "ext V" argv ?tcp "cl_config c" "sh_stats sh" "sh_stats sh'"]
      checked_debug_same [of "ext V" argv ?tcp "cl_config c" "sh_stats sh'" "sh_stats sh"] a
    by (metis fst_conv prod.collapse snd_conv)
  have same: "apply_debug_evil (ext V') argv (supports_reset (cl_socket c')) (cl_config c', sh_stats sh')
      = ((cfg, st'), result)"
    using a' assms by (simp add: twin_defs same_code_def)
  have t: "twin (c\<lparr>cl_config := cfg\<rparr>, sh\<lparr>sh_stats := st\<rparr>) (c'\<lparr>cl_config := cfg\<rparr>, sh'\<lparr>sh_stats := st'\<rparr>)"
    using assms(1) by (simp add: twin_upstream)
  show ?thesis
  proof (cases "dr_action result")
    case NoAction
    then show ?thesis using a same reply_bytes_twin [OF t] by (simp add: handle_debug_evil_def Let_def)
  next
    case ResetIncrementingState
    have "cl_writer c' = cl_writer c" using assms(1) by (simp add: twin_defs)
    then show ?thesis using a same assms(1) ResetIncrementingState
      by (auto simp: handle_debug_evil_def Let_def reset_incrementing_state_def twin_defs shared_twin_def
          split: prod.splits sum.splits)
  qed
qed

lemma debug_chaos_twin:
  assumes "twin (c, sh) (c', sh')" and "same_code V V'"
  shows "twin_handled (handle_debug_chaos V argv c sh) (handle_debug_chaos V' argv c' sh')"
proof -
  obtain cfg q where ch: "chaos_apply argv (cl_config c) = (cfg, q)" by force
  have same: "cl_config c' = cl_config c" "cl_fps c' = cl_fps c" "ext V' = ext V"
    using assms by (simp_all add: twin_defs same_code_def)
  show ?thesis
    using ch same assms(1)
    by (cases q) (simp_all add: handle_debug_chaos_def apply_debug_chaos_def reply_uncounted_twin twin_upstream)
qed

section \<open>The pipeline\<close>

lemma record_delivery_twin:
  assumes "shared_twin sh sh'" and "anonymous r = anonymous r'"
  shows "shared_twin (record_delivery E (map_option (\<lambda>_. r) (sh_repro sh)) plan wire out sh)
    (record_delivery E (map_option (\<lambda>_. r') (sh_repro sh')) plan wire out sh')"
  using assms
  by (cases "sh_repro sh"; cases "sh_repro sh'"; cases r; cases r')
    (simp_all add: record_delivery_def shared_twin_def append_record_def same_records_def anonymous_def)

lemma deliver_reply_twin:
  assumes "twin (c, sh) (c', sh')" and "same_code V V'"
  shows "twin_handled (deliver_reply V x up response plan c sh) (deliver_reply V' x up response plan c' sh')"
proof -
  let ?wire = "wire_bytes plan (reply_bytes response)"
  let ?entry = "\<lambda>c. repro_record_new (ext V) (cfg_seed (cl_config c)) (cl_id c) (cx_index x) (cx_bytes x) up
      (reply_bytes response) (cfg_mode (cl_config c)) (reply_mutations response)"
  obtain out q fps w where d: "deliver (ext V) ?wire plan (cl_fps c) (cl_writer c) = (out, q, fps, w)"
    by (metis prod.exhaust)
  have same: "cl_config c' = cl_config c" "cl_fps c' = cl_fps c" "cl_writer c' = cl_writer c"
    "cl_socket c' = cl_socket c" "cl_arrivals c' = cl_arrivals c" "ext V' = ext V"
    and sh: "shared_twin sh sh'"
    using assms by (simp_all add: twin_defs same_code_def)
  have anon: "anonymous (?entry c) = anonymous (?entry c')"
    by (simp add: anonymous_def repro_record_new_def same)
  note rec = record_delivery_twin [OF sh anon, of "ext V" plan ?wire]
  have recorded: "twin (c\<lparr>cl_fps := p, cl_writer := v\<rparr>, record_delivery (ext V) (map_option (\<lambda>_. ?entry c)
        (sh_repro sh)) plan ?wire o1 sh)
      (c'\<lparr>cl_fps := p, cl_writer := v\<rparr>, record_delivery (ext V) (map_option (\<lambda>_. ?entry c') (sh_repro sh'))
        plan ?wire o1 sh')" for p v o1
    using rec assms(1) by (simp add: twin_defs)
  have plain: "twin (c\<lparr>cl_fps := p, cl_writer := v\<rparr>, sh) (c'\<lparr>cl_fps := p, cl_writer := v\<rparr>, sh')" for p v
    using assms(1) by (simp add: twin_defs)
  show ?thesis
  proof (cases "connection_fault plan")
    case None
    then show ?thesis
      using d same recorded plain
      by (simp add: deliver_reply_def Let_def twin_handled_def)
  next
    case (Some f)
    obtain q2 out2 fps2 w2 where fin: "(case q of Inl e \<Rightarrow> (q, out, fps, w)
        | Inr _ \<Rightarrow> finish_fault (cl_socket c) (cl_arrivals c) f (out, fps, w)) = (q2, out2, fps2, w2)"
      by (metis prod.exhaust)
    then have fin': "(case q of Inl e \<Rightarrow> (q, out, fps, w)
        | Inr _ \<Rightarrow> finish_fault (cl_socket c') (cl_arrivals c') f (out, fps, w)) = (q2, out2, fps2, w2)"
      using same by (auto split: sum.splits)
    show ?thesis
      using fin fin' d same Some recorded
      by (simp add: deliver_reply_def Let_def twin_handled_def)
  qed
qed

lemma pre_topology_twin:
  "twin (c, sh) (c', sh') \<Longrightarrow> pre_topology E x c' sh' = pre_topology E x c sh"
  by (simp add: pre_topology_def redirect_ctx_def twin_defs shared_twin_def)

lemma normalize_twin:
  "shared_twin sh sh' \<Longrightarrow> normalize_cluster_redirection b sh' = normalize_cluster_redirection b sh"
  by (simp add: normalize_cluster_redirection_def shared_twin_def)

lemma post_topology_twin:
  "twin (c, sh) (c', sh') \<Longrightarrow> post_topology E x b c' sh' = post_topology E x b c sh"
  by (cases "sh_local_slots sh") (simp_all add: post_topology_def redirect_ctx_def twin_defs shared_twin_def)

lemma random_response_twin:
  "twin (c, sh) (c', sh') \<Longrightarrow> random_response E x pre c' sh' = random_response E x pre c sh"
  by (simp add: random_response_def twin_defs shared_twin_def cong: option.case_cong)

lemma forward_twin:
  assumes "twin (c, sh) (c', sh')" and "same_code V V'" and "forward V x pre c sh = (f, d)"
  shows "\<exists>d'. forward V' x pre c' sh' = (f, d') \<and> twin (d, sh) (d', sh')"
proof (cases pre)
  case (Some t)
  then show ?thesis using assms by (auto simp: forward_def)
next
  case None
  obtain q u where ex: "exchange (debug_frame V) (cx_bytes x) (cx_argv x) (cl_upstream c) = (q, u)" by force
  have ex': "exchange (debug_frame V') (cx_bytes x) (cx_argv x) (cl_upstream c') = (q, u)"
    and same: "cl_tx c' = cl_tx c" "ext V' = ext V" and sh: "shared_twin sh sh'"
    using assms ex by (simp_all add: twin_defs same_code_def)
  show ?thesis
  proof (cases q)
    case (Inl e)
    then show ?thesis using assms None ex ex' by (simp add: forward_def)
  next
    case (Inr raw)
    obtain commands tx where o: "observe (cl_tx c) (cx_argv x) raw = (commands, tx)" by force
    note t = twin_upstream(2) [OF assms(1), where u = u and tx = tx]
    show ?thesis
      using assms(3) None ex ex' Inr o same t normalize_twin [OF sh, of raw] post_topology_twin [OF t, of "ext V"]
      by (auto simp: forward_def Let_def split: sum.splits prod.splits)
  qed
qed

lemma produce_twin:
  assumes t: "twin (c, sh) (c', sh')" and code: "same_code V V'" and p: "produce V x before c sh = (r, d)"
  shows "\<exists>d'. produce V' x before c' sh' = (r, d') \<and> twin (d, sh) (d', sh')"
proof -
  let ?pre = "pre_topology (ext V) x c sh"
  have same: "cl_config c' = cl_config c" "ext V' = ext V" using t code by (simp_all add: twin_defs same_code_def)
  note equal = same pre_topology_twin [OF t, of "ext V"] random_response_twin [OF t, of "ext V"]
  obtain f d1 where f: "forward V x ?pre c sh = (f, d1)" by force
  obtain d1' where f': "forward V' x ?pre c' sh' = (f, d1')" and t1: "twin (d1, sh) (d1', sh')"
    using forward_twin [OF t code f] by blast
  consider "before \<noteq> None" | "before = None" "cfg_mode (cl_config c) = ModeRandom \<and> cx_mutate x"
    | "before = None" "\<not> (cfg_mode (cl_config c) = ModeRandom \<and> cx_mutate x)" by blast
  then show ?thesis
  proof cases
    case 1
    then show ?thesis using p t by (auto simp: produce_def Let_def)
  next
    case 2
    then show ?thesis using p t equal by (auto simp: produce_def Let_def split: sum.splits)
  next
    case 3
    then show ?thesis using p t1 equal f f' unfolding produce_def Let_def
      by (cases f) (auto split: sum.splits prod.splits)
  qed
qed

lemma respond_twin:
  assumes t: "twin (c, sh) (c', sh')" and code: "same_code V V'"
  shows "twin_handled (respond V x c sh) (respond V' x c' sh')"
proof -
  let ?before = "early_plan (ext V) (cl_config c) x"
  have same: "cl_config c' = cl_config c" "ext V' = ext V" using t code by (simp_all add: twin_defs same_code_def)
  obtain r d where p: "produce V x ?before c sh = (r, d)" by force
  obtain d' where p': "produce V' x ?before c' sh' = (r, d')" and td: "twin (d, sh) (d', sh')"
    using produce_twin [OF t code p] by blast
  show ?thesis
  proof (cases r)
    case (NoUpstream u)
    then show ?thesis using p p' same reply_unavailable_twin [OF td] by (simp add: respond_def Let_def)
  next
    case (Aborted e)
    then show ?thesis using p p' same td by (simp add: respond_def Let_def twin_handled_def)
  next
    case (Produced up response h)
    then show ?thesis using p p' same deliver_reply_twin [OF td code] by (simp add: respond_def Let_def)
  qed
qed

lemma handle_admitted_twin:
  assumes t: "twin (c, sh) (c', sh')" and code: "same_code V V'"
  shows "twin_handled (handle_admitted V raw f c sh) (handle_admitted V' raw f c' sh')"
proof (cases "current c sh")
  case False
  then show ?thesis using t by (simp add: handle_admitted_eq admit_def twin_defs)
next
  case True
  then have now: "cl_epoch c = sh_reset_epoch sh" "cl_epoch c' = sh_reset_epoch sh'"
    using t by (simp_all add: twin_def current_def)
  let ?sh = "sh\<lparr>sh_command_ids := sh_command_ids sh + 1\<rparr>" and ?sh' = "sh'\<lparr>sh_command_ids := sh_command_ids sh' + 1\<rparr>"
  have "twin (c, ?sh) (c', ?sh')" using t by (simp add: twin_defs shared_twin_def)
  from respond_twin [OF publish_twin [OF this, of V f c V' c'] code] t code show ?thesis
    by (simp add: handle_admitted_eq admit_def now) (simp add: twin_defs same_code_def shared_twin_def)
qed

lemma dispatch_twin:
  assumes t: "twin (c, sh) (c', sh')" and code: "same_code V V'"
  shows "twin_handled (dispatch V raw f c sh) (dispatch V' raw f c' sh')"
proof (cases "current c sh")
  case False
  then show ?thesis using t by (simp add: dispatch_eq Let_def twin_defs)
next
  case True
  then have now: "cl_epoch c = sh_reset_epoch sh" "cl_epoch c' = sh_reset_epoch sh'"
    using t by (simp_all add: twin_def current_def)
  have same: "cl_fps c' = cl_fps c" "ext V' = ext V" "sh_local_slots sh' = sh_local_slots sh"
    using t code by (simp_all add: twin_defs same_code_def shared_twin_def)
  note pub = publish_twin [of _ _ _ _ V f _ V' _]
  have fed: "twin (c\<lparr>cl_fps := fp_update DirIn raw (cl_fps c)\<rparr>, sh)
      (c'\<lparr>cl_fps := fp_update DirIn raw (cl_fps c')\<rparr>, sh')"
    using t by (simp add: twin_defs)
  show ?thesis
    using now same t fed code
    by (simp add: dispatch_eq Let_def reply_uncounted_twin debug_chaos_twin pub handle_monitor_twin debug_evil_twin
        reply_frame_twin cluster_query_twin handle_admitted_twin del: fp_update.simps split: option.splits)
qed

lemma handle_command_twin:
  assumes "twin (c, sh) (c', sh')" and "same_code V V'"
  shows "twin_handled (handle_command V raw c sh) (handle_command V' raw c' sh')"
  using assms dispatch_twin
  by (cases "parse_frame raw") (simp_all add: handle_command_def twin_handled_def)

section \<open>Whole sessions\<close>

text \<open>The program at given times of day.\<close>

definition timed :: "'r env \<Rightarrow> (nat \<Rightarrow> nat \<times> nat) \<Rightarrow> nat \<Rightarrow> 'r env" where
  "timed V hours k = V\<lparr>clock := hours k\<rparr>"

interpretation replay: session_simulation twin "timed V hours" "timed V hours'" for V hours hours'
proof unfold_locales
  fix c sh c' sh' n raw r d st m r' d' st'
  assume t: "twin (c, sh) (c', sh')" and h: "handle_command (timed V hours n) raw c sh = (r, d, st)"
    "handle_command (timed V hours' m) raw c' sh' = (r', d', st')"
  have "same_code (timed V hours n) (timed V hours' m)" by (simp add: same_code_def timed_def)
  from handle_command_twin [OF t this, of raw] h show "r' = r \<and> twin (d, st) (d', st')"
    by (simp add: twin_handled_def)
qed

text \<open>C6: A session is replayable. Two runs of a whole session that agree on the client's bytes, the
  settings and seed, the command index, the upstream's behaviour, the topology and the state of the
  connection end the same way, having sent the client the same bytes and come to the same
  settings, fingerprints, transaction queue, upstream session and command index, and having written
  the same repro records up to the connection's number; the connection's number and epoch, the time,
  the statistics, the monitors and connections of before may all differ.\<close>

theorem sessions_are_replayable:
  assumes "client_twin c c'" and "shared_twin sh sh'"
    and "cl_epoch c = sh_reset_epoch sh \<longleftrightarrow> cl_epoch c' = sh_reset_epoch sh'"
    and "serve (timed V hours) n input c sh = (r, d, st)" and "serve (timed V hours') m input c' sh' = (r', d', st')"
  shows "r' = r \<and> client_twin d d' \<and> shared_twin st st'
    \<and> (cl_epoch d = sh_reset_epoch st \<longleftrightarrow> cl_epoch d' = sh_reset_epoch st')"
proof -
  have "twin (c, sh) (c', sh')" using assms(1-3) by (simp add: twin_def current_def)
  from replay.sessions [OF this assms(4,5)] show ?thesis by (auto simp: twin_def current_def)
qed

text \<open>The same random reply, later, on another connection of a process that had a reset.\<close>

theorem sessions_are_replayable_witness:
  "sent (cl_writer (fst (snd (serve (timed sample_env (\<lambda>k. (k, 1))) 0 (encode (command_frame [''PING'']))
       (sample_client\<lparr>cl_id := 9, cl_epoch := 4\<rparr>) (sample_state\<lparr>sh_reset_epoch := 4, sh_receivers := 0\<rparr>)))))
   = sent (cl_writer (fst (snd (serve (timed sample_env (\<lambda>k. (0, 0))) 0 (encode (command_frame [''PING'']))
       sample_client sample_state))))"
proof -
  let ?c = "sample_client\<lparr>cl_id := 9, cl_epoch := 4\<rparr>" and ?sh = "sample_state\<lparr>sh_reset_epoch := 4, sh_receivers := 0\<rparr>"
  let ?input = "encode (command_frame [''PING''])"
  obtain r d st where h: "serve (timed sample_env (\<lambda>k. (0, 0))) 0 ?input sample_client sample_state = (r, d, st)"
    by (metis prod.exhaust)
  obtain r' d' st' where h': "serve (timed sample_env (\<lambda>k. (k, 1))) 0 ?input ?c ?sh = (r', d', st')"
    by (metis prod.exhaust)
  have "client_twin sample_client ?c" by (simp add: client_twin_def)
  moreover have "shared_twin sample_state ?sh"
    by (simp add: shared_twin_def same_records_def split: option.splits)
  moreover have "cl_epoch sample_client = sh_reset_epoch sample_state \<longleftrightarrow> cl_epoch ?c = sh_reset_epoch ?sh"
    by (simp add: sample_client_def sample_state_def initial_state_def)
  ultimately have "client_twin d d'" using sessions_are_replayable [OF _ _ _ h h'] by blast
  then show ?thesis unfolding h h' by (simp add: client_twin_def)
qed

end
