(* ===== verification/Repro_File.thy ===== *)
theory Repro_File
  imports Proxy_Record
begin

text \<open>
  The bytes of the repro file. \<open>Proxy\<close> keeps the file as the list of its records; here
  \<open>ReproWriter::append\<close> is modelled down to its writes, with the JSON text of a record
  (\<open>serde_json::to_vec\<close>) as a parameter, and the list is shown to be what the file says as long
  as the file takes what is written to it.
\<close>

section \<open>Appending\<close>

definition newline :: char where "newline = CHR 0x0A"

text \<open>A record that has no JSON text writes nothing; a write or flush that fails leaves the file with
  what it took. \<open>write_repro\<close> only logs either.\<close>

definition append_line ::
  "(repro_record \<Rightarrow> app_error + bytes) \<Rightarrow> repro_record \<Rightarrow> writer \<Rightarrow> (app_error + unit) \<times> writer" where
  "append_line json r out =
     (case json r of
        Inl e \<Rightarrow> (Inl e, out)
      | Inr js \<Rightarrow>
          (case write_all_client (js @ [newline]) out of
             (Inl e, out) \<Rightarrow> (Inl e, out)
           | (Inr _, out) \<Rightarrow>
               (case next_flush out of
                  (Some (k, m), out) \<Rightarrow> (Inl (IoError k m), out)
                | (None, out) \<Rightarrow> (Inr (), out))))"

definition write_repro :: "(repro_record \<Rightarrow> app_error + bytes) \<Rightarrow> repro_record \<Rightarrow> writer \<Rightarrow> writer" where
  "write_repro json r out = snd (append_line json r out)"

lemma write_all_client_prefix:
  "write_all_client b w = (q, w') \<Longrightarrow>
     \<exists>n\<le>length b. sent w' = sent w @ take n b \<and> (q = Inr () \<longrightarrow> n = length b)"
proof (induction b w arbitrary: q w' rule: write_all_client.induct)
  case (1 b w)
  show ?case
  proof (cases "b = []")
    case True
    then show ?thesis using "1.prems" write_all_client.simps [of "[]" w] by auto
  next
    case b: False
    obtain s w1 where s: "next_write b w = (s, w1)" by force
    show ?thesis
    proof (cases s)
      case (WriteError k m)
      then show ?thesis using "1.prems" b s next_write_error [of b w k m w1]
        by (auto simp: write_all_client.simps [of b])
    next
      case (Wrote n)
      note first = next_write_progress [OF s [unfolded Wrote]]
      show ?thesis
      proof (cases "n = 0")
        case True
        then show ?thesis using "1.prems" b s Wrote first by (auto simp: write_all_client.simps [of b])
      next
        case False
        have "write_all_client (drop n b) w1 = (q, w')"
          using "1.prems" b s Wrote False by (simp add: write_all_client.simps [of b])
        from "1.IH" [OF b s [symmetric] Wrote False this] obtain m where
          m: "m \<le> length b - n" "sent w' = sent w1 @ take m (drop n b)" "q = Inr () \<longrightarrow> m = length b - n"
          by auto
        then show ?thesis using first
          by (intro exI [of _ "n + m"]) (auto simp: take_add)
      qed
    qed
  qed
qed

text \<open>The file only grows, by a prefix of the record's line, and by all of it on success.\<close>

lemma append_line_prefix:
  assumes "append_line json r out = (q, out')"
  shows "case json r of
      Inl e \<Rightarrow> out' = out \<and> q = Inl e
    | Inr js \<Rightarrow> \<exists>n\<le>Suc (length js). sent out' = sent out @ take n (js @ [newline])
        \<and> (q = Inr () \<longrightarrow> n = Suc (length js))"
proof (cases "json r")
  case (Inl e)
  then show ?thesis using assms by (simp add: append_line_def)
next
  case (Inr js)
  obtain s w1 where w: "write_all_client (js @ [newline]) out = (s, w1)" by force
  obtain n where n: "n \<le> Suc (length js)" "sent w1 = sent out @ take n (js @ [newline])"
    "s = Inr () \<longrightarrow> n = Suc (length js)" using write_all_client_prefix [OF w] by auto
  have "sent out' = sent w1" "q = Inr () \<longrightarrow> s = Inr ()"
    using assms w Inr next_flush_same [of w1]
    by (auto simp: append_line_def split: sum.splits prod.splits option.splits)
  then show ?thesis using n Inr by auto
qed

section \<open>The file says the records\<close>

definition file_text :: "(repro_record \<Rightarrow> app_error + bytes) \<Rightarrow> repro_file \<Rightarrow> bytes" where
  "file_text json rs = concat (map (\<lambda>r. case json r of Inl e \<Rightarrow> [] | Inr js \<Rightarrow> js @ [newline]) rs)"

fun append_lines ::
  "(repro_record \<Rightarrow> app_error + bytes) \<Rightarrow> repro_file \<Rightarrow> writer \<Rightarrow> (app_error + unit) list \<times> writer" where
  "append_lines json [] out = ([], out)"
| "append_lines json (r # rs) out =
     (case append_line json r out of (q, out) \<Rightarrow>
        (case append_lines json rs out of (qs, out) \<Rightarrow> (q # qs, out)))"

lemma append_lines_text:
  "append_lines json rs out = (qs, out') \<Longrightarrow> set qs \<subseteq> {Inr ()}
     \<Longrightarrow> sent out' = sent out @ file_text json rs"
proof (induction rs arbitrary: out out' qs)
  case (Cons r rs)
  obtain q f1 where one: "append_line json r out = (q, f1)" by force
  obtain qs1 f2 where rest: "append_lines json rs f1 = (qs1, f2)" by force
  have q: "q = Inr ()" "set qs1 \<subseteq> {Inr ()}" "out' = f2" using Cons.prems one rest by auto
  obtain js where "json r = Inr js" using append_line_prefix [OF one] q(1) by (cases "json r") auto
  moreover have "sent f1 = sent out @ js @ [newline]"
    using append_line_prefix [OF one] q(1) \<open>json r = Inr js\<close> by auto
  ultimately show ?case using Cons.IH [OF rest q(2)] q(3) by (simp add: file_text_def)
qed (simp add: file_text_def)

text \<open>JSON text holds no line feed; then the lines of the file are the records', one each.\<close>

lemma split_on_line:
  "newline \<notin> set js \<Longrightarrow> split_on newline (js @ newline # rest) = js # split_on newline rest"
  by (induction js) (auto simp: split_on_def)

lemma file_lines:
  assumes "\<forall>r\<in>set rs. \<exists>js. json r = Inr js \<and> newline \<notin> set js"
  shows "split_on newline (file_text json rs) = map (\<lambda>r. case json r of Inl e \<Rightarrow> [] | Inr js \<Rightarrow> js) rs @ [[]]"
  using assms
proof (induction rs)
  case (Cons r rs)
  then obtain js where t: "json r = Inr js" "newline \<notin> set js" by auto
  have "split_on newline (file_text json rs) = map (\<lambda>r. case json r of Inl e \<Rightarrow> [] | Inr js \<Rightarrow> js) rs @ [[]]"
    using Cons by simp
  then show ?case using split_on_line [OF t(2)] t(1) by (simp add: file_text_def)
qed (simp add: file_text_def split_on_def)

text \<open>A record is never lost by itself: records written before a failed write are still there.\<close>

lemma append_lines_grow: "append_lines json rs out = (qs, out') \<Longrightarrow> \<exists>b. sent out' = sent out @ b"
proof (induction rs arbitrary: out out' qs)
  case (Cons r rs)
  obtain q f1 where one: "append_line json r out = (q, f1)" by force
  obtain qs1 f2 where rest: "append_lines json rs f1 = (qs1, f2)" by force
  have "\<exists>b. sent f1 = sent out @ b"
    using append_line_prefix [OF one] by (cases "json r") auto
  moreover have "out' = f2" using Cons.prems one rest by simp
  ultimately show ?case using Cons.IH [OF rest] by auto
qed simp

end
