(* ===== verification/Interleaving.thy ===== *)
theory Interleaving
  imports Server "HOL-Library.Multiset"
begin

text \<open>
  Interleaving inside a handler. \<open>Server\<close> takes a command from its reading to its reply in one
  step, while the program's tasks run on several threads. Here a connection is in a phase between any two
  accesses to data that another step reads: the epoch is loaded before the connection's number is
  taken; it is checked before what the check guards; under the read lock a command takes its index, then its
  line for MONITOR is published, then its reply is made; and DEBUG EVIL MODE RESET waits for the
  write lock with its statistics counted already. The lock makes one step of the second check and
  the index, and one of the two stores of a reset. A statistics update is an addition that no step reads;
  it is taken together with the access before or after it. What a reply does between its phases concerns its own client and
  upstream session only, apart from the record it appends under a lock.

  The monitor channel belongs to no step: nothing but a publication reads it, and its receivers
  and lines may be anything at any time (\<open>channel\<close>). The order of the lines is therefore not part of
  what is shown, and indeed two lines can stand in the other order than the indices of their commands.
  Every run is shown to be one of whole handlers, in the order in which the indices were taken and the
  resets done.
\<close>

section \<open>Connections between accesses\<close>

datatype phase = Accepted u64 | Idle client | Checked bytes frame client | Announcing frame command_ctx client
  | Busy command_ctx client | Resetting bytes frame client | Watching client | Gone bool client | Left

record pool =
  po_shared :: shared_state
  po_phases :: "phase list"

text \<open>In the middle of a handler.\<close>

fun busy :: "phase \<Rightarrow> bool" where
  "busy (Announcing f x c) = True"
| "busy (Busy x c) = True"
| "busy (Resetting raw f c) = True"
| "busy _ = False"

fun resetting :: "phase \<Rightarrow> bool" where
  "resetting (Resetting raw f c) = True"
| "resetting _ = False"

definition move :: "nat \<Rightarrow> phase \<Rightarrow> shared_state \<Rightarrow> pool \<Rightarrow> pool" where
  "move i p sh s = s\<lparr>po_shared := sh, po_phases := (po_phases s)[i := p]\<rparr>"

fun after :: "step_end \<Rightarrow> client \<Rightarrow> phase" where
  "after Continue c = Idle c"
| "after Monitoring c = Watching c"
| "after Return c = Gone False c"
| "after (Fail e) c = Gone False c"

definition counted_in :: "bytes \<Rightarrow> client \<Rightarrow> client" where
  "counted_in raw c = c\<lparr>cl_fps := fp_update DirIn raw (cl_fps c)\<rparr>"

definition in_phase :: "pool \<Rightarrow> nat \<Rightarrow> phase \<Rightarrow> bool" where
  "in_phase s i p \<longleftrightarrow> i < length (po_phases s) \<and> po_phases s ! i = p"

text \<open>What both machines do in the same way: the time of day is that of the step.\<close>

inductive common_step :: "'r env \<Rightarrow> pool \<Rightarrow> pool \<Rightarrow> bool" for V :: "'r env" where
  arrived: "common_step V s (s\<lparr>po_phases := po_phases s @ [Accepted (sh_reset_epoch (po_shared s))]\<rparr>)"
| opened: "in_phase s i (Accepted e) \<Longrightarrow> accept_client V target net socket w reads (po_shared s) = (c, sh) \<Longrightarrow>
    common_step V s (move i (Idle (c\<lparr>cl_epoch := e\<rparr>)) sh s)"
| ended: "in_phase s i (Idle c) \<Longrightarrow> read_raw_frame input = Inl e \<Longrightarrow>
    common_step V s (move i (Gone False c) (po_shared s) s)"
| unreadable: "in_phase s i (Idle c) \<Longrightarrow> parse_frame raw = Inl e \<Longrightarrow>
    common_step V s (move i (Gone False c) (po_shared s) s)"
| stale: "in_phase s i (Idle c) \<Longrightarrow> cl_epoch c \<noteq> sh_reset_epoch (po_shared s) \<Longrightarrow>
    common_step V s (move i (Gone False c) (po_shared s) s)"
| checked: "in_phase s i (Idle c) \<Longrightarrow> parse_frame raw = Inr f \<Longrightarrow> cl_epoch c = sh_reset_epoch (po_shared s) \<Longrightarrow>
    common_step V s (move i (Checked raw f c) (po_shared s) s)"
| turned_away: "in_phase s i (Checked raw f c) \<Longrightarrow> own_reply (V\<lparr>clock := now\<rparr>) raw f c (po_shared s) = None \<Longrightarrow>
    admit_command (V\<lparr>clock := now\<rparr>) raw f (counted_in raw c) (po_shared s) = None \<Longrightarrow>
    common_step V s (move i (Gone False (counted_in raw c)) (po_shared s) s)"
| watched: "in_phase s i (Watching c) \<Longrightarrow> stream_monitor [ev] c = (r, c') \<Longrightarrow>
    common_step V s (move i (if r = Monitoring then Watching c' else Gone True c') (po_shared s) s)"
| released: "in_phase s i (Gone streaming c) \<Longrightarrow>
    common_step V s (move i Left (release \<lparr>cn_client = c, cn_streaming = streaming\<rparr> (po_shared s)) s)"

text \<open>
  An accepted DEBUG EVIL MODE RESET in two halves: \<open>reset_reply\<close> is the client with its new
  configuration and the reply, \<open>finish_reset\<close> what follows under the write lock and after it.
\<close>

definition reset_reply :: "'r env \<Rightarrow> frame \<Rightarrow> client \<Rightarrow> (client \<times> bytes) option" where
  "reset_reply V f c =
     (let argv = argv_lossy f in
      if is_debug_protocol argv \<or> is_debug_chaos argv \<or> is_monitor (command_name f) \<or> \<not> is_debug_evil argv then None
      else (case checked_debug (ext V) argv (supports_reset (cl_socket c)) (cl_config c) of
         (_, Inl e) \<Rightarrow> None
       | (config, Inr result) \<Rightarrow>
           if dr_action result = ResetIncrementingState
           then Some (c\<lparr>cl_config := config\<rparr>, encode (dr_frame result)) else None))"

definition finish_reset :: "bytes \<Rightarrow> client \<Rightarrow> shared_state \<Rightarrow> handled" where
  "finish_reset response c sh =
     (case reset_incrementing_state sh of (epoch, sh) \<Rightarrow>
        (case write_all_client response (cl_writer c) of
           (Inl e, w) \<Rightarrow> (Fail e, c\<lparr>cl_epoch := epoch, cl_writer := w\<rparr>, sh)
         | (Inr _, w) \<Rightarrow> (Continue, c\<lparr>cl_epoch := epoch, cl_writer := w, cl_fps := fp_reset (cl_fps c)\<rparr>, sh)))"

definition count_reset :: "stats \<Rightarrow> stats" where
  "count_reset st = stats_reset (configuration_updated st)"

text \<open>The program's steps.\<close>

inductive split_step :: "'r env \<Rightarrow> pool \<Rightarrow> pool \<Rightarrow> bool" for V :: "'r env" where
  split_common: "common_step V s s' \<Longrightarrow> split_step V s s'"
| channel: "split_step V s (s\<lparr>po_shared := (po_shared s)\<lparr>sh_receivers := n, sh_monitor := lines\<rparr>\<rparr>)"
| answered: "in_phase s i (Checked raw f c) \<Longrightarrow> reset_reply V f (counted_in raw c) = None \<Longrightarrow>
    own_reply (V\<lparr>clock := now\<rparr>) raw f c (po_shared s) = Some (r, c', sh) \<Longrightarrow>
    split_step V s (move i (after r c') sh s)"
| waits: "in_phase s i (Checked raw f c) \<Longrightarrow> reset_reply V f (counted_in raw c) = Some (c1, response) \<Longrightarrow>
    publish_monitor_command (V\<lparr>clock := now\<rparr>) f c (po_shared s) = sh \<Longrightarrow>
    split_step V s (move i (Resetting raw f c) (sh\<lparr>sh_stats := count_reset (sh_stats sh)\<rparr>) s)"
| resets: "in_phase s i (Resetting raw f c) \<Longrightarrow> reset_reply V f (counted_in raw c) = Some (c1, response) \<Longrightarrow>
    finish_reset response c1 (po_shared s) = (r, c', sh) \<Longrightarrow>
    split_step V s (move i (after r c') sh s)"
| admitted: "in_phase s i (Checked raw f c) \<Longrightarrow> own_reply (V\<lparr>clock := now\<rparr>) raw f c (po_shared s) = None \<Longrightarrow>
    admit_command (V\<lparr>clock := now\<rparr>) raw f (counted_in raw c) (po_shared s) = Some (x, announced) \<Longrightarrow>
    admit (cl_epoch c) (po_shared s) = Some (k, sh) \<Longrightarrow>
    split_step V s (move i (Announcing f x (counted_in raw c)) sh s)"
| announced: "in_phase s i (Announcing f x c) \<Longrightarrow>
    split_step V s (move i (Busy x c) (publish_monitor_command (V\<lparr>clock := now\<rparr>) f c (po_shared s)) s)"
| replied: "in_phase s i (Busy x c) \<Longrightarrow> respond V x c (po_shared s) = (r, c', sh) \<Longrightarrow>
    split_step V s (move i (after r c') sh s)"

text \<open>Whole handlers.\<close>

inductive whole_step :: "'r env \<Rightarrow> pool \<Rightarrow> pool \<Rightarrow> bool" for V :: "'r env" where
  whole_common: "common_step V s s' \<Longrightarrow> whole_step V s s'"
| own: "in_phase s i (Checked raw f c) \<Longrightarrow>
    own_reply (V\<lparr>clock := now\<rparr>) raw f c (po_shared s) = Some (r, c', sh) \<Longrightarrow>
    whole_step V s (move i (after r c') sh s)"
| handled: "in_phase s i (Checked raw f c) \<Longrightarrow> own_reply (V\<lparr>clock := now\<rparr>) raw f c (po_shared s) = None \<Longrightarrow>
    handle_admitted (V\<lparr>clock := now\<rparr>) raw f (counted_in raw c) (po_shared s) = (r, c', sh) \<Longrightarrow>
    whole_step V s (move i (after r c') sh s)"

section \<open>What a handler sees of the shared state\<close>

definition same_fixed :: "shared_state \<Rightarrow> shared_state \<Rightarrow> bool" where
  "same_fixed sh sh' \<longleftrightarrow> sh_local_slots sh' = sh_local_slots sh
     \<and> sh_redirection_map sh' = sh_redirection_map sh"

lemma same_fixed_trans: "same_fixed a b \<Longrightarrow> same_fixed b c \<Longrightarrow> same_fixed a c"
  by (simp add: same_fixed_def)

text \<open>
  Two shared states that differ in the repro file, the channel and \<open>k\<close> resets that the first has
  counted ahead of the second. No handler can tell them apart, and each leaves them so.
\<close>

definition beside :: "nat \<Rightarrow> shared_state \<Rightarrow> shared_state \<Rightarrow> bool" where
  "beside k sh t \<longleftrightarrow> sh_reset_epoch t = sh_reset_epoch sh \<and> sh_connection_ids t = sh_connection_ids sh
     \<and> sh_command_ids t = sh_command_ids sh \<and> sh_local_slots t = sh_local_slots sh
     \<and> sh_redirection_map t = sh_redirection_map sh \<and> sh_stats sh = (count_reset ^^ k) (sh_stats t)"

definition beside_handled :: "nat \<Rightarrow> repro_file option \<Rightarrow> handled \<Rightarrow> handled \<Rightarrow> bool" where
  "beside_handled k R h h' \<longleftrightarrow> (case (h, h') of ((r, c, sh), (r', c', t)) \<Rightarrow>
     r' = r \<and> c' = c \<and> beside k sh t \<and> sh_repro t = R)"

lemma beside_refl [simp]: "beside 0 sh sh"
  by (simp add: beside_def)

lemma count_commute:
  assumes "\<And>st. g (count_reset st) = count_reset (g st)"
  shows "(count_reset ^^ k) (g st) = g ((count_reset ^^ k) st)"
  by (induction k) (simp_all add: assms)

lemma counts_commute:
  "(count_reset ^^ k) (client_connected st) = client_connected ((count_reset ^^ k) st)"
  "(count_reset ^^ k) (client_dropped st) = client_dropped ((count_reset ^^ k) st)"
  "(count_reset ^^ k) (configuration_updated st) = configuration_updated ((count_reset ^^ k) st)"
  "(count_reset ^^ k) (command_rejected st) = command_rejected ((count_reset ^^ k) st)"
  "(count_reset ^^ k) (debug_evil_stats argv cfg result st) = debug_evil_stats argv cfg result ((count_reset ^^ k) st)"
  by (rule count_commute, simp add: count_reset_def client_connected_def client_dropped_def
      configuration_updated_def command_rejected_def stats_reset_def debug_evil_stats_def status_read_def
      mode_selected_def Let_def split: evil_mode.split)+

lemma publish_beside:
  assumes "beside k sh t"
  shows "beside k (publish_monitor_command V f c sh) (publish_monitor_command V' f' c' t)"
    and "beside k (publish_monitor_command V f c sh) t" "sh_repro (publish_monitor_command V f c t) = sh_repro t"
  using assms by (simp_all add: publish_monitor_command_def beside_def split: list.splits)

lemma reply_beside:
  assumes "beside k sh t" and "sh_repro t = R"
  shows "beside_handled k R (reply_bytes_to b c sh) (reply_bytes_to b c t)"
    and "beside_handled k R (reply_frame_to g c sh) (reply_frame_to g c t)"
    and "beside_handled k R (reply_uncounted b c sh) (reply_uncounted b c t)"
  using assms by (simp_all add: reply_bytes_to_def reply_frame_to_def reply_uncounted_def after_write_def
      beside_handled_def split: sum.splits prod.splits)

lemma finish_reset_beside:
  assumes "beside k sh t" and "sh_repro t = R"
  shows "beside_handled k R (finish_reset b c sh) (finish_reset b c t)"
  using assms by (simp add: finish_reset_def reset_incrementing_state_def beside_handled_def beside_def
      split: sum.splits prod.splits)

lemma debug_chaos_beside:
  assumes "beside k sh t" and "sh_repro t = R"
  shows "beside_handled k R (handle_debug_chaos V argv c sh) (handle_debug_chaos V argv c t)"
proof -
  obtain cfg q where "chaos_apply argv (cl_config c) = (cfg, q)" by force
  then show ?thesis using assms
    by (cases q) (auto simp: handle_debug_chaos_def apply_debug_chaos_def beside_def counts_commute
        intro!: reply_beside)
qed

lemma debug_evil_eq:
  "handle_debug_evil V argv c sh =
     (case checked_debug (ext V) argv (supports_reset (cl_socket c)) (cl_config c) of
        (cfg, Inl e) \<Rightarrow> reply_bytes_to (encode (error_frame (ext V) e)) (c\<lparr>cl_config := cfg\<rparr>)
          (sh\<lparr>sh_stats := command_rejected (sh_stats sh)\<rparr>)
      | (cfg, Inr result) \<Rightarrow>
          (if dr_action result = ResetIncrementingState then finish_reset else reply_bytes_to)
            (encode (dr_frame result)) (c\<lparr>cl_config := cfg\<rparr>)
            (sh\<lparr>sh_stats := debug_evil_stats argv cfg result (sh_stats sh)\<rparr>))"
proof -
  obtain cfg q where q: "checked_debug (ext V) argv (supports_reset (cl_socket c)) (cl_config c) = (cfg, q)" by force
  show ?thesis
    by (cases q) (simp_all add: handle_debug_evil_def apply_debug_evil_def finish_reset_def Let_def q)
qed

lemma debug_evil_beside:
  assumes "beside k sh t" and "sh_repro t = R"
  shows "beside_handled k R (handle_debug_evil V argv c sh) (handle_debug_evil V argv c t)"
proof -
  obtain cfg q where q: "checked_debug (ext V) argv (supports_reset (cl_socket c)) (cl_config c) = (cfg, q)" by force
  show ?thesis unfolding debug_evil_eq q using assms
    by (cases q) (auto simp: beside_def counts_commute intro!: reply_beside finish_reset_beside)
qed

lemma monitor_beside:
  assumes "beside k sh t" and "sh_repro t = R"
  shows "beside_handled k R (handle_monitor argv c sh) (handle_monitor argv c t)"
proof (cases "length argv = 1")
  case True
  then show ?thesis using assms
    by (simp add: handle_monitor_def beside_handled_def beside_def split: sum.split prod.split)
qed (simp add: handle_monitor_def reply_beside [OF assms])

lemma query_beside:
  assumes "beside k sh t" and "sh_repro t = R"
  shows "beside_handled k R (handle_cluster_query V raw argv c sh) (handle_cluster_query V raw argv c t)"
proof -
  have "sh_redirection_map t = sh_redirection_map sh" using assms(1) by (simp add: beside_def)
  then show ?thesis using reply_beside [OF assms] assms
    by (auto simp: handle_cluster_query_def reply_unavailable_def Let_def split: sum.split prod.split)
      (simp add: beside_handled_def)
qed

lemma own_beside:
  assumes b: "beside k sh t"
  shows "rel_option (beside_handled k (sh_repro t)) (own_reply V raw f c sh) (own_reply V raw f c t)"
proof -
  have slots: "sh_local_slots t = sh_local_slots sh" using b by (simp add: beside_def)
  note p = publish_beside(1,3) [OF b, where V = V and f = f]
  note parts = reply_beside [OF b refl] reply_beside [OF p] debug_chaos_beside [OF p] monitor_beside [OF b refl]
    debug_evil_beside [OF p] query_beside [OF p]
  show ?thesis
    by (cases "sh_local_slots sh") (simp_all add: own_reply_def Let_def slots parts)
qed

lemma own_reply_keeps:
  assumes "own_reply V raw f c sh = Some (r, c', sh')"
  shows "same_fixed sh sh'" and "sh_repro sh' = sh_repro sh"
  using own_reply_framed [OF assms] own_beside [OF beside_refl, of sh V raw f c] assms
  by (auto simp: framed_def same_fixed_def beside_handled_def)

lemma admit_beside:
  assumes "beside k sh t"
  shows "admit_command V raw f c sh = None \<Longrightarrow> admit_command V raw f c t = None"
    and "admit_command V raw f c sh = Some (x, sh1) \<Longrightarrow> admit (cl_epoch c) sh = Some (n, sh2) \<Longrightarrow>
      \<exists>t1. admit_command V raw f c t = Some (x, t1) \<and> beside k sh2 t1 \<and> sh_repro t1 = sh_repro t
        \<and> same_fixed sh sh2 \<and> sh_repro sh2 = sh_repro sh"
  using assms by (auto simp: admit_command_def admit_def same_fixed_def beside_def publish_monitor_command_def
      split: if_splits list.splits)

section \<open>The end of a reply\<close>

text \<open>Between its admission and its reply a command depends on nothing that other connections can
  change; its whole effect on them is what it appends to the repro file.\<close>

definition with_log :: "repro_file option \<Rightarrow> shared_state \<Rightarrow> shared_state" where
  "with_log R sh = sh\<lparr>sh_repro := R\<rparr>"

lemma with_log_simps [simp]:
  "sh_repro (with_log R sh) = R" "sh_local_slots (with_log R sh) = sh_local_slots sh"
  "sh_redirection_map (with_log R sh) = sh_redirection_map sh" "beside k sh (with_log R t) = beside k sh t"
  "beside k (with_log R sh) t = beside k sh t" "with_log (sh_repro sh) sh = sh"
  by (simp_all add: with_log_def beside_def)

definition outcome_of :: "'r env \<Rightarrow> command_ctx \<Rightarrow> client \<Rightarrow> shared_state \<Rightarrow> step_end \<times> client \<times> repro_file" where
  "outcome_of V x c sh = (case respond V x c (with_log (Some []) sh) of (r, c', sh') \<Rightarrow> (r, c', the (sh_repro sh')))"

definition logged :: "repro_file \<Rightarrow> shared_state \<Rightarrow> shared_state" where
  "logged rs sh = with_log (map_option (\<lambda>log. log @ rs) (sh_repro sh)) sh"

lemma logged_Nil [simp]: "logged [] sh = sh"
  by (simp add: logged_def option.map_ident)

lemma produce_fixed:
  assumes "same_fixed sh sh'" shows "produce V x before c sh' = produce V x before c sh"
proof -
  have eqs: "sh_local_slots sh' = sh_local_slots sh" "sh_redirection_map sh' = sh_redirection_map sh"
    using assms by (simp_all add: same_fixed_def)
  have parts: "pre_topology (ext V) x d sh' = pre_topology (ext V) x d sh"
    "normalize_cluster_redirection b sh' = normalize_cluster_redirection b sh"
    "post_topology (ext V) x b d sh' = post_topology (ext V) x b d sh"
    "random_response (ext V) x pre d sh' = random_response (ext V) x pre d sh" for d b pre
    by (simp_all add: pre_topology_def normalize_cluster_redirection_def post_topology_def
        random_response_def eqs)
  have "forward V x pre d sh' = forward V x pre d sh" for pre d
    unfolding forward_def parts ..
  then show ?thesis by (simp add: produce_def Let_def parts)
qed

lemma deliver_reply_log:
  "deliver_reply V x up response plan c sh =
     (case deliver_reply V x up response plan c (with_log (Some []) sh0) of
        (r, c', sh') \<Rightarrow> (r, c', logged (the (sh_repro sh')) sh))"
  by (cases "sh_repro sh")
    (auto simp: deliver_reply_def Let_def record_delivery_def append_record_def logged_def with_log_def
      split: prod.splits option.splits sum.splits)

lemma respond_outcome:
  assumes "same_fixed sh0 sh"
  shows "respond V x c sh = (case outcome_of V x c sh0 of (r, c', rs) \<Rightarrow> (r, c', logged rs sh))"
proof -
  let ?sh0 = "with_log (Some []) sh0" and ?before = "early_plan (ext V) (cl_config c) x"
  have "same_fixed ?sh0 sh" using assms by (simp add: same_fixed_def)
  note same = produce_fixed [OF this, of V x ?before c]
  obtain p d where p: "produce V x ?before c ?sh0 = (p, d)" by force
  show ?thesis
  proof (cases p)
    case (NoUpstream u)
    have "reply_unavailable u d sh = (case reply_unavailable u d ?sh0 of (r, c', sh') \<Rightarrow> (r, c', logged (the (sh_repro sh')) sh))"
      by (auto simp: reply_unavailable_def reply_bytes_to_def after_write_def split: sum.splits prod.splits)
    then show ?thesis using NoUpstream p
      by (auto simp: respond_def Let_def same outcome_of_def split: prod.splits)
  next
    case (Aborted e)
    then show ?thesis using p by (simp add: respond_def Let_def same outcome_of_def)
  next
    case (Produced up response seed)
    then show ?thesis
      using p deliver_reply_log [of V x up response _ d sh sh0]
      by (auto simp: respond_def Let_def same outcome_of_def split: prod.splits)
  qed
qed

lemma respond_clock: "respond (V\<lparr>clock := now\<rparr>) x c sh = respond V x c sh"
proof -
  have same: "ext (V\<lparr>clock := now\<rparr>) = ext V" "debug_frame (V\<lparr>clock := now\<rparr>) = debug_frame V" by simp_all
  show ?thesis unfolding respond_def produce_def forward_def deliver_reply_def same ..
qed

section \<open>Runs of whole handlers\<close>

text \<open>A connection as it will be after its pending reply, and the records that reply will leave; one that
  waits for a reset has not begun.\<close>

definition settled :: "'r env \<Rightarrow> shared_state \<Rightarrow> phase \<Rightarrow> phase \<times> repro_file" where
  "settled V sh p =
     (case p of
        Announcing f x c \<Rightarrow> (case outcome_of V x c sh of (r, c', rs) \<Rightarrow> (after r c', rs))
      | Busy x c \<Rightarrow> (case outcome_of V x c sh of (r, c', rs) \<Rightarrow> (after r c', rs))
      | Resetting raw f c \<Rightarrow> (Checked raw f c, [])
      | _ \<Rightarrow> (p, []))"

definition owed :: "'r env \<Rightarrow> shared_state \<Rightarrow> pool \<Rightarrow> repro_file" where
  "owed V sh s = concat (map (\<lambda>p. snd (settled V sh p)) (po_phases s))"

definition counted_ahead :: "pool \<Rightarrow> nat" where
  "counted_ahead s = length (filter resetting (po_phases s))"

definition serial :: "'r env \<Rightarrow> shared_state \<Rightarrow> pool \<Rightarrow> pool \<Rightarrow> bool" where
  "serial V sh0 s t \<longleftrightarrow>
     same_fixed sh0 (po_shared s) \<and> po_phases t = map (\<lambda>p. fst (settled V sh0 p)) (po_phases s)
     \<and> beside (counted_ahead s) (po_shared s) (po_shared t)
     \<and> rel_option (\<lambda>a b. mset b = mset (a @ owed V sh0 s)) (sh_repro (po_shared s)) (sh_repro (po_shared t))"

lemma settled_idle [simp]: "\<not> busy p \<Longrightarrow> settled V sh p = (p, [])"
  by (cases p) (simp_all add: settled_def)

lemma settled_waiting [simp]: "settled V sh (Resetting raw f c) = (Checked raw f c, [])"
  by (simp add: settled_def)

lemma settled_announcing: "settled V sh (Announcing f x c) = settled V sh (Busy x c)"
  by (simp add: settled_def)

lemma after_not_busy [simp]: "\<not> busy (after r c)"
  by (cases r) simp_all

lemma not_busy_resetting: "\<not> busy p \<Longrightarrow> \<not> resetting p"
  by (cases p) simp_all

lemma move_simps [simp]:
  "po_shared (move i p sh s) = sh" "po_phases (move i p sh s) = (po_phases s)[i := p]"
  by (simp_all add: move_def)

lemma mset_concat_update:
  "i < length xs \<Longrightarrow> mset (concat (map f (xs[i := y]))) + mset (f (xs ! i)) = mset (concat (map f xs)) + mset (f y)"
proof (induction xs arbitrary: i)
  case (Cons x xs)
  then show ?case by (cases i) (auto simp: ac_simps)
qed simp

lemma filter_update:
  "i < length xs \<Longrightarrow> length (filter P (xs[i := y])) + of_bool (P (xs ! i)) = length (filter P xs) + of_bool (P y)"
proof (induction xs arbitrary: i)
  case (Cons x xs)
  then show ?case by (cases i) (auto simp: of_bool_def)
qed simp

lemma counted_move:
  "in_phase s i p \<Longrightarrow> counted_ahead (move i p' sh s) + of_bool (resetting p) = counted_ahead s + of_bool (resetting p')"
  using filter_update [of i "po_phases s" resetting p'] by (auto simp: counted_ahead_def in_phase_def)

lemma owed_move:
  assumes "in_phase s i p"
  shows "mset (owed V sh0 (move i p' sh s)) + mset (snd (settled V sh0 p))
    = mset (owed V sh0 s) + mset (snd (settled V sh0 p'))"
  using mset_concat_update [of i "po_phases s" "\<lambda>p. snd (settled V sh0 p)" p'] assms
  by (simp add: owed_def in_phase_def)

text \<open>One connection moves, in the split machine alone or in both.\<close>

lemma serial_move:
  assumes s: "serial V sh0 s t" and i: "in_phase s i p"
    and sh: "same_fixed (po_shared s) sh" "beside (counted_ahead (move i p' sh s)) sh t2"
    and records: "rel_option (\<lambda>a b. mset b = mset (a @ owed V sh0 (move i p' sh s))) (sh_repro sh) (sh_repro t2)"
  shows "serial V sh0 (move i p' sh s) (move i (fst (settled V sh0 p')) t2 t)"
  using s sh records same_fixed_trans [OF _ sh(1)] by (simp add: serial_def map_update)

lemma serial_move_idle:
  assumes s: "serial V sh0 s t" and i: "in_phase s i p" "\<not> busy p" "\<not> busy p'"
    and sh: "same_fixed (po_shared s) sh" "sh_repro sh = sh_repro (po_shared s)"
    and t2: "beside (counted_ahead s) sh t2" "sh_repro t2 = sh_repro (po_shared t)"
  shows "serial V sh0 (move i p' sh s) (move i p' t2 t)"
proof -
  have "mset (owed V sh0 (move i p' sh s)) = mset (owed V sh0 s)"
    using owed_move [OF i(1), of V sh0 p' sh] i by simp
  moreover have "counted_ahead (move i p' sh s) = counted_ahead s"
    using counted_move [OF i(1), of p' sh] i(2,3) not_busy_resetting by auto
  moreover have "rel_option (\<lambda>a b. mset b = mset (a @ owed V sh0 s)) (sh_repro (po_shared s)) (sh_repro (po_shared t))"
    using s by (simp add: serial_def)
  ultimately show ?thesis using serial_move [OF s i(1) sh(1), of p' t2] t2 i(3) sh(2) by simp
qed

lemma serial_stay:
  assumes s: "serial V sh0 s t" and i: "in_phase s i p" "fst (settled V sh0 p') = fst (settled V sh0 p)"
    and sh: "same_fixed (po_shared s) sh" "beside (counted_ahead (move i p' sh s)) sh (po_shared t)"
    and records: "rel_option (\<lambda>a b. mset b = mset (a @ owed V sh0 (move i p' sh s))) (sh_repro sh) (sh_repro (po_shared t))"
  shows "serial V sh0 (move i p' sh s) t"
proof -
  have "(po_phases t)[i := fst (settled V sh0 p')] = po_phases t"
    using s i by (simp add: serial_def in_phase_def list_update_same_conv)
  then have "move i (fst (settled V sh0 p')) (po_shared t) t = t" by (simp add: move_def)
  with serial_move [OF s i(1) sh records] show ?thesis by simp
qed

lemma serial_phase: "serial V sh0 s t \<Longrightarrow> in_phase s i p \<Longrightarrow> in_phase t i (fst (settled V sh0 p))"
  by (simp add: serial_def in_phase_def)

lemma serial_beside: "serial V sh0 s t \<Longrightarrow> beside (counted_ahead s) (po_shared s) (po_shared t)"
  by (simp add: serial_def)

lemma release_beside:
  assumes "beside k sh t"
  shows "beside k (release cn sh) (release cn t)" "sh_repro (release cn t) = sh_repro t"
    "same_fixed sh (release cn sh)" "sh_repro (release cn sh) = sh_repro sh"
  using assms by (simp_all add: release_def beside_def same_fixed_def counts_commute)

lemma accept_beside:
  assumes "accept_client V target net socket w reads sh = (c, sh')" and "beside k sh t"
  shows "\<exists>t'. accept_client V target net socket w reads t = (c, t') \<and> beside k sh' t' \<and> sh_repro t' = sh_repro t
    \<and> same_fixed sh sh' \<and> sh_repro sh' = sh_repro sh"
  using assms by (auto simp: accept_client_def beside_def same_fixed_def counts_commute)

lemma common_simulated:
  assumes step: "common_step V s s'" and s: "serial V sh0 s t"
  shows "\<exists>t'. common_step V t t' \<and> serial V sh0 s' t'"
proof -
  have there: "in_phase t i p" if "in_phase s i p" "\<not> busy p" for i p
    using serial_phase [OF s that(1)] that(2) by simp
  note b = serial_beside [OF s]
  have epoch: "sh_reset_epoch (po_shared t) = sh_reset_epoch (po_shared s)" using b by (simp add: beside_def)
  have stay: "serial V sh0 (move i p' (po_shared s) s) (move i p' (po_shared t) t)"
    if "in_phase s i p" "\<not> busy p" "\<not> busy p'" for i p p'
    using serial_move_idle [OF s that, of "po_shared s"] b by (simp add: same_fixed_def)
  from step show ?thesis
  proof cases
    case arrived
    let ?e = "Accepted (sh_reset_epoch (po_shared s))"
    have "serial V sh0 (s\<lparr>po_phases := po_phases s @ [?e]\<rparr>) (t\<lparr>po_phases := po_phases t @ [?e]\<rparr>)"
      using s by (simp add: serial_def owed_def counted_ahead_def)
    then show ?thesis unfolding arrived using common_step.arrived [of V t] unfolding epoch by blast
  next
    case (opened i e target net socket w reads c sh)
    obtain t2 where t2: "accept_client V target net socket w reads (po_shared t) = (c, t2)" "beside (counted_ahead s) sh t2" "sh_repro t2 = sh_repro (po_shared t)"
      "same_fixed (po_shared s) sh" "sh_repro sh = sh_repro (po_shared s)"
      using accept_beside [OF opened(3) b] by blast
    from common_step.opened [OF there [OF opened(2)] t2(1)]
      serial_move_idle [OF s opened(2) _ _ t2(4,5,2,3), of "Idle (c\<lparr>cl_epoch := e\<rparr>)"]
    show ?thesis unfolding opened(1) by (metis busy.simps(4,5))
  next
    case (ended i c input e)
    then show ?thesis
      using common_step.ended [OF there [OF ended(2)] ended(3)] stay [OF ended(2)] by fastforce
  next
    case (unreadable i c raw e)
    then show ?thesis
      using common_step.unreadable [OF there [OF unreadable(2)] unreadable(3)] stay [OF unreadable(2)] by fastforce
  next
    case (stale i c)
    then show ?thesis
      using common_step.stale [OF there [OF stale(2)]] stay [OF stale(2)] epoch by fastforce
  next
    case (checked i c raw f)
    then show ?thesis
      using common_step.checked [OF there [OF checked(2)] checked(3)] stay [OF checked(2)] epoch by fastforce
  next
    case (turned_away i raw f c now)
    have "own_reply (V\<lparr>clock := now\<rparr>) raw f c (po_shared t) = None"
      using own_beside [OF b, of "V\<lparr>clock := now\<rparr>" raw f c] turned_away(3) by simp
    from common_step.turned_away [OF there [OF turned_away(2)] this admit_beside(1) [OF b turned_away(4)]]
      stay [OF turned_away(2)]
    show ?thesis unfolding turned_away(1) by fastforce
  next
    case (watched i c ev r c')
    then show ?thesis
      using common_step.watched [OF there [OF watched(2)] watched(3)] stay [OF watched(2)] by fastforce
  next
    case (released i streaming c)
    let ?cn = "\<lparr>cn_client = c, cn_streaming = streaming\<rparr>"
    note rel = release_beside [OF b, of ?cn]
    from common_step.released [OF there [OF released(2)], of V]
      serial_move_idle [OF s released(2) _ _ rel(3,4,1,2), of Left]
    show ?thesis unfolding released(1) by fastforce
  qed
qed

text \<open>An admission is a whole handler whose line and reply are still owed; they then change nothing.\<close>

lemma admission_simulated:
  assumes s: "serial V sh0 s t" and i: "in_phase s i (Checked raw f c)"
    and none: "own_reply (V\<lparr>clock := now\<rparr>) raw f c (po_shared s) = None"
    and adm: "admit_command (V\<lparr>clock := now\<rparr>) raw f (counted_in raw c) (po_shared s) = Some (x, announced)"
      "admit (cl_epoch c) (po_shared s) = Some (k, sh)"
  shows "\<exists>t'. whole_step V t t' \<and> serial V sh0 (move i (Announcing f x (counted_in raw c)) sh s) t'"
proof -
  let ?V = "V\<lparr>clock := now\<rparr>" and ?c = "counted_in raw c"
  let ?s = "move i (Announcing f x ?c) sh s"
  note b = serial_beside [OF s]
  obtain r c' rs where out: "outcome_of V x ?c sh0 = (r, c', rs)" by (metis prod_cases3)
  have ep: "admit (cl_epoch ?c) (po_shared s) = Some (k, sh)" using adm(2) by (simp add: counted_in_def)
  from admit_beside(2) [OF b adm(1) ep] obtain t1 where t1:
    "admit_command ?V raw f ?c (po_shared t) = Some (x, t1)" "beside (counted_ahead s) sh t1"
    "sh_repro t1 = sh_repro (po_shared t)" "same_fixed (po_shared s) sh" "sh_repro sh = sh_repro (po_shared s)"
    by blast
  have fixed: "same_fixed sh0 t1"
    using s t1(2,4) by (simp add: serial_def same_fixed_def beside_def)
  have "own_reply ?V raw f c (po_shared t) = None"
    using own_beside [OF b, of ?V raw f c] none by simp
  moreover have "handle_admitted ?V raw f ?c (po_shared t) = (r, c', logged rs t1)"
    using t1(1) by (simp add: handle_admitted_def respond_clock respond_outcome [OF fixed, of V] out)
  moreover have "in_phase t i (Checked raw f c)" using serial_phase [OF s i] by simp
  ultimately have w: "whole_step V t (move i (after r c') (logged rs t1) t)" by (intro handled)
  have set: "settled V sh0 (Announcing f x ?c) = (after r c', rs)" by (simp add: settled_def out)
  have "counted_ahead ?s = counted_ahead s" using counted_move [OF i, of "Announcing f x ?c" sh] by simp
  then have "beside (counted_ahead ?s) sh (logged rs t1)" using t1(2) by (simp add: logged_def)
  moreover have "mset (owed V sh0 ?s) = mset (owed V sh0 s) + mset rs"
    using owed_move [OF i, of V sh0 "Announcing f x ?c" sh] by (simp add: set)
  then have "rel_option (\<lambda>a b. mset b = mset (a @ owed V sh0 ?s)) (sh_repro sh) (sh_repro (logged rs t1))"
    using s t1(3,5) by (auto simp: serial_def logged_def option_rel_Some1 option_rel_Some2 elim!: option.rel_cases)
  ultimately have "serial V sh0 ?s (move i (after r c') (logged rs t1) t)"
    using serial_move [OF s i t1(4), of "Announcing f x ?c" "logged rs t1"] by (simp add: set)
  with w show ?thesis by blast
qed

lemma announcement_simulated:
  assumes s: "serial V sh0 s t" and i: "in_phase s i (Announcing f x c)"
  shows "serial V sh0 (move i (Busy x c) (publish_monitor_command (V\<lparr>clock := now\<rparr>) f c (po_shared s)) s) t"
proof -
  let ?sh = "publish_monitor_command (V\<lparr>clock := now\<rparr>) f c (po_shared s)"
  let ?s = "move i (Busy x c) ?sh s"
  have "mset (owed V sh0 ?s) = mset (owed V sh0 s)"
    using owed_move [OF i, of V sh0 "Busy x c" ?sh] by (simp add: settled_announcing)
  then have "rel_option (\<lambda>a b. mset b = mset (a @ owed V sh0 ?s)) (sh_repro ?sh) (sh_repro (po_shared t))"
    using s publish_beside(3) [OF beside_refl] by (simp add: serial_def)
  moreover have "counted_ahead ?s = counted_ahead s" using counted_move [OF i, of "Busy x c" ?sh] by simp
  then have "beside (counted_ahead ?s) ?sh (po_shared t)" using publish_beside(2) [OF serial_beside [OF s]] by simp
  moreover have "same_fixed (po_shared s) ?sh"
    by (simp add: same_fixed_def publish_monitor_command_def split: list.split)
  ultimately show ?thesis using serial_stay [OF s i, of "Busy x c"] by (simp add: settled_announcing)
qed

lemma reply_simulated:
  assumes s: "serial V sh0 s t" and i: "in_phase s i (Busy x c)"
    and res: "respond V x c (po_shared s) = (r, c', sh)"
  shows "serial V sh0 (move i (after r c') sh s) t"
proof -
  let ?s = "move i (after r c') sh s"
  obtain rs where out: "outcome_of V x c sh0 = (r, c', rs)" and sh: "sh = logged rs (po_shared s)"
    using res s respond_outcome [of sh0 "po_shared s" V x c] by (auto simp: serial_def split: prod.splits)
  have set: "settled V sh0 (Busy x c) = (after r c', rs)" by (simp add: settled_def out)
  have "mset (owed V sh0 s) = mset (owed V sh0 ?s) + mset rs"
    using owed_move [OF i, of V sh0 "after r c'" sh] by (simp add: set)
  then have "rel_option (\<lambda>a b. mset b = mset (a @ owed V sh0 ?s)) (sh_repro sh) (sh_repro (po_shared t))"
    using s by (auto simp: serial_def sh logged_def elim!: option.rel_cases)
  moreover have "counted_ahead ?s = counted_ahead s"
    using counted_move [OF i, of "after r c'" sh] by (simp add: not_busy_resetting)
  then have "beside (counted_ahead ?s) sh (po_shared t)" using serial_beside [OF s] by (simp add: sh logged_def)
  moreover have "same_fixed (po_shared s) sh" by (simp add: sh logged_def same_fixed_def)
  ultimately show ?thesis using serial_stay [OF s i, of "after r c'"] by (simp add: set)
qed

text \<open>A reset is a whole handler at its second half.\<close>

lemma reset_is_own:
  assumes "reset_reply V f (counted_in raw c) = Some (c1, response)"
  shows "own_reply (V\<lparr>clock := now\<rparr>) raw f c sh = Some (finish_reset response c1
    (let sh = publish_monitor_command (V\<lparr>clock := now\<rparr>) f c sh in sh\<lparr>sh_stats := count_reset (sh_stats sh)\<rparr>))"
proof -
  let ?argv = "argv_lossy f" and ?c = "counted_in raw c"
  obtain cfg q where q: "checked_debug (ext V) ?argv (supports_reset (cl_socket ?c)) (cl_config ?c) = (cfg, q)" by force
  obtain result where r: "q = Inr result" "dr_action result = ResetIncrementingState"
    and c1: "c1 = ?c\<lparr>cl_config := cfg\<rparr>" "response = encode (dr_frame result)"
    and kind: "\<not> is_debug_protocol ?argv" "\<not> is_debug_chaos ?argv" "\<not> is_monitor (command_name f)" "is_debug_evil ?argv"
    using assms by (auto simp: reset_reply_def q Let_def split: if_splits sum.splits)
  obtain d p where d: "apply_debug_command (ext V) ?argv (cl_config ?c) = (d, p)" by force
  have "p = Inr result" using q d r by (auto simp: checked_debug_def split: sum.splits if_splits)
  from reset_only_by_mode_reset [OF d [unfolded this] r(2)] have "keyword (?argv ! 2) ''MODE''" by blast
  moreover have "to_ascii_uppercase ''STATUS'' \<noteq> ''MODE''" "to_ascii_uppercase ''HELP'' \<noteq> ''MODE''"
    by (simp_all add: ascii_defs)
  ultimately have "debug_evil_stats ?argv cfg result st = count_reset st" for st
    using r(2) by (auto simp: debug_evil_stats_def count_reset_def eq_ignore_ascii_case_upper Let_def)
  then show ?thesis using kind r c1 q
    by (simp add: own_reply_def debug_evil_eq Let_def counted_in_def)
qed

lemma wait_simulated:
  assumes s: "serial V sh0 s t" and i: "in_phase s i (Checked raw f c)"
    and sh: "publish_monitor_command (V\<lparr>clock := now\<rparr>) f c (po_shared s) = sh"
  shows "serial V sh0 (move i (Resetting raw f c) (sh\<lparr>sh_stats := count_reset (sh_stats sh)\<rparr>) s) t"
proof -
  let ?sh = "sh\<lparr>sh_stats := count_reset (sh_stats sh)\<rparr>" let ?s = "move i (Resetting raw f c) ?sh s"
  have "mset (owed V sh0 ?s) = mset (owed V sh0 s)"
    using owed_move [OF i, of V sh0 "Resetting raw f c" ?sh] by simp
  then have "rel_option (\<lambda>a b. mset b = mset (a @ owed V sh0 ?s)) (sh_repro ?sh) (sh_repro (po_shared t))"
    using s publish_beside(3) [OF beside_refl] by (simp add: serial_def sh [symmetric])
  moreover have "counted_ahead ?s = Suc (counted_ahead s)"
    using counted_move [OF i, of "Resetting raw f c" ?sh] by simp
  then have "beside (counted_ahead ?s) ?sh (po_shared t)"
    using publish_beside(2) [OF serial_beside [OF s], of "V\<lparr>clock := now\<rparr>" f c] by (simp add: sh beside_def)
  moreover have "same_fixed (po_shared s) ?sh"
    by (simp add: sh [symmetric] same_fixed_def publish_monitor_command_def split: list.split)
  ultimately show ?thesis using serial_stay [OF s i, of "Resetting raw f c"] by simp
qed

lemma reset_simulated:
  assumes s: "serial V sh0 s t" and i: "in_phase s i (Resetting raw f c)"
    and reset: "reset_reply V f (counted_in raw c) = Some (c1, response)"
    and res: "finish_reset response c1 (po_shared s) = (r, c', sh)"
  shows "\<exists>t'. whole_step V t t' \<and> serial V sh0 (move i (after r c') sh s) t'"
proof -
  let ?V = "V\<lparr>clock := clock V\<rparr>" and ?s = "move i (after r c') sh s"
  let ?p = "publish_monitor_command ?V f c (po_shared t)"
  let ?t = "?p\<lparr>sh_stats := count_reset (sh_stats ?p)\<rparr>"
  have n: "counted_ahead s = Suc (counted_ahead ?s)"
    using counted_move [OF i, of "after r c'" sh] by (simp add: not_busy_resetting)
  have "beside (Suc (counted_ahead ?s)) (po_shared s) ?p"
    using publish_beside(2) [OF serial_beside [OF s]] serial_beside [OF s]
    by (simp add: n beside_def publish_monitor_command_def split: list.split)
  then have "beside (counted_ahead ?s) (po_shared s) ?t"
    by (simp add: beside_def funpow_Suc_right del: funpow.simps)
  moreover have "sh_repro ?t = sh_repro (po_shared t)" using publish_beside(3) [OF beside_refl] by simp
  ultimately have "beside_handled (counted_ahead ?s) (sh_repro (po_shared t))
      (finish_reset response c1 (po_shared s)) (finish_reset response c1 ?t)"
    by (rule finish_reset_beside)
  then obtain t2 where t2: "finish_reset response c1 ?t = (r, c', t2)" "beside (counted_ahead ?s) sh t2"
    "sh_repro t2 = sh_repro (po_shared t)"
    unfolding res beside_handled_def by (auto split: prod.splits)
  have "own_reply ?V raw f c (po_shared t) = Some (r, c', t2)"
    using reset_is_own [OF reset, of "clock V" "po_shared t"] t2(1) by (simp add: Let_def)
  moreover have "in_phase t i (Checked raw f c)" using serial_phase [OF s i] by simp
  ultimately have w: "whole_step V t (move i (after r c') t2 t)" by (intro own)
  have same: "same_fixed (po_shared s) sh" "sh_repro sh = sh_repro (po_shared s)"
    using res by (auto simp: finish_reset_def reset_incrementing_state_def same_fixed_def split: prod.splits sum.splits)
  have "mset (owed V sh0 ?s) = mset (owed V sh0 s)" using owed_move [OF i, of V sh0 "after r c'" sh] by simp
  then have "rel_option (\<lambda>a b. mset b = mset (a @ owed V sh0 ?s)) (sh_repro sh) (sh_repro t2)"
    using s t2(3) same(2) by (simp add: serial_def)
  from serial_move [OF s i same(1) t2(2) this] w show ?thesis by auto
qed

lemma answer_simulated:
  assumes s: "serial V sh0 s t" and i: "in_phase s i (Checked raw f c)"
    and own: "own_reply (V\<lparr>clock := now\<rparr>) raw f c (po_shared s) = Some (r, c', sh)"
  shows "\<exists>t'. whole_step V t t' \<and> serial V sh0 (move i (after r c') sh s) t'"
proof -
  obtain t2 where t2: "own_reply (V\<lparr>clock := now\<rparr>) raw f c (po_shared t) = Some (r, c', t2)"
    "beside (counted_ahead s) sh t2" "sh_repro t2 = sh_repro (po_shared t)"
    using own_beside [OF serial_beside [OF s], of "V\<lparr>clock := now\<rparr>" raw f c] own
    by (auto simp: option_rel_Some1 beside_handled_def split: prod.splits)
  have "in_phase t i (Checked raw f c)" using serial_phase [OF s i] by simp
  from whole_step.own [OF this t2(1)] serial_move_idle [OF s i _ _ own_reply_keeps [OF own] t2(2,3), of "after r c'"]
  show ?thesis by auto
qed

lemma channel_simulated:
  assumes "serial V sh0 s t"
  shows "serial V sh0 (s\<lparr>po_shared := (po_shared s)\<lparr>sh_receivers := n, sh_monitor := lines\<rparr>\<rparr>) t"
  using assms by (simp add: serial_def same_fixed_def beside_def counted_ahead_def owed_def)

interpretation serial: simulation "serial V sh0" "split_step V" "whole_step V" for V sh0
proof unfold_locales
  fix s t s' assume rel: "serial V sh0 s t" and "split_step V s s'"
  from this(2) show "\<exists>t'. (whole_step V)\<^sup>*\<^sup>* t t' \<and> serial V sh0 s' t'"
  proof cases
    case split_common
    then show ?thesis using common_simulated [OF split_common rel] by (meson r_into_rtranclp whole_common)
  next
    case (channel n lines)
    then show ?thesis using channel_simulated [OF rel] by blast
  next
    case (answered i raw f c now r c' sh)
    then show ?thesis using answer_simulated [OF rel answered(2,4)] by (meson r_into_rtranclp)
  next
    case (waits i raw f c c1 response now sh)
    then show ?thesis using wait_simulated [OF rel waits(2,4)] by blast
  next
    case (resets i raw f c c1 response r c' sh)
    then show ?thesis using reset_simulated [OF rel resets(2-4)] by (meson r_into_rtranclp)
  next
    case (admitted i raw f c now x announced k sh)
    then show ?thesis using admission_simulated [OF rel admitted(2-5)] by (meson r_into_rtranclp)
  next
    case (announced i f x c now)
    then show ?thesis using announcement_simulated [OF rel announced(2)] by blast
  next
    case (replied i x c r c' sh)
    then show ?thesis using reply_simulated [OF rel replied(2,3)] by auto
  qed
qed

text \<open>The shared state apart from the repro file and the monitor channel.\<close>

definition core :: "shared_state \<Rightarrow> shared_state" where
  "core sh = sh\<lparr>sh_repro := None, sh_receivers := 0, sh_monitor := []\<rparr>"

lemma idle_settled:
  assumes "\<forall>p\<in>set (po_phases s). \<not> busy p"
  shows "map (\<lambda>p. fst (settled V sh0 p)) (po_phases s) = po_phases s" "owed V sh0 s = []" "counted_ahead s = 0"
proof -
  show "map (\<lambda>p. fst (settled V sh0 p)) (po_phases s) = po_phases s"
    using assms by (intro map_idI) simp
  show "owed V sh0 s = []" using assms by (simp add: owed_def)
  show "counted_ahead s = 0" using assms not_busy_resetting by (auto simp: counted_ahead_def filter_empty_conv)
qed

lemma serial_start:
  assumes "\<forall>p\<in>set (po_phases s). \<not> busy p"
  shows "serial V (po_shared s) s s"
  by (simp add: serial_def same_fixed_def idle_settled [OF assms] option.rel_refl)

text \<open>With every handler done the two machines agree but for the channel and the order of the records.\<close>

lemma serial_done:
  assumes "serial V sh0 s t" and "\<forall>p\<in>set (po_phases s). \<not> busy p"
  shows "po_phases t = po_phases s" and "core (po_shared t) = core (po_shared s)"
    and "rel_option (\<lambda>a b. mset a = mset b) (sh_repro (po_shared s)) (sh_repro (po_shared t))"
  using assms(1)
  by (auto simp: serial_def beside_def core_def idle_settled [OF assms(2)] elim!: option.rel_cases)

text \<open>Whole steps are the handlers of \<open>Server\<close>.\<close>

lemma move_move [simp]: "move i p sh (move i q sh' s) = move i p sh s"
  by (simp add: move_def)

lemma handler_is_whole:
  assumes h: "handle_command (V\<lparr>clock := now\<rparr>) raw c (po_shared s) = (r, c', sh)"
    and i: "in_phase s i (Idle c)"
  shows "(whole_step V)\<^sup>*\<^sup>* s (move i (after r c') sh s)"
proof (cases "parse_frame raw")
  case (Inl e)
  then show ?thesis using h whole_common [OF unreadable [OF i Inl], of V] by (auto simp: handle_command_def intro: r_into_rtranclp)
next
  case (Inr f)
  let ?V = "V\<lparr>clock := now\<rparr>"
  have d: "dispatch ?V raw f c (po_shared s) = (r, c', sh)" using h Inr by (simp add: handle_command_def)
  show ?thesis
  proof (cases "cl_epoch c = sh_reset_epoch (po_shared s)")
    case False
    then show ?thesis using d whole_common [OF stale [OF i False], of V] by (auto simp: dispatch_def intro: r_into_rtranclp)
  next
    case True
    let ?s1 = "move i (Checked raw f c) (po_shared s) s"
    have first: "whole_step V s ?s1" by (rule whole_common [OF checked [OF i Inr True]])
    have i1: "in_phase ?s1 i (Checked raw f c)" using i by (simp add: in_phase_def)
    have "whole_step V ?s1 (move i (after r c') sh ?s1)"
    proof (cases "own_reply ?V raw f c (po_shared s)")
      case None
      then have "handle_admitted ?V raw f (counted_in raw c) (po_shared ?s1) = (r, c', sh)"
        using d True by (simp add: dispatch_def counted_in_def)
      with None show ?thesis by (intro handled [OF i1]) simp_all
    next
      case (Some hd)
      then have "own_reply ?V raw f c (po_shared ?s1) = Some (r, c', sh)" using d True by (simp add: dispatch_def)
      then show ?thesis by (intro own [OF i1])
    qed
    with first show ?thesis by (simp add: converse_rtranclp_into_rtranclp)
  qed
qed



end
