(* ===== verification/Transparency.thy ===== *)
theory Transparency
  imports Session_Frame Proxy_Relay
begin

text \<open>
  The proxy end to end: with nothing configured, a client of a new connection gets from evilresp, byte
  for byte and in order, the replies the server would have given it, and the server gets its
  commands. The argument composes the exchange with the upstream, the relaying of one reply and the
  loop of a session.
\<close>

section \<open>An upstream that answers\<close>

text \<open>A server that accepted the identification, takes every write, has received \<open>out\<close> and will still
  send \<open>stream\<close>.\<close>

definition answering :: "upstream_connection \<Rightarrow> bytes \<Rightarrow> bytes \<Rightarrow> bool" where
  "answering u out stream \<longleftrightarrow> up_session u = Some \<lparr>ses_socket = \<lparr>incoming = stream, write_results = [],
     outgoing = out\<rparr>, ses_identity = [False, False, False]\<rparr>"

lemma exchange_answering:
  assumes "answering u out stream" and "read_raw_frame stream = Inr (reply, rest)"
  shows "\<exists>u'. exchange dbg cmd argv u = (Inr reply, u') \<and> answering u' (out @ cmd) rest"
  using assms
  by (auto simp: answering_def exchange_def exchange_on_def session_exchange_def write_all_def pop_result_def
      flush_socket_def read_reply_def retry_after_def Let_def)

definition ok_reply :: bytes where
  "ok_reply = encode (SimpleString ''OK'')"

lemma read_ok: "read_raw_frame (ok_reply @ rest) = Inr (ok_reply, rest)"
proof -
  have "line_ok ''OK''" by (simp add: line_ok_def is_utf8_ascii byte_def)
  then have "wf_frame (SimpleString ''OK'')" by (simp add: wf_frame.simps)
  moreover have "length (encode (SimpleString ''OK'')) \<le> MAX_FRAME_BYTES"
    by (simp add: encode_simps push_line_def crlf_def MAX_FRAME_BYTES_def)
  ultimately show ?thesis
    using read_loop_frame [of "SimpleString ''OK''" "[]" "[]" rest 0]
    unfolding read_raw_frame_def ok_reply_def by (simp add: frame_depth.simps MAX_FRAME_DEPTH_def
      del: read_loop.simps(3) flip: One_nat_def)
qed

lemma parse_ok: "parse_frame ok_reply = Inr (SimpleString ''OK'')"
  unfolding ok_reply_def
  by (rule parse_encoded) (simp_all add: wf_frame.simps line_ok_def is_utf8_ascii byte_def encode_simps push_line_def
    crlf_def MAX_FRAME_BYTES_def frame_depth.simps MAX_FRAME_DEPTH_def)

text \<open>A new connection to a server that accepts the three identification commands.\<close>

lemma connection_answering:
  assumes "incoming up = ok_reply @ ok_reply @ ok_reply @ stream" and "write_results up = []"
  shows "answering (connection_new dbg (Some up # net)) (outgoing up @ identity_bytes identity_default) stream"
proof -
  have sent: "send_pending xs s = (Inr (), s\<lparr>outgoing := outgoing s
      @ concat (map (\<lambda>(p, f). if p then encode f else []) xs)\<rparr>)" if "write_results s = []" for xs s
    using that
    by (induction xs arbitrary: s) (auto simp: write_all_def pop_result_def)
  show ?thesis
    using assms
    by (simp add: answering_def connection_new_def session_connect_def identity_apply_def sent flush_socket_def
      pop_result_def identity_default_def read_reply_def read_ok parse_ok accepts_def Let_def
      flip: identity_bytes_def)
qed

section \<open>A connection at rest\<close>

text \<open>Nothing configured, no reset missed, a single server, a client that takes what it is given.\<close>

definition at_rest :: "client \<Rightarrow> shared_state \<Rightarrow> bytes \<Rightarrow> bytes \<Rightarrow> bool" where
  "at_rest c sh out stream \<longleftrightarrow> cl_config c = config_default \<and> cl_epoch c = sh_reset_epoch sh
     \<and> sh_local_slots sh = None \<and> willing (cl_writer c) \<and> answering (cl_upstream c) out stream"

definition ordinary :: "bytes \<Rightarrow> bool" where
  "ordinary raw \<longleftrightarrow> (case parse_frame raw of Inl e \<Rightarrow> False | Inr f \<Rightarrow> \<not> own_command f)"

lemma quiet_default: "quiet E config_default name"
  by (simp add: quiet_def config_default_def transport_default_def transport_enabled_def fault_default_def)

lemma relay_one:
  assumes rest: "at_rest c sh out stream" and reply: "read_raw_frame stream = Inr (reply, stream')"
    and raw: "ordinary raw"
  shows "\<exists>c' sh'. handle_command V raw c sh = (Continue, c', sh') \<and> at_rest c' sh' (out @ raw) stream'
    \<and> sent (cl_writer c') = sent (cl_writer c) @ reply \<and> sh_repro sh' = sh_repro sh"
proof -
  let ?c = "c\<lparr>cl_fps := fp_update DirIn raw (cl_fps c)\<rparr>"
  obtain f where p: "parse_frame raw = Inr f" and f: "forwarded_command sh f"
    using raw rest by (auto simp: ordinary_def forwarded_command_def at_rest_def split: sum.splits)
  have ep: "cl_epoch c = sh_reset_epoch sh" and cfg: "cl_config c = config_default"
    using rest by (simp_all add: at_rest_def)
  obtain u where u: "exchange (debug_frame V) raw (argv_lossy f) (cl_upstream c) = (Inr reply, u)"
    "answering u (out @ raw) stream'"
    using exchange_answering reply rest unfolding at_rest_def by blast
  obtain r c' sh' where h: "handle_command V raw c sh = (r, c', sh')" by (metis prod.exhaust)
  have "quiet (ext V) (cl_config c) (command_name f)" by (simp add: cfg quiet_default)
  from handle_quiet [OF h p f ep this u(1)]
  have relayed: "relayed sh (Inr reply) r ?c c' sh'" and u': "cl_upstream c' = u" by blast+
  have "normalize_cluster_redirection reply sh = Inr reply"
    using rest by (simp add: normalize_cluster_redirection_def at_rest_def)
  then have got: "client_got reply r ?c c'" and log: "r = Continue \<Longrightarrow> sh_repro sh' = sh_repro sh"
    using relayed by (simp_all add: relayed_eq failure_recorded_def)
  have r: "r = Continue" and w: "willing (cl_writer c')"
    using got rest by (auto simp: client_got_def at_rest_def)
  have adm: "handle_admitted V raw f ?c sh = (r, c', sh')"
    using h p dispatch_forwarded [OF f ep, of V raw] by (simp add: handle_command_def)
  have "same_settings c c' \<and> sh_reset_epoch sh' = sh_reset_epoch sh"
  proof (cases rule: handle_admitted_cases [of V raw f ?c sh])
    case (taken k sh1)
    then show ?thesis using adm
      by (auto simp: keeps_def same_settings_def same_counters_def admit_def split: if_splits)
  qed (use adm r in auto)
  moreover have "sh_local_slots sh' = sh_local_slots sh"
    using handle_command_framed [of c sh V raw] by (simp add: h framed_def)
  ultimately have "at_rest c' sh' (out @ raw) stream'"
    using rest u(2) u' w by (simp add: at_rest_def same_settings_def)
  moreover have "sent (cl_writer c') = sent (cl_writer c) @ reply"
    using got r by (auto simp: client_got_def)
  ultimately show ?thesis using h r log by auto
qed

lemma frames_of_cases:
  assumes "frames_of stream = (reply # replies, e)"
  obtains stream' where "read_raw_frame stream = Inr (reply, stream')" "frames_of stream' = (replies, e)"
  using assms by (subst (asm) frames_of.simps) (auto split: sum.splits prod.splits)

lemma relay_all:
  assumes "at_rest c sh out stream" and "frames_of stream = (replies, e)" and "length raws \<le> length replies"
    and "\<forall>raw\<in>set raws. ordinary raw"
  shows "\<exists>c' sh' stream'. run_commands V n raws c sh = (Continue, c', sh')
    \<and> at_rest c' sh' (out @ concat raws) stream'
    \<and> sent (cl_writer c') = sent (cl_writer c) @ concat (take (length raws) replies) \<and> sh_repro sh' = sh_repro sh"
  using assms
proof (induction raws arbitrary: c sh out stream replies n)
  case (Cons raw raws)
  then obtain reply more where r: "replies = reply # more" by (cases replies) auto
  obtain stream1 where s1: "read_raw_frame stream = Inr (reply, stream1)" "frames_of stream1 = (more, e)"
    using Cons.prems(2) unfolding r by (rule frames_of_cases)
  obtain c1 sh1 where one: "handle_command (V n) raw c sh = (Continue, c1, sh1)" "at_rest c1 sh1 (out @ raw) stream1"
    "sent (cl_writer c1) = sent (cl_writer c) @ reply" "sh_repro sh1 = sh_repro sh"
    using relay_one [OF Cons.prems(1) s1(1), of raw "V n"] Cons.prems(4) by auto
  have "length raws \<le> length more" "\<forall>raw\<in>set raws. ordinary raw" using Cons.prems(3,4) r by simp_all
  from Cons.IH [OF one(2) s1(2) this, of "n + 1"] obtain c' sh' stream' where
    "run_commands V (n + 1) raws c1 sh1 = (Continue, c', sh')" "at_rest c' sh' ((out @ raw) @ concat raws) stream'"
    "sent (cl_writer c') = sent (cl_writer c1) @ concat (take (length raws) more)" "sh_repro sh' = sh_repro sh1"
    by blast
  then show ?case using one r by auto
qed auto

section \<open>The proxy is transparent\<close>

text \<open>C4: With nothing configured evilresp is transparent. A new client of a proxy for a single server
  sends commands that are not the proxy's own and takes what it is sent; the server accepts the
  proxy's identification and answers every command. Then the client is sent the server's replies, byte for byte
  and in order, one for every command, the server has received the identification and after it exactly the commands,
  the session ends as the client's stream does, and nothing is recorded.\<close>

theorem proxy_is_transparent:
  assumes "accept_client V0 target (Some up # net) socket w reads sh0 = (c, sh)"
    and "sh_local_slots sh0 = None" and "willing w"
    and "incoming up = ok_reply @ ok_reply @ ok_reply @ stream" and "write_results up = []"
    and "frames_of input = (raws, e)" and "\<forall>raw\<in>set raws. ordinary raw"
    and "frames_of stream = (replies, e')" and "length raws \<le> length replies"
    and "serve V n input c sh = (r, c', sh')"
  shows "sent (cl_writer c') = sent w @ concat (take (length raws) replies)
    \<and> (\<exists>rest. answering (cl_upstream c') (outgoing up @ identity_bytes identity_default @ concat raws) rest)
    \<and> r = stream_end e \<and> sh_repro sh' = sh_repro sh0"
proof -
  have rest: "at_rest c sh (outgoing up @ identity_bytes identity_default) stream" "sent (cl_writer c) = sent w"
    "sh_repro sh = sh_repro sh0"
    using assms(1-3) connection_answering [OF assms(4,5), of "debug_frame V0" net]
    by (auto simp: accept_client_def at_rest_def)
  from relay_all [OF rest(1) assms(8,9,7), of V n] rest(2,3) assms(6,10) show ?thesis
    by (auto simp: serve_runs at_end_def at_rest_def)
qed

theorem proxy_is_transparent_witness:
  "\<exists>c sh r c' sh'. accept_client sample_env \<lparr>target_upstream = Unix ''up'', target_listen = Unix ''down''\<rparr>
       [Some \<lparr>incoming = ok_reply @ ok_reply @ ok_reply @ ok_reply, write_results = [], outgoing = []\<rparr>]
       UnixSocket plain_writer [] sample_state = (c, sh)
     \<and> serve (\<lambda>_. sample_env) 0 (encode (command_frame [''PING''])) c sh = (r, c', sh')
     \<and> sent (cl_writer c') = ok_reply"
proof -
  let ?t = "\<lparr>target_upstream = Unix ''up'', target_listen = Unix ''down''\<rparr> :: proxy_target"
  let ?up = "\<lparr>incoming = ok_reply @ ok_reply @ ok_reply @ ok_reply, write_results = [], outgoing = []\<rparr> :: up_socket"
  let ?ping = "encode (command_frame [''PING''])"
  obtain c sh where a: "accept_client sample_env ?t [Some ?up] UnixSocket plain_writer [] sample_state = (c, sh)"
    by force
  obtain r c' sh' where h: "serve (\<lambda>_. sample_env) 0 ?ping c sh = (r, c', sh')" by (metis prod.exhaust)
  have short: "length ?ping \<le> MAX_FRAME_BYTES"
    by (simp add: command_frame_def encode_simps push_blob_def push_line_def crlf_def show_nat.simps digit_char_def
        MAX_FRAME_BYTES_def)
  obtain m where none: "frames_of [] = ([], IoError UnexpectedEof m)" using frames_of_nothing by blast
  have f: "frames_of ?ping = ([?ping], IoError UnexpectedEof m)"
    using frames_of_command [OF short, of "[]"] by (simp add: none)
  have s: "frames_of ok_reply = ([ok_reply], IoError UnexpectedEof m)"
    using read_ok [of "[]"] by (simp add: frames_of.simps [of ok_reply] none)
  have "ordinary ?ping"
    unfolding ordinary_def sample_ping sum.case
    by (simp add: own_command_def command_frame_def is_debug_evil_def is_debug_chaos_def is_debug_protocol_def
        is_debug_def is_monitor_def command_name_def ascii_defs from_utf8_lossy_ascii byte_def)
  then have o: "\<forall>raw\<in>set [?ping]. ordinary raw" by simp
  have "sh_local_slots sample_state = None" "willing plain_writer" "sent plain_writer = []"
    by (simp_all add: sample_state_def initial_state_def willing_def plain_writer_def)
  with proxy_is_transparent [OF a _ _ _ _ f o s _ h] have "sent (cl_writer c') = ok_reply" by simp
  with a h show ?thesis by blast
qed

end
