(* ===== verification/Tests_Base.thy ===== *)
theory Tests_Base
  imports Evil_Config_Props "HOL-Library.Code_Target_Nat"
begin

text \<open>
  Shared by the theories \<open>Tests_*\<close>, which translate the repository's own unit tests (the
  \<open>mod tests\<close> at the end of each source file): a test is a bool-valued definition with the name
  of the test function, its assertions joined by conjunctions and its loops by \<open>list_all\<close>, and the
  lemma after it evaluates the test on the model inside the kernel. An \<open>unwrap\<close> or \<open>expect\<close> that
  would panic makes the test false.

  Crates the tests call are the parameter record of \<open>Externals\<close>; a test whose expected bytes are
  output of ChaCha20, SHA-256, BLAKE3 or TLSH is left out, one that does not depend on what is drawn
  is run on \<open>test_externals\<close>.
\<close>

section \<open>Assertions\<close>

definition is_err :: "'e + 'a \<Rightarrow> bool" where
  "is_err r = (case r of Inl _ \<Rightarrow> True | Inr _ \<Rightarrow> False)"

text \<open>\<open>unwrap\<close> or \<open>unwrap_err\<close>, then the assertions on the result.\<close>

definition unwraps :: "'e + 'a \<Rightarrow> ('a \<Rightarrow> bool) \<Rightarrow> bool" where
  "unwraps r P = (case r of Inr x \<Rightarrow> P x | Inl _ \<Rightarrow> False)"

definition unwraps_err :: "'e + 'a \<Rightarrow> ('e \<Rightarrow> bool) \<Rightarrow> bool" where
  "unwraps_err r P = (case r of Inr _ \<Rightarrow> False | Inl e \<Rightarrow> P e)"

definition unwraps_some :: "'a option \<Rightarrow> ('a \<Rightarrow> bool) \<Rightarrow> bool" where
  "unwraps_some r P = (case r of Some x \<Rightarrow> P x | None \<Rightarrow> False)"

text \<open>\<open>str::contains\<close>, \<open>str::starts_with\<close>, and lines of the wire format.\<close>

fun begins :: "string \<Rightarrow> string \<Rightarrow> bool" where
  "begins s [] = True"
| "begins [] (d # t) = False"
| "begins (c # s) (d # t) = (if c = d then begins s t else False)"

fun contains :: "string \<Rightarrow> string \<Rightarrow> bool" where
  "contains [] t = (t = [])"
| "contains (c # s) t = (if begins (c # s) t then True else contains s t)"

definition lines :: "string list \<Rightarrow> bytes" where
  "lines ls = concat (map (\<lambda>l. l @ crlf) ls)"

section \<open>DEBUG commands\<close>

text \<open>Every draw of these externals is the least value allowed, so a test that passes on them does
  not rest on a particular draw; the hash is the identity, which no two texts share.\<close>

definition constant_draw :: "'a \<Rightarrow> (nat, 'a) state" where
  "constant_draw x = State (\<lambda>s. (x, s))"

definition test_externals :: "nat externals" where
  "test_externals = sample_externals
     \<lparr>sha256 := (\<lambda>b. b), from_seed := (\<lambda>b. 0),
      gen_range := (\<lambda>ty lo hi. constant_draw lo), gen_range_incl := (\<lambda>ty lo hi. constant_draw lo),
      gen_percent := constant_draw (Fin 0), gen_bool := (\<lambda>p. constant_draw (f_lt (Fin 0) p)),
      gen_ratio := (\<lambda>n d. constant_draw (0 < n)), gen_bits := (\<lambda>ty. constant_draw 0),
      gen_flag := constant_draw False,
      regex_error := (\<lambda>p. if CHR ''['' \<in> set p then Some ''unclosed character class'' else None),
      regex_match := (\<lambda>p name. p = ''^GET.*'' \<and> begins (to_ascii_uppercase name) ''GET'')\<rparr>"

lemma test_externals_ok: "rng_ok test_externals \<and> streaming_ok test_externals"
proof
  have "pred_state P (constant_draw x) \<longleftrightarrow> P x" for P and x :: 'a
    by (simp add: pred_state_def constant_draw_def)
  moreover have "\<not> f_lt (Fin 0) p" if "f_eq p (Fin 0)" for p
    using that by (cases p) (auto simp: f_eq_def f_lt_def)
  ultimately show "rng_ok test_externals"
    by (auto simp: rng_ok_def test_externals_def f_lt_def pred_stateI constant_draw_def)
  show "streaming_ok test_externals"
    using sample_streaming_ok by (simp add: streaming_ok_def test_externals_def)
qed

text \<open>The helpers of the tests split a command line at white space. \<open>debug_runs\<close> is
  \<open>config.apply_debug_command(..).unwrap()\<close>, \<open>debug_all\<close> a sequence of them, and
  \<open>debug_refused\<close> a command that is an error and leaves \<open>status()\<close> as it was.\<close>

definition evil_argv :: "string \<Rightarrow> string list" where
  "evil_argv options = shell_words (''DEBUG EVIL '' @ options)"

definition debug_runs :: "string list \<Rightarrow> evil_config \<Rightarrow> (evil_config \<Rightarrow> debug_result \<Rightarrow> bool) \<Rightarrow> bool" where
  "debug_runs argv c P = (case apply_debug_command test_externals argv c of
     (c', Inr result) \<Rightarrow> P c' result | (c', Inl e) \<Rightarrow> False)"

fun debug_all :: "string list list \<Rightarrow> evil_config \<Rightarrow> (evil_config \<Rightarrow> bool) \<Rightarrow> bool" where
  "debug_all [] c P = P c"
| "debug_all (argv # argvs) c P = debug_runs argv c (\<lambda>c' _. debug_all argvs c' P)"

definition debug_refused :: "string list \<Rightarrow> evil_config \<Rightarrow> bool" where
  "debug_refused argv c = (case apply_debug_command test_externals argv c of
     (c', Inl e) \<Rightarrow> status c' = status c | (c', Inr result) \<Rightarrow> False)"

lemma debug_refused_code [code]:
  "debug_refused argv c = is_err (snd (apply_debug_command test_externals argv c))"
  by (auto simp: debug_refused_def is_err_def dest: apply_debug_error split: prod.split sum.split)

text \<open>\<open>error.to_string().contains(..)\<close>.\<close>

definition error_says :: "string \<Rightarrow> app_error \<Rightarrow> bool" where
  "error_says t e = contains (display_error (debug_fmt test_externals) e) t"

section \<open>Evaluation\<close>

text \<open>Code equations that write the bounds of 64-bit words out, and for \<open>f64\<close> ones that avoid the bound of the finite values, a number of 309
  digits, where a value is plainly below it.\<close>

lemma take_bit_code [code]:
  "take_bit n (k::int) =
     (if n = 64 then
        if 0 \<le> k \<and> k < 18446744073709551616 then k
        else if - 18446744073709551616 \<le> k \<and> k < 0 then k + 18446744073709551616
        else k mod 18446744073709551616
      else if n = 32 then (if 0 \<le> k \<and> k < 4294967296 then k else k mod 4294967296)
      else if n = 16 then (if 0 \<le> k \<and> k < 65536 then k else k mod 65536)
      else k mod 2 ^ n)"
proof -
  have "- 18446744073709551616 \<le> k \<Longrightarrow> k < 0 \<Longrightarrow> k mod 18446744073709551616 = k + 18446744073709551616"
    using mod_pos_pos_trivial [of "k + 18446744073709551616" 18446744073709551616] by simp
  then show ?thesis by (auto simp: take_bit_eq_mod)
qed

lemma the_signed_int_code [code]:
  "Word.the_signed_int (w :: 'a::len word) =
     (let k = Word.the_int w in
      if LENGTH('a) = 64 then (if k < 9223372036854775808 then k else k - 18446744073709551616)
      else if LENGTH('a) = 32 then (if k < 2147483648 then k else k - 4294967296)
      else signed_take_bit (LENGTH('a) - Suc 0) k)"
proof -
  have half: "(k + m) mod M - m = (if k < m then k else k - M)" if "0 \<le> k" "k < M" "M = m + m"
    for k m M :: int
  proof (cases "k < m")
    case True
    then have "(k + m) mod M = k + m" using that by (intro mod_pos_pos_trivial) linarith+
    then show ?thesis using True by simp
  next
    case False
    have "(k + m) mod M = (k - m + M) mod M" using that(3) by (simp add: add.commute)
    also have "\<dots> = k - m" using False that by (simp only: mod_add_self2) (intro mod_pos_pos_trivial; linarith)
    finally show ?thesis using False that(3) by simp
  qed
  consider "LENGTH('a) = 64" | "LENGTH('a) = 32" | "LENGTH('a) \<noteq> 64" "LENGTH('a) \<noteq> 32" by auto
  then show ?thesis
  proof cases
    case 1
    with uint_bounded [of w] have "uint w < 18446744073709551616" by simp
    moreover have "sint w = (uint w + 9223372036854775808) mod 18446744073709551616 - 9223372036854775808"
      using 1 by (simp add: sint_uint signed_take_bit_eq_take_bit_shift take_bit_eq_mod)
    ultimately have "sint w = (if uint w < 9223372036854775808 then uint w
        else uint w - 18446744073709551616)"
      by (simp only: half uint_ge_0 arith_simps)
    with 1 show ?thesis by (simp add: Let_def)
  next
    case 2
    with uint_bounded [of w] have "uint w < 4294967296" by simp
    moreover have "sint w = (uint w + 2147483648) mod 4294967296 - 2147483648"
      using 2 by (simp add: sint_uint signed_take_bit_eq_take_bit_shift take_bit_eq_mod)
    ultimately have "sint w = (if uint w < 2147483648 then uint w else uint w - 4294967296)"
      by (simp only: half uint_ge_0 arith_simps)
    with 2 show ?thesis by (simp add: Let_def)
  qed (simp add: sint_uint)
qed

lemma parse_bounds_code [code]:
  "parse_i64 t = map_ok word_of_int (parse_int True (- 9223372036854775808) 9223372036854775807 t)"
  "parse_i32 t = map_ok word_of_int (parse_int True (- 2147483648) 2147483647 t)"
  "parse_u64 t = map_ok word_of_int (parse_int False 0 18446744073709551615 t)"
  "parse_usize t = map_ok nat (parse_int False 0 18446744073709551615 t)"
  "parse_u16 t = map_ok nat (parse_int False 0 65535 t)"
  by (simp_all add: parse_i64_def parse_i32_def parse_u64_def parse_usize_def parse_u16_def)

lemma frame_bounds_code [code]:
  "MAX_FRAME_BYTES = 67108864"
  "read_blob_body len input raw =
     (if len + 2 \<ge> 18446744073709551616 then Inl (invalid_data ''RESP blob length overflow'')
      else if len + 2 > MAX_FRAME_BYTES - length raw
      then Inl (invalid_data ''RESP frame exceeds 64 MiB'')
      else if length input < len + 2
      then Inl (IoError UnexpectedEof (msg_of ''truncated RESP blob''))
      else let raw' = raw @ take (len + 2) input in
        if \<not> ends_with_crlf raw' then Inl (invalid_data ''bulk body missing CRLF terminator'')
        else Inr (drop (len + 2) input, raw'))"
  "read_children paired len raw =
     (if paired \<and> len * 2 \<ge> 18446744073709551616
      then Inl (invalid_data ''RESP aggregate length overflow'')
      else let children = (if paired then len * 2 else len) in
        if children > (MAX_FRAME_BYTES - length raw) div 3
        then Inl (invalid_data ''RESP frame exceeds 64 MiB'')
        else Inr children)"
  by (simp_all add: MAX_FRAME_BYTES_def read_blob_body_def read_children_def)

function int_pow :: "int \<Rightarrow> int \<Rightarrow> int" where
  "int_pow b k = (if k \<le> 0 then 1
     else (let h = int_pow b (k div 2) in if k mod 2 = 0 then h * h else h * h * b))"
  by pat_completeness auto
termination by (relation "measure (nat \<circ> snd)") auto

declare int_pow.simps [simp del]

lemma int_pow: "int_pow b k = b ^ nat k"
proof (induction b k rule: int_pow.induct)
  case (1 b k)
  show ?case
  proof (cases "k \<le> 0")
    case False
    then have IH: "int_pow b (k div 2) = b ^ nat (k div 2)" by (rule 1)
    have "0 \<le> k div 2" "k div 2 + k div 2 + k mod 2 = k" using False by auto
    then have "nat k = nat (k div 2) + nat (k div 2) + nat (k mod 2)" by linarith
    then have "b ^ nat k = b ^ nat (k div 2) * b ^ nat (k div 2) * b ^ nat (k mod 2)"
      by (simp only: power_add)
    moreover have "k mod 2 = 0 \<or> k mod 2 = 1" by auto
    ultimately show ?thesis using False IH by (auto simp: int_pow.simps [of b k] Let_def)
  qed (simp add: int_pow.simps)
qed

lemma pow2_code [code]:
  "pow2 e = (if 0 \<le> e then of_int (int_pow 2 e) else inverse (of_int (int_pow 2 (- e))))"
  by (simp add: pow2_def int_pow inverse_eq_divide)

lemma pow10_code [code]:
  "pow10 e = (if 0 \<le> e then of_int (int_pow 10 e) else inverse (of_int (int_pow 10 (- e))))"
  by (simp add: pow10_def int_pow inverse_eq_divide)

lemma f_round_code [code]:
  "f_round r =
     (let m = round_mag \<bar>r\<bar> in
      if (if m < 18446744073709551616 then False else pow2 1024 \<le> m) then (if r < 0 then NegInf else Inf)
      else if r < 0 then (if m = 0 then NegZero else Fin (- m))
      else Fin m)"
proof -
  have "(18446744073709551616 :: rat) \<le> pow2 1024" by (simp add: pow2_def)
  then show ?thesis by (simp add: f_round_def Let_def)
qed

text \<open>Bytes are tested by their bits, and ASCII strings are valid UTF-8 without decoding them.\<close>

lemma byte_Char_bounds:
  "128 \<le> byte (Char b0 b1 b2 b3 b4 b5 b6 b7) \<longleftrightarrow> b7"
  by (cases b0; cases b1; cases b2; cases b3; cases b4; cases b5; cases b6; cases b7)
    (simp_all add: byte_def)

lemma utf8_check_code [code]:
  "utf8_check pos [] = None"
  "utf8_check pos (Char b0 b1 b2 b3 b4 b5 b6 b7 # cs) =
     (if b7 then
        (let c = Char b0 b1 b2 b3 b4 b5 b6 b7; n = fst (utf8_step (c # cs)) in
         if snd (utf8_step (c # cs)) then utf8_check (pos + n) (drop (n - 1) cs)
         else Some \<lparr>valid_up_to = pos,
                    error_len = (if n = Suc (length cs) \<and> utf8_width (byte c) \<ge> 2 then None
                                 else Some n)\<rparr>)
      else utf8_check (Suc pos) cs)"
proof -
  have "\<not> b7 \<Longrightarrow> utf8_step (Char b0 b1 b2 b3 b4 b5 b6 b7 # cs) = (1, True)"
    using byte_Char_bounds [of b0 b1 b2 b3 b4 b5 b6 b7]
    by (simp add: utf8_step_def utf8_class_def utf8_width_def byte_at_def)
  then show "utf8_check pos (Char b0 b1 b2 b3 b4 b5 b6 b7 # cs) =
     (if b7 then
        (let c = Char b0 b1 b2 b3 b4 b5 b6 b7; n = fst (utf8_step (c # cs)) in
         if snd (utf8_step (c # cs)) then utf8_check (pos + n) (drop (n - 1) cs)
         else Some \<lparr>valid_up_to = pos,
                    error_len = (if n = Suc (length cs) \<and> utf8_width (byte c) \<ge> 2 then None
                                 else Some n)\<rparr>)
      else utf8_check (Suc pos) cs)"
    by (simp add: utf8_check.simps(2) Let_def)
qed simp

lemma from_utf8_lossy_code [code]:
  "from_utf8_lossy s = (if is_utf8 s then s else
     (case s of [] \<Rightarrow> [] | c # cs \<Rightarrow>
       (let n = fst (utf8_step (c # cs)) in
        (if snd (utf8_step (c # cs)) then take n (c # cs) else replacement_char)
        @ from_utf8_lossy (drop (n - 1) cs))))"
proof (cases "is_utf8 s")
  case False
  then show ?thesis by (cases s) (simp_all add: from_utf8_lossy.simps(2))
qed (simp only: from_utf8_lossy_valid if_True)

lemma ascii_code [code]:
  "is_ascii_digit (Char b0 b1 b2 b3 b4 b5 b6 b7) \<longleftrightarrow>
     \<not> b7 \<and> \<not> b6 \<and> b5 \<and> b4 \<and> (\<not> b3 \<or> \<not> b2 \<and> \<not> b1)"
  "to_digit (Char b0 b1 b2 b3 b4 b5 b6 b7) =
     (if \<not> b7 \<and> \<not> b6 \<and> b5 \<and> b4 \<and> (\<not> b3 \<or> \<not> b2 \<and> \<not> b1)
      then Some (if b3 then (if b0 then 9 else 8)
        else if b2 then (if b1 then (if b0 then 7 else 6) else (if b0 then 5 else 4))
        else (if b1 then (if b0 then 3 else 2) else (if b0 then 1 else 0))) else None)"
  by (cases b0; cases b1; cases b2; cases b3; cases b4; cases b5; cases b6; cases b7;
      simp add: to_digit_def is_ascii_digit_def byte_def)+

lemma letters_code [code]:
  "is_ascii_uppercase (Char b0 b1 b2 b3 b4 b5 b6 b7) \<longleftrightarrow> \<not> b7 \<and> b6 \<and> \<not> b5 \<and>
     (b0 \<or> b1 \<or> b2 \<or> b3 \<or> b4) \<and> \<not> (b4 \<and> b3 \<and> (b2 \<or> b1 \<and> b0))"
  "is_ascii_lowercase (Char b0 b1 b2 b3 b4 b5 b6 b7) \<longleftrightarrow> \<not> b7 \<and> b6 \<and> b5 \<and>
     (b0 \<or> b1 \<or> b2 \<or> b3 \<or> b4) \<and> \<not> (b4 \<and> b3 \<and> (b2 \<or> b1 \<and> b0))"
  by (cases b0; cases b1; cases b2; cases b3; cases b4; cases b5; cases b6; cases b7;
      simp add: is_ascii_uppercase_def is_ascii_lowercase_def byte_def)+

text \<open>A line is read before it is cut at the frame's limit.\<close>

lemma until_lf_take: "until_lf (take n s) = take n (until_lf s)"
  by (induction s arbitrary: n) (auto simp: take_Cons' split: nat.splits)

lemma read_line_raw_code [code]:
  "read_line_raw input raw =
     (let line = until_lf input; n = MAX_FRAME_BYTES - length raw;
          line = (if length line \<le> n then line else take n line) in
      if line = [] then Inl (IoError UnexpectedEof (msg_of ''stream ended before RESP line terminator''))
      else if \<not> ends_with_crlf line then Inl (invalid_data ''RESP line missing CRLF terminator'')
      else Inr (take (length line - 2) line, drop (length line) input, raw @ line))"
  by (simp add: read_line_raw_def until_lf_take Let_def)

text \<open>A long text is searched for the first byte of the pattern, four positions at a time.\<close>

definition contains_from :: "char \<Rightarrow> string \<Rightarrow> string \<Rightarrow> bool" where
  "contains_from d u s = contains s (d # u)"

lemma contains_code [code]:
  "contains s [] = True"
  "contains s (d # u) = contains_from d u s"
proof -
  show "contains s [] = True" by (induction s) simp_all
qed (simp add: contains_from_def)

lemma contains_from_code [code]:
  "contains_from d u [] = False"
  "contains_from d u [a] = (a = d \<and> u = [])"
  "contains_from d u [a, b] =
     (if a = d \<and> begins [b] u then True else contains_from d u [b])"
  "contains_from d u [a, b, c] =
     (if a = d \<and> begins [b, c] u then True else contains_from d u [b, c])"
  "contains_from d u (a # b # c # e # w) =
     (if a = d \<or> b = d \<or> c = d \<or> e = d then
        if (if a = d then begins (b # c # e # w) u else False) then True
        else contains_from d u (b # c # e # w)
      else contains_from d u w)"
  by (cases u; auto simp: contains_from_def)+

text \<open>Logarithms and decimal digits are computed on \<open>int\<close>, and the search for the shortest
  decimal stops at the first that is found.\<close>

function int_log2 :: "int \<Rightarrow> int" where
  "int_log2 k = (if k \<le> 1 then 0 else 1 + int_log2 (k div 2))"
  by pat_completeness auto
termination by (relation "measure nat") auto

declare int_log2.simps [simp del]

lemma ilog2_int: "ilog2 n = int_log2 (int n)"
proof (induction n rule: ilog2.induct)
  case (1 n)
  then show ?case by (simp add: ilog2.simps [of n] int_log2.simps [of "int n"] zdiv_int)
qed

lemma floor_log2_code [code]:
  "floor_log2 r =
     (let (n, d) = quotient_of r; e = int_log2 n - int_log2 d in if pow2 e \<le> r then e else e - 1)"
proof -
  have "ilog2 (nat k) = int_log2 k" for k
    by (cases "0 \<le> k") (simp_all add: ilog2_int int_log2.simps [of k] int_log2.simps [of 0])
  then show ?thesis by (simp add: floor_log2_def)
qed

function int_digit_text :: "int \<Rightarrow> string" where
  "int_digit_text k = (if k < 10 then [digit_char (nat k)]
     else int_digit_text (k div 10) @ [digit_char (nat (k mod 10))])"
  by pat_completeness auto
termination by (relation "measure nat") auto

declare int_digit_text.simps [simp del]

lemma show_nat_code [code]: "show_nat n = int_digit_text (int n)"
proof (induction n rule: show_nat.induct)
  case (1 n)
  have "nat (int n mod 10) = n mod 10" by (simp add: nat_mod_as_int)
  then show ?case using 1
    by (simp add: show_nat.simps [of n] int_digit_text.simps [of "int n"] zdiv_int)
qed

lemma digit_char_code [code]:
  "digit_char d = (if d = 0 then CHR ''0'' else if d = 1 then CHR ''1'' else if d = 2 then CHR ''2''
     else if d = 3 then CHR ''3'' else if d = 4 then CHR ''4'' else if d = 5 then CHR ''5''
     else if d = 6 then CHR ''6'' else if d = 7 then CHR ''7'' else if d = 8 then CHR ''8''
     else if d = 9 then CHR ''9'' else ''0123456789'' ! d)"
  by (simp add: digit_char_def)

definition shortest_from :: "nat \<Rightarrow> rat \<Rightarrow> nat \<times> int" where
  "shortest_from n r =
     (case find (\<lambda>(m, k). round_mag (of_nat m * pow10 k) = r)
             (concat (map (candidates r) [n..<18])) of
        Some mk \<Rightarrow> mk
      | None \<Rightarrow> exact_decimal r)"

lemma find_append: "find P (xs @ ys) = (case find P xs of Some x \<Rightarrow> Some x | None \<Rightarrow> find P ys)"
  by (induction xs) auto

lemma shortest_from_code [code]:
  "shortest_from n r =
     (if 18 \<le> n then exact_decimal r
      else (let found = find (\<lambda>(m, k). round_mag (of_int (int m) * pow10 k) = r) (candidates r n) in
        if found = None then shortest_from (Suc n) r else the found))"
proof (cases "18 \<le> n")
  case False
  then have "[n..<18] = n # [Suc n..<18]" by (simp add: upt_conv_Cons)
  with False show ?thesis
    by (auto simp: shortest_from_def find_append Let_def split: option.split)
qed (simp add: shortest_from_def)

lemma shortest_code [code]: "shortest r = shortest_from 1 r"
  by (simp add: shortest_def shortest_from_def)

lemma digits_value_code [code]: "digits_value ds = nat (foldl (\<lambda>n d. 10 * n + int d) 0 ds)"
proof -
  have "foldl (\<lambda>n d. 10 * n + int d) (int k) ds = int (foldl (\<lambda>n d. 10 * n + d) k ds)" for k
  proof (induction ds arbitrary: k)
    case (Cons d ds)
    have "10 * int k + int d = int (10 * k + d)" by simp
    then show ?case using Cons [of "10 * k + d"] by simp
  qed simp
  from this [of 0] show ?thesis by (simp add: digits_value_def)
qed

lemma parse_number_code [code]:
  "parse_number s =
     (case parse_mantissa s of
        None \<Rightarrow> None
      | Some (m, e, rest) \<Rightarrow>
          map_option (\<lambda>x. of_int (int m) * pow10 (e + x)) (parse_exponent rest))"
  unfolding parse_number_def of_int_of_nat_eq ..

end
