(* ===== verification/Tests_Wire.thy ===== *)
theory Tests_Wire
  imports Tests_Base Canonicalize_Props Transaction Fingerprint Upstream_Props
begin

text \<open>
  The unit tests of \<open>resp.rs\<close> (the parser, the encoder and the raw-frame reader, but for the
  one that nests 128 arrays), \<open>cli.rs\<close>, \<open>transaction.rs\<close>, \<open>protocol_fingerprint.rs\<close>,
  \<open>upstream_identity.rs\<close> and \<open>upstream_connection.rs\<close>.
\<close>

section \<open>Frames\<close>

definition rejects_invalid_lengths_without_allocating_advertised_sizes :: bool where
  "rejects_invalid_lengths_without_allocating_advertised_sizes \<longleftrightarrow>
     list_all (\<lambda>bytes. is_err (parse_frame bytes)
         \<and> unwraps_err (read_raw_frame bytes) (\<lambda>error. io_kind_of error = InvalidData))
       [lines [''$9223372036854775807''], lines [''*9223372036854775807''],
        lines [''%9223372036854775807''], lines [''|9223372036854775807''],
        lines [''$-2''], lines [''*-2''], lines [''!-1''], lines [''=-1''],
        lines [''%-1''], lines [''~-1''], lines [''>-1''], lines [''|-1'']]"

text \<open>The loop of the next test: read each frame off the stream, then the end of the stream.\<close>

fun reads_each :: "bytes list \<Rightarrow> bytes \<Rightarrow> bool" where
  "reads_each [] reader = unwraps_err (read_raw_frame reader) (\<lambda>e. io_kind_of e = UnexpectedEof)"
| "reads_each (f # fs) reader = unwraps (read_raw_frame reader) (\<lambda>(raw, rest).
     raw = f \<and> unwraps (parse_frame f) (\<lambda>g. encode g = f) \<and> reads_each fs rest)"

definition reads_fragmented_and_pipelined_frames_without_overreading :: bool where
  "reads_fragmented_and_pipelined_frames_without_overreading \<longleftrightarrow>
     (let frames = [lines [''$-1''], lines [''*-1''], lines [''$0'', ''''], lines [''*0''],
        lines [''%1'', ''+k'', ''*2'', ''$3'', ''a'' @ [CHR 0x00] @ ''b'', ''#f''],
        lines [''|1'', ''+k'', '':1''], lines [''>1'', ''+message''], lines [''!3'', ''ERR''],
        lines [''=7'', ''txt:abc''], lines [''PING'']]
      in reads_each frames (concat frames))"

definition rejects_truncated_frames_and_invalid_terminators :: bool where
  "rejects_truncated_frames_and_invalid_terminators \<longleftrightarrow>
     list_all (\<lambda>bytes. is_err (parse_frame bytes) \<and> is_err (read_raw_frame bytes))
       [''+OK'', ''+OK'' @ [CHR 0x0A], ''PING'', ''PING'' @ [CHR 0x0A],
        lines [''$3''] @ ''ab'', lines [''$3''] @ ''abcxx'', lines [''*1''], lines [''%1'', ''+k'']]"

definition malformed_command_arguments_are_not_silently_removed :: bool where
  "malformed_command_arguments_are_not_silently_removed \<longleftrightarrow>
     unwraps (parse_frame (lines [''*3'', '':0'', ''+DEBUG'', ''+EVIL'']))
       (\<lambda>f. argv_lossy f = [] \<and> command_name f = None)
     \<and> unwraps (parse_frame (lines [''*4'', ''+DEBUG'', ''_'', ''+EVIL'', ''+STATUS'']))
       (\<lambda>f. argv_lossy f = [])"

definition parses_nested_resp3_frame :: bool where
  "parses_nested_resp3_frame \<longleftrightarrow>
     (let bytes = lines [''%2'', ''+one'', '':1'', ''+two'', ''*2'', ''$3'', ''foo'', ''#t'']
      in unwraps (parse_frame bytes) (\<lambda>f.
           f = Map [(SimpleString ''one'', Integer 1),
                (SimpleString ''two'', Array (Some [BulkString (Some ''foo''), Boolean True]))]
           \<and> encode f = bytes))"

definition extracts_command_name_from_arrays_and_inline :: bool where
  "extracts_command_name_from_arrays_and_inline \<longleftrightarrow>
     unwraps (parse_frame (lines [''*2'', ''$3'', ''get'', ''$3'', ''key'']))
       (\<lambda>f. command_name f = Some ''GET'')
     \<and> unwraps (parse_frame (lines [''set key value''])) (\<lambda>f. command_name f = Some ''SET'')"

lemma frame_tests_pass:
  "rejects_invalid_lengths_without_allocating_advertised_sizes
   \<and> reads_fragmented_and_pipelined_frames_without_overreading
   \<and> rejects_truncated_frames_and_invalid_terminators
   \<and> malformed_command_arguments_are_not_silently_removed
   \<and> parses_nested_resp3_frame
   \<and> extracts_command_name_from_arrays_and_inline"
  by code_simp

section \<open>Endpoints, fingerprints and transactions\<close>

definition parses_tcp_endpoint :: bool where
  "parses_tcp_endpoint \<longleftrightarrow> unwraps (parse_endpoint ''127.0.0.1:6379'')
     (\<lambda>e. e = Tcp \<lparr>host = ''127.0.0.1'', port = 6379\<rparr>)"

definition parses_unix_endpoint :: bool where
  "parses_unix_endpoint \<longleftrightarrow> unwraps (parse_endpoint ''unix:/tmp/redis.sock'')
     (\<lambda>e. e = Unix ''/tmp/redis.sock'')"

definition blake3_fingerprint_is_incremental :: bool where
  "blake3_fingerprint_is_incremental \<longleftrightarrow>
     (let fingerprints = fp_update DirIn ''world'' (fp_update DirIn '' ''
            (fp_update DirIn ''hello'' fingerprints_new))
      in fp_get test_externals DirIn Blake3 fingerprints = blake3_hex test_externals [''hello world''])"

definition reset_zeroes_fingerprints :: bool where
  "reset_zeroes_fingerprints \<longleftrightarrow>
     (let fingerprints = fp_reset (fp_update DirOut ''output''
            (fp_update DirIn ''input'' fingerprints_new))
      in fp_get test_externals DirIn Blake3 fingerprints = blake3_hex test_externals []
         \<and> fp_get test_externals DirOut Tlsh fingerprints = ''TNULL'')"

definition parses_debug_protocol_query :: bool where
  "parses_debug_protocol_query \<longleftrightarrow>
     unwraps (parse_debug_protocol [''DEBUG'', ''PROTOCOL'', ''OUT'', ''TLSH''])
       (\<lambda>r. r = (DirOut, Tlsh))"

text \<open>A sequence of \<open>observe\<close> calls, and the tracker after it.\<close>

definition observe_all :: "(string \<times> bytes) list \<Rightarrow> transaction_commands \<Rightarrow> transaction_commands" where
  "observe_all exchanges t = foldl (\<lambda>t (command, reply). snd (observe t [command] reply)) t exchanges"

definition rejected_commands_do_not_shift_exec_canonicalization :: bool where
  "rejected_commands_do_not_shift_exec_canonicalization \<longleftrightarrow>
     (let transaction = observe_all [(''MULTI'', lines [''+OK'']),
            (''MULTI'', lines [''-ERR MULTI calls can not be nested'']),
            (''SMEMBERS'', lines [''+QUEUED''])] transaction_default;
          reply = lines [''*1'', ''*2'', ''+b'', ''+a'']
      in case observe transaction [''EXEC''] reply of
           (Some commands, t) \<Rightarrow> commands = [''SMEMBERS'']
             \<and> unwraps (parse_frame reply) (\<lambda>f.
                 encode (canonicalize_transaction_reply CanonUnordered commands f)
                   = lines [''*1'', ''*2'', ''+a'', ''+b''])
             \<and> queued t = None
         | (None, t) \<Rightarrow> False)"

definition rejected_commands_preserve_the_queue_until_upstream_aborts :: bool where
  "rejected_commands_preserve_the_queue_until_upstream_aborts \<longleftrightarrow>
     (let transaction = observe_all [(''MULTI'', lines [''+OK'']), (''GET'', lines [''+QUEUED''])]
            transaction_default;
          rejected = (\<lambda>command. (command, lines [''-ERR wrong number of arguments'']))
      in list_all (\<lambda>commands. queued (observe_all (map rejected commands) transaction) = Some [''GET''])
           [[''GET''], [''GET'', ''EXEC''], [''GET'', ''EXEC'', ''DISCARD'']]
         \<and> queued (observe_all (map rejected [''GET'', ''EXEC'', ''DISCARD'']
             @ [(''EXEC'', lines [''-EXECABORT Transaction discarded''])]) transaction) = None)"

definition failed_multi_does_not_start_tracking :: bool where
  "failed_multi_does_not_start_tracking \<longleftrightarrow>
     queued (observe_all [(''MULTI'', lines [''-ERR wrong number of arguments'']),
       (''GET'', lines [''+QUEUED''])] transaction_default) = None"

definition completed_discarded_and_aborted_transactions_clear_tracking :: bool where
  "completed_discarded_and_aborted_transactions_clear_tracking \<longleftrightarrow>
     list_all (\<lambda>(command, reply).
       let transaction = observe_all [(''MULTI'', lines [''+OK'']), (''GET'', lines [''+QUEUED'']),
             (command, lines [reply])] transaction_default
       in queued transaction = None
          \<and> fst (observe (observe_all [(''MULTI'', lines [''+OK''])] transaction) [''EXEC'']
               (lines [''*0''])) = Some [])
     [(''EXEC'', ''*0''), (''EXEC'', ''*-1''), (''EXEC'', ''_''),
      (''EXEC'', ''-EXECABORT Transaction discarded''), (''DISCARD'', ''+OK'')]"

lemma text_tests_pass:
  "parses_tcp_endpoint \<and> parses_unix_endpoint
   \<and> blake3_fingerprint_is_incremental \<and> reset_zeroes_fingerprints \<and> parses_debug_protocol_query
   \<and> rejected_commands_do_not_shift_exec_canonicalization
   \<and> rejected_commands_preserve_the_queue_until_upstream_aborts
   \<and> failed_multi_does_not_start_tracking
   \<and> completed_discarded_and_aborted_transactions_clear_tracking"
  by code_simp

section \<open>The upstream session\<close>

text \<open>\<open>apply(&mut read, &mut write)\<close> on the bytes to read: its result, the fields still
  pending, what is left to read and what was written.\<close>

definition shown :: "frame \<Rightarrow> string" where "shown f = ''frame''"

definition up_stream :: "bytes \<Rightarrow> up_socket" where
  "up_stream b = \<lparr>incoming = b, write_results = [], outgoing = []\<rparr>"

definition applies :: "identity \<Rightarrow> bytes \<Rightarrow> (identity \<Rightarrow> bytes \<Rightarrow> bytes \<Rightarrow> bool) \<Rightarrow> bool" where
  "applies ps read P = (case identity_apply shown ps (up_stream read) of
     (Inr _, ps', s) \<Rightarrow> P ps' (incoming s) (outgoing s) | (Inl e, ps', s) \<Rightarrow> False)"

definition pipelines_exact_identity_and_consumes_only_its_replies :: bool where
  "pipelines_exact_identity_and_consumes_only_its_replies \<longleftrightarrow>
     applies identity_default (lines [''+OK'', ''+OK'', ''+OK'', ''+PONG'']) (\<lambda>pending rest sent.
       sent = lines [''*3'', ''$6'', ''CLIENT'', ''$7'', ''SETNAME'', ''$8'', ''evilresp'',
         ''*4'', ''$6'', ''CLIENT'', ''$7'', ''SETINFO'', ''$8'', ''LIB-NAME'', ''$8'', ''evilresp'',
         ''*4'', ''$6'', ''CLIENT'', ''$7'', ''SETINFO'', ''$7'', ''LIB-VER'',
         ''$'' @ show_nat (length package_version), package_version]
       \<and> rest = lines [''+PONG''] \<and> pending = [False, False, False])"

definition server_errors_are_tolerated_and_only_failed_fields_are_retried :: bool where
  "server_errors_are_tolerated_and_only_failed_fields_are_retried \<longleftrightarrow>
     list_all (\<lambda>error.
       applies identity_default (lines [''+OK''] @ lines error @ lines error @ lines [''+PONG''])
         (\<lambda>pending rest sent. rest = lines [''+PONG''] \<and> pending = [False, True, True]
           \<and> (let auth = [''auth'', ''secret''] in
               \<not> fst (retry_after auth (lines [''-WRONGPASS bad password'']) pending)
             \<and> \<not> fst (retry_after auth (lines [''+QUEUED'']) pending)
             \<and> fst (retry_after auth (lines [''+OK'']) pending)
             \<and> applies pending (lines [''+OK'', ''+OK'']) (\<lambda>pending' rest' sent'.
                 sent' = concat (map encode (drop 1 identity_commands))
                 \<and> \<not> fst (retry_after auth (lines [''+OK'']) pending')))))
     [[''-ERR unknown subcommand '' @ [CHR 0x27] @ ''SETINFO'' @ [CHR 0x27]], [''-NOPERM permission denied''],
      [''-NOAUTH Authentication required''], [''!6'', ''DENIED'']]"

definition broken_identification_streams_fail :: bool where
  "broken_identification_streams_fail \<longleftrightarrow>
     list_all (\<lambda>reply. is_err (fst (identity_apply shown identity_default (up_stream (lines [reply])))))
       [''+OK'', ''?invalid'', ''+QUEUED'', '':1'']"

definition hello_keeps_explicit_names_and_ignores_auth_credentials :: bool where
  "hello_keeps_explicit_names_and_ignores_auth_credentials \<longleftrightarrow>
     list_all (\<lambda>(argv, pending_name). list_all (\<lambda>reply.
         retry_after argv (lines [''-WRONGPASS bad password'']) identity_default = (False, identity_default)
         \<and> retry_after argv (lines [''+QUEUED'']) identity_default = (False, identity_default)
         \<and> retry_after argv (lines [reply]) identity_default = (True, [pending_name, True, True]))
       [''%0'', ''*0''])
     [([''HELLO'', ''3'', ''SETNAME'', ''app''], False),
      ([''hello'', ''3'', ''auth'', ''user'', ''pass'', ''setname'', ''app''], False),
      ([''HELLO'', ''2'', ''AUTH'', ''SETNAME'', ''SETNAME''], True), ([''HELLO''], True)]"

lemma identity_tests_pass:
  "pipelines_exact_identity_and_consumes_only_its_replies
   \<and> server_errors_are_tolerated_and_only_failed_fields_are_retried
   \<and> broken_identification_streams_fail
   \<and> hello_keeps_explicit_names_and_ignores_auth_credentials"
  by code_simp

text \<open>
  The server's task of a connection test is what its socket delivers and, after the exchange, what
  was written to it; a listener that is not bound is a failing connection attempt.
\<close>

definition PING :: bytes where "PING = lines [''*1'', ''$4'', ''PING'']"

definition accept_identity :: bytes where "accept_identity = lines [''+OK'', ''+OK'', ''+OK'']"

definition identity_sent :: bytes where "identity_sent = concat (map encode identity_commands)"

definition tcp_eof_reconnects_without_replaying_failed_command :: bool where
  "tcp_eof_reconnects_without_replaying_failed_command \<longleftrightarrow>
     (let NEXT = lines [''*1'', ''$4'', ''NEXT''];
          c = connection_new shown [Some (up_stream accept_identity),
            Some (up_stream (accept_identity @ lines [''+OK'']))];
          (r, c) = exchange shown PING [] c;
          (r', c') = exchange shown NEXT [] c
      in is_err r \<and> up_session c = None
         \<and> map outgoing (up_dropped c) = [identity_sent @ PING]
         \<and> unwraps r' (\<lambda>reply. reply = lines [''+OK''])
         \<and> unwraps_some (up_session c') (\<lambda>s. outgoing (ses_socket s) = identity_sent @ NEXT))"

definition failed_connect_and_identification_can_recover_on_later_command :: bool where
  "failed_connect_and_identification_can_recover_on_later_command \<longleftrightarrow>
     (let c0 = connection_new shown [None, None, None, Some (up_stream (lines ['':1''])),
            Some (up_stream (accept_identity @ lines [''+PONG'']))];
          (r1, c1) = exchange shown PING [] c0;
          (r2, c2) = exchange shown PING [] c1;
          (r3, c3) = exchange shown PING [] c2;
          (r4, c4) = exchange shown PING [] c3
      in up_session c0 = None
         \<and> is_err r1 \<and> up_session c1 = None \<and> is_err r2 \<and> up_session c2 = None
         \<and> is_err r3 \<and> up_session c3 = None
         \<and> unwraps r4 (\<lambda>reply. reply = lines [''+PONG''])
         \<and> unwraps_some (up_session c4) (\<lambda>s. outgoing (ses_socket s) = identity_sent @ PING))"

lemma session_tests_pass:
  "tcp_eof_reconnects_without_replaying_failed_command
   \<and> failed_connect_and_identification_can_recover_on_later_command"
  by code_simp

end
