(* ===== verification/Tests_Config.thy ===== *)
theory Tests_Config
  imports Tests_Base
begin

text \<open>The unit tests of the \<open>DEBUG EVIL\<close> configuration in \<open>evil.rs\<close>.\<close>

section \<open>Filters and modes\<close>

definition default_excludes_skip_fragile_commands :: bool where
  "default_excludes_skip_fragile_commands \<longleftrightarrow>
     \<not> should_mutate_command test_externals config_default (Some ''HELLO'')
     \<and> \<not> should_mutate_command test_externals config_default (Some ''COMMAND'')
     \<and> should_mutate_command test_externals config_default (Some ''GET'')"

definition include_and_exclude_filters_compose :: bool where
  "include_and_exclude_filters_compose \<longleftrightarrow>
     debug_all [evil_argv ''INCLUDE ^GET.*'', evil_argv ''EXCLUDE GETSET''] config_default (\<lambda>c.
       should_mutate_command test_externals c (Some ''GET'')
       \<and> should_mutate_command test_externals c (Some ''GETRANGE'')
       \<and> \<not> should_mutate_command test_externals c (Some ''GETSET'')
       \<and> \<not> should_mutate_command test_externals c (Some ''SET''))"

definition debug_mode_parses_probability :: bool where
  "debug_mode_parses_probability \<longleftrightarrow>
     debug_runs (evil_argv ''MODE MUTATE PROBABILITY 12.5'') config_default (\<lambda>c _.
       cfg_mode c = ModeMutate \<and> cfg_probability c = Fin (25 / 2))"

definition debug_mode_reset_turns_mode_off_and_requests_counter_reset :: bool where
  "debug_mode_reset_turns_mode_off_and_requests_counter_reset \<longleftrightarrow>
     debug_runs (evil_argv ''MODE RESET'')
       (config_default\<lparr>cfg_seed := 1234, cfg_mode := ModeMutate, cfg_probability := Fin 50\<rparr>)
       (\<lambda>c result. cfg_seed c = 1234 \<and> cfg_mode c = ModeOff \<and> cfg_probability c = Fin 0
         \<and> dr_action result = ResetIncrementingState)"

definition debug_mode_reset_rejects_probability :: bool where
  "debug_mode_reset_rejects_probability \<longleftrightarrow>
     unwraps_err (snd (apply_debug_command test_externals
         (evil_argv ''MODE RESET PROBABILITY 100'') config_default))
       (error_says ''does not accept options'')"

lemma mode_tests_pass:
  "default_excludes_skip_fragile_commands
   \<and> include_and_exclude_filters_compose
   \<and> debug_mode_parses_probability
   \<and> debug_mode_reset_turns_mode_off_and_requests_counter_reset
   \<and> debug_mode_reset_rejects_probability"
  by code_simp

section \<open>Settings\<close>

definition mutation_controls_are_local_validated_and_preserved_by_reset :: bool where
  "mutation_controls_are_local_validated_and_preserved_by_reset \<longleftrightarrow>
     cfg_strategy config_default = Preserve \<and> cfg_mutation_count config_default = Many
     \<and> cfg_depth config_default = Inner
     \<and> debug_all (map evil_argv [''STRATEGY replace'', ''MUTATIONS one'', ''DEPTH any'',
           ''MODE OVERFLOW'', ''MODE RESET'']) config_default (\<lambda>c.
         cfg_strategy c = Replace \<and> cfg_mutation_count c = One \<and> cfg_depth c = AnyDepth
         \<and> contains (status c) ''strategy=REPLACE mutations=ONE depth=ANY''
         \<and> debug_all (map evil_argv [''STRATEGY preserve'', ''MUTATIONS many'', ''DEPTH Inner'']) c
             (\<lambda>c. contains (status c) ''strategy=PRESERVE mutations=MANY depth=INNER''))"

definition rejected_debug_commands_preserve_configuration :: bool where
  "rejected_debug_commands_preserve_configuration \<longleftrightarrow>
     (let config = config_default\<lparr>cfg_seed := 42, cfg_mode := ModeOverflow,
            cfg_probability := Fin (25 / 2), topology_probability := Fin 25\<rparr>
      in list_all (\<lambda>args. debug_refused (evil_argv args) config)
       [''MODE MUTATE PROBABILITY 101'', ''MODE MUTATE PROBABILITY NaN'',
        ''MODE MUTATE PROBABILITY inf'', ''MODE MUTATE PROBABILITY -1'',
        ''MODE OFF unexpected'', ''MODE RANDOM PROBABILITY'', ''SEED 7 unexpected'',
        ''STATUS unexpected'', ''HELP unexpected'', ''INCLUDE GET ['', ''EXCLUDE SET ['',
        ''STRATEGY'', ''STRATEGY unknown'', ''STRATEGY REPLACE extra'', ''MUTATIONS'',
        ''MUTATIONS unknown'', ''MUTATIONS ONE extra'', ''DEPTH'', ''DEPTH unknown'',
        ''DEPTH INNER extra''])"

lemma settings_tests_pass:
  "mutation_controls_are_local_validated_and_preserved_by_reset
   \<and> rejected_debug_commands_preserve_configuration"
  by code_simp

definition framing_configuration_is_atomic_and_survives_mode_changes :: bool where
  "framing_configuration_is_atomic_and_survives_mode_changes \<longleftrightarrow>
     framing_status (cfg_framing config_default) = ''framing=AUTO''
     \<and> debug_runs (evil_argv
         ''FRAMING length kind shorter target ROOT.001.000.KEY probability 12.5'') config_default
       (\<lambda>c _. let text = ''framing=LENGTH framing_probability=12.50 framing_target=root.1.0.key framing_kind=SHORTER''
         in contains (status c) text
         \<and> list_all (\<lambda>mode. debug_runs (evil_argv (''MODE '' @ mode)) c (\<lambda>c' _. contains (status c') text))
             [''MUTATE'', ''OVERFLOW'', ''OFF'', ''RESET'']
         \<and> list_all (\<lambda>args. debug_refused (evil_argv (''FRAMING '' @ args)) c)
             ['''', ''unknown'', ''OFF extra'', ''AUTO PROBABILITY 50'', ''LENGTH KIND'',
              ''LENGTH KIND bad'', ''LENGTH unexpected 0'', ''LENGTH PROBABILITY NaN'',
              ''LENGTH PROBABILITY inf'', ''LENGTH PROBABILITY -1'', ''LENGTH PROBABILITY 101'',
              ''LENGTH PROBABILITY 10 PROBABILITY 20'', ''LENGTH TARGET ANY TARGET root'',
              ''LENGTH KIND LONGER KIND SHORTER'', ''LENGTH TARGET 0'', ''LENGTH TARGET root.'',
              ''LENGTH TARGET root.-1'', ''LENGTH TARGET root.key'',
              ''LENGTH TARGET root.0.key.value'', ''LENGTH TARGET root.99999999999999999999999999'']
         \<and> debug_runs (evil_argv ''FRAMING LENGTH'') c (\<lambda>c' _. cfg_probability c' = Fin 0
             \<and> framing_status (cfg_framing c')
               = ''framing=LENGTH framing_probability=100.00 framing_target=ANY framing_kind=RANDOM''
             \<and> list_all (\<lambda>setting. debug_runs (evil_argv (''FRAMING '' @ setting)) c' (\<lambda>c'' _.
                 framing_status (cfg_framing c'') = ''framing='' @ setting)) [''OFF'', ''AUTO'']))"

lemma framing_settings_tests_pass:
  "framing_configuration_is_atomic_and_survives_mode_changes"
  by code_simp

definition generator_settings_survive_reset_and_rejected_updates :: bool where
  "generator_settings_survive_reset_and_rejected_updates \<longleftrightarrow>
     debug_runs (evil_argv ''GENERATOR PROTOCOL RESP3 CORPUS RANDOM VIOLATIONS ON'') config_default
       (\<lambda>c _. list_all (\<lambda>mode. debug_runs (evil_argv (''MODE '' @ mode)) c (\<lambda>c' _. contains (status c')
             ''generator_protocol=RESP3 generator_corpus=RANDOM generator_violations=ON''))
           [''RANDOM'', ''MUTATE'', ''OVERFLOW'', ''OFF'', ''RESET'']
         \<and> list_all (\<lambda>args. debug_refused (evil_argv (''GENERATOR '' @ args)) c)
             ['''', ''PROTOCOL'', ''PROTOCOL RESP2 CORPUS bad'', ''CORPUS BOUNDARY CORPUS RANDOM'',
              ''VIOLATIONS OFF extra'']
         \<and> debug_runs (evil_argv ''GENERATOR VIOLATIONS OFF'') c (\<lambda>c' _. contains (status c')
             ''generator_protocol=RESP3 generator_corpus=RANDOM generator_violations=OFF''))"

section \<open>Help, seed, status, canonicalization and topology\<close>

definition debug_help_is_read_only_and_case_insensitive :: bool where
  "debug_help_is_read_only_and_case_insensitive \<longleftrightarrow>
     (let config = config_default\<lparr>cfg_seed := 42, cfg_mode := ModeOverflow, cfg_probability := Fin (25 / 2)\<rparr>;
          is_simple = (\<lambda>f. case f of SimpleString t \<Rightarrow> True | _ \<Rightarrow> False);
          heading = (\<lambda>f. case f of
              SimpleString t \<Rightarrow> if begins t '' '' then [] else take 1 (shell_words t)
            | _ \<Rightarrow> [])
      in debug_runs [''dEbUg'', ''eViL'', ''hElP''] config (\<lambda>c result.
        dr_action result = NoAction \<and> status c = status config
        \<and> (case dr_frame result of Array (Some ls) \<Rightarrow>
             hd ls = SimpleString ''DEBUG EVIL <subcommand> [<arg> ...]. Subcommands are:''
             \<and> list_all is_simple ls
             \<and> (let headings = concat (map heading ls) in
                list_all (\<lambda>command. command \<in> set headings)
                  [''CANONICALIZE'', ''DEPTH'', ''EXCLUDE'', ''EXEC'', ''FRAMING'', ''GENERATOR'',
                   ''HELP'', ''INCLUDE'', ''MODE'', ''MUTATIONS'', ''SEED'', ''STATUS'',
                   ''STRATEGY'', ''TOPOLOGY'', ''TRANSPORT''])
           | _ \<Rightarrow> False)))"

lemma generator_settings_tests_pass:
  "generator_settings_survive_reset_and_rejected_updates
   \<and> debug_help_is_read_only_and_case_insensitive"
  by code_simp

definition seed_and_status_accept_exact_arguments :: bool where
  "seed_and_status_accept_exact_arguments \<longleftrightarrow>
     debug_runs (evil_argv ''SEED 7'') config_default (\<lambda>c _. cfg_seed c = 7
       \<and> debug_runs (evil_argv ''STATUS'') c (\<lambda>c' result. dr_frame result = BulkString (Some (status c'))))"

definition debug_canonicalize_sets_mode :: bool where
  "debug_canonicalize_sets_mode \<longleftrightarrow>
     canonicalization config_default = CanonUnordered
     \<and> debug_runs (evil_argv ''CANONICALIZE ALL'') config_default (\<lambda>c _.
         canonicalization c = CanonAll \<and> contains (status c) ''canonicalize=ALL'')"

definition debug_canonicalize_rejects_unknown_mode :: bool where
  "debug_canonicalize_rejects_unknown_mode \<longleftrightarrow>
     unwraps_err (snd (apply_debug_command test_externals (evil_argv ''CANONICALIZE SOMETIMES'') config_default))
       (error_says ''unknown canonicalization mode'')"

definition debug_topology_parses_probability :: bool where
  "debug_topology_parses_probability \<longleftrightarrow>
     debug_runs (evil_argv ''TOPOLOGY 12.5'') config_default (\<lambda>c _.
       topology_probability c = Fin (25 / 2) \<and> contains (status c) ''topology_probability=12.50'')"

definition debug_topology_rejects_out_of_range_probability :: bool where
  "debug_topology_rejects_out_of_range_probability \<longleftrightarrow>
     unwraps_err (snd (apply_debug_command test_externals (evil_argv ''TOPOLOGY 101'') config_default))
       (error_says ''outside 0.00-100.00'')"

lemma other_settings_tests_pass:
  "seed_and_status_accept_exact_arguments
   \<and> debug_canonicalize_sets_mode
   \<and> debug_canonicalize_rejects_unknown_mode
   \<and> debug_topology_parses_probability
   \<and> debug_topology_rejects_out_of_range_probability"
  by code_simp

end
