(* ===== verification/Tests_Options.thy ===== *)
theory Tests_Options
  imports Tests_Base Chaos
begin

text \<open>
  The unit tests of the other option parsers: \<open>topology_config.rs\<close>, \<open>chaos.rs\<close>, and the
  configuration tests of \<open>exec_mutation.rs\<close> and \<open>generator.rs\<close>. Of the tests of \<open>chaos.rs\<close> the
  two that print decimals of 16 and 17 digits are not evaluated here.
\<close>

section \<open>Topology\<close>

definition defaults_updates_status_and_legacy_forms :: bool where
  "defaults_updates_status_and_legacy_forms \<longleftrightarrow>
     debug_runs (evil_argv ''TOPOLOGY REDIRECT'') config_default (\<lambda>c _.
       topology_probability c = Fin 100 \<and> topology_redirect c = Some redirect_default
     \<and> debug_runs (evil_argv ''TOPOLOGY redirect kind ask target [::1]:7999 slot 42 phase after key 3 until 17 probability 12.5'') c (\<lambda>c _.
       (let configured = status c in
         contains configured ''topology_probability=12.50''
         \<and> contains configured ''topology=REDIRECT topology_kind=ASK topology_target=[::1]:7999 topology_slot=42 topology_phase=AFTER topology_key=3 topology_until=17'')
     \<and> list_all (\<lambda>mode. debug_runs (evil_argv (''MODE '' @ mode)) c (\<lambda>c' _.
           topology_redirect c' = topology_redirect c \<and> topology_probability c' = Fin (25 / 2)))
         [''MUTATE'', ''RANDOM'', ''OFF'', ''RESET'']
     \<and> debug_runs (evil_argv ''TOPOLOGY REDIRECT KIND RANDOM'') c (\<lambda>c _.
       unwraps_some (topology_redirect c) (\<lambda>r. rc_until r = None \<and> rc_phase r = PhaseBefore)
     \<and> debug_runs (evil_argv ''TOPOLOGY 12.5'') c (\<lambda>c _.
       topology_probability c = Fin (25 / 2) \<and> topology_redirect c = None
       \<and> contains (status c) ''topology=LEGACY''
     \<and> debug_runs (evil_argv ''TOPOLOGY OFF'') c (\<lambda>c _.
       topology_probability c = Fin 0 \<and> topology_redirect c = None)))))"

definition rejects_invalid_and_duplicate_options_atomically :: bool where
  "rejects_invalid_and_duplicate_options_atomically \<longleftrightarrow>
     debug_runs (evil_argv ''TOPOLOGY REDIRECT KIND ASK PROBABILITY 12 UNTIL 9'') config_default (\<lambda>c _.
       list_all (\<lambda>options. debug_refused (evil_argv options) c)
         [''TOPOLOGY'', ''TOPOLOGY OFF EXTRA'', ''TOPOLOGY 10 EXTRA'', ''TOPOLOGY REDIRECT KIND'',
          ''TOPOLOGY REDIRECT UNKNOWN 1'', ''TOPOLOGY REDIRECT KIND ASKING'',
          ''TOPOLOGY REDIRECT KIND MOVED kind ASK'', ''TOPOLOGY REDIRECT TARGET UNKNOWN'',
          ''TOPOLOGY REDIRECT TARGET host:65536'', ''TOPOLOGY REDIRECT TARGET :6379'',
          ''TOPOLOGY REDIRECT TARGET [not-ipv6]:123'', ''TOPOLOGY REDIRECT SLOT -1'',
          ''TOPOLOGY REDIRECT SLOT 16384'', ''TOPOLOGY REDIRECT PHASE MIDDLE'',
          ''TOPOLOGY REDIRECT KEY 0'', ''TOPOLOGY REDIRECT KEY -1'', ''TOPOLOGY REDIRECT UNTIL -1'',
          ''TOPOLOGY REDIRECT UNTIL 18446744073709551616'', ''TOPOLOGY REDIRECT PROBABILITY NaN'',
          ''TOPOLOGY REDIRECT PROBABILITY 101'', ''TOPOLOGY REDIRECT PROBABILITY -0.1'',
          ''TOPOLOGY REDIRECT PROBABILITY inf'']
       \<and> list_all (\<lambda>host. debug_refused [''DEBUG'', ''EVIL'', ''TOPOLOGY'', ''REDIRECT'', ''TARGET'', host] c)
         [''bad'' @ crlf @ ''host:6379'', ''bad host:6379'', ''bad'' @ [CHR 0x00] @ ''host:6379''])"

lemma topology_config_tests_pass:
  "defaults_updates_status_and_legacy_forms
   \<and> rejects_invalid_and_duplicate_options_atomically"
  by code_simp

section \<open>Chaos\<close>

definition chaos_argv :: "string \<Rightarrow> string list" where
  "chaos_argv args = shell_words (''DEBUG CHAOS '' @ args)"

definition chaos_runs :: "string \<Rightarrow> evil_config \<Rightarrow> (evil_config \<Rightarrow> protocol_hash \<Rightarrow> bool) \<Rightarrow> bool" where
  "chaos_runs args c P = (case chaos_apply (chaos_argv args) c of
     (c', Inr hash) \<Rightarrow> P c' hash | (c', Inl e) \<Rightarrow> False)"

definition preset_preserves_context_and_can_be_refined :: bool where
  "preset_preserves_context_and_can_be_refined \<longleftrightarrow>
     debug_all (map evil_argv [''SEED 18446744073709551615'', ''INCLUDE GET EXEC'', ''EXCLUDE EXEC'',
         ''CANONICALIZE NONE'', ''DEPTH ANY'', ''GENERATOR PROTOCOL RESP3'',
         ''TOPOLOGY REDIRECT TARGET example.test:1234'', ''TRANSPORT FAULT STALL DURATION 42''])
       config_default (\<lambda>c. chaos_runs ''100 hash tlsh'' c (\<lambda>c hash. hash = Tlsh
         \<and> cfg_seed c = 18446744073709551615
         \<and> should_mutate_command test_externals c (Some ''GET'')
         \<and> \<not> should_mutate_command test_externals c (Some ''SET'')
         \<and> \<not> should_mutate_command test_externals c (Some ''EXEC'')
         \<and> contains (status c) ''canonicalize=NONE''
         \<and> contains (generator_status (cfg_generator c)) ''RESP3''
         \<and> cfg_depth c = Inner \<and> topology_redirect c = None
         \<and> \<not> contains (transport_status (cfg_transport c)) ''STALL''
         \<and> debug_runs (evil_argv ''FRAMING OFF'') c (\<lambda>c _. cfg_framing c = FramingOff
           \<and> chaos_runs ''0 SEED 7'' c (\<lambda>c hash. hash = Blake3
             \<and> cfg_seed c = 7 \<and> cfg_mode c = ModeOff \<and> cfg_probability c = Fin 0
             \<and> topology_probability c = Fin 0 \<and> \<not> transport_enabled (cfg_transport c)
             \<and> cfg_exec c = exec_default \<and> cfg_framing c = FramingOff))))"

lemma chaos_preset_tests_pass: "preset_preserves_context_and_can_be_refined"
  by code_simp

section \<open>EXEC and generator options\<close>

definition exec_configuration_is_atomic_local_and_preserved_by_mode_changes :: bool where
  "exec_configuration_is_atomic_local_and_preserved_by_mode_changes \<longleftrightarrow>
     contains (status config_default) ''exec=OFF exec_probability=100.00''
     \<and> debug_runs (evil_argv ''exec swap probability 12.5'') config_default (\<lambda>c _.
         contains (status c) ''exec=SWAP exec_probability=12.50''
         \<and> list_all (\<lambda>command. debug_refused (evil_argv command) c)
             [''EXEC'', ''EXEC UNKNOWN'', ''EXEC SWAP EXTRA'', ''EXEC REMOVE PROBABILITY'',
              ''EXEC REMOVE PROBABILITY NaN'', ''EXEC REMOVE PROBABILITY inf'',
              ''EXEC REMOVE PROBABILITY -1'', ''EXEC REMOVE PROBABILITY 101'',
              ''EXEC REMOVE PROBABILITY 50 PROBABILITY 60'', ''EXEC OFF PROBABILITY 10'',
              ''EXEC SWAP UNKNOWN 10'']
         \<and> list_all (\<lambda>mode. debug_runs (evil_argv (''MODE '' @ mode)) c (\<lambda>c' _.
               contains (status c') ''exec=SWAP exec_probability=12.50''))
             [''OFF'', ''RANDOM'', ''OVERFLOW'', ''MUTATE'', ''RESET'']
         \<and> debug_runs (evil_argv ''EXEC DUPLICATE'') c (\<lambda>c _.
             contains (status c) ''exec=DUPLICATE exec_probability=100.00''
             \<and> debug_runs (evil_argv ''EXEC OFF'') c (\<lambda>c _. cfg_exec c = cfg_exec config_default)))"

definition generator_options_update_atomically_and_reject_invalid_values :: bool where
  "generator_options_update_atomically_and_reject_invalid_values \<longleftrightarrow>
     unwraps (generator_updated (shell_words ''PROTOCOL resp3 CORPUS random'') generator_default) (\<lambda>c.
     unwraps (generator_updated (shell_words ''VIOLATIONS on'') c) (\<lambda>c.
       generator_status c = ''generator_protocol=RESP3 generator_corpus=RANDOM generator_violations=ON''
       \<and> list_all (\<lambda>args. is_err (generator_updated (shell_words args) c))
           ['''', ''PROTOCOL'', ''PROTOCOL RESP4'', ''CORPUS unknown'', ''VIOLATIONS 100'',
            ''UNKNOWN OFF'', ''PROTOCOL RESP2 EXTRA'', ''PROTOCOL RESP2 PROTOCOL RESP3'',
            ''CORPUS BOUNDARY CORPUS RANDOM'', ''VIOLATIONS OFF VIOLATIONS ON'']))"

lemma exec_and_generator_tests_pass:
  "exec_configuration_is_atomic_local_and_preserved_by_mode_changes
   \<and> generator_options_update_atomically_and_reject_invalid_values"
  by code_simp

end
