(* ===== verification/Tests_Cluster.thy ===== *)
theory Tests_Cluster
  imports Tests_Base Cluster_Rewrite Topology_Evil_Props
begin

text \<open>
  The unit tests of \<open>cluster.rs\<close> and \<open>cluster_rewrite.rs\<close>.
\<close>

section \<open>Frames and maps of the tests\<close>

definition bulk :: "string \<Rightarrow> frame" where "bulk value = BulkString (Some value)"

definition test_node :: "string \<Rightarrow> int \<Rightarrow> string \<Rightarrow> frame" where
  "test_node h p i = Array (Some [bulk h, Integer (word_of_int p), bulk i])"

definition test_range :: "int \<Rightarrow> int \<Rightarrow> frame list \<Rightarrow> frame" where
  "test_range start stop nodes =
     Array (Some ([Integer (word_of_int start), Integer (word_of_int stop)] @ nodes))"

definition bootstrap :: tcp_endpoint where "bootstrap = \<lparr>host = ''bootstrap'', port = 6379\<rparr>"

definition local_listen :: "string \<Rightarrow> nat \<Rightarrow> socket_addr" where
  "local_listen ip p = \<lparr>sa_ip = ip, sa_port = p\<rparr>"

text \<open>\<open>parse_cluster_slots(..).unwrap()\<close> and \<open>map_cluster_slots(..).unwrap()\<close>; the second would
  panic where \<open>map_cluster_slots\<close> returns no topology.\<close>

definition mapped :: "frame list \<Rightarrow> socket_addr \<Rightarrow> (topology \<Rightarrow> bool) \<Rightarrow> bool" where
  "mapped ranges listen P = unwraps (parse_cluster_slots ranges bootstrap) (\<lambda>slots.
     unwraps (map_cluster_slots slots listen) (\<lambda>t. unwraps_some t P))"

definition mapping_fails :: "frame list \<Rightarrow> socket_addr \<Rightarrow> string \<Rightarrow> bool" where
  "mapping_fails ranges listen t = unwraps (parse_cluster_slots ranges bootstrap) (\<lambda>slots.
     unwraps_err (map_cluster_slots slots listen) (error_says t))"

definition mapped_cluster :: "(topology \<Rightarrow> bool) \<Rightarrow> bool" where
  "mapped_cluster P = mapped
     [test_range 0 100 [test_node ''primary-a'' 6379 ''p1'', test_node ''replica-a'' 6379 ''r1'',
        test_node ''replica-b'' 6379 ''r2''],
      test_range 101 200 [test_node ''primary-b'' 6379 ''p2'', test_node ''replica-c'' 6379 ''r3''],
      test_range 201 16383 [test_node ''primary-a'' 6379 ''p1'', test_node ''replica-a-alias'' 6379 ''r1'',
        test_node ''replica-b'' 6379 ''r2'']]
     (local_listen ''127.0.0.1'' 6380) P"

section \<open>Discovery and allocation\<close>

definition replicas_follow_primaries_and_repeated_nodes_share_listeners :: bool where
  "replicas_follow_primaries_and_repeated_nodes_share_listeners \<longleftrightarrow> mapped_cluster (\<lambda>topology.
     map (\<lambda>t. (show_endpoint (target_upstream t), show_endpoint (target_listen t))) (targets topology)
       = [(''primary-a:6379'', ''127.0.0.1:6380''), (''primary-b:6379'', ''127.0.0.1:6381''),
          (''replica-a:6379'', ''127.0.0.1:6382''), (''replica-b:6379'', ''127.0.0.1:6383''),
          (''replica-c:6379'', ''127.0.0.1:6384'')]
     \<and> local_slots_response topology = Some (Array (Some
         [test_range 0 100 [test_node ''127.0.0.1'' 6380 ''p1'', test_node ''127.0.0.1'' 6382 ''r1'',
            test_node ''127.0.0.1'' 6383 ''r2''],
          test_range 101 200 [test_node ''127.0.0.1'' 6381 ''p2'', test_node ''127.0.0.1'' 6384 ''r3''],
          test_range 201 16383 [test_node ''127.0.0.1'' 6380 ''p1'', test_node ''127.0.0.1'' 6382 ''r1'',
            test_node ''127.0.0.1'' 6383 ''r2'']]))
     \<and> (let map = local_redirection_map topology in
         rewrite_server map ''replica-a:6379'' = Some ''127.0.0.1:6382''
       \<and> rewrite_server map ''replica-a-alias:6379'' = Some ''127.0.0.1:6382''
       \<and> rewrite_server map ''unknown:6379'' = None \<and> rewrite_server map '':6379'' = None
       \<and> rewrite_node map (Some ''r3'') ''another-alias:6379'' = Some ''127.0.0.1:6384''
       \<and> normalize_redirection (SimpleError ''MOVED 42 replica-a:6379'') map
           = Some (SimpleError ''MOVED 42 127.0.0.1:6382'')))"

definition malformed_replicas_fail_discovery_parsing :: bool where
  "malformed_replicas_fail_discovery_parsing \<longleftrightarrow> list_all (\<lambda>replica. is_err (parse_cluster_slots
       [test_range 0 16383 [test_node ''primary'' 6379 ''p1'', replica]] bootstrap))
     [Integer 1, Array (Some [bulk ''host'']), test_node ''host'' (- 1) ''r1'',
      test_node ''host'' 65536 ''r1'', Array (Some [Integer 1, Integer 6379]),
      Array (Some [bulk ''host'', bulk ''invalid-port''])]"

definition replicas_count_toward_port_overflow_and_zero_port_is_rejected :: bool where
  "replicas_count_toward_port_overflow_and_zero_port_is_rejected \<longleftrightarrow>
     (let ranges = [test_range 0 16383 [test_node ''primary'' 6379 ''p1'', test_node ''replica'' 6379 ''r1'']]
      in mapping_fails ranges (local_listen ''127.0.0.1'' 65535) ''overflows u16''
         \<and> mapping_fails ranges (local_listen ''127.0.0.1'' 0) ''non-zero'')"

definition replicas_without_ids_use_endpoints_and_unique_port_fallback :: bool where
  "replicas_without_ids_use_endpoints_and_unique_port_fallback \<longleftrightarrow> mapped
     [test_range 0 16383 [test_node ''primary'' 6379 '''', test_node ''replica'' 6380 '''',
        Array (Some [bulk ''replica'', Integer 6380])]]
     (local_listen ''::1'' 7000) (\<lambda>topology.
       length (targets topology) = 2
     \<and> rewrite_server (local_redirection_map topology) ''alias:6380'' = Some ''[::1]:7001''
     \<and> local_slots_response topology = Some (Array (Some [test_range 0 16383
         [test_node ''::1'' 7000 ''evilresp-7000'', test_node ''::1'' 7001 ''evilresp-7001'',
          test_node ''::1'' 7001 ''evilresp-7001'']])))"

definition distinct_node_ids_cannot_share_an_upstream_endpoint :: bool where
  "distinct_node_ids_cannot_share_an_upstream_endpoint \<longleftrightarrow> mapping_fails
     [test_range 0 16383 [test_node ''same-host'' 6379 ''p1'', test_node ''same-host'' 6379 ''r1'']]
     (local_listen ''127.0.0.1'' 6380) ''conflicting node IDs''"

definition conflicting_node_id_and_endpoint_mappings_are_rejected :: bool where
  "conflicting_node_id_and_endpoint_mappings_are_rejected \<longleftrightarrow> mapping_fails
     [test_range 0 16383 [test_node ''primary'' 6379 ''p1'', test_node ''replica'' 6379 ''r1'',
        test_node ''replica'' 6379 ''p1'']]
     (local_listen ''127.0.0.1'' 6380) ''conflicts''"

definition parses_cluster_slots_response :: bool where
  "parses_cluster_slots_response \<longleftrightarrow>
     unwraps (parse_frame (lines [''*1'', ''*3'', '':0'', '':16383'', ''*3'', ''$9'', ''127.0.0.1'',
         '':7000'', ''$4'', ''node''])) (\<lambda>f. case f of
       Array (Some items) \<Rightarrow>
         unwraps (parse_cluster_slots items \<lparr>host = ''127.0.0.1'', port = 6379\<rparr>) (\<lambda>slots.
           length slots = 1 \<and> slot_start (hd slots) = 0 \<and> slot_end (hd slots) = 16383
           \<and> port (upstream (primary (hd slots))) = 7000 \<and> replicas (hd slots) = [])
     | _ \<Rightarrow> False)"

definition local_slots_response_uses_local_proxy_endpoint :: bool where
  "local_slots_response_uses_local_proxy_endpoint \<longleftrightarrow>
     (let up = \<lparr>host = ''127.0.0.1'', port = 7000\<rparr>;
          topology = Cluster
            [\<lparr>target_upstream = Tcp up, target_listen = Tcp \<lparr>host = ''127.0.0.1'', port = 6380\<rparr>\<rparr>]
            [\<lparr>slot_start = 0, slot_end = 16383, primary = \<lparr>upstream = up,
                local_addr = local_listen ''127.0.0.1'' 6380, node_id = Some ''node''\<rparr>, replicas = []\<rparr>]
      in unwraps_some (local_slots_response topology) (\<lambda>f. encode f =
           lines [''*1'', ''*3'', '':0'', '':16383'', ''*3'', ''$9'', ''127.0.0.1'', '':6380'', ''$4'', ''node'']))"

definition unix_endpoints_use_standalone_topology_without_cluster_probe :: bool where
  "unix_endpoints_use_standalone_topology_without_cluster_probe \<longleftrightarrow>
     (let proxy = Unix ''/tmp/upstream.sock''; listen = Unix ''/tmp/listen.sock''
      in unwraps (discover (\<lambda>e. Inl (proxy_error ''probed'')) (\<lambda>t. Inl (proxy_error ''parsed''))
             (\<lambda>f. ''frame'') proxy listen) (\<lambda>t. unwraps_some t (\<lambda>t. case t of
           Standalone target \<Rightarrow> target_upstream target = proxy \<and> target_listen target = listen
         | _ \<Rightarrow> False)))"

lemma discovery_tests_pass:
  "replicas_follow_primaries_and_repeated_nodes_share_listeners
   \<and> malformed_replicas_fail_discovery_parsing
   \<and> replicas_count_toward_port_overflow_and_zero_port_is_rejected
   \<and> replicas_without_ids_use_endpoints_and_unique_port_fallback
   \<and> distinct_node_ids_cannot_share_an_upstream_endpoint
   \<and> conflicting_node_id_and_endpoint_mappings_are_rejected
   \<and> parses_cluster_slots_response
   \<and> local_slots_response_uses_local_proxy_endpoint
   \<and> unix_endpoints_use_standalone_topology_without_cluster_probe"
  by code_simp

section \<open>Rewriting discovery replies\<close>

definition shard_node :: "string \<Rightarrow> string \<Rightarrow> int \<Rightarrow> string \<Rightarrow> bool \<Rightarrow> frame" where
  "shard_node i h p role is_flat =
     (let entries = [(bulk ''id'', bulk i), (bulk ''ip'', bulk h), (bulk ''endpoint'', bulk h),
            (bulk ''hostname'', bulk h), (bulk ''port'', Integer (word_of_int p)), (bulk ''role'', bulk role),
            (bulk ''replication-offset'', Integer 123), (bulk ''health'', bulk ''online'')]
      in if is_flat then Array (Some (concat (map (\<lambda>(k, v). [k, v]) entries))) else Map entries)"

definition shard :: "frame list \<Rightarrow> bool \<Rightarrow> frame" where
  "shard nodes is_flat =
     (let slots = Array (Some [Integer 0, Integer 100]); nodes = Array (Some nodes)
      in Array (Some [if is_flat then Array (Some [bulk ''slots'', slots, bulk ''nodes'', nodes])
           else Map [(bulk ''slots'', slots), (bulk ''nodes'', nodes)]]))"

definition all_discovery_replies_use_the_same_replica_mapping_and_keep_roles :: bool where
  "all_discovery_replies_use_the_same_replica_mapping_and_keep_roles \<longleftrightarrow> mapped_cluster (\<lambda>topology.
     (let map = local_redirection_map topology in
      list_all (\<lambda>is_flat. rewrite_cluster_shards
          (shard [shard_node ''p1'' ''primary-a'' 6379 ''master'' is_flat,
             shard_node ''r1'' ''alternate-replica-ip'' 6379 ''replica'' is_flat,
             shard_node ''r2'' ''replica-b'' 6379 ''replica'' is_flat,
             shard_node ''unmapped'' ''new-replica'' 6379 ''replica'' is_flat] is_flat) map
        = shard [shard_node ''p1'' ''127.0.0.1'' 6380 ''master'' is_flat,
             shard_node ''r1'' ''127.0.0.1'' 6382 ''replica'' is_flat,
             shard_node ''r2'' ''127.0.0.1'' 6383 ''replica'' is_flat] is_flat) [False, True]
      \<and> rewrite_cluster_nodes (bulk
          (''p1 primary-a:6379@16379 master - 0 0 1 connected 0-100 201-16383'' @ [CHR 0x0A]
           @ ''r1 alternate-replica-ip:6379@16379,replica.example slave p1 0 0 1 connected'' @ [CHR 0x0A]
           @ ''r2 replica-b:6379@16379 slave p1 0 0 1 connected'' @ [CHR 0x0A]
           @ ''unknown new-replica:6379@16379 slave p1 0 0 1 connected'' @ [CHR 0x0A])) map
        = bulk
          (''p1 127.0.0.1:6380@16379 master - 0 0 1 connected 0-100 201-16383'' @ [CHR 0x0A]
           @ ''r1 127.0.0.1:6382@16379, slave p1 0 0 1 connected'' @ [CHR 0x0A]
           @ ''r2 127.0.0.1:6383@16379 slave p1 0 0 1 connected'' @ [CHR 0x0A])))"

definition rewrite_map :: redirection_map where
  "rewrite_map = from_mappings [(\<lparr>host = ''127.0.0.1'', port = 7100\<rparr>, ''127.0.0.1:7200''),
     (\<lparr>host = ''127.0.0.1'', port = 7101\<rparr>, ''127.0.0.1:7201'')]"

definition resp3_node :: "string \<Rightarrow> int \<Rightarrow> string \<Rightarrow> frame" where
  "resp3_node i p role = Map [(bulk ''id'', bulk i), (bulk ''port'', Integer (word_of_int p)),
     (bulk ''ip'', bulk ''127.0.0.1''), (bulk ''endpoint'', bulk ''127.0.0.1''), (bulk ''role'', bulk role),
     (bulk ''replication-offset'', Integer 1), (bulk ''health'', bulk ''online'')]"

definition resp3_shard :: "frame list \<Rightarrow> frame" where
  "resp3_shard nodes = Map [(bulk ''slots'', Array (Some [Integer 0, Integer 5460])),
     (bulk ''nodes'', Array (Some nodes))]"

definition resp3_shards_map_primaries_to_local_listeners_and_drop_replicas :: bool where
  "resp3_shards_map_primaries_to_local_listeners_and_drop_replicas \<longleftrightarrow>
     rewrite_cluster_shards (Array (Some [resp3_shard [resp3_node ''primary'' 7100 ''master'',
       resp3_node ''replica'' 7300 ''replica'']])) rewrite_map
     = Array (Some [Map [(bulk ''slots'', Array (Some [Integer 0, Integer 5460])),
        (bulk ''nodes'', Array (Some [Map [(bulk ''id'', bulk ''primary''), (bulk ''port'', Integer 7200),
           (bulk ''ip'', bulk ''127.0.0.1''), (bulk ''endpoint'', bulk ''127.0.0.1''),
           (bulk ''role'', bulk ''master''), (bulk ''replication-offset'', Integer 1),
           (bulk ''health'', bulk ''online'')]]))]])"

definition resp2_shards_keep_their_flat_shape :: bool where
  "resp2_shards_keep_their_flat_shape \<longleftrightarrow>
     (let reply = (\<lambda>p. lines [''*1'', ''*4'', ''$5'', ''slots'', ''*2'', '':0'', '':16383'', ''$5'', ''nodes'',
        ''*1'', ''*6'', ''$2'', ''id'', ''$1'', ''a'', ''$4'', ''port'', p, ''$2'', ''ip'', ''$9'', ''127.0.0.1''])
      in unwraps (parse_frame (reply '':7101''))
           (\<lambda>f. encode (rewrite_cluster_shards f rewrite_map) = reply '':7201''))"

definition shards_without_a_mapped_node_are_dropped :: bool where
  "shards_without_a_mapped_node_are_dropped \<longleftrightarrow>
     (case rewrite_cluster_shards (Array (Some [resp3_shard [resp3_node ''primary'' 7100 ''master''],
        resp3_shard [resp3_node ''elsewhere'' 7999 ''master'']])) rewrite_map of
        Array (Some shards) \<Rightarrow> length shards = 1 | _ \<Rightarrow> False)"

definition unknown_ip_falls_back_to_a_unique_upstream_port :: bool where
  "unknown_ip_falls_back_to_a_unique_upstream_port \<longleftrightarrow>
     (let encoded = encode (rewrite_cluster_shards (Array (Some [resp3_shard
            [Map [(bulk ''id'', bulk ''a''), (bulk ''port'', Integer 7101), (bulk ''ip'', bulk ''?''),
               (bulk ''endpoint'', bulk ''?'')]]])) rewrite_map)
      in contains encoded ('':7201'' @ crlf) \<and> \<not> contains encoded (''$1'' @ crlf @ ''?'' @ [CHR 0x0D]))"

definition non_array_shards_replies_pass_through :: bool where
  "non_array_shards_replies_pass_through \<longleftrightarrow>
     (let reply = SimpleError ''ERR This instance has cluster support disabled''
      in rewrite_cluster_shards reply rewrite_map = reply)"

definition cluster_nodes_lines_are_rewritten_and_replicas_removed :: bool where
  "cluster_nodes_lines_are_rewritten_and_replicas_removed \<longleftrightarrow>
     rewrite_cluster_nodes (bulk
       (''a1 127.0.0.1:7100@17100,,shard-id=s1 myself,master - 0 0 1 connected 0-5460'' @ [CHR 0x0A]
        @ ''b2 127.0.0.1:7101@17101,upstream.example master - 0 1 2 connected 5461-16383'' @ [CHR 0x0A]
        @ ''c3 127.0.0.1:7300@17300 slave a1 0 1 1 connected'' @ [CHR 0x0A])) rewrite_map
     = bulk
       (''a1 127.0.0.1:7200@17100,,shard-id=s1 myself,master - 0 0 1 connected 0-5460'' @ [CHR 0x0A]
        @ ''b2 127.0.0.1:7201@17101, master - 0 1 2 connected 5461-16383'' @ [CHR 0x0A])"

definition cluster_nodes_without_bus_port_are_rewritten :: bool where
  "cluster_nodes_without_bus_port_are_rewritten \<longleftrightarrow>
     rewrite_cluster_nodes (VerbatimString
       (''a1 127.0.0.1:7100 myself,master - 0 0 1 connected'' @ [CHR 0x0A])) rewrite_map
     = VerbatimString (''a1 127.0.0.1:7200 myself,master - 0 0 1 connected'' @ [CHR 0x0A])"

definition non_string_nodes_replies_pass_through :: bool where
  "non_string_nodes_replies_pass_through \<longleftrightarrow>
     (let reply = SimpleError ''ERR unknown subcommand'' in rewrite_cluster_nodes reply rewrite_map = reply)"

lemma rewrite_tests_pass:
  "all_discovery_replies_use_the_same_replica_mapping_and_keep_roles
   \<and> resp3_shards_map_primaries_to_local_listeners_and_drop_replicas
   \<and> resp2_shards_keep_their_flat_shape
   \<and> shards_without_a_mapped_node_are_dropped
   \<and> unknown_ip_falls_back_to_a_unique_upstream_port
   \<and> non_array_shards_replies_pass_through
   \<and> cluster_nodes_lines_are_rewritten_and_replicas_removed
   \<and> cluster_nodes_without_bus_port_are_rewritten
   \<and> non_string_nodes_replies_pass_through"
  by code_simp

end
