(* ===== verification/Tests_Redirects.thy ===== *)
theory Tests_Redirects
  imports Tests_Base Topology_Evil_Props
begin

text \<open>
  The unit tests of \<open>topology_evil.rs\<close>. \<open>redirect_test\<close> is their helper \<open>focused\<close>, once the options
  have been applied to the configuration; the seed is the one of the helper.
\<close>

section \<open>Evaluation of hash slots\<close>

text \<open>The CRC register as an integer.\<close>

unbundle bit_operations_syntax

definition int_crc_bit :: "int \<Rightarrow> int" where
  "int_crc_bit k = (if 32768 \<le> k then (k * 2 - 65536) XOR 0x1021 else k * 2)"

lemma int_crc_bit: "uint (crc_bit w) = int_crc_bit (uint w)"
proof -
  have bound: "uint w < 65536" using uint_bounded [of w] by simp
  have "(0x8000 :: u16) = 2 ^ 15" by simp
  then have "w AND 0x8000 = 0 \<longleftrightarrow> \<not> bit w 15" by (simp only: and_exp_eq_0_iff_not_bit)
  moreover have "bit w 15 \<longleftrightarrow> bit (uint w) 15" by (simp add: bit_uint_iff)
  moreover have "uint w div 32768 = (if 32768 \<le> uint w then 1 else 0)"
    using bound by (auto intro!: div_eq_dividend_iff [THEN iffD2] simp: div_pos_pos_trivial div_pos_geq)
  then have "bit (uint w) 15 \<longleftrightarrow> 32768 \<le> uint w" by (simp add: bit_iff_odd)
  moreover have "32768 \<le> uint w \<Longrightarrow> uint w * 2 mod 65536 = uint w * 2 - 65536"
    using bound mod_pos_pos_trivial [of "uint w * 2 - 65536" 65536]
    by (simp only: minus_mod_self2)
  then have "uint (push_bit 1 w) = (if 32768 \<le> uint w then uint w * 2 - 65536 else uint w * 2)"
    using bound by (auto simp: push_bit_eq_mult uint_word_ariths)
  ultimately show ?thesis by (auto simp: crc_bit_def int_crc_bit_def unsigned_xor_eq)
qed

definition int_crc_byte :: "int \<Rightarrow> char \<Rightarrow> int" where
  "int_crc_byte k c = (let k = k XOR (int (byte c) * 256) in
     int_crc_bit (int_crc_bit (int_crc_bit (int_crc_bit
       (int_crc_bit (int_crc_bit (int_crc_bit (int_crc_bit k))))))))"

lemma int_crc_byte: "uint (crc_byte w c) = int_crc_byte (uint w) c"
proof -
  have "byte c < 256" by (rule byte_less)
  then have "uint (push_bit 8 (of_nat (byte c) :: u16)) = int (byte c) * 256"
    by (simp add: push_bit_eq_mult uint_word_ariths unsigned_of_nat take_bit_nat_eq_self)
  then show ?thesis
    by (simp add: crc_byte_def int_crc_byte_def int_crc_bit unsigned_xor_eq eval_nat_numeral Let_def)
qed

lemma redis_slot_code [code]:
  "redis_slot key = word_of_int (foldl int_crc_byte 0 (key_tag key) mod 16384)"
proof -
  have "uint (foldl crc_byte w b) = foldl int_crc_byte (uint w) b" for w b
    by (induction b arbitrary: w) (simp_all add: int_crc_byte)
  from this [of 0 "key_tag key"] have "uint (crc16_xmodem (key_tag key)) = foldl int_crc_byte 0 (key_tag key)"
    by (simp add: crc16_xmodem_def)
  moreover have "of_nat (unat w mod 16384) = (word_of_int (uint w mod 16384) :: i32)" for w :: u16
  proof -
    have "int (unat w mod 16384) = uint w mod 16384" by (simp add: zmod_int)
    then show ?thesis by (metis of_int_of_nat_eq)
  qed
  ultimately show ?thesis by (simp add: redis_slot_def CLUSTER_SLOT_COUNT_def)
qed

section \<open>Focused redirections\<close>

definition slot_node :: "string \<Rightarrow> i64 \<Rightarrow> frame" where
  "slot_node h p = Array (Some [BulkString (Some h), Integer p])"

definition focused_slots :: frame where
  "focused_slots =
     (let first = Array (Some [Integer 0, Integer 8191, slot_node ''127.0.0.1'' 6380]);
          second = Array (Some [Integer 8192, Integer 16383, slot_node ''127.0.0.1'' 6381,
            slot_node ''::1'' 6382])
      in Array (Some [first, second, second]))"

definition redirect_test :: "evil_config \<Rightarrow> frame \<Rightarrow> u64 \<Rightarrow> string \<Rightarrow> bytes option \<Rightarrow> topology_mutation option" where
  "redirect_test c command index listener upstream_reply =
     (case parse_tcp_endpoint listener of
        Inl e \<Rightarrow> None
      | Inr l \<Rightarrow> configured_redirection test_externals c
          \<lparr>rx_command_index = index, rx_command_hash = deterministic_hash test_externals (encode command),
           rx_command = command, rx_upstream_bytes = upstream_reply, rx_local_slots = focused_slots,
           rx_listener = Some l\<rparr>)"

definition focused :: "string \<Rightarrow> frame \<Rightarrow> u64 \<Rightarrow> string \<Rightarrow> bytes option
    \<Rightarrow> (topology_mutation option \<Rightarrow> bool) \<Rightarrow> bool" where
  "focused options command index listener upstream_reply P =
     debug_runs (evil_argv (''TOPOLOGY REDIRECT '' @ options)) (config_default\<lparr>cfg_seed := 1234\<rparr>)
       (\<lambda>c _. P (redirect_test c command index listener upstream_reply))"

definition inline_command :: "string \<Rightarrow> (frame \<Rightarrow> bool) \<Rightarrow> bool" where
  "inline_command t P = unwraps (parse_frame (lines [t])) P"

definition encodes :: "string \<Rightarrow> topology_mutation option \<Rightarrow> bool" where
  "encodes t m = unwraps_some m (\<lambda>m. encode (tm_frame m) = lines [t])"

definition redirects_exactly :: "string \<Rightarrow> string \<Rightarrow> string \<Rightarrow> bool" where
  "redirects_exactly kind target destination \<longleftrightarrow> inline_command ''GET foo'' (\<lambda>command.
     focused (''KIND '' @ kind @ '' TARGET '' @ target) command 9 ''127.0.0.1:6381'' None (\<lambda>m.
       encodes (''-'' @ kind @ '' 12182 '' @ destination) m
       \<and> map_option (\<lambda>m. map am_kind (tm_mutations m)) m = Some [TopologyRedirectBefore]))"

definition redirect_targets :: "(string \<times> string) list" where
  "redirect_targets = [(''WRONG_NODE'', ''127.0.0.1:6380''), (''SELF'', ''127.0.0.1:6381''),
     (''NEXT'', ''127.0.0.1:6380''), (''REPLICA'', ''[::1]:6382''),
     (''unknown.invalid:7999'', ''unknown.invalid:7999''), (''[::2]:7999'', ''[::2]:7999'')]"

definition focused_redirects_choose_exact_kind_slot_and_destination :: bool where
  "focused_redirects_choose_exact_kind_slot_and_destination \<longleftrightarrow>
     list_all (case_prod (redirects_exactly ''MOVED'')) redirect_targets
     \<and> list_all (case_prod (redirects_exactly ''ASK'')) redirect_targets
     \<and> rn_primaries (from_slots focused_slots 12182) = [''127.0.0.1:6380'', ''127.0.0.1:6381'']
     \<and> rn_replicas (from_slots focused_slots 12182) = [''[::1]:6382'']"

definition focused_redirects_respect_phase_probability_cutoff_and_eligibility :: bool where
  "focused_redirects_respect_phase_probability_cutoff_and_eligibility \<longleftrightarrow>
     (let absent = (\<lambda>m. m = (None :: topology_mutation option)) in
      inline_command ''GET foo'' (\<lambda>command.
        list_all (\<lambda>options. focused options command 9 ''127.0.0.1:6381'' None absent)
          [''PROBABILITY 0'', ''UNTIL 9'', ''UNTIL 0'', ''PHASE AFTER'']
        \<and> focused '''' command 9 ''127.0.0.1:6381'' (Some (lines [''+OK''])) absent
        \<and> focused ''PHASE AFTER KIND ASK'' command 9 ''127.0.0.1:6381''
            (Some (lines [''-MOVED 12182 127.0.0.1:6381''])) (\<lambda>m. encodes ''-ASK 12182 127.0.0.1:6380'' m
              \<and> map_option (\<lambda>m. am_kind (hd (tm_mutations m))) m = Some TopologyRedirectAfter)
        \<and> focused ''UNTIL 10'' command 9 ''127.0.0.1:6381'' None (\<lambda>m. m \<noteq> None)
        \<and> list_all (\<lambda>options. focused options command 9 ''127.0.0.1:7999'' None absent)
            [''TARGET SELF'', ''TARGET NEXT''])
      \<and> inline_command ''PING'' (\<lambda>command.
        focused '''' command 9 ''127.0.0.1:6381'' None absent
        \<and> focused ''SLOT 42'' command 9 ''127.0.0.1:6380'' None (encodes ''-MOVED 42 127.0.0.1:6381''))
      \<and> inline_command ''GET bar'' (\<lambda>command.
        focused ''TARGET REPLICA'' command 9 ''127.0.0.1:6380'' None absent))"

definition binary_key_has_slot :: "bytes \<Rightarrow> string \<Rightarrow> bool" where
  "binary_key_has_slot key slot \<longleftrightarrow> focused ''TARGET SELF''
     (Array (Some [BulkString (Some ''GET''), BulkString (Some key)])) 9 ''127.0.0.1:6381'' None
     (encodes (''-MOVED '' @ slot @ '' 127.0.0.1:6381''))"

definition correct_slots_use_binary_keys_and_explicit_argument_indexes :: bool where
  "correct_slots_use_binary_keys_and_explicit_argument_indexes \<longleftrightarrow>
     list_all (case_prod binary_key_has_slot)
       [([CHR 0xFF] @ ''{foo}'' @ [CHR 0x00], ''12182''), ([CHR 0xFF] @ ''foo'' @ [CHR 0x00], ''2218'')]
     \<and> inline_command ''EVAL script 1 foo'' (\<lambda>command.
         focused ''KEY 3'' command 9 ''127.0.0.1:6381'' None (encodes ''-MOVED 12182 127.0.0.1:6380'')
         \<and> focused ''KEY 4'' command 9 ''127.0.0.1:6381'' None (\<lambda>m. m = None))"

definition random_kind_and_bad_slots_are_seeded_and_stay_in_their_categories :: bool where
  "random_kind_and_bad_slots_are_seeded_and_stay_in_their_categories \<longleftrightarrow>
     inline_command ''GET foo'' (\<lambda>command. list_all (\<lambda>(options, category).
         debug_runs (evil_argv (''TOPOLOGY REDIRECT '' @ options)) (config_default\<lparr>cfg_seed := 1234\<rparr>) (\<lambda>c _.
           list_all (\<lambda>index. unwraps_some (redirect_test c command index ''127.0.0.1:6381'' None) (\<lambda>m.
               unwraps_some (parse_redirection (tm_frame m)) category))
             (map of_nat [0..<32])))
       [(''KIND RANDOM TARGET RANDOM'', \<lambda>r. rd_server r \<in> set [''127.0.0.1:6380'', ''127.0.0.1:6381'']),
        (''SLOT WRONG'', \<lambda>r. 0 \<le> sint (rd_slot r) \<and> sint (rd_slot r) < 16384 \<and> rd_slot r \<noteq> 12182),
        (''SLOT WILD'', \<lambda>r. \<not> (0 \<le> sint (rd_slot r) \<and> sint (rd_slot r) < 16384))])"

section \<open>The legacy mutation and the upstream's redirections\<close>

definition topology_config_of_test :: evil_config where
  "topology_config_of_test = config_default\<lparr>cfg_seed := 1234, topology_probability := Fin 100, cfg_mode := ModeOff\<rparr>"

definition topology_mutation_can_fake_redirection_without_upstream :: bool where
  "topology_mutation_can_fake_redirection_without_upstream \<longleftrightarrow>
     unwraps (parse_frame (lines [''*2'', ''$3'', ''GET'', ''$3'', ''foo''])) (\<lambda>command.
     unwraps (parse_frame (lines [''*1'', ''*3'', '':0'', '':16383'', ''*2'', ''$9'', ''127.0.0.1'', '':7000''])) (\<lambda>slots.
     unwraps (maybe_mutate_topology test_externals topology_config_of_test 9 ''command'' command None slots) (\<lambda>m.
     unwraps_some m (\<lambda>m.
       (begins (encode (tm_frame m)) ''-MOVED '' \<or> begins (encode (tm_frame m)) ''-ASK '')
       \<and> list_ex (\<lambda>am. am_kind am = TopologyFakeRedirection) (tm_mutations m)))))"

definition topology_mutation_rewrites_real_redirection :: bool where
  "topology_mutation_rewrites_real_redirection \<longleftrightarrow>
     unwraps (parse_frame (lines [''*2'', ''$3'', ''GET'', ''$3'', ''foo''])) (\<lambda>command.
     unwraps (parse_frame (lines [''*2'', ''*3'', '':0'', '':8191'', ''*2'', ''$9'', ''127.0.0.1'', '':7000'',
         ''*3'', '':8192'', '':16383'', ''*2'', ''$9'', ''127.0.0.1'', '':7001''])) (\<lambda>slots.
     unwraps (maybe_mutate_topology test_externals topology_config_of_test 9 ''command'' command
         (Some (lines [''-MOVED 12182 127.0.0.1:7000''])) slots) (\<lambda>m.
     unwraps_some m (\<lambda>m. encode (tm_frame m) \<noteq> lines [''-MOVED 12182 127.0.0.1:7000'']
       \<and> list_ex (\<lambda>am. am_kind am = TopologyWildSlot) (tm_mutations m)))))"

definition normalizes_upstream_redirection_to_local_proxy_endpoint :: bool where
  "normalizes_upstream_redirection_to_local_proxy_endpoint \<longleftrightarrow>
     (let map = from_mappings [(\<lparr>host = ''127.0.0.1'', port = 7002\<rparr>, ''127.0.0.1:6382'')]
      in unwraps (parse_frame (lines [''-MOVED 12182 127.0.0.1:7002''])) (\<lambda>f.
         unwraps_some (normalize_redirection f map) (\<lambda>g. encode g = lines [''-MOVED 12182 127.0.0.1:6382''])))"

definition normalizes_bulk_ask_and_rejects_unmapped_targets :: bool where
  "normalizes_bulk_ask_and_rejects_unmapped_targets \<longleftrightarrow>
     unwraps (parse_tcp_endpoint ''127.0.0.1:7002'') (\<lambda>e.
       (let map = from_mappings [(e, ''127.0.0.1:6382'')] in
        normalize_redirection (BulkError ''ASK 12182 127.0.0.1:7002'') map
          = Some (BulkError ''ASK 12182 127.0.0.1:6382'')
        \<and> normalize_redirection (BulkError ''ASK 12182 127.0.0.1:7999'') map
          = Some (SimpleError ''ERR evilresp has no local listener for redirection target'')
        \<and> normalize_redirection (SimpleError ''ERR example'') map = None))"

definition redis_slot_honors_hash_tags :: bool where
  "redis_slot_honors_hash_tags \<longleftrightarrow> redis_slot ''foo{bar}zap'' = redis_slot ''{bar}''
     \<and> redis_slot ''foo{}{bar}'' \<noteq> redis_slot ''{bar}''"

lemma moved_to_each_target: "list_all (case_prod (redirects_exactly ''MOVED'')) redirect_targets"
  by code_simp

lemma asked_at_each_target: "list_all (case_prod (redirects_exactly ''ASK'')) redirect_targets"
  by code_simp

lemma nodes_of_focused_slots:
  "rn_primaries (from_slots focused_slots 12182) = [''127.0.0.1:6380'', ''127.0.0.1:6381'']
   \<and> rn_replicas (from_slots focused_slots 12182) = [''[::1]:6382'']"
  by code_simp

lemma destination_tests_pass: "focused_redirects_choose_exact_kind_slot_and_destination"
  by (simp add: focused_redirects_choose_exact_kind_slot_and_destination_def
      moved_to_each_target asked_at_each_target nodes_of_focused_slots)

lemma focused_tests_pass:
  "focused_redirects_respect_phase_probability_cutoff_and_eligibility
   \<and> correct_slots_use_binary_keys_and_explicit_argument_indexes
   \<and> random_kind_and_bad_slots_are_seeded_and_stay_in_their_categories"
  by code_simp

lemma redirection_tests_pass:
  "topology_mutation_can_fake_redirection_without_upstream
   \<and> topology_mutation_rewrites_real_redirection
   \<and> normalizes_upstream_redirection_to_local_proxy_endpoint
   \<and> normalizes_bulk_ask_and_rejects_unmapped_targets
   \<and> redis_slot_honors_hash_tags"
  by code_simp

end
