(* ===== verification/Spec2Isabelle.thy ===== *)
theory Spec2Isabelle
  imports Resp_Roundtrip Transport_Props Exec_Mutation Canonicalize_Props Chaos Transaction Stats Cluster_Rewrite Topology_Evil_Props Upstream_Props Reset_Protocol Monitor Proxy_Record Server_Props Startup Traffic Session_Replay Repro_File Interleaving Transparency Tests_Wire Tests_Config Tests_Options Tests_Cluster Tests_Redirects
begin

text \<open>
  evilresp is a proxy between a Valkey or Redis client and its server that speaks RESP and injects
  faults into the replies: mutated frames, corrupted length headers, cut or fragmented delivery,
  closed, reset or stalled connections, fabricated cluster redirections. Everything it does is
  drawn from a seed, the command index and a hash of the reply, so that a run can be replayed.
  This development models the whole program, from its options to the bytes it sends, and proves
  what makes it correct; the files named below are those of \<open>src/\<close>.

  \<^bold>\<open>The program and its theories.\<close>
  A client connection (\<open>proxy.rs\<close>) reads a command with \<open>resp.rs\<close>, answers it itself when it is one
  of the proxy's own (\<open>DEBUG EVIL\<close>, \<open>DEBUG CHAOS\<close>, \<open>DEBUG PROTOCOL\<close>, MONITOR, the cluster queries)
  and otherwise admits it under the shared command index, exchanges it with its upstream session
  (\<open>upstream_connection.rs\<close>), rewrites redirections (\<open>topology_evil.rs\<close>, \<open>cluster.rs\<close>), mutates the
  reply (\<open>evil.rs\<close>, \<open>mutation.rs\<close>, \<open>framing.rs\<close>, \<open>exec_mutation.rs\<close>, \<open>generator.rs\<close>), delivers it
  (\<open>transport.rs\<close>, \<open>connection.rs\<close>) and appends a record of the outcome (\<open>repro.rs\<close>). The theories
  follow this order, each importing those it calls:
  \<^item> \<^bold>\<open>Shared vocabulary.\<close> \<open>Prelude\<close>, \<open>Text\<close> and \<open>Float64\<close> model what is used of Rust's standard
    library: bytes, UTF-8, number parsing, binary64. \<open>Float_Print\<close>: a value that was printed reads back as itself. \<open>Errors\<close> is \<open>error.rs\<close>; \<open>Externals\<close> holds the
    third-party code as a record of parameters; \<open>Machines\<close> the induction that machines share.
  \<^item> \<^bold>\<open>Wire format.\<close> \<open>Resp\<close> is \<open>resp.rs\<close>: encoder, parser, raw-frame reader. \<open>Resp_Roundtrip\<close>: parsing
    and reading undo encoding, the limits hold, an override changes one length header only.
  \<^item> \<^bold>\<open>Settings.\<close> \<open>Evil_Types\<close>, \<open>Evil_Config\<close> (\<open>evil.rs\<close>), and the settings halves of the mutators:
    \<open>Conn_Fault\<close> (\<open>connection_fault.rs\<close>), \<open>Framing_Config\<close>, \<open>Exec_Config\<close>, \<open>Topology_Config\<close>
    (\<open>topology_config.rs\<close>), \<open>Cli\<close> (endpoints), \<open>Chaos\<close> (\<open>chaos.rs\<close>). Every accepted command keeps
    the settings valid, and a refused one changes none of them (\<open>Evil_Config_Props\<close>, \<open>Chaos\<close>); an accepted
    temperature gives every field of the settings.
  \<^item> \<^bold>\<open>Replies.\<close> \<open>Generator\<close> (\<open>generator.rs\<close>), \<open>Mutation\<close> (\<open>mutation.rs\<close>), \<open>Framing\<close> (\<open>framing.rs\<close>),
    \<open>Exec_Mutation\<close> (\<open>exec_mutation.rs\<close>), \<open>Canonicalize\<close> (the reply pipeline of \<open>evil.rs\<close>) and
    \<open>Transaction\<close> (\<open>transaction.rs\<close>). What is generated can be sent; a report names exactly the frames
    changed; selection is proportional to the weights; \<open>PRESERVE\<close> keeps the shape; canonical forms
    do not depend on the order a server chose; the tracker simulates the server's transactions.
  \<^item> \<^bold>\<open>Delivery.\<close> \<open>Transport\<close> (\<open>transport.rs\<close>), \<open>Connection\<close> (\<open>connection.rs\<close>), \<open>Fingerprint\<close>
    (\<open>protocol_fingerprint.rs\<close>). Chunks partition the wire bytes; every accepted byte is accounted
    for under any behaviour of the writer; a fault ends by its deadline.
  \<^item> \<^bold>\<open>Cluster.\<close> \<open>Cluster\<close>, \<open>Cluster_Map\<close> (\<open>cluster.rs\<close>), \<open>Cluster_Rewrite\<close> (\<open>cluster_rewrite.rs\<close>),
    \<open>Redirection\<close>, \<open>Topology_Evil\<close> (\<open>topology_evil.rs\<close>). Every node gets a listener, every address a
    client sees is a listener's, a hash slot is the CRC of the hash tag, and a fabricated
    redirection is what its configuration asks for.
  \<^item> \<^bold>\<open>Upstream.\<close> \<open>Upstream\<close> (\<open>upstream_identity.rs\<close>, \<open>upstream_connection.rs\<close>): a command is written at
    most once, and a session that failed is never used again.
  \<^item> \<^bold>\<open>Connections.\<close> \<open>Stats\<close> (\<open>stats.rs\<close>), \<open>Repro\<close>, \<open>Repro_File\<close> (\<open>repro.rs\<close>) and \<open>Proxy\<close>, all handlers
    of \<open>proxy_connection\<close>. \<open>Proxy_Props\<close>, \<open>Proxy_Relay\<close> and \<open>Proxy_Record\<close> state what one command
    does, \<open>Monitor\<close> what a monitor line says.
  \<^item> \<^bold>\<open>Sessions.\<close> \<open>Session\<close> runs the handlers over the byte stream of a client. \<open>Transparency\<close>: with nothing
    configured the client might as well be connected to the server. \<open>Session_Frame\<close>: what no
    command changes; \<open>Traffic\<close>: fingerprints are those of the whole traffic; \<open>Session_Replay\<close>: equal
    seeds, settings, indices and upstreams give equal outcomes.
  \<^item> \<^bold>\<open>Server.\<close> \<open>Server\<close>: listeners, accepts, connection tasks, signals and the end, as a state machine;
    \<open>Server_Props\<close>: its counters and socket files. \<open>Reset_Protocol\<close>: epochs and command indices under
    interleaving, and which of its actions each command is; \<open>Interleaving\<close>: handlers are serializable. \<open>Startup\<close>: options, log filter, version text, \<open>main\<close>.
  \<^item> \<^bold>\<open>The repository's tests.\<close> \<open>Tests_Wire\<close>, \<open>Tests_Config\<close>, \<open>Tests_Options\<close>, \<open>Tests_Cluster\<close> and
    \<open>Tests_Redirects\<close> translate the unit tests of the source files, each as a bool-valued definition with
    the name of the test, and evaluate them on the model in the kernel: what the authors expect of
    the code holds of the definitions here. \<open>Tests_Base\<close> has their assertions and the proved code equations
    that make the evaluation fast. Left out are the tests whose expected bytes come out of ChaCha20,
    SHA-256, BLAKE3 or TLSH, those of \<open>tracing\<close> and \<open>clap\<close>, those on real sockets and clocks, two that
    print decimals of 16 digits, and the tests of the reply mutators and of delivery.

  \<^bold>\<open>How code becomes definitions.\<close>
  Structs are records and enums datatypes, with the fields and variants of the source; integers that
  wrap are words; \<open>usize\<close> lengths are \<open>nat\<close>. \<open>AppResult\<close> is a sum with the error on the left. Code
  that mutates in place returns the new value beside its result, so that an error's effect is
  visible. Draws from the generator are computations of the library's state monad, in the order
  of the code. Sockets are scripts of what their next calls return; a theorem about any script is
  one about any peer. The names are those of the source, with a prefix or suffix where HOL has
  the name already.

  \<^bold>\<open>Interfaces.\<close>
  \<open>option_setter\<close> (\<open>Evil_Types\<close>) is the contract of one option of a settings command; its lemma, that a loop
  of accepted options keeps the invariant, is interpreted for the four option loops (transport, length faults,
  generator, chaos). \<open>rewriting_map\<close> is what the rewriting of replies needs of a redirection map, and the
  discovered topology's map provides it. \<open>session_law\<close> carries a relation from one command to a
  session; it is interpreted for the frame conditions and the traffic, and \<open>session_invariant\<close>, an
  instance of it, for valid settings. \<open>session_simulation\<close> does so for two runs side by side. \<open>bounded_invariant\<close>
  is induction over a machine's steps with the number of steps in the invariant, which the 64-bit
  counters need; \<open>state_invariant\<close> is its case without a bound, and \<open>simulation\<close> carries a relation from the steps
  of one machine to the runs of another. The reset protocol and the
  accounts and socket files of the server, and the interleaved handlers, are interpretations of these.

  \<^bold>\<open>Parameters and hypotheses.\<close>
  SHA-256, hexadecimal text, BLAKE3, TLSH, the seeded generator, regular expressions and the \<open>Debug\<close>
  form of a string are fields of \<open>externals\<close>; the \<open>Debug\<close> form of a frame and the time of day are fields
  of \<open>env\<close>; the operating system's answers to the server are \<open>network\<close>; the reading of a socket address is
  an argument of \<open>discover\<close> and the JSON text of a record one of \<open>append_line\<close>. Theorems assume of them only \<open>rng_ok\<close>
  (a draw lies in the range asked for) and \<open>streaming_ok\<close> (a hash depends on the concatenation of
  its updates); \<open>sample_externals\<close> satisfies both and the witnesses run on it.

  \<^bold>\<open>Bounds.\<close>
  The parser's depth counter is a structural argument (128 levels). The search for an unused set element
  has as many tries as the set has items and two more, which suffices because each try has a new number.
  A decimal exponent is found within 400 steps, as a binary64 value lies between \<open>10^-324\<close> and \<open>10^309\<close>.
  Counters and indices are exact in runs of fewer than \<open>2^64\<close> steps. No theorem says only that a result
  would be right if there were one.

  \<^bold>\<open>Interleaving.\<close>
  A handler is one step of \<open>Server\<close>, from reading a command to the end of its reply, while the program
  runs its tasks on several threads. \<open>Interleaving\<close> takes apart the load of the epoch and the number of a new
  connection, the check of the epoch, the index of a command, its line for MONITOR, its reply, and the two halves of
  a reset, and lets the monitor channel change at any time. It shows that every such run is one of whole handlers,
  up to the order of the records in the repro file; the order of the monitor lines is not compared, as
  two lines can stand in the other order than their commands' indices. \<open>Reset_Protocol\<close> treats the
  epoch and the index at their locks.

  \<^bold>\<open>What is not modelled.\<close>
  The log's text and format (crate \<open>tracing\<close>), the parsing of the command line (crate \<open>clap\<close>; its declared
  defaults are modelled), the timer of the statistics report, the inner workings of the broadcast
  channel behind MONITOR (a lagging reader is an event), the runtime's scheduling, and the calls of
  \<open>git\<close> in \<open>build.rs\<close> (what they print is an argument).

  \<^bold>\<open>A deviation.\<close>
  \<open>redirection_targets\<close> writes an IPv6 node without the brackets that the listeners' addresses have, so
  the legacy topology mutation can take a server for another one
  (\<open>ipv6_targets_lack_brackets\<close> in \<open>Topology_Evil_Props\<close>).
\<close>

end
